(* ===== verification/Prelude.thy ===== *)
theory Prelude imports Main "HOL-Library.Word" "HOL-Library.Sublist" begin

text \<open>
  Shared material of the development: the theorem collections the component theories
  feed, the machine counters the Go code keeps (\<open>uint8\<close> budgets that saturate,
  \<open>uint64\<close> generations that wrap and skip zero), maps with deletion, and the
  early-return loops that Go writes as \<open>for ... { if p(x) { return true } }\<close>.
\<close>

named_theorems str_simps \<open>rewrite rules for the string operations\<close>
named_theorems frame_simps \<open>which fields an operation leaves alone\<close>
named_theorems inv_intros \<open>preservation of component invariants\<close>

subsection \<open>Counters\<close>

type_synonym u8 = "8 word"
type_synonym u64 = "64 word"

definition sat_inc8 :: "u8 \<Rightarrow> u8" where
  "sat_inc8 n = (if n < 255 then n + 1 else n)"

definition bump64 :: "u64 \<Rightarrow> u64" where
  "bump64 n = (if n + 1 = 0 then 1 else n + 1)"

lemma unat_less_255: "n < 255 \<longleftrightarrow> unat n < 255" for n :: u8
  by (simp add: word_less_nat_alt)

lemma unat_le_255: "unat n \<le> 255" for n :: u8
proof -
  have "unat n < 2 ^ LENGTH(8)" by (rule unsigned_less)
  then show ?thesis by simp
qed

lemma unat_sat_inc8: "unat (sat_inc8 n) = min 255 (Suc (unat n))"
proof (cases "n < 255")
  case True
  then have "unat n + 1 < 2 ^ LENGTH(8)" by (simp add: unat_less_255)
  then have "unat (n + 1) = unat n + 1" by (simp add: unat_word_ariths)
  with True show ?thesis by (simp add: sat_inc8_def unat_less_255)
next
  case False
  with unat_le_255 [of n] have "unat n = 255" by (simp add: unat_less_255)
  with False show ?thesis by (simp add: sat_inc8_def)
qed

lemma sat_inc8_mono: "n \<le> sat_inc8 n"
  using unat_le_255 [of n] by (simp add: word_le_nat_alt unat_sat_inc8 del: min_Suc_Suc min_Suc1 min_Suc2)

lemma sat_inc8_le_iff: "unat m \<le> 255 \<Longrightarrow> m \<le> n \<Longrightarrow> m \<le> sat_inc8 n" for m n :: u8
  using sat_inc8_mono order_trans by blast

lemma sat_inc8_pos [simp]: "sat_inc8 n \<noteq> 0"
proof
  assume "sat_inc8 n = 0"
  then have "unat (sat_inc8 n) = 0" by simp
  then show False by (simp add: unat_sat_inc8)
qed

lemma bump64_nonzero [simp]: "bump64 n \<noteq> 0"
  by (simp add: bump64_def)

lemma bump64_changes: "bump64 n \<noteq> n"
proof (cases "n + 1 = 0")
  case True
  show ?thesis
  proof
    assume "bump64 n = n"
    with True have "n = 1" by (simp add: bump64_def)
    with True show False by simp
  qed
next
  case False
  then show ?thesis by (simp add: bump64_def)
qed

subsection \<open>Maps\<close>

definition map_delete :: "('k \<rightharpoonup> 'v) \<Rightarrow> 'k \<Rightarrow> ('k \<rightharpoonup> 'v)" where
  "map_delete m k = m(k := None)"

lemma map_delete_same [simp]: "map_delete m k k = None"
  by (simp add: map_delete_def)

lemma map_delete_other [simp]: "j \<noteq> k \<Longrightarrow> map_delete m k j = m j"
  by (simp add: map_delete_def)

lemma map_delete_Some_iff: "map_delete m k j = Some v \<longleftrightarrow> j \<noteq> k \<and> m j = Some v"
  by (auto simp: map_delete_def)

lemma dom_map_delete [simp]: "dom (map_delete m k) = dom m - {k}"
  by (auto simp: map_delete_def)

subsection \<open>Lists\<close>

lemma list_ex_mono: "list_ex p xs \<Longrightarrow> (\<And>x. p x \<Longrightarrow> q x) \<Longrightarrow> list_ex q xs"
  by (auto simp: list_ex_iff)

lemma dropWhile_idem [simp]: "dropWhile p (dropWhile p xs) = dropWhile p xs"
  by (induction xs) auto

end
