(* ===== verification/Go_Strings.thy ===== *)
theory Go_Strings imports Prelude "HOL-Library.List_Lexorder" "HOL-Library.Char_ord" begin

text \<open>
  The functions of Go's package \<open>strings\<close> that the modelled code calls. A Go string
  is a list of bytes, here a list of HOL characters. The case-folding and white-space
  functions follow the ASCII path of the Go library, so they are exact on ASCII text;
  bytes above 127 are left alone by \<open>ToLower\<close> and \<open>ToUpper\<close> and are never white space.
\<close>

type_synonym gostr = string

definition nl :: char where "nl = CHR 0x0A"

definition dquote :: char where "dquote = CHR 0x22"

definition backslash :: char where "backslash = CHR 0x5C"

definition is_space :: "char \<Rightarrow> bool" where
  "is_space c \<longleftrightarrow> c \<in> {CHR 0x09, CHR 0x0A, CHR 0x0B, CHR 0x0C, CHR 0x0D, CHR 0x20}"

definition TrimLeftSpace :: "gostr \<Rightarrow> gostr" where
  "TrimLeftSpace s = dropWhile is_space s"

definition TrimSpace :: "gostr \<Rightarrow> gostr" where
  "TrimSpace s = rev (dropWhile is_space (rev (TrimLeftSpace s)))"

definition is_upper :: "char \<Rightarrow> bool" where
  "is_upper c \<longleftrightarrow> 65 \<le> (of_char c :: nat) \<and> (of_char c :: nat) \<le> 90"

definition is_lower :: "char \<Rightarrow> bool" where
  "is_lower c \<longleftrightarrow> 97 \<le> (of_char c :: nat) \<and> (of_char c :: nat) \<le> 122"

definition is_digit :: "char \<Rightarrow> bool" where
  "is_digit c \<longleftrightarrow> 48 \<le> (of_char c :: nat) \<and> (of_char c :: nat) \<le> 57"

definition lower_char :: "char \<Rightarrow> char" where
  "lower_char c = (if is_upper c then char_of ((of_char c :: nat) + 32) else c)"

definition upper_char :: "char \<Rightarrow> char" where
  "upper_char c = (if is_lower c then char_of ((of_char c :: nat) - 32) else c)"

definition ToLower :: "gostr \<Rightarrow> gostr" where
  "ToLower s = map lower_char s"

definition ToUpper :: "gostr \<Rightarrow> gostr" where
  "ToUpper s = map upper_char s"

definition EqualFold :: "gostr \<Rightarrow> gostr \<Rightarrow> bool" where
  "EqualFold s t \<longleftrightarrow> ToLower s = ToLower t"

definition HasPrefix :: "gostr \<Rightarrow> gostr \<Rightarrow> bool" where
  "HasPrefix s p \<longleftrightarrow> take (length p) s = p"

definition HasSuffix :: "gostr \<Rightarrow> gostr \<Rightarrow> bool" where
  "HasSuffix s p \<longleftrightarrow> length p \<le> length s \<and> drop (length s - length p) s = p"

definition TrimPrefix :: "gostr \<Rightarrow> gostr \<Rightarrow> gostr" where
  "TrimPrefix s p = (if HasPrefix s p then drop (length p) s else s)"

definition TrimSuffix :: "gostr \<Rightarrow> gostr \<Rightarrow> gostr" where
  "TrimSuffix s p = (if HasSuffix s p then take (length s - length p) s else s)"

fun Contains :: "gostr \<Rightarrow> gostr \<Rightarrow> bool" where
  "Contains [] p = (p = [])"
| "Contains (c # s) p = (HasPrefix (c # s) p \<or> Contains s p)"

definition ContainsAny :: "gostr \<Rightarrow> gostr \<Rightarrow> bool" where
  "ContainsAny s chars \<longleftrightarrow> list_ex (\<lambda>c. c \<in> set chars) s"

text \<open>\<open>IndexByte\<close> is \<open>-1\<close> in Go when the byte is absent, here \<open>None\<close>.\<close>

fun IndexByte :: "gostr \<Rightarrow> char \<Rightarrow> nat option" where
  "IndexByte [] c = None"
| "IndexByte (x # s) c = (if x = c then Some 0 else map_option Suc (IndexByte s c))"

definition LastIndexAny :: "gostr \<Rightarrow> gostr \<Rightarrow> nat option" where
  "LastIndexAny s chars =
     (case filter (\<lambda>i. s ! i \<in> set chars) [0..<length s] of [] \<Rightarrow> None | is \<Rightarrow> Some (last is))"

text \<open>\<open>Cut s c\<close> for a one-byte separator: the text around its first occurrence.\<close>

definition Cut :: "gostr \<Rightarrow> char \<Rightarrow> (gostr \<times> gostr) option" where
  "Cut s c = (case IndexByte s c of None \<Rightarrow> None | Some i \<Rightarrow> Some (take i s, drop (Suc i) s))"

fun Join :: "gostr list \<Rightarrow> gostr \<Rightarrow> gostr" where
  "Join [] sep = []"
| "Join [x] sep = x"
| "Join (x # y # xs) sep = x @ sep @ Join (y # xs) sep"

function Fields :: "gostr \<Rightarrow> gostr list" where
  "Fields s =
     (case dropWhile is_space s of
        [] \<Rightarrow> []
      | c # r \<Rightarrow>
          takeWhile (\<lambda>x. \<not> is_space x) (c # r) # Fields (dropWhile (\<lambda>x. \<not> is_space x) (c # r)))"
  by pat_completeness auto
termination
proof (relation "measure length", goal_cases)
  case 1
  show ?case by simp
next
  case (2 s c r)
  have "\<not> is_space c" using 2 hd_dropWhile [of is_space s] by force
  then have "length (dropWhile (\<lambda>x. \<not> is_space x) (c # r)) \<le> length r"
    by (simp add: length_dropWhile_le)
  also have "length r < length s"
    using 2 length_dropWhile_le [of is_space s] by simp
  finally show ?case by simp
qed

declare Fields.simps [simp del]

text \<open>\<open>Split s c\<close> for a one-byte separator: always at least one piece.\<close>

fun Split :: "gostr \<Rightarrow> char \<Rightarrow> gostr list" where
  "Split [] c = [[]]"
| "Split (x # s) c =
     (if x = c then [] # Split s c
      else (case Split s c of [] \<Rightarrow> [[x]] | l # ls \<Rightarrow> (x # l) # ls))"

text \<open>\<open>strconv.Itoa\<close> of a natural number, which is also \<open>%d\<close>.\<close>

fun itoa :: "nat \<Rightarrow> gostr" where
  "itoa n = (if n < 10 then [char_of (48 + n)] else itoa (n div 10) @ [char_of (48 + n mod 10)])"

declare itoa.simps [simp del]

text \<open>\<open>firstNonEmpty\<close>, which several packages declare for themselves.\<close>

fun firstNonEmpty :: "gostr list \<Rightarrow> gostr" where
  "firstNonEmpty [] = []"
| "firstNonEmpty (v # vs) = (if v \<noteq> [] then v else firstNonEmpty vs)"

subsection \<open>Facts\<close>

lemma HasPrefix_prefix: "HasPrefix s p \<longleftrightarrow> prefix p s"
  by (auto simp: HasPrefix_def prefix_def) (metis append_take_drop_id)

lemma HasPrefix_simps [simp, str_simps]:
  "HasPrefix s []"
  "\<not> HasPrefix [] (c # p)"
  "HasPrefix (d # s) (c # p) \<longleftrightarrow> d = c \<and> HasPrefix s p"
  by (auto simp: HasPrefix_def)

lemma HasPrefix_append [simp]: "HasPrefix (p @ s) p"
  by (simp add: HasPrefix_def)

lemma HasSuffix_append [simp]: "HasSuffix (s @ p) p"
  by (simp add: HasSuffix_def)

lemma TrimSuffix_append [simp]: "TrimSuffix (s @ p) p = s"
  by (simp add: TrimSuffix_def)

lemma HasSuffix_iff: "HasSuffix s p \<longleftrightarrow> (\<exists>r. s = r @ p)"
proof
  assume h: "HasSuffix s p"
  then have "s = take (length s - length p) s @ p"
    by (metis HasSuffix_def append_take_drop_id)
  then show "\<exists>r. s = r @ p" by blast
qed auto

lemma Contains_sublist: "Contains s p \<longleftrightarrow> sublist p s"
  by (induction s) (auto simp: sublist_Cons_right HasPrefix_prefix)

lemma TrimSpace_Nil [simp]: "TrimSpace [] = []"
  by (simp add: TrimSpace_def TrimLeftSpace_def)

lemma TrimSpace_sublist: "sublist (TrimSpace s) s"
proof -
  have "suffix (dropWhile is_space s) s" by (rule suffix_dropWhile)
  then have a: "sublist (dropWhile is_space s) s" by (rule suffix_imp_sublist)
  have "suffix (dropWhile is_space (rev (dropWhile is_space s))) (rev (dropWhile is_space s))"
    by (rule suffix_dropWhile)
  then have "prefix (TrimSpace s) (dropWhile is_space s)"
    by (simp add: TrimSpace_def TrimLeftSpace_def suffix_to_prefix)
  then have "sublist (TrimSpace s) (dropWhile is_space s)" by (rule prefix_imp_sublist)
  with a show ?thesis using sublist_order.order_trans by blast
qed

lemma length_TrimSpace: "length (TrimSpace s) \<le> length s"
  by (rule sublist_length_le) (rule TrimSpace_sublist)

lemma hd_TrimSpace: "TrimSpace s \<noteq> [] \<Longrightarrow> \<not> is_space (hd (TrimSpace s))"
proof -
  assume ne: "TrimSpace s \<noteq> []"
  have "prefix (TrimSpace s) (dropWhile is_space s)"
    using suffix_dropWhile [of is_space "rev (dropWhile is_space s)"]
    by (simp add: TrimSpace_def TrimLeftSpace_def suffix_to_prefix)
  then obtain r where "dropWhile is_space s = TrimSpace s @ r" by (auto simp: prefix_def)
  with ne have "hd (TrimSpace s) = hd (dropWhile is_space s)" and "dropWhile is_space s \<noteq> []"
    by (auto simp del: dropWhile_eq_Nil_conv)
  then show ?thesis by (metis hd_dropWhile)
qed

lemma last_TrimSpace: "TrimSpace s \<noteq> [] \<Longrightarrow> \<not> is_space (last (TrimSpace s))"
  unfolding TrimSpace_def last_rev by (rule hd_dropWhile) simp

lemma TrimSpace_id:
  assumes "s = [] \<or> \<not> is_space (hd s) \<and> \<not> is_space (last s)"
  shows "TrimSpace s = s"
  using assms
proof
  assume h: "\<not> is_space (hd s) \<and> \<not> is_space (last s)"
  show ?thesis
  proof (cases s)
    case (Cons c r)
    with h have "dropWhile is_space s = s" by simp
    moreover have "dropWhile is_space (rev s) = rev s"
    proof (cases "rev s")
      case (Cons d t)
      then have "last s = d" by (metis hd_rev list.sel(1))
      with h Cons show ?thesis by simp
    qed simp
    ultimately show ?thesis by (simp add: TrimSpace_def TrimLeftSpace_def)
  qed simp
qed simp

lemma TrimSpace_idem [simp]: "TrimSpace (TrimSpace s) = TrimSpace s"
  using hd_TrimSpace last_TrimSpace by (intro TrimSpace_id) blast

lemma lower_char_idem [simp]: "lower_char (lower_char c) = lower_char c"
proof -
  have "\<not> is_upper (char_of ((of_char c :: nat) + 32))" if "is_upper c"
    using that by (simp add: is_upper_def)
  then show ?thesis by (simp add: lower_char_def)
qed

lemma ToLower_idem [simp]: "ToLower (ToLower s) = ToLower s"
  by (simp add: ToLower_def)

lemma length_ToLower [simp]: "length (ToLower s) = length s"
  by (simp add: ToLower_def)

lemma EqualFold_refl [simp]: "EqualFold s s"
  by (simp add: EqualFold_def)

lemma IndexByte_Some_iff:
  "IndexByte s c = Some i \<longleftrightarrow> i < length s \<and> s ! i = c \<and> (\<forall>j<i. s ! j \<noteq> c)"
proof (induction s arbitrary: i)
  case (Cons x s)
  show ?case by (cases i) (auto simp: Cons less_Suc_eq_0_disj)
qed simp

lemma IndexByte_None_iff: "IndexByte s c = None \<longleftrightarrow> c \<notin> set s"
  by (induction s) auto

lemma IndexByte_append: "c \<notin> set s \<Longrightarrow> IndexByte (s @ c # t) c = Some (length s)"
  by (induction s) auto

lemma Cut_append: "c \<notin> set s \<Longrightarrow> Cut (s @ c # t) c = Some (s, t)"
  by (simp add: Cut_def IndexByte_append)

lemma Split_nonempty [simp]: "Split s c \<noteq> []"
  by (cases s) (auto split: list.splits)

lemma Join_Split: "Join (Split s c) [c] = s"
proof (induction s)
  case (Cons x s)
  obtain l ls where "Split s c = l # ls" by (cases "Split s c") auto
  with Cons show ?case by (cases ls) auto
qed simp

lemma Split_Join: "ls \<noteq> [] \<Longrightarrow> \<forall>l \<in> set ls. c \<notin> set l \<Longrightarrow> Split (Join ls [c]) c = ls"
proof (induction ls "[c]" rule: Join.induct)
  case (2 x)
  then have "c \<notin> set x" by simp
  then show ?case by (induction x) auto
next
  case (3 x y xs)
  then have IH: "Split (Join (y # xs) [c]) c = y # xs" and "c \<notin> set x" by auto
  then have "Split (x @ c # Join (y # xs) [c]) c = x # y # xs" by (induction x) auto
  then show ?case by simp
qed simp

end
