(* ===== verification/Shell_Syntax.thy ===== *)
theory Shell_Syntax imports Go_Strings begin

text \<open>
  The Bash syntax trees that \<open>internal/shellparse\<close> and \<open>internal/shellsafe\<close> inspect.
  The trees are those of the Go module \<open>mvdan.cc/sh/v3/syntax\<close>, which is not part of the
  repository; the datatypes below keep exactly the exported fields the repository reads.
  A Go nil pointer is a constructor (\<open>NilStmt\<close>, \<open>NilWord\<close>) or \<open>None\<close>.
  What the module computes (the parser, the node traversal, the brace splitter) is a
  parameter of the model: the record \<open>shell_lib\<close>.
\<close>

type_synonym pos = "nat option"

definition Offset :: "pos \<Rightarrow> nat" where
  "Offset p = (case p of None \<Rightarrow> 0 | Some n \<Rightarrow> n)"

datatype opaque_kind = ParamExp | CmdSubst | ArithmExp | ProcSubst | ExtGlob | BraceExp

text \<open>The flag of a quoted part is the parser's \<open>Dollar\<close> field (\<open>$'...'\<close>, \<open>$"..."\<close>).\<close>

datatype word_part =
    Lit gostr
  | SglQuoted bool gostr
  | DblQuoted bool "word_part list"
  | OpaquePart opaque_kind

datatype sh_word = NilWord | Word "word_part list" pos pos

datatype redir_op =
    RdrOut | AppOut | RdrIn | RdrInOut | DplIn | DplOut | RdrClob | AppClob
  | HdocOp | DashHdoc | WordHdoc | RdrAll | AppAll | RdrAllClob | AppAllClob

record sh_redirect =
  rd_op :: redir_op
  rd_op_pos :: pos
  rd_n :: "(gostr \<times> pos) option"
  rd_word :: sh_word
  rd_hdoc :: bool
  rd_end :: pos

record sh_assign =
  as_append :: bool
  as_naked :: bool
  as_name :: "gostr option"
  as_index :: bool
  as_array :: bool
  as_value :: "sh_word option"

record stmt_info =
  st_negated :: bool
  st_background :: bool
  st_coprocess :: bool
  st_disown :: bool
  st_redirs :: "sh_redirect option list"
  st_pos :: pos
  st_end :: pos
  st_semicolon :: pos

datatype sh_cmd =
    CallExpr "sh_assign option list" "sh_word list"
  | BinaryCmd sh_stmt sh_stmt
  | OtherCmd
and sh_stmt =
    NilStmt
  | Stmt stmt_info sh_cmd

type_synonym sh_file = "sh_stmt list"

datatype sh_node =
    NWord sh_word
  | NRedirect sh_redirect
  | NAssign sh_assign
  | NPart opaque_kind
  | NOther

text \<open>
  \<open>sh_parse\<close> is \<open>Parser.Parse\<close> with its error text on the left; \<open>sh_walk\<close> lists the
  non-nil nodes in the order \<open>syntax.Walk\<close> visits them; \<open>sh_split_braces\<close> is the word
  that \<open>syntax.SplitBraces\<close> leaves behind.
\<close>

record shell_lib =
  sh_parse :: "gostr \<Rightarrow> gostr + sh_file"
  sh_walk :: "sh_file \<Rightarrow> sh_node list"
  sh_split_braces :: "sh_word \<Rightarrow> sh_word"

subsection \<open>Where the parser says commands are\<close>

text \<open>
  The spans of the simple commands of a statement, in source order, and the documented
  property of the parser's positions: these spans are non-empty, lie inside the source
  and follow each other without overlap.
\<close>

fun call_spans :: "sh_stmt \<Rightarrow> (nat \<times> nat) list" where
  "call_spans NilStmt = []"
| "call_spans (Stmt i (BinaryCmd x y)) = call_spans x @ call_spans y"
| "call_spans (Stmt i (CallExpr as ws)) = [(Offset (st_pos i), Offset (st_end i))]"
| "call_spans (Stmt i OtherCmd) = []"

fun spans_ok :: "nat \<Rightarrow> nat \<Rightarrow> (nat \<times> nat) list \<Rightarrow> bool" where
  "spans_ok lo n [] = True"
| "spans_ok lo n ((s, e) # r) = (lo \<le> s \<and> s < e \<and> e \<le> n \<and> spans_ok e n r)"

definition parser_positions :: "shell_lib \<Rightarrow> bool" where
  "parser_positions lib \<longleftrightarrow>
     (\<forall>cmd file. sh_parse lib cmd = Inr file \<longrightarrow>
        spans_ok 0 (length cmd) (concat (map call_spans file)))"

lemma spans_ok_room:
  assumes "spans_ok lo n spans" and "(s, e) \<in> set spans" and "2 \<le> length spans"
  shows "e - s < n - lo"
  using assms
proof (induction spans arbitrary: lo)
  case Nil
  then show ?case by simp
next
  case (Cons p r)
  obtain a b where p: "p = (a, b)" by (cases p)
  from Cons.prems p have first: "lo \<le> a" "a < b" "b \<le> n" and rest: "spans_ok b n r"
    by auto
  from Cons.prems obtain q r' where r: "r = q # r'" by (cases r) auto
  obtain c d where q: "q = (c, d)" by (cases q)
  from rest r q have second: "b \<le> c" "c < d" "d \<le> n" and tail: "spans_ok d n r'" by auto
  show ?case
  proof (cases "(s, e) = (a, b)")
    case True
    with first second show ?thesis by auto
  next
    case False
    with Cons.prems p have in_r: "(s, e) \<in> set r" by auto
    show ?thesis
    proof (cases "2 \<le> length r")
      case True
      with Cons.IH [OF rest in_r] first show ?thesis by simp
    next
      case False
      with in_r r q have "(s, e) = (c, d)" by (cases r') auto
      with first second show ?thesis by auto
    qed
  qed
qed

end
