(* ===== verification/Shell_Parse.thy ===== *)
theory Shell_Parse imports Shell_Syntax begin

text \<open>
  The model of \<open>internal/shellparse/bash.go\<close>: reducing a command line to static argument
  fields, splitting it at its top-level control operators, and the syntax features that
  decide whether a permission may be reused. The lemmas say what a successful reduction
  guarantees and that the pieces of a split are proper parts of the command.
\<close>

subsection \<open>Static words\<close>

fun unescapeLoop :: "bool \<Rightarrow> gostr \<Rightarrow> gostr" where
  "unescapeLoop dq [] = []"
| "unescapeLoop dq [c] = [c]"
| "unescapeLoop dq (c # d # s) =
     (if c \<noteq> backslash then c # unescapeLoop dq (d # s)
      else if d = nl then unescapeLoop dq s
      else if \<not> dq \<or> d = CHR ''$'' \<or> d = CHR 0x60 \<or> d = dquote \<or> d = backslash
        then d # unescapeLoop dq s
      else c # unescapeLoop dq (d # s))"

definition unescapeLit :: "gostr \<Rightarrow> bool \<Rightarrow> gostr" where
  "unescapeLit s dq = (if backslash \<notin> set s then s else unescapeLoop dq s)"

fun staticWordPart :: "word_part \<Rightarrow> bool \<Rightarrow> gostr option"
  and staticWordParts :: "word_part list \<Rightarrow> bool \<Rightarrow> gostr option" where
  "staticWordPart (Lit v) dq = Some (unescapeLit v dq)"
| "staticWordPart (SglQuoted d v) dq = Some v"
| "staticWordPart (DblQuoted d ps) dq = staticWordParts ps True"
| "staticWordPart (OpaquePart k) dq = None"
| "staticWordParts [] dq = Some []"
| "staticWordParts (p # ps) dq =
     (case staticWordPart p dq of
        None \<Rightarrow> None
      | Some v \<Rightarrow> map_option ((@) v) (staticWordParts ps dq))"

fun StaticWord :: "sh_word \<Rightarrow> gostr option" where
  "StaticWord NilWord = None"
| "StaticWord (Word ps p e) = staticWordParts ps False"

text \<open>The loop \<open>for _, arg := range call.Args\<close> that stops at the first dynamic word.\<close>

fun staticArgs :: "sh_word list \<Rightarrow> gostr list option" where
  "staticArgs [] = Some []"
| "staticArgs (w # ws) =
     (case StaticWord w of None \<Rightarrow> None | Some f \<Rightarrow> map_option ((#) f) (staticArgs ws))"

subsection \<open>Static commands\<close>

record StaticCommandPolicy =
  AllowEnvAssignments :: bool
  AllowStderrToStdout :: bool

record StaticCommand =
  sc_Argv :: "gostr list"
  sc_Env :: "gostr list"
  sc_MergeStderr :: bool

datatype StaticRejectReason =
    StaticRejectParse | StaticRejectHereDoc | StaticRejectControl
  | StaticRejectRedirection | StaticRejectAssignment | StaticRejectExpansion

fun reason_text :: "StaticRejectReason \<Rightarrow> gostr" where
  "reason_text StaticRejectParse = ''parse error''"
| "reason_text StaticRejectHereDoc = ''here document''"
| "reason_text StaticRejectControl = ''shell control syntax''"
| "reason_text StaticRejectRedirection = ''shell redirection''"
| "reason_text StaticRejectAssignment = ''shell assignment''"
| "reason_text StaticRejectExpansion = ''shell expansion''"

datatype StaticRejectError = StaticReject StaticRejectReason gostr

fun Error :: "StaticRejectError \<Rightarrow> gostr" where
  "Error (StaticReject r d) = (if d \<noteq> [] then d else reason_text r)"

definition HasHereDoc :: "shell_lib \<Rightarrow> sh_file option \<Rightarrow> bool" where
  "HasHereDoc lib file =
     (case file of
        None \<Rightarrow> False
      | Some f \<Rightarrow>
          list_ex (\<lambda>node. case node of NRedirect r \<Rightarrow> rd_hdoc r | _ \<Rightarrow> False) (sh_walk lib f))"

fun isStderrToStdout :: "sh_redirect option \<Rightarrow> bool" where
  "isStderrToStdout None = False"
| "isStderrToStdout (Some r) =
     (rd_op r = DplOut \<and> (case rd_n r of None \<Rightarrow> False | Some (v, _) \<Rightarrow> v = ''2'')
      \<and> StaticWord (rd_word r) = Some ''1'')"

fun staticRedirections ::
    "sh_redirect option list \<Rightarrow> StaticCommandPolicy \<Rightarrow> bool \<Rightarrow> StaticRejectError + bool" where
  "staticRedirections [] pol merge = Inr merge"
| "staticRedirections (r # rs) pol merge =
     (if \<not> AllowStderrToStdout pol \<or> \<not> isStderrToStdout r \<or> merge
      then Inl (StaticReject StaticRejectRedirection [])
      else staticRedirections rs pol True)"

fun staticAssignLoop :: "sh_assign option list \<Rightarrow> StaticRejectError + gostr list" where
  "staticAssignLoop [] = Inr []"
| "staticAssignLoop (None # as) = Inl (StaticReject StaticRejectAssignment [])"
| "staticAssignLoop (Some a # as) =
     (case as_name a of
        None \<Rightarrow> Inl (StaticReject StaticRejectAssignment [])
      | Some name \<Rightarrow>
          if as_append a \<or> as_naked a \<or> as_index a \<or> as_array a
          then Inl (StaticReject StaticRejectAssignment [])
          else
            (case (case as_value a of None \<Rightarrow> Some [] | Some w \<Rightarrow> StaticWord w) of
               None \<Rightarrow> Inl (StaticReject StaticRejectExpansion [])
             | Some value \<Rightarrow>
                 (case staticAssignLoop as of
                    Inl e \<Rightarrow> Inl e
                  | Inr env \<Rightarrow> Inr ((name @ ''='' @ value) # env))))"

definition staticAssignments ::
    "sh_assign option list \<Rightarrow> StaticCommandPolicy \<Rightarrow> StaticRejectError + gostr list" where
  "staticAssignments as pol =
     (if \<not> AllowEnvAssignments pol then Inl (StaticReject StaticRejectAssignment [])
      else staticAssignLoop as)"

definition simple_info :: "stmt_info \<Rightarrow> bool" where
  "simple_info i \<longleftrightarrow>
     \<not> (st_negated i \<or> st_background i \<or> st_coprocess i \<or> st_disown i)"

text \<open>The body of \<open>ParseStaticCommand\<close> after the statement is known to be one simple call.\<close>

definition staticCall ::
    "StaticCommandPolicy \<Rightarrow> stmt_info \<Rightarrow> sh_assign option list \<Rightarrow> sh_word list
     \<Rightarrow> StaticRejectError + StaticCommand" where
  "staticCall pol i as args =
     (case (if st_redirs i \<noteq> [] then staticRedirections (st_redirs i) pol False else Inr False) of
        Inl e \<Rightarrow> Inl e
      | Inr merge \<Rightarrow>
          (case (if as \<noteq> [] then staticAssignments as pol else Inr []) of
             Inl e \<Rightarrow> Inl e
           | Inr env \<Rightarrow>
               (case staticArgs args of
                  None \<Rightarrow> Inl (StaticReject StaticRejectExpansion [])
                | Some argv \<Rightarrow>
                    if argv = [] \<and> env \<noteq> []
                    then Inl (StaticReject StaticRejectAssignment
                                ''shell assignment without command'')
                    else Inr \<lparr>sc_Argv = argv, sc_Env = env, sc_MergeStderr = merge\<rparr>)))"

definition ParseStaticCommand ::
    "shell_lib \<Rightarrow> gostr \<Rightarrow> StaticCommandPolicy \<Rightarrow> StaticRejectError + StaticCommand" where
  "ParseStaticCommand lib command pol =
     (if TrimSpace command = []
      then Inr \<lparr>sc_Argv = [], sc_Env = [], sc_MergeStderr = False\<rparr>
      else
        (case sh_parse lib command of
           Inl err \<Rightarrow> Inl (StaticReject StaticRejectParse err)
         | Inr file \<Rightarrow>
             if HasHereDoc lib (Some file) then Inl (StaticReject StaticRejectHereDoc [])
             else
               (case file of
                  [Stmt i (CallExpr as args)] \<Rightarrow>
                    if simple_info i then staticCall pol i as args
                    else Inl (StaticReject StaticRejectControl [])
                | _ \<Rightarrow> Inl (StaticReject StaticRejectControl []))))"

fun staticFieldsMessage :: "StaticRejectError \<Rightarrow> gostr" where
  "staticFieldsMessage (StaticReject r d) =
     (case r of
        StaticRejectParse \<Rightarrow> Error (StaticReject r d)
      | StaticRejectHereDoc \<Rightarrow> ''here document''
      | StaticRejectExpansion \<Rightarrow> ''shell expansion''
      | _ \<Rightarrow> ''shell control syntax'')"

definition strictPolicy :: StaticCommandPolicy where
  "strictPolicy = \<lparr>AllowEnvAssignments = False, AllowStderrToStdout = False\<rparr>"

definition StaticFields :: "shell_lib \<Rightarrow> gostr \<Rightarrow> gostr list \<times> gostr" where
  "StaticFields lib command =
     (case ParseStaticCommand lib command strictPolicy of
        Inl e \<Rightarrow> ([], staticFieldsMessage e)
      | Inr cmd \<Rightarrow> (sc_Argv cmd, []))"

definition ContainsShellSyntax :: "shell_lib \<Rightarrow> gostr \<Rightarrow> bool" where
  "ContainsShellSyntax lib command =
     (if TrimSpace command = [] then False else snd (StaticFields lib command) \<noteq> [])"

subsection \<open>Approval features\<close>

fun hasUnescapedMetaLoop :: "bool \<Rightarrow> gostr \<Rightarrow> gostr \<Rightarrow> bool" where
  "hasUnescapedMetaLoop escaped [] meta = False"
| "hasUnescapedMetaLoop escaped (c # s) meta =
     (if escaped then hasUnescapedMetaLoop False s meta
      else if c = backslash then hasUnescapedMetaLoop True s meta
      else if c \<in> set meta then True
      else hasUnescapedMetaLoop False s meta)"

definition hasUnescapedMeta :: "gostr \<Rightarrow> gostr \<Rightarrow> bool" where
  "hasUnescapedMeta value meta = hasUnescapedMetaLoop False value meta"

definition hasUnescapedGlobMeta :: "gostr \<Rightarrow> bool" where
  "hasUnescapedGlobMeta value = hasUnescapedMeta value ''*?[''"

fun lit_parts :: "word_part list \<Rightarrow> gostr list" where
  "lit_parts [] = []"
| "lit_parts (Lit v # ps) = v # lit_parts ps"
| "lit_parts (p # ps) = lit_parts ps"

fun wordHasUnescapedBrace :: "sh_word \<Rightarrow> bool" where
  "wordHasUnescapedBrace NilWord = False"
| "wordHasUnescapedBrace (Word ps p e) =
     list_ex (\<lambda>v. hasUnescapedMeta v ''{'') (lit_parts ps)"

definition ContainsUnquotedGlob :: "shell_lib \<Rightarrow> gostr \<Rightarrow> bool" where
  "ContainsUnquotedGlob lib command =
     (case sh_parse lib command of
        Inl _ \<Rightarrow> True
      | Inr file \<Rightarrow>
          list_ex (\<lambda>node. case node of
                     NWord (Word ps p e) \<Rightarrow> list_ex hasUnescapedGlobMeta (lit_parts ps)
                   | _ \<Rightarrow> False)
            (sh_walk lib file))"

record ApprovalFeatures =
  CommandPrefix :: "gostr list"
  DynamicCommandName :: bool
  NestedExecution :: bool
  Expansion :: bool
  Assignment :: bool
  Redirection :: bool

definition node_features :: "sh_node \<Rightarrow> ApprovalFeatures \<Rightarrow> ApprovalFeatures" where
  "node_features node f =
     (case node of
        NPart CmdSubst \<Rightarrow> f\<lparr>NestedExecution := True\<rparr>
      | NPart ProcSubst \<Rightarrow> f\<lparr>NestedExecution := True\<rparr>
      | NPart ParamExp \<Rightarrow> f\<lparr>Expansion := True\<rparr>
      | NPart ArithmExp \<Rightarrow> f\<lparr>Expansion := True\<rparr>
      | NPart ExtGlob \<Rightarrow> f\<lparr>Expansion := True\<rparr>
      | NAssign _ \<Rightarrow> f\<lparr>Assignment := True\<rparr>
      | NRedirect _ \<Rightarrow> f\<lparr>Redirection := True\<rparr>
      | _ \<Rightarrow> f)"

fun prefix_features :: "sh_word list \<Rightarrow> bool \<Rightarrow> ApprovalFeatures \<Rightarrow> ApprovalFeatures" where
  "prefix_features [] first f = f"
| "prefix_features (w # ws) first f =
     (case StaticWord w of
        None \<Rightarrow> f\<lparr>Expansion := True, DynamicCommandName := DynamicCommandName f \<or> first\<rparr>
      | Some field \<Rightarrow>
          prefix_features ws False (f\<lparr>CommandPrefix := CommandPrefix f @ [field]\<rparr>))"

definition noFeatures :: ApprovalFeatures where
  "noFeatures =
     \<lparr>CommandPrefix = [], DynamicCommandName = False, NestedExecution = False,
      Expansion = False, Assignment = False, Redirection = False\<rparr>"

definition AnalyzeApprovalFeatures :: "shell_lib \<Rightarrow> gostr \<Rightarrow> ApprovalFeatures option" where
  "AnalyzeApprovalFeatures lib command =
     (case sh_parse lib command of
        Inl _ \<Rightarrow> None
      | Inr file \<Rightarrow>
          (case file of
             [Stmt i (CallExpr as args)] \<Rightarrow>
               if simple_info i
               then Some (prefix_features
                 (map (\<lambda>w. if wordHasUnescapedBrace w then sh_split_braces lib w else w) args)
                 True (fold node_features (sh_walk lib file) noFeatures))
               else None
           | _ \<Rightarrow> None))"

subsection \<open>Splitting at top-level operators\<close>

definition sourceForStmt :: "gostr \<Rightarrow> stmt_info \<Rightarrow> gostr" where
  "sourceForStmt source i =
     (let start = Offset (st_pos i);
          end0 = Offset (st_end i);
          end1 = (case st_semicolon i of
                    None \<Rightarrow> end0
                  | Some semi \<Rightarrow> if start \<le> semi \<and> semi \<le> end0 then semi else end0)
      in if end1 < start \<or> length source < end1 then []
         else TrimSpace (take (end1 - start) (drop start source)))"

fun appendTopLevelSegments ::
    "gostr \<Rightarrow> sh_stmt \<Rightarrow> gostr list \<times> bool \<Rightarrow> (gostr list \<times> bool) option" where
  "appendTopLevelSegments source NilStmt acc = None"
| "appendTopLevelSegments source (Stmt i cmd) acc =
     (if st_negated i \<or> st_coprocess i \<or> st_disown i then None
      else
        (case cmd of
           BinaryCmd x y \<Rightarrow>
             if st_background i \<or> st_redirs i \<noteq> [] then None
             else
               (case appendTopLevelSegments source x (fst acc, True) of
                  None \<Rightarrow> None
                | Some acc' \<Rightarrow> appendTopLevelSegments source y acc')
         | CallExpr as args \<Rightarrow>
             (let segment = sourceForStmt source i;
                  segs = (if segment \<noteq> [] then fst acc @ [segment] else fst acc)
              in Some (segs, if st_background i then True else snd acc))
         | OtherCmd \<Rightarrow> None))"

definition compactSegments :: "gostr list \<Rightarrow> gostr list" where
  "compactSegments segs =
     filter (\<lambda>s. s \<noteq> [] \<and> \<not> HasPrefix s ''#'') (map TrimSpace segs)"

fun splitLoop :: "gostr \<Rightarrow> bool \<Rightarrow> sh_stmt list \<Rightarrow> gostr list \<times> bool \<Rightarrow> (gostr list \<times> bool) option" where
  "splitLoop source many [] acc = Some acc"
| "splitLoop source many (s # ss) acc =
     (case appendTopLevelSegments source s (fst acc, snd acc \<or> many) of
        None \<Rightarrow> None
      | Some acc' \<Rightarrow> splitLoop source many ss acc')"

text \<open>\<open>None\<close> is Go's \<open>ok = false\<close>; otherwise the segments and the \<open>split\<close> flag.\<close>

definition SplitTopLevel :: "shell_lib \<Rightarrow> gostr \<Rightarrow> (gostr list \<times> bool) option" where
  "SplitTopLevel lib command =
     (if TrimSpace command = [] then Some ([], False)
      else
        (case sh_parse lib command of
           Inl _ \<Rightarrow> None
         | Inr file \<Rightarrow>
             if HasHereDoc lib (Some file) then None
             else map_option (\<lambda>(segs, split). (compactSegments segs, split))
                    (splitLoop command (1 < length file) file ([], False))))"

definition IsAssignment :: "gostr \<Rightarrow> bool" where
  "IsAssignment word =
     (case Cut word (CHR ''='') of
        None \<Rightarrow> False
      | Some (name, _) \<Rightarrow>
          (case name of
             [] \<Rightarrow> False
           | c # r \<Rightarrow>
               (c = CHR ''_'' \<or> is_upper c \<or> is_lower c)
               \<and> list_all (\<lambda>c. c = CHR ''_'' \<or> is_upper c \<or> is_lower c \<or> is_digit c) r))"

definition WordBase :: "gostr \<Rightarrow> gostr" where
  "WordBase word =
     (case LastIndexAny word ''/'' of None \<Rightarrow> word | Some i \<Rightarrow> drop (Suc i) word)"

subsection \<open>Static words: facts\<close>

lemma unescapeLoop_no_backslash: "backslash \<notin> set s \<Longrightarrow> unescapeLoop dq s = s"
  by (induction dq s rule: unescapeLoop.induct) auto

text \<open>The \<open>strings.Contains\<close> test of the Go function is only a shortcut.\<close>

lemma unescapeLit_loop: "unescapeLit s dq = unescapeLoop dq s"
  by (simp add: unescapeLit_def unescapeLoop_no_backslash)

lemma length_unescapeLoop: "length (unescapeLoop dq s) \<le> length s"
  by (induction dq s rule: unescapeLoop.induct) auto

fun static_part :: "word_part \<Rightarrow> bool" where
  "static_part (Lit v) = True"
| "static_part (SglQuoted d v) = True"
| "static_part (DblQuoted d ps) = list_all static_part ps"
| "static_part (OpaquePart k) = False"

lemma staticWordPart_Some_iff:
  "(staticWordPart p dq \<noteq> None) = static_part p"
  "(staticWordParts ps dq \<noteq> None) = list_all static_part ps"
  by (induction p dq and ps dq rule: staticWordPart_staticWordParts.induct)
     (auto split: option.splits)

lemma StaticWord_Some_iff:
  "StaticWord w \<noteq> None \<longleftrightarrow> (\<exists>ps p e. w = Word ps p e \<and> list_all static_part ps)"
proof (cases w)
  case (Word ps p e)
  then show ?thesis using staticWordPart_Some_iff(2) [of ps False] by auto
qed simp

lemma staticArgs_Some_iff:
  "staticArgs ws = Some fs \<longleftrightarrow> list_all2 (\<lambda>w f. StaticWord w = Some f) ws fs"
proof (induction ws arbitrary: fs)
  case Nil
  show ?case by auto
next
  case (Cons w ws)
  show ?case by (cases fs) (auto simp: Cons split: option.splits)
qed

subsection \<open>Static commands: facts\<close>

lemma staticFieldsMessage_nonempty [simp]: "staticFieldsMessage e \<noteq> []"
  by (cases e; cases "case e of StaticReject r _ \<Rightarrow> r") auto

lemma StaticFields_ok_iff:
  "snd (StaticFields lib cmd) = [] \<longleftrightarrow> (\<exists>c. ParseStaticCommand lib cmd strictPolicy = Inr c)"
  by (auto simp: StaticFields_def split: sum.splits)

lemma staticCall_strict_Inr:
  "staticCall strictPolicy i as args = Inr c \<longleftrightarrow>
     st_redirs i = [] \<and> as = [] \<and>
     (\<exists>argv. staticArgs args = Some argv
       \<and> c = \<lparr>sc_Argv = argv, sc_Env = [], sc_MergeStderr = False\<rparr>)"
  by (cases "st_redirs i"; cases as)
     (auto simp: staticCall_def staticAssignments_def strictPolicy_def split: option.splits)

lemma ParseStaticCommand_strict_Inr:
  assumes "TrimSpace cmd \<noteq> []"
  shows "ParseStaticCommand lib cmd strictPolicy = Inr c \<longleftrightarrow>
     (\<exists>i args argv. sh_parse lib cmd = Inr [Stmt i (CallExpr [] args)]
        \<and> \<not> HasHereDoc lib (Some [Stmt i (CallExpr [] args)])
        \<and> simple_info i \<and> st_redirs i = [] \<and> staticArgs args = Some argv
        \<and> c = \<lparr>sc_Argv = argv, sc_Env = [], sc_MergeStderr = False\<rparr>)"
  using assms
  by (auto simp: ParseStaticCommand_def staticCall_strict_Inr
      split: sum.splits list.splits sh_stmt.splits sh_cmd.splits if_splits)

lemma StaticFields_iff:
  assumes "TrimSpace cmd \<noteq> []"
  shows "StaticFields lib cmd = (fs, []) \<longleftrightarrow>
     (\<exists>i args. sh_parse lib cmd = Inr [Stmt i (CallExpr [] args)]
        \<and> \<not> HasHereDoc lib (Some [Stmt i (CallExpr [] args)])
        \<and> simple_info i \<and> st_redirs i = [] \<and> staticArgs args = Some fs)"
proof -
  have "StaticFields lib cmd = (fs, []) \<longleftrightarrow>
      (\<exists>c. ParseStaticCommand lib cmd strictPolicy = Inr c \<and> sc_Argv c = fs)"
    by (auto simp: StaticFields_def split: sum.splits)
  also have "\<dots> \<longleftrightarrow>
     (\<exists>i args. sh_parse lib cmd = Inr [Stmt i (CallExpr [] args)]
        \<and> \<not> HasHereDoc lib (Some [Stmt i (CallExpr [] args)])
        \<and> simple_info i \<and> st_redirs i = [] \<and> staticArgs args = Some fs)"
    unfolding ParseStaticCommand_strict_Inr [OF assms] by auto
  finally show ?thesis .
qed

lemma StaticFields_blank: "TrimSpace cmd = [] \<Longrightarrow> StaticFields lib cmd = ([], [])"
  by (simp add: StaticFields_def ParseStaticCommand_def)

subsection \<open>Splitting: facts\<close>

lemma sourceForStmt_bounds:
  assumes "sourceForStmt source i \<noteq> []"
  shows "length (sourceForStmt source i) \<le> Offset (st_end i) - Offset (st_pos i)"
    and "sublist (sourceForStmt source i) source"
proof -
  obtain e where src: "sourceForStmt source i
      = TrimSpace (take (e - Offset (st_pos i)) (drop (Offset (st_pos i)) source))"
    and e: "e \<le> Offset (st_end i)"
    using assms
    by (cases "st_semicolon i")
       (auto simp: sourceForStmt_def Let_def split: if_splits)
  have "length (sourceForStmt source i)
      \<le> length (take (e - Offset (st_pos i)) (drop (Offset (st_pos i)) source))"
    unfolding src by (rule length_TrimSpace)
  also have "\<dots> \<le> Offset (st_end i) - Offset (st_pos i)" using e by simp
  finally show "length (sourceForStmt source i) \<le> Offset (st_end i) - Offset (st_pos i)" .
  have "sublist (take (e - Offset (st_pos i)) (drop (Offset (st_pos i)) source)) source"
    by (rule sublist_order.order_trans [of _ "drop (Offset (st_pos i)) source"]) simp_all
  then show "sublist (sourceForStmt source i) source"
    unfolding src using TrimSpace_sublist sublist_order.order_trans by blast
qed

text \<open>
  What the accumulated segments are: each one is the source text of one simple command,
  and there are no more segments than simple commands.
\<close>

definition segments_of :: "gostr \<Rightarrow> (nat \<times> nat) list \<Rightarrow> gostr list \<Rightarrow> bool" where
  "segments_of source spans segs \<longleftrightarrow>
     length segs \<le> length spans \<and>
     (\<forall>seg \<in> set segs. seg \<noteq> [] \<and> TrimSpace seg = seg \<and> sublist seg source \<and>
        (\<exists>(s, e) \<in> set spans. length seg \<le> e - s))"

lemma segments_of_append:
  "segments_of source spans segs \<Longrightarrow> segments_of source spans' segs' \<Longrightarrow>
   segments_of source (spans @ spans') (segs @ segs')"
  by (fastforce simp: segments_of_def)

lemma segments_of_Nil [simp]: "segments_of source spans []"
  by (simp add: segments_of_def)

lemma sourceForStmt_segment:
  "sourceForStmt source i \<noteq> [] \<Longrightarrow>
   segments_of source [(Offset (st_pos i), Offset (st_end i))] [sourceForStmt source i]"
  using sourceForStmt_bounds [of source i]
  by (auto simp: segments_of_def sourceForStmt_def Let_def)

lemma appendTopLevelSegments_segments:
  "appendTopLevelSegments source stmt acc = Some (segs', split') \<Longrightarrow>
   \<exists>segs. segs' = fst acc @ segs \<and> segments_of source (call_spans stmt) segs"
proof (induction source stmt acc arbitrary: segs' split' rule: appendTopLevelSegments.induct)
  case (1 source acc)
  then show ?case by simp
next
  case (2 source i cmd acc)
  show ?case
  proof (cases cmd)
    case (CallExpr as args)
    with "2.prems" show ?thesis
      using sourceForStmt_segment [of source i] by (auto simp: Let_def split: if_splits)
  next
    case (BinaryCmd x y)
    with "2.prems" obtain s1 b1 where
      ok: "\<not> (st_negated i \<or> st_coprocess i \<or> st_disown i)" "\<not> (st_background i \<or> st_redirs i \<noteq> [])"
      and x: "appendTopLevelSegments source x (fst acc, True) = Some (s1, b1)"
      and y: "appendTopLevelSegments source y (s1, b1) = Some (segs', split')"
      by (auto split: if_splits option.splits)
    from "2.IH"(1) [OF ok(1) BinaryCmd ok(2) x] obtain t1
      where t1: "s1 = fst acc @ t1" "segments_of source (call_spans x) t1" by auto
    from "2.IH"(2) [OF ok(1) BinaryCmd ok(2) x y] obtain t2
      where t2: "segs' = s1 @ t2" "segments_of source (call_spans y) t2" by auto
    from t1 t2 BinaryCmd show ?thesis by (auto intro: segments_of_append)
  next
    case OtherCmd
    with "2.prems" show ?thesis by (auto split: if_splits)
  qed
qed

lemma splitLoop_segments:
  "splitLoop source many stmts acc = Some (segs', split') \<Longrightarrow>
   \<exists>segs. segs' = fst acc @ segs \<and> segments_of source (concat (map call_spans stmts)) segs"
proof (induction source many stmts acc arbitrary: segs' split' rule: splitLoop.induct)
  case (1 source many acc)
  then show ?case by simp
next
  case (2 source many s ss acc)
  then obtain s1 b1 where
    x: "appendTopLevelSegments source s (fst acc, snd acc \<or> many) = Some (s1, b1)"
    and y: "splitLoop source many ss (s1, b1) = Some (segs', split')"
    by (auto split: option.splits)
  from appendTopLevelSegments_segments [OF x] obtain t1
    where t1: "s1 = fst acc @ t1" "segments_of source (call_spans s) t1" by auto
  from "2.IH" [OF x y] obtain t2
    where t2: "segs' = s1 @ t2" "segments_of source (concat (map call_spans ss)) t2" by auto
  from t1 t2 show ?case by (auto intro: segments_of_append)
qed

lemma segments_of_compact:
  assumes "segments_of source spans segs"
  shows "segments_of source spans (compactSegments segs)"
proof -
  from assms have "map TrimSpace segs = segs"
    by (intro map_idI) (auto simp: segments_of_def)
  then have c: "compactSegments segs = filter (\<lambda>s. s \<noteq> [] \<and> \<not> HasPrefix s ''#'') segs"
    by (simp only: compactSegments_def)
  have "length (compactSegments segs) \<le> length segs" unfolding c by (rule length_filter_le)
  with assms show ?thesis
    unfolding segments_of_def by (auto simp: c intro: order_trans [OF length_filter_le])
qed

lemma SplitTopLevel_segments:
  assumes "SplitTopLevel lib cmd = Some (segs, split)" and "segs \<noteq> []"
  shows "\<exists>file. sh_parse lib cmd = Inr file
    \<and> segments_of cmd (concat (map call_spans file)) segs"
proof -
  from assms obtain tree segs0 where "sh_parse lib cmd = Inr tree"
    and loop: "splitLoop cmd (1 < length tree) tree ([], False) = Some (segs0, split)"
    and segs: "segs = compactSegments segs0"
    by (auto simp: SplitTopLevel_def split: if_splits sum.splits)
  from splitLoop_segments [OF loop] have "segments_of cmd (concat (map call_spans tree)) segs0"
    by simp
  then have "segments_of cmd (concat (map call_spans tree)) segs"
    unfolding segs by (rule segments_of_compact)
  with \<open>sh_parse lib cmd = Inr tree\<close> show ?thesis by blast
qed

lemma SplitTopLevel_segment_shorter:
  assumes pos: "parser_positions lib"
    and split: "SplitTopLevel lib cmd = Some (segs, b)"
    and two: "2 \<le> length segs" and seg: "seg \<in> set segs"
  shows "length seg < length cmd"
proof -
  from two have "segs \<noteq> []" by auto
  from SplitTopLevel_segments [OF split this] obtain tree
    where f: "sh_parse lib cmd = Inr tree"
      and so: "segments_of cmd (concat (map call_spans tree)) segs" by blast
  let ?spans = "concat (map call_spans tree)"
  from so seg have "\<exists>(s, e) \<in> set ?spans. length seg \<le> e - s"
    unfolding segments_of_def by blast
  then obtain s e where se: "(s, e) \<in> set ?spans" "length seg \<le> e - s" by fast
  from so two have "2 \<le> length ?spans" by (auto simp: segments_of_def)
  moreover from pos f have "spans_ok 0 (length cmd) ?spans"
    by (auto simp: parser_positions_def)
  ultimately have "e - s < length cmd" using spans_ok_room [OF _ se(1)] by fastforce
  with se(2) show ?thesis by simp
qed

lemma SplitTopLevel_segment_text:
  assumes "SplitTopLevel lib cmd = Some (segs, b)" and "seg \<in> set segs"
  shows "seg \<noteq> [] \<and> TrimSpace seg = seg \<and> sublist seg cmd"
proof -
  from assms(2) have "segs \<noteq> []" by auto
  from SplitTopLevel_segments [OF assms(1) this] assms(2) show ?thesis
    by (auto simp: segments_of_def)
qed

end
