(* ===== verification/Shell_Safe.thy ===== *)
theory Shell_Safe imports Shell_Parse begin

text \<open>
  The model of \<open>internal/shellsafe\<close>: the tables of read-only commands, the lookup of a
  command line in them, and the removal of redirections that cannot write a real file.
\<close>

subsection \<open>Tables\<close>

definition ReadOnlyCommands :: "gostr list" where
  "ReadOnlyCommands =
    [''cat'', ''head'', ''tail'', ''less'', ''more'',
     ''ls'', ''find'', ''locate'', ''which'', ''whereis'', ''type'',
     ''grep'', ''egrep'', ''fgrep'', ''rg'',
     ''echo'', ''printf'',
     ''pwd'', ''cd'', ''whoami'', ''id'', ''uname'', ''hostname'',
     ''date'', ''printenv'',
     ''wc'', ''sort'', ''uniq'', ''cut'', ''tr'',
     ''stat'', ''file'', ''du'', ''df'',
     ''ps'', ''top'', ''htop'',
     ''diff'', ''cmp'', ''comm'',
     ''man'', ''info'', ''help'',
     ''true'', ''false'', ''test'', ''['',
     ''basename'', ''dirname'', ''realpath'', ''readlink'',
     ''get-childitem'', ''get-content'', ''get-item'',
     ''get-location'', ''get-process'', ''get-command'',
     ''get-nettcpconnection'',
     ''resolve-path'', ''select-string'', ''measure-object'',
     ''compare-object'']"

definition workspaceNonMutatingCommands :: "gostr list" where
  "workspaceNonMutatingCommands = [''test-netconnection'']"

definition ReadOnlyPrefixes :: "(gostr \<times> gostr list) list" where
  "ReadOnlyPrefixes =
    [(''git'',
       [''log'', ''status'', ''diff'', ''show'',
        ''tag'',
        ''blame'', ''grep'', ''ls-files'', ''ls-tree'',
        ''rev-parse'', ''rev-list'', ''describe'', ''reflog'',
        ''shortlog'', ''whatchanged'', ''cherry'',
        ''cat-file'', ''for-each-ref'', ''name-rev'']),
     (''go'',
       [''vet'', ''doc'', ''list'',
        ''version'', ''env'']),
     (''npm'',
       [''ls'', ''list'', ''view'', ''info'',
        ''outdated'', ''audit'']),
     (''cargo'',
       [''check'', ''doc'', ''search'']),
     (''docker'',
       [''ps'', ''images'', ''inspect'', ''logs'',
        ''stats'', ''info'', ''version'']),
     (''kubectl'',
       [''get'', ''describe'', ''logs'', ''explain'',
        ''api-resources'', ''api-versions'']),
     (''node'', [''-v'', ''--version'']),
     (''python'', [''--version'', ''-v'', ''-V'']),
     (''python3'', [''--version'', ''-v'', ''-V''])]"

subsection \<open>Classification\<close>

text \<open>\<open>None\<close> is \<open>ok = false\<close>; otherwise the base word and the subcommand.\<close>

definition fieldsReadOnly :: "gostr list \<Rightarrow> (gostr \<times> gostr) option" where
  "fieldsReadOnly fs =
     (case fs of
        [] \<Rightarrow> None
      | f # rest \<Rightarrow>
          (let base = ToLower f in
           if base \<in> set ReadOnlyCommands then Some (base, [])
           else
             (case rest of
                [] \<Rightarrow> None
              | f1 # _ \<Rightarrow>
                  (case map_of ReadOnlyPrefixes base of
                     None \<Rightarrow> None
                   | Some subs \<Rightarrow>
                       if ToLower f1 \<in> set subs then Some (base, ToLower f1) else None))))"

definition CommandIsReadOnly :: "shell_lib \<Rightarrow> gostr \<Rightarrow> (gostr \<times> gostr) option" where
  "CommandIsReadOnly lib command =
     (let (fields, malformed) = StaticFields lib command in
      if malformed \<noteq> [] \<or> fields = [] then None else fieldsReadOnly fields)"

definition CommandIsWorkspaceNonMutating :: "shell_lib \<Rightarrow> gostr \<Rightarrow> (gostr \<times> gostr) option" where
  "CommandIsWorkspaceNonMutating lib command =
     (case CommandIsReadOnly lib command of
        Some r \<Rightarrow> Some r
      | None \<Rightarrow>
          (let (fields, malformed) = StaticFields lib command in
           if malformed \<noteq> [] \<or> fields = [] then None
           else
             (let base = ToLower (hd fields) in
              if base \<in> set workspaceNonMutatingCommands then Some (base, []) else None)))"

subsection \<open>Redirections\<close>

definition redirectWordSource :: "gostr \<Rightarrow> sh_word \<Rightarrow> gostr" where
  "redirectWordSource source w =
     (case w of
        Word ps (Some start) (Some stop) \<Rightarrow>
          if stop < start \<or> length source < stop then []
          else TrimSpace (take (stop - start) (drop start source))
      | _ \<Rightarrow> [])"

definition isSafeFDDupWord :: "gostr \<Rightarrow> sh_word \<Rightarrow> bool" where
  "isSafeFDDupWord source w =
     (let value = redirectWordSource source w in
      if value = ''-'' then True
      else if value = [] then False
      else list_all is_digit value)"

definition isNullRedirectWord :: "gostr \<Rightarrow> sh_word \<Rightarrow> bool" where
  "isNullRedirectWord source w =
     (let value = redirectWordSource source w in
      if value = ''/dev/null'' then True
      else EqualFold value ''$null'' \<or> EqualFold value ''nul'')"

definition redirect_is_safe :: "gostr \<Rightarrow> sh_redirect \<Rightarrow> bool" where
  "redirect_is_safe source r =
     (if rd_op r \<in> {DplOut, DplIn} then isSafeFDDupWord source (rd_word r)
      else if rd_op r \<in> {RdrOut, AppOut, RdrClob, AppClob, RdrAll, AppAll, RdrAllClob, AppAllClob}
        then isNullRedirectWord source (rd_word r)
      else False)"

definition safeRedirectSpan :: "gostr \<Rightarrow> sh_redirect option \<Rightarrow> (nat \<times> nat) option" where
  "safeRedirectSpan source redir =
     (case redir of
        None \<Rightarrow> None
      | Some r \<Rightarrow>
          if \<not> redirect_is_safe source r then None
          else
            (let start = (case rd_n r of
                            Some (_, Some p) \<Rightarrow> p
                          | _ \<Rightarrow> Offset (rd_op_pos r));
                 stop = Offset (rd_end r)
             in if stop < start \<or> length source < stop then None else Some (start, stop)))"

fun redirectSpans :: "gostr \<Rightarrow> sh_redirect option list \<Rightarrow> (nat \<times> nat) list \<Rightarrow> (nat \<times> nat) list option" where
  "redirectSpans source [] spans = Some spans"
| "redirectSpans source (r # rs) spans =
     (case safeRedirectSpan source r of
        None \<Rightarrow> None
      | Some span \<Rightarrow> redirectSpans source rs (spans @ [span]))"

fun appendSafeRedirectSpans :: "gostr \<Rightarrow> sh_stmt \<Rightarrow> (nat \<times> nat) list \<Rightarrow> (nat \<times> nat) list option" where
  "appendSafeRedirectSpans source NilStmt spans = Some spans"
| "appendSafeRedirectSpans source (Stmt i cmd) spans =
     (case redirectSpans source (st_redirs i) spans of
        None \<Rightarrow> None
      | Some spans' \<Rightarrow>
          (case cmd of
             BinaryCmd x y \<Rightarrow>
               (case appendSafeRedirectSpans source x spans' of
                  None \<Rightarrow> None
                | Some spans'' \<Rightarrow> appendSafeRedirectSpans source y spans'')
           | _ \<Rightarrow> Some spans'))"

fun safeRedirectSpansLoop :: "gostr \<Rightarrow> sh_stmt list \<Rightarrow> (nat \<times> nat) list \<Rightarrow> (nat \<times> nat) list option" where
  "safeRedirectSpansLoop source [] spans = Some spans"
| "safeRedirectSpansLoop source (s # ss) spans =
     (case appendSafeRedirectSpans source s spans of
        None \<Rightarrow> None
      | Some spans' \<Rightarrow> safeRedirectSpansLoop source ss spans')"

definition safeRedirectSpans :: "gostr \<Rightarrow> sh_stmt list \<Rightarrow> (nat \<times> nat) list option" where
  "safeRedirectSpans source stmts = safeRedirectSpansLoop source stmts []"

text \<open>The copying loop: the text between the spans, \<open>None\<close> for overlapping spans.\<close>

fun cutSpans :: "gostr \<Rightarrow> nat \<Rightarrow> (nat \<times> nat) list \<Rightarrow> gostr option" where
  "cutSpans subject at [] = Some (drop at subject)"
| "cutSpans subject at ((start, stop) # spans) =
     (if start < at \<or> length subject < stop then None
      else map_option ((@) (take (start - at) (drop at subject)))
             (cutSpans subject stop spans))"

definition NormalizeBashSafeRedirectsForMatch :: "shell_lib \<Rightarrow> gostr \<Rightarrow> gostr option" where
  "NormalizeBashSafeRedirectsForMatch lib subject =
     (case sh_parse lib subject of
        Inl _ \<Rightarrow> None
      | Inr file \<Rightarrow>
          if HasHereDoc lib (Some file) then None
          else
            (case safeRedirectSpans subject file of
               None \<Rightarrow> None
             | Some spans \<Rightarrow>
                 if spans = [] then Some subject
                 else map_option TrimSpace (cutSpans subject 0 (sort_key fst spans))))"

subsection \<open>Facts\<close>

lemma CommandIsReadOnly_fields:
  "CommandIsReadOnly lib cmd = Some (base, sub) \<Longrightarrow>
   \<exists>fs. StaticFields lib cmd = (fs, []) \<and> fieldsReadOnly fs = Some (base, sub)"
  by (auto simp: CommandIsReadOnly_def Let_def split: prod.splits if_splits)

lemma fieldsReadOnly_Some:
  assumes "fieldsReadOnly fs = Some (base, sub)"
  shows "fs \<noteq> [] \<and> base = ToLower (hd fs) \<and>
    (sub = [] \<and> base \<in> set ReadOnlyCommands \<or>
     sub \<noteq> [] \<and> 2 \<le> length fs \<and> sub = ToLower (fs ! 1) \<and>
     (\<exists>subs. map_of ReadOnlyPrefixes base = Some subs \<and> sub \<in> set subs))"
proof -
  have ne: "[] \<notin> set subs" if "map_of ReadOnlyPrefixes b = Some subs" for b subs
    using map_of_SomeD [OF that] by (auto simp: ReadOnlyPrefixes_def)
  from assms obtain f rest where fs: "fs = f # rest" by (cases fs) (auto simp: fieldsReadOnly_def)
  show ?thesis
  proof (cases "ToLower f \<in> set ReadOnlyCommands")
    case True
    with assms fs show ?thesis by (auto simp: fieldsReadOnly_def Let_def)
  next
    case False
    with assms fs obtain g r subs where "rest = g # r"
      and "map_of ReadOnlyPrefixes (ToLower f) = Some subs"
      and "ToLower g \<in> set subs" "base = ToLower f" "sub = ToLower g"
      by (auto simp: fieldsReadOnly_def Let_def split: list.splits option.splits if_splits)
    with fs ne show ?thesis by fastforce
  qed
qed

lemma workspaceNonMutating_subset:
  "CommandIsReadOnly lib cmd = Some r \<Longrightarrow> CommandIsWorkspaceNonMutating lib cmd = Some r"
  by (simp add: CommandIsWorkspaceNonMutating_def)

lemma safeRedirectSpan_safe:
  "safeRedirectSpan source redir = Some (s, e) \<Longrightarrow>
   \<exists>r. redir = Some r \<and> redirect_is_safe source r \<and> s \<le> e \<and> e \<le> length source"
  by (auto simp: safeRedirectSpan_def Let_def split: option.splits if_splits)

text \<open>All redirections on the spine of a statement: its own and those of its operands.\<close>

fun spine_redirs :: "sh_stmt \<Rightarrow> sh_redirect option list" where
  "spine_redirs NilStmt = []"
| "spine_redirs (Stmt i (BinaryCmd x y)) = st_redirs i @ spine_redirs x @ spine_redirs y"
| "spine_redirs (Stmt i (CallExpr as ws)) = st_redirs i"
| "spine_redirs (Stmt i OtherCmd) = st_redirs i"

lemma redirectSpans_iff:
  "redirectSpans source rs spans =
     (if None \<in> set (map (safeRedirectSpan source) rs) then None
      else Some (spans @ map (the \<circ> safeRedirectSpan source) rs))"
  by (induction rs arbitrary: spans) (auto split: option.splits)

lemma appendSafeRedirectSpans_iff:
  "appendSafeRedirectSpans source stmt spans = redirectSpans source (spine_redirs stmt) spans"
proof (induction stmt arbitrary: spans rule: spine_redirs.induct)
  case (2 i x y)
  then show ?case by (auto simp: redirectSpans_iff split: option.splits)
qed (auto simp: redirectSpans_iff split: option.splits)

lemma safeRedirectSpans_iff:
  "safeRedirectSpans source stmts = redirectSpans source (concat (map spine_redirs stmts)) []"
proof -
  have "safeRedirectSpansLoop source stmts spans
      = redirectSpans source (concat (map spine_redirs stmts)) spans" for spans
    by (induction stmts arbitrary: spans)
       (auto simp: appendSafeRedirectSpans_iff redirectSpans_iff split: option.splits)
  then show ?thesis by (simp add: safeRedirectSpans_def)
qed

lemma length_cutSpans:
  assumes "cutSpans subject at spans = Some out" and "at \<le> length subject"
    and "\<forall>(s, e) \<in> set spans. s \<le> e"
  shows "length out + sum_list (map (\<lambda>(s, e). e - s) spans) = length subject - at"
  using assms
proof (induction subject at spans arbitrary: out rule: cutSpans.induct)
  case (1 subject at)
  then show ?case by auto
next
  case (2 subject at start stop spans)
  from "2.prems" obtain o' where c: "\<not> (start < at \<or> length subject < stop)"
    and o': "cutSpans subject stop spans = Some o'"
    and out: "out = take (start - at) (drop at subject) @ o'"
    by (auto split: if_splits)
  from "2.IH" [OF c o'] c "2.prems"
  have "length o' + sum_list (map (\<lambda>(s, e). e - s) spans) = length subject - stop" by simp
  with c out "2.prems" show ?case by auto
qed

lemma redirectSpans_Some:
  assumes "redirectSpans source rs [] = Some spans"
  shows "\<forall>r \<in> set rs. \<exists>r'. r = Some r' \<and> redirect_is_safe source r'"
    and "length spans = length rs" and "\<forall>(s, e) \<in> set spans. s \<le> e"
proof -
  from assms have ok: "None \<notin> set (map (safeRedirectSpan source) rs)"
    and spans: "spans = map (the \<circ> safeRedirectSpan source) rs"
    by (auto simp: redirectSpans_iff split: if_splits)
  have each: "\<exists>s e. safeRedirectSpan source r = Some (s, e)" if "r \<in> set rs" for r
    using ok that by (cases "safeRedirectSpan source r") (auto simp: image_iff)
  show "\<forall>r \<in> set rs. \<exists>r'. r = Some r' \<and> redirect_is_safe source r'"
    using each safeRedirectSpan_safe by fast
  show "length spans = length rs" by (simp add: spans)
  show "\<forall>(s, e) \<in> set spans. s \<le> e"
    unfolding spans using each safeRedirectSpan_safe by fastforce
qed

text \<open>
  Text is only removed for redirections that cannot write a file: a normal form exists
  only when every redirection on the spine is harmless.
\<close>

lemma Normalize_only_safe:
  assumes "NormalizeBashSafeRedirectsForMatch lib subject = Some out"
  shows "\<exists>file. sh_parse lib subject = Inr file \<and> \<not> HasHereDoc lib (Some file) \<and>
    (\<forall>r \<in> set (concat (map spine_redirs file)). \<exists>r'. r = Some r' \<and> redirect_is_safe subject r')"
  using assms redirectSpans_Some(1)
  unfolding NormalizeBashSafeRedirectsForMatch_def safeRedirectSpans_iff
  by (fastforce split: sum.splits option.splits if_splits)

lemma Normalize_no_redirects:
  assumes "sh_parse lib subject = Inr f" and "\<not> HasHereDoc lib (Some f)"
    and "concat (map spine_redirs f) = []"
  shows "NormalizeBashSafeRedirectsForMatch lib subject = Some subject"
  using assms(1,2)
  by (simp add: NormalizeBashSafeRedirectsForMatch_def safeRedirectSpans_iff assms(3)
      del: concat_map_singleton concat_eq_Nil_conv)

lemma length_Normalize:
  assumes "NormalizeBashSafeRedirectsForMatch lib subject = Some out"
  shows "length out \<le> length subject"
proof -
  from assms obtain f spans where spans: "safeRedirectSpans subject f = Some spans"
    and out: "spans = [] \<and> out = subject \<or>
      (\<exists>o'. cutSpans subject 0 (sort_key fst spans) = Some o' \<and> out = TrimSpace o')"
    by (auto simp: NormalizeBashSafeRedirectsForMatch_def split: sum.splits option.splits if_splits)
  from spans have "\<forall>(s, e) \<in> set (sort_key fst spans). s \<le> e"
    using redirectSpans_Some(3) unfolding safeRedirectSpans_iff by fastforce
  note le = this
  from out show ?thesis
  proof
    assume "\<exists>o'. cutSpans subject 0 (sort_key fst spans) = Some o' \<and> out = TrimSpace o'"
    then obtain o' where o': "cutSpans subject 0 (sort_key fst spans) = Some o'"
      and "out = TrimSpace o'" by blast
    then have "length out \<le> length o'" by (simp add: length_TrimSpace)
    also have "length o' \<le> length subject" using length_cutSpans [OF o' _ le] by simp
    finally show ?thesis .
  qed simp
qed

end
