(* ===== verification/Glob.thy ===== *)
theory Glob imports Go_Strings begin

text \<open>
  The wildcard matcher \<open>matchGlob\<close> of \<open>internal/permission/permission.go\<close> and its
  specification. The Go loop keeps four indices; here they are the remaining pattern, the
  remaining name and, once a star has been seen, the pattern after the last star together
  with the part of the name the star has not yet swallowed (\<open>starPx + 1\<close> and \<open>starNx\<close>).
\<close>

fun glob_cost :: "nat \<Rightarrow> nat \<Rightarrow> nat" where
  "glob_cost 0 b = 1"
| "glob_cost (Suc a) b = 1 + glob_cost a b + sum (\<lambda>i. glob_cost a i + 1) {..<b}"

definition star_cost :: "nat \<Rightarrow> nat \<Rightarrow> nat" where
  "star_cost c d = sum (\<lambda>i. glob_cost c i + 1) {..<d}"

lemma glob_cost_pos: "0 < glob_cost a b"
  by (cases a) auto

lemma glob_cost_mono: "b \<le> b' \<Longrightarrow> glob_cost a b \<le> glob_cost a b'"
proof (induction a)
  case (Suc a)
  have "sum (\<lambda>i. glob_cost a i + 1) {..<b} \<le> sum (\<lambda>i. glob_cost a i + 1) {..<b'}"
    using Suc.prems by (intro sum_mono2) auto
  with Suc show ?case by simp
qed simp

text \<open>
  The loop. The branch for an exhausted star text is never reached from \<open>matchGlob\<close>: the
  star text always ends with the remaining name, which is non-empty inside the loop.
\<close>

datatype star_state = NoStar | StarAt gostr gostr

function matchGlobLoop :: "gostr \<Rightarrow> gostr \<Rightarrow> star_state \<Rightarrow> bool" where
  "matchGlobLoop p [] star = list_all (\<lambda>c. c = CHR ''*'') p"
| "matchGlobLoop p (x # n) star =
     (case p of
        c # p' \<Rightarrow>
          if c = CHR ''*'' then matchGlobLoop p' (x # n) (StarAt p' (x # n))
          else if c = CHR ''?'' \<or> c = x then matchGlobLoop p' n star
          else
            (case star of
               StarAt sp (y # sn) \<Rightarrow> matchGlobLoop sp sn (StarAt sp sn)
             | _ \<Rightarrow> False)
      | [] \<Rightarrow>
          (case star of
             StarAt sp (y # sn) \<Rightarrow> matchGlobLoop sp sn (StarAt sp sn)
           | _ \<Rightarrow> False))"
  by pat_completeness auto
termination
proof (relation "measure (\<lambda>(p, n, star). glob_cost (length p) (length n)
      + (case star of NoStar \<Rightarrow> 0 | StarAt sp sn \<Rightarrow> star_cost (length sp) (length sn)))",
    goal_cases)
  case 1
  show ?case by simp
next
  case (2 p x n star sp sn' y sn)
  then show ?case by (auto simp: star_cost_def)
next
  case (3 p x n star c p')
  then show ?case by (simp add: star_cost_def)
next
  case (4 p x n star c p')
  have "glob_cost (length p') (length n) \<le> glob_cost (length p') (length (x # n))"
    by (rule glob_cost_mono) simp
  then show ?case using 4 by (auto simp del: sum.lessThan_Suc)
next
  case (5 p x n star c p' sp sn' y sn)
  have "0 < glob_cost (length p) (length (x # n))" by (rule glob_cost_pos)
  with 5 show ?case by (auto simp: star_cost_def)
qed

declare matchGlobLoop.simps [simp del]

definition matchGlob :: "gostr \<Rightarrow> gostr \<Rightarrow> bool" where
  "matchGlob pattern name = matchGlobLoop pattern name NoStar"

subsection \<open>Specification\<close>

text \<open>A star stands for any text, a question mark for one byte, anything else for itself.\<close>

fun glob_spec :: "gostr \<Rightarrow> gostr \<Rightarrow> bool" where
  "glob_spec [] n = (n = [])"
| "glob_spec (c # p) n =
     (if c = CHR ''*'' then list_ex (\<lambda>k. glob_spec p (drop k n)) [0..<Suc (length n)]
      else (case n of [] \<Rightarrow> False | x # n' \<Rightarrow> (c = CHR ''?'' \<or> c = x) \<and> glob_spec p n'))"

lemma glob_spec_star: "glob_spec (CHR ''*'' # p) n \<longleftrightarrow> (\<exists>k \<le> length n. glob_spec p (drop k n))"
  by (auto simp: list_ex_iff less_Suc_eq_le simp del: upt_Suc)

lemma glob_spec_nonstar:
  "c \<noteq> CHR ''*'' \<Longrightarrow>
   glob_spec (c # p) n \<longleftrightarrow> (\<exists>x n'. n = x # n' \<and> (c = CHR ''?'' \<or> c = x) \<and> glob_spec p n')"
  by (cases n) auto

lemma glob_spec_nonstar_simps [simp]:
  "c \<noteq> CHR ''*'' \<Longrightarrow> \<not> glob_spec (c # p) []"
  "c \<noteq> CHR ''*'' \<Longrightarrow> glob_spec (c # p) (x # n) \<longleftrightarrow> (c = CHR ''?'' \<or> c = x) \<and> glob_spec p n"
  by simp_all

declare glob_spec.simps(2) [simp del]

lemma glob_spec_Nil: "glob_spec p [] \<longleftrightarrow> list_all (\<lambda>c. c = CHR ''*'') p"
proof (induction p)
  case (Cons c p)
  then show ?case by (cases "c = CHR ''*''") (auto simp: glob_spec_star glob_spec_nonstar)
qed simp

lemma glob_spec_star_drop:
  assumes "glob_spec (CHR ''*'' # p) (drop k n)"
  shows "glob_spec (CHR ''*'' # p) n"
proof -
  from assms obtain j where j: "j \<le> length n - k" "glob_spec p (drop (j + k) n)"
    by (auto simp: glob_spec_star drop_drop)
  have "\<exists>i \<le> length n. glob_spec p (drop i n)"
  proof (cases "j + k \<le> length n")
    case True
    with j show ?thesis by blast
  next
    case False
    with j show ?thesis by (intro exI [of _ "length n"]) simp
  qed
  then show ?thesis by (simp add: glob_spec_star)
qed

text \<open>A star-free pattern consumes exactly one byte per character.\<close>

lemma glob_spec_append:
  assumes "CHR ''*'' \<notin> set q"
  shows "glob_spec (q @ p) n \<longleftrightarrow>
    length q \<le> length n \<and> glob_spec q (take (length q) n) \<and> glob_spec p (drop (length q) n)"
  using assms
proof (induction q arbitrary: n)
  case (Cons c q)
  then have c: "c \<noteq> CHR ''*''" and q: "CHR ''*'' \<notin> set q" by auto
  show ?case
  proof (cases n)
    case (Cons x n')
    with c Cons.IH [OF q] show ?thesis by (simp add: conj_ac)
  qed (use c in simp)
qed simp

definition star_alternative :: "star_state \<Rightarrow> bool" where
  "star_alternative star =
     (case star of
        NoStar \<Rightarrow> False
      | StarAt sp sn \<Rightarrow> (\<exists>k. 0 < k \<and> k \<le> length sn \<and> glob_spec sp (drop k sn)))"

text \<open>
  The loop invariant: the pattern since the last star is \<open>q\<close>, free of stars, and it has
  matched the text \<open>m\<close> that separates the star text from the remaining name.
\<close>

definition glob_inv :: "gostr \<Rightarrow> gostr \<Rightarrow> star_state \<Rightarrow> bool" where
  "glob_inv p n star =
     (case star of
        NoStar \<Rightarrow> True
      | StarAt sp sn \<Rightarrow>
          (\<exists>q m. sp = q @ p \<and> sn = m @ n \<and> length q = length m \<and> CHR ''*'' \<notin> set q
             \<and> glob_spec q m))"

lemma star_alternative_step:
  "star_alternative (StarAt sp (y # sn)) \<longleftrightarrow>
     glob_spec sp sn \<or> star_alternative (StarAt sp sn)"
proof
  assume "star_alternative (StarAt sp (y # sn))"
  then obtain k where "0 < k" "k \<le> Suc (length sn)" "glob_spec sp (drop k (y # sn))"
    by (auto simp: star_alternative_def)
  then show "glob_spec sp sn \<or> star_alternative (StarAt sp sn)"
    by (cases k; cases "k - 1") (auto simp: star_alternative_def)
next
  assume "glob_spec sp sn \<or> star_alternative (StarAt sp sn)"
  then show "star_alternative (StarAt sp (y # sn))"
  proof
    assume "glob_spec sp sn"
    then show ?thesis by (auto simp: star_alternative_def intro!: exI [of _ 1])
  next
    assume "star_alternative (StarAt sp sn)"
    then obtain k where "k \<le> length sn" "glob_spec sp (drop k sn)"
      by (auto simp: star_alternative_def)
    then show ?thesis by (auto simp: star_alternative_def intro!: exI [of _ "Suc k"])
  qed
qed

text \<open>
  Why only the last star needs to be retried: an alternative of the previous star puts the
  new star further right in the name, which the new star covers from where it stands.
\<close>

lemma star_alternative_covered:
  assumes inv: "glob_inv (CHR ''*'' # p) n star" and alt: "star_alternative star"
  shows "glob_spec (CHR ''*'' # p) n"
proof -
  from alt obtain sp sn k where star: "star = StarAt sp sn"
    and k: "0 < k" "k \<le> length sn" "glob_spec sp (drop k sn)"
    by (auto simp: star_alternative_def split: star_state.splits)
  from inv star obtain q m where q: "sp = q @ CHR ''*'' # p" "sn = m @ n" "length q = length m"
    and free: "CHR ''*'' \<notin> set q"
    by (auto simp: glob_inv_def)
  from k(3) q(1) glob_spec_append [OF free] have "glob_spec (CHR ''*'' # p) (drop (length q) (drop k sn))"
    by blast
  moreover have "drop (length q) (drop k sn) = drop (length m + k) (m @ n)"
    using q by (simp only: drop_drop)
  moreover have "drop (length m + k) (m @ n) = drop k n" by simp
  ultimately show ?thesis using glob_spec_star_drop by metis
qed

lemma matchGlobLoop_correct:
  "glob_inv p n star \<Longrightarrow> matchGlobLoop p n star \<longleftrightarrow> glob_spec p n \<or> star_alternative star"
proof (induction p n star rule: matchGlobLoop.induct)
  case (1 p star)
  show ?case
  proof (cases "glob_spec p []")
    case True
    then show ?thesis by (simp add: matchGlobLoop.simps(1) glob_spec_Nil)
  next
    case False
    have "\<not> star_alternative star"
    proof
      assume alt: "star_alternative star"
      then obtain sp sn k where star: "star = StarAt sp sn"
        and k: "0 < k" "k \<le> length sn" "glob_spec sp (drop k sn)"
        by (auto simp: star_alternative_def split: star_state.splits)
      from "1.prems" star obtain q where q: "sp = q @ p" "length q = length sn"
        and free: "CHR ''*'' \<notin> set q" by (auto simp: glob_inv_def)
      from k(3) q(1) glob_spec_append [OF free] have "length q \<le> length (drop k sn)" by blast
      with q(2) k(1,2) show False by simp
    qed
    with False show ?thesis by (simp add: matchGlobLoop.simps(1) glob_spec_Nil)
  qed
next
  case (2 p x n star)
  have triv: "glob_inv sp sn (StarAt sp sn)" for sp sn by (simp add: glob_inv_def)
  have retry: "(case star of StarAt sp (y # sn) \<Rightarrow> matchGlobLoop sp sn (StarAt sp sn) | _ \<Rightarrow> False)
      \<longleftrightarrow> star_alternative star"
    if IH: "\<And>sp sn' y sn. star = StarAt sp sn' \<Longrightarrow> sn' = y # sn \<Longrightarrow>
        matchGlobLoop sp sn (StarAt sp sn) = (glob_spec sp sn \<or> star_alternative (StarAt sp sn))"
  proof (cases star)
    case (StarAt sp sn')
    show ?thesis
    proof (cases sn')
      case Nil
      with StarAt show ?thesis by (simp add: star_alternative_def)
    next
      case (Cons y sn)
      with IH [OF StarAt Cons] StarAt show ?thesis by (simp add: star_alternative_step)
    qed
  qed (simp add: star_alternative_def)
  show ?case
  proof (cases p)
    case Nil
    with retry "2.IH"(1) [OF Nil _ _ triv] show ?thesis by (simp add: matchGlobLoop.simps(2))
  next
    case (Cons c p')
    consider (star) "c = CHR ''*''" | (one) "c \<noteq> CHR ''*''" "c = CHR ''?'' \<or> c = x"
      | (miss) "c \<noteq> CHR ''*''" "\<not> (c = CHR ''?'' \<or> c = x)" by blast
    then show ?thesis
    proof cases
      case star
      have "glob_inv p' (x # n) (StarAt p' (x # n))" by (simp add: glob_inv_def)
      from "2.IH"(2) [OF Cons star this] have "matchGlobLoop p' (x # n) (StarAt p' (x # n))
          \<longleftrightarrow> glob_spec p' (x # n) \<or> star_alternative (StarAt p' (x # n))" .
      also have "\<dots> \<longleftrightarrow> glob_spec (CHR ''*'' # p') (x # n)"
      proof
        assume "glob_spec p' (x # n) \<or> star_alternative (StarAt p' (x # n))"
        then show "glob_spec (CHR ''*'' # p') (x # n)"
          unfolding glob_spec_star star_alternative_def by (auto intro: exI [of _ 0])
      next
        assume "glob_spec (CHR ''*'' # p') (x # n)"
        then obtain k where k: "k \<le> length (x # n)" "glob_spec p' (drop k (x # n))"
          unfolding glob_spec_star by blast
        then show "glob_spec p' (x # n) \<or> star_alternative (StarAt p' (x # n))"
          by (cases "k = 0") (auto simp: star_alternative_def)
      qed
      finally show ?thesis
        using Cons star star_alternative_covered [of p' "x # n" star] "2.prems"
        by (auto simp: matchGlobLoop.simps(2))
    next
      case one
      have "glob_inv p' n star"
      proof (cases star)
        case (StarAt sp sn)
        with "2.prems" Cons obtain q m where q: "sp = q @ c # p'" "sn = m @ x # n"
          "length q = length m" "CHR ''*'' \<notin> set q" "glob_spec q m"
          by (auto simp: glob_inv_def)
        have "glob_spec (q @ [c]) (m @ [x])"
          using q one glob_spec_append [OF q(4), of "[c]" "m @ [x]"] by (auto simp: glob_spec_nonstar)
        with q one StarAt show ?thesis
          by (auto simp: glob_inv_def intro!: exI [of _ "q @ [c]"] exI [of _ "m @ [x]"])
      qed (simp add: glob_inv_def)
      from "2.IH"(3) [OF Cons one this] one Cons show ?thesis
        by (auto simp: matchGlobLoop.simps(2) glob_spec_nonstar)
    next
      case miss
      with retry "2.IH"(4) [OF Cons miss _ _ triv] Cons show ?thesis
        by (auto simp: matchGlobLoop.simps(2) glob_spec_nonstar)
    qed
  qed
qed

lemma matchGlob_spec: "matchGlob p n \<longleftrightarrow> glob_spec p n"
  by (simp add: matchGlob_def matchGlobLoop_correct glob_inv_def star_alternative_def)

lemma matchGlob_literal: "CHR ''*'' \<notin> set p \<Longrightarrow> CHR ''?'' \<notin> set p \<Longrightarrow> matchGlob p n \<longleftrightarrow> p = n"
proof -
  assume "CHR ''*'' \<notin> set p" "CHR ''?'' \<notin> set p"
  then have "glob_spec p n \<longleftrightarrow> p = n"
  proof (induction p arbitrary: n)
    case (Cons c p)
    then have c: "c \<noteq> CHR ''*''" "c \<noteq> CHR ''?''"
      and IH: "\<And>m. glob_spec p m \<longleftrightarrow> p = m" by auto
    show ?case by (cases n) (simp_all add: c IH)
  qed auto
  then show ?thesis by (simp add: matchGlob_spec)
qed

lemma matchGlob_prefix_star: 
  assumes "CHR ''*'' \<notin> set p" "CHR ''?'' \<notin> set p"
  shows "matchGlob (p @ ''*'') n \<longleftrightarrow> HasPrefix n p"
proof -
  have lit: "glob_spec p m \<longleftrightarrow> m = p" for m
    using matchGlob_literal [OF assms] by (auto simp: matchGlob_spec)
  have any: "glob_spec ''*'' m" for m
    unfolding glob_spec_star by (rule exI [of _ "length m"]) simp
  have "matchGlob (p @ ''*'') n \<longleftrightarrow> length p \<le> length n \<and> take (length p) n = p"
    unfolding matchGlob_spec glob_spec_append [OF assms(1)] lit using any by simp
  also have "\<dots> \<longleftrightarrow> HasPrefix n p"
  proof
    assume "HasPrefix n p"
    then obtain r where "n = p @ r" by (auto simp: HasPrefix_prefix prefix_def)
    then show "length p \<le> length n \<and> take (length p) n = p" by simp
  qed (auto simp: HasPrefix_def)
  finally show ?thesis .
qed

end
