(* ===== verification/Json.thy ===== *)
theory Json imports Go_Strings begin

text \<open>
  JSON tool arguments as \<open>encoding/json\<close> sees them. A \<open>json.RawMessage\<close> is empty, text
  that does not decode, or text with the value it decodes to; an object keeps its members
  in source order with duplicates, because Go's decoder lets the last one win.
\<close>

datatype json =
    JNull
  | JBool bool
  | JNum gostr
  | JStr gostr
  | JArr "json list"
  | JObj "(gostr \<times> json) list"

datatype raw_json = RawEmpty | RawInvalid gostr | RawJson gostr json

text \<open>\<open>string(args)\<close>: the bytes of the message.\<close>

fun raw_text :: "raw_json \<Rightarrow> gostr" where
  "raw_text RawEmpty = []"
| "raw_text (RawInvalid t) = t"
| "raw_text (RawJson t v) = t"

text \<open>
  \<open>json.Unmarshal\<close> into a Go map: \<open>None\<close> is an error, JSON null leaves the map empty.
\<close>

fun unmarshalMap :: "raw_json \<Rightarrow> (gostr \<times> json) list option" where
  "unmarshalMap (RawJson t (JObj kvs)) = Some kvs"
| "unmarshalMap (RawJson t JNull) = Some []"
| "unmarshalMap _ = None"

definition objGet :: "(gostr \<times> json) list \<Rightarrow> gostr \<Rightarrow> json option" where
  "objGet kvs k = map_of (rev kvs) k"

lemma objGet_last:
  assumes "k \<notin> fst ` set post"
  shows "objGet (pre @ (k, v) # post) k = Some v"
proof -
  have "map_of (rev post) k = None" using assms by (simp add: map_of_eq_None_iff)
  then show ?thesis by (simp add: objGet_def map_add_def)
qed

end
