(* ===== verification/Bash_Approval.thy ===== *)
theory Bash_Approval imports Shell_Safe Glob Json begin

text \<open>
  The model of \<open>bash_approval.go\<close>, \<open>bash_decompose.go\<close> and \<open>bash_readonly.go\<close> of
  \<open>internal/permission\<close>: how a command line is classified for approval reuse, split
  into segments, and recognised as read-only.
\<close>

subsection \<open>Decomposition\<close>

definition DecomposeBashCommand :: "shell_lib \<Rightarrow> gostr \<Rightarrow> gostr list option" where
  "DecomposeBashCommand lib cmd =
     (case SplitTopLevel lib cmd of
        None \<Rightarrow> None
      | Some (out, split) \<Rightarrow> if \<not> split \<or> length out < 2 then None else Some out)"

subsection \<open>Argument tests\<close>

definition hasArgWithPrefix :: "gostr list \<Rightarrow> gostr \<Rightarrow> bool" where
  "hasArgWithPrefix args p = list_ex (\<lambda>a. HasPrefix a p) args"

definition hasAnyArg :: "gostr list \<Rightarrow> gostr list \<Rightarrow> bool" where
  "hasAnyArg args unsafe = list_ex (\<lambda>a. a \<in> set unsafe) args"

definition hasUnsafeReadOnlyArgs :: "gostr \<Rightarrow> gostr list \<Rightarrow> bool" where
  "hasUnsafeReadOnlyArgs base args =
     (if base = ''find'' then
        hasAnyArg args [''-exec'', ''-execdir'', ''-delete'', ''-ok'', ''-okdir'', ''-fls'',
                        ''-fprint'', ''-fprint0'', ''-fprintf'']
      else if base = ''sed'' then
        list_ex (\<lambda>a. HasPrefix a ''-i'' \<or> HasPrefix a ''--in-place'') args
      else if base = ''sort'' then
        hasArgWithPrefix args ''-o'' \<or> hasAnyArg args [''--output'']
        \<or> hasArgWithPrefix args ''--output=''
      else False)"

definition hasUnsafePrefixArgs :: "gostr \<Rightarrow> gostr \<Rightarrow> gostr list \<Rightarrow> bool" where
  "hasUnsafePrefixArgs base subcmd args =
     (if base = ''git'' then
        (if subcmd \<in> {''diff'', ''show'', ''log''}
         then hasAnyArg args [''--output''] \<or> hasArgWithPrefix args ''--output=''
         else False)
      else if base = ''go'' then
        (if subcmd = ''env'' then hasAnyArg args [''-w'', ''-u''] else False)
      else False)"

subsection \<open>Read-only commands\<close>

definition matchSubject :: "shell_lib \<Rightarrow> gostr \<Rightarrow> gostr" where
  "matchSubject lib subject =
     (case NormalizeBashSafeRedirectsForMatch lib subject of None \<Rightarrow> subject | Some n \<Rightarrow> n)"

definition isReadOnlyBashSubject :: "shell_lib \<Rightarrow> gostr \<Rightarrow> bool" where
  "isReadOnlyBashSubject lib subject0 =
     (let subject = matchSubject lib subject0 in
      case CommandIsReadOnly lib subject of
        None \<Rightarrow> False
      | Some (base, sub) \<Rightarrow>
          (let (fields, malformed) = StaticFields lib subject in
           if malformed \<noteq> [] then False
           else if sub = [] then \<not> hasUnsafeReadOnlyArgs base (drop 1 fields)
           else \<not> hasUnsafePrefixArgs base sub (drop 2 fields)))"

text \<open>
  Decoding into the Go struct of a bash call: keys match case-insensitively, the last
  member wins, null leaves a field alone, any other type is an error.
\<close>

fun decodeBashArgs ::
    "(gostr \<times> json) list \<Rightarrow> gostr \<times> bool \<times> bool \<Rightarrow> (gostr \<times> bool \<times> bool) option" where
  "decodeBashArgs [] p = Some p"
| "decodeBashArgs ((k, v) # kvs) (cmd, bg, keep) =
     (if EqualFold k ''command'' then
        (case v of
           JStr s \<Rightarrow> decodeBashArgs kvs (s, bg, keep)
         | JNull \<Rightarrow> decodeBashArgs kvs (cmd, bg, keep)
         | _ \<Rightarrow> None)
      else if EqualFold k ''run_in_background'' then
        (case v of
           JBool b \<Rightarrow> decodeBashArgs kvs (cmd, b, keep)
         | JNull \<Rightarrow> decodeBashArgs kvs (cmd, bg, keep)
         | _ \<Rightarrow> None)
      else if EqualFold k ''preserve_background_processes'' then
        (case v of
           JBool b \<Rightarrow> decodeBashArgs kvs (cmd, bg, b)
         | JNull \<Rightarrow> decodeBashArgs kvs (cmd, bg, keep)
         | _ \<Rightarrow> None)
      else decodeBashArgs kvs (cmd, bg, keep))"

definition BashCommandIsReadOnly :: "shell_lib \<Rightarrow> raw_json \<Rightarrow> bool" where
  "BashCommandIsReadOnly lib args =
     (case unmarshalMap args of
        None \<Rightarrow> False
      | Some kvs \<Rightarrow>
          (case decodeBashArgs kvs ([], False, False) of
             None \<Rightarrow> False
           | Some (cmd, bg, keep) \<Rightarrow>
               if TrimSpace cmd = [] then False
               else if bg \<or> keep then False
               else isReadOnlyBashSubject lib cmd))"

subsection \<open>Dangerous commands\<close>

definition dangerousBashPatterns :: "(gostr \<times> gostr) list" where
  "dangerousBashPatterns =
    [(''rm -rf*'', ''recursive delete''),
     (''rm -r *'', ''recursive delete''),
     (''rm -fr*'', ''recursive delete''),
     (''git push*--force*'', ''force push''),
     (''git push*-f*'', ''force push''),
     (''git reset --hard*'', ''hard reset''),
     (''git clean -f*'', ''force clean''),
     (''chmod 777*'', ''world-writable''),
     (''chmod -R 777*'', ''world-writable recursive''),
     (''chown *'', ''ownership change''),
     (''sudo *'', ''superuser''),
     (''mkfs*'', ''filesystem format''),
     (''dd if=*'', ''raw device write''),
     (''fdisk*'', ''partition table''),
     (''> /dev/*'', ''device overwrite'')]"

definition BashDangerWarning :: "gostr \<Rightarrow> gostr" where
  "BashDangerWarning subject =
     (case List.find (\<lambda>(pattern, label). matchGlob pattern (TrimSpace subject))
             dangerousBashPatterns of
        None \<Rightarrow> []
      | Some (pattern, label) \<Rightarrow> label)"

subsection \<open>Approval classes\<close>

datatype bashApprovalClass = bashApprovalReusable | bashApprovalExactOnly | bashApprovalRequireHuman

fun class_rank :: "bashApprovalClass \<Rightarrow> nat" where
  "class_rank bashApprovalReusable = 0"
| "class_rank bashApprovalExactOnly = 1"
| "class_rank bashApprovalRequireHuman = 2"

instantiation bashApprovalClass :: linorder
begin

definition less_eq_bashApprovalClass :: "bashApprovalClass \<Rightarrow> bashApprovalClass \<Rightarrow> bool" where
  "less_eq_bashApprovalClass a b \<longleftrightarrow> class_rank a \<le> class_rank b"

definition less_bashApprovalClass :: "bashApprovalClass \<Rightarrow> bashApprovalClass \<Rightarrow> bool" where
  "less_bashApprovalClass a b \<longleftrightarrow> class_rank a < class_rank b"

instance
proof
  fix a b :: bashApprovalClass
  show "a \<le> b \<Longrightarrow> b \<le> a \<Longrightarrow> a = b"
    by (cases a; cases b) (auto simp: less_eq_bashApprovalClass_def)
qed (auto simp: less_eq_bashApprovalClass_def less_bashApprovalClass_def)

end

definition executableBase :: "gostr \<Rightarrow> gostr" where
  "executableBase command =
     (let base = (case LastIndexAny command [CHR ''/'', backslash] of
                    None \<Rightarrow> command | Some i \<Rightarrow> drop (Suc i) command)
      in TrimSuffix (ToLower base) ''.exe'')"

definition isEnvironmentAssignment :: "gostr \<Rightarrow> bool" where
  "isEnvironmentAssignment arg =
     (case Cut arg (CHR ''='') of
        None \<Rightarrow> False
      | Some (name, _) \<Rightarrow>
          (case name of
             [] \<Rightarrow> False
           | c # r \<Rightarrow>
               (is_lower c \<or> is_upper c \<or> c = CHR ''_'')
               \<and> list_all (\<lambda>c. is_lower c \<or> is_upper c \<or> is_digit c \<or> c = CHR ''_'') r))"

fun hasShellCommandFlag :: "gostr list \<Rightarrow> bool" where
  "hasShellCommandFlag [] = False"
| "hasShellCommandFlag (arg # args) =
     (let lower = ToLower arg in
      if lower = ''--'' then False
      else if lower = ''--command'' then True
      else if HasPrefix lower ''-'' \<and> \<not> HasPrefix lower ''--'' \<and> Contains (drop 1 lower) ''c''
        then True
      else hasShellCommandFlag args)"

definition foldedArgMatches :: "gostr \<Rightarrow> gostr \<Rightarrow> bool" where
  "foldedArgMatches arg candidate0 =
     (let lower = ToLower arg; candidate = ToLower candidate0 in
      lower = candidate
      \<or> HasPrefix candidate ''--''
          \<and> (HasPrefix lower (candidate @ ''='') \<or> HasPrefix lower (candidate @ '':''))
      \<or> HasPrefix candidate ''-'' \<and> \<not> HasPrefix candidate ''--'' \<and> length candidate = 2
          \<and> HasPrefix lower candidate \<and> \<not> HasPrefix lower ''--''
      \<or> HasPrefix candidate ''/'' \<and> length candidate = 2 \<and> HasPrefix lower candidate
      \<or> 2 < length candidate \<and> HasPrefix candidate ''-'' \<and> HasPrefix lower (candidate @ '':''))"

definition hasAnyFoldedArg :: "gostr list \<Rightarrow> gostr list \<Rightarrow> bool" where
  "hasAnyFoldedArg args candidates = list_ex (\<lambda>a. list_ex (foldedArgMatches a) candidates) args"

function isIndirectExecution :: "gostr list \<Rightarrow> bool" where
  "isIndirectExecution [] = True"
| "isIndirectExecution (f # args) =
     (let base = executableBase f in
      if base \<in> {''eval'', ''source'', ''.'', ''xargs''} then True
      else if base = ''env'' then
        (case dropWhile isEnvironmentAssignment args of
           [] \<Rightarrow> True
         | a # rest \<Rightarrow> if HasPrefix a ''-'' then True else isIndirectExecution (a # rest))
      else if base \<in> {''builtin'', ''command'', ''exec'', ''nohup'', ''sudo''} then
        (case args of
           [] \<Rightarrow> True
         | a # rest \<Rightarrow> if HasPrefix a ''-'' then True else isIndirectExecution (a # rest))
      else if base \<in> {''bash'', ''dash'', ''fish'', ''ksh'', ''sh'', ''zsh''} then
        hasShellCommandFlag args
      else if base \<in> {''powershell'', ''pwsh''} then
        hasAnyFoldedArg args [''-c'', ''-command'', ''-e'', ''-enc'', ''-encodedcommand'']
      else if base = ''cmd'' then hasAnyFoldedArg args [''/c'', ''/k'']
      else if base \<in> {''node'', ''bun''} then
        hasAnyFoldedArg args [''-e'', ''--eval'', ''-p'', ''--print'']
      else if base = ''deno'' then hasAnyFoldedArg args [''eval'']
      else if base \<in> {''python'', ''python3'', ''py'', ''pypy'', ''pypy3''} then
        hasAnyFoldedArg args [''-c'']
      else if base \<in> {''perl'', ''ruby'', ''lua'', ''luajit'', ''r'', ''rscript'', ''osascript''} then
        hasAnyFoldedArg args [''-e'']
      else if base = ''php'' then hasAnyFoldedArg args [''-r'']
      else if base = ''find'' then
        hasAnyFoldedArg args [''-exec'', ''-execdir'', ''-ok'', ''-okdir'']
      else False)"
  by pat_completeness auto
termination
proof (relation "measure length", goal_cases)
  case 1
  show ?case by simp
next
  case (2 f args base a rest)
  then show ?case using length_dropWhile_le [of isEnvironmentAssignment args] by simp
next
  case (3 f args base a rest)
  then show ?case by simp
qed

declare isIndirectExecution.simps(2) [simp del]

fun envAssignmentLoop :: "gostr list \<Rightarrow> bool" where
  "envAssignmentLoop [] = False"
| "envAssignmentLoop (arg # args) =
     (if isEnvironmentAssignment arg then True
      else if \<not> HasPrefix arg ''-'' then False
      else envAssignmentLoop args)"

fun hasEnvWrapperAssignment :: "gostr list \<Rightarrow> bool" where
  "hasEnvWrapperAssignment (f # a # args) =
     (if executableBase f \<noteq> ''env'' then False else envAssignmentLoop (a # args))"
| "hasEnvWrapperAssignment _ = False"

definition classifyBashSegmentApproval :: "shell_lib \<Rightarrow> gostr \<Rightarrow> bashApprovalClass" where
  "classifyBashSegmentApproval lib subject0 =
     (let subject = matchSubject lib subject0 in
      case AnalyzeApprovalFeatures lib subject of
        None \<Rightarrow> bashApprovalRequireHuman
      | Some features \<Rightarrow>
          if NestedExecution features \<or> DynamicCommandName features
          then bashApprovalRequireHuman
          else if CommandPrefix features \<noteq> [] \<and> isIndirectExecution (CommandPrefix features)
          then bashApprovalRequireHuman
          else if Expansion features \<or> Assignment features \<or> Redirection features
            \<or> ContainsUnquotedGlob lib subject
            \<or> hasEnvWrapperAssignment (CommandPrefix features)
          then bashApprovalExactOnly
          else bashApprovalReusable)"

fun classifyLoop :: "shell_lib \<Rightarrow> gostr list \<Rightarrow> bashApprovalClass \<Rightarrow> bashApprovalClass" where
  "classifyLoop lib [] cls = cls"
| "classifyLoop lib (seg # segs) cls =
     (let cls' = (if cls < classifyBashSegmentApproval lib seg
                  then classifyBashSegmentApproval lib seg else cls)
      in if cls' = bashApprovalRequireHuman then cls' else classifyLoop lib segs cls')"

definition classifyBashApproval :: "shell_lib \<Rightarrow> gostr \<Rightarrow> bashApprovalClass" where
  "classifyBashApproval lib subject =
     (if TrimSpace subject = [] then bashApprovalReusable
      else
        (case SplitTopLevel lib subject of
           None \<Rightarrow> classifyBashSegmentApproval lib subject
         | Some (segments, split) \<Rightarrow>
             if segments = [] then bashApprovalRequireHuman
             else classifyLoop lib segments bashApprovalReusable))"

definition BashSubjectRequiresExplicitApproval :: "shell_lib \<Rightarrow> gostr \<Rightarrow> bool" where
  "BashSubjectRequiresExplicitApproval lib subject \<longleftrightarrow>
     classifyBashApproval lib subject = bashApprovalRequireHuman"

definition bashSubjectRequiresExactRule :: "shell_lib \<Rightarrow> gostr \<Rightarrow> bool" where
  "bashSubjectRequiresExactRule lib subject \<longleftrightarrow>
     classifyBashApproval lib subject \<noteq> bashApprovalReusable"

subsection \<open>Facts\<close>

lemma RequireHuman_top: "cls \<le> bashApprovalRequireHuman"
  by (cases cls) (simp_all add: less_eq_bashApprovalClass_def)

lemma Reusable_bot: "bashApprovalReusable \<le> cls"
  by (simp add: less_eq_bashApprovalClass_def)

text \<open>The loop with its early exit computes the highest class of the segments.\<close>

lemma classifyLoop_max:
  "classifyLoop lib segs cls = fold (\<lambda>s c. max (classifyBashSegmentApproval lib s) c) segs cls"
proof (induction segs arbitrary: cls)
  case (Cons seg segs)
  have top: "fold (\<lambda>s c. max (classifyBashSegmentApproval lib s) c) ss bashApprovalRequireHuman
      = bashApprovalRequireHuman" for ss
    by (induction ss) (simp_all add: max_absorb2 RequireHuman_top)
  have m: "(if cls < classifyBashSegmentApproval lib seg
      then classifyBashSegmentApproval lib seg else cls) = max (classifyBashSegmentApproval lib seg) cls"
    by (auto simp: max_def)
  show ?case by (simp add: Let_def m Cons top)
qed simp

lemma fold_max_ge:
  "s \<in> set segs \<Longrightarrow> f s \<le> fold (\<lambda>s c. max (f s) c) segs cls" for f :: "'s \<Rightarrow> 'c :: linorder"
proof -
  have base: "cls \<le> fold (\<lambda>s c. max (f s) c) segs cls" for segs cls
  proof (induction segs arbitrary: cls)
    case (Cons a segs)
    show ?case using Cons [of "max (f a) cls"] by simp
  qed simp
  show "s \<in> set segs \<Longrightarrow> f s \<le> fold (\<lambda>s c. max (f s) c) segs cls"
  proof (induction segs arbitrary: cls)
    case (Cons a segs)
    show ?case using Cons base [of "max (f a) cls" segs] by auto
  qed simp
qed

lemma fold_max_in:
  "fold (\<lambda>s c. max (f s) c) segs cls \<in> insert cls (f ` set segs)" for f :: "'s \<Rightarrow> 'c :: linorder"
proof (induction segs arbitrary: cls)
  case (Cons s segs)
  have "max (f s) cls \<in> {f s, cls}" by (auto simp: max_def)
  with Cons [of "max (f s) cls"] show ?case by auto
qed simp

lemma DecomposeBashCommand_Some:
  assumes "DecomposeBashCommand lib cmd = Some parts"
  shows "SplitTopLevel lib cmd = Some (parts, True)" and "2 \<le> length parts"
  using assms by (auto simp: DecomposeBashCommand_def split: option.splits if_splits)

lemma DecomposeBashCommand_shorter:
  assumes "parser_positions lib" and "DecomposeBashCommand lib cmd = Some parts"
    and "p \<in> set parts"
  shows "length p < length cmd"
  using DecomposeBashCommand_Some [OF assms(2)] SplitTopLevel_segment_shorter assms(1,3) by blast

end
