(* ===== verification/Permission_Rules.thy ===== *)
theory Permission_Rules imports Bash_Approval begin

text \<open>
  Rules of \<open>internal/permission/permission.go\<close>: parsing and printing a rule string, which
  tools and subjects a rule matches, and the loops over rule lists. The two subject
  matchers (one for stored grants, one for raw deny and ask rules) share a contract,
  stated as the locale \<open>rule_matching\<close>.
\<close>

subsection \<open>Decisions\<close>

datatype Decision = Allow | Ask | Deny

fun decision_rank :: "Decision \<Rightarrow> nat" where
  "decision_rank Allow = 0"
| "decision_rank Ask = 1"
| "decision_rank Deny = 2"

instantiation Decision :: linorder
begin

definition less_eq_Decision :: "Decision \<Rightarrow> Decision \<Rightarrow> bool" where
  "less_eq_Decision a b \<longleftrightarrow> decision_rank a \<le> decision_rank b"

definition less_Decision :: "Decision \<Rightarrow> Decision \<Rightarrow> bool" where
  "less_Decision a b \<longleftrightarrow> decision_rank a < decision_rank b"

instance
proof
  fix a b :: Decision
  show "a \<le> b \<Longrightarrow> b \<le> a \<Longrightarrow> a = b"
    by (cases a; cases b) (auto simp: less_eq_Decision_def)
qed (auto simp: less_eq_Decision_def less_Decision_def)

end

lemma Decision_le_simps [simp]:
  "Allow \<le> d" "d \<le> Deny" "Deny \<le> d \<longleftrightarrow> d = Deny" "d \<le> Allow \<longleftrightarrow> d = Allow"
  by (cases d; simp add: less_eq_Decision_def)+

fun decisionString :: "Decision \<Rightarrow> gostr" where
  "decisionString Allow = ''allow''"
| "decisionString Ask = ''ask''"
| "decisionString Deny = ''deny''"

definition ParseDecision :: "gostr \<Rightarrow> Decision" where
  "ParseDecision s =
     (let t = ToLower (TrimSpace s) in
      if t = ''allow'' then Allow else if t = ''deny'' then Deny else Ask)"

subsection \<open>Rules\<close>

record Rule =
  r_Tool :: gostr
  r_Subject :: gostr
  r_Literal :: bool

definition ParseRule :: "gostr \<Rightarrow> Rule option" where
  "ParseRule s0 =
     (let s = TrimSpace s0;
          call_form =
            (case IndexByte s (CHR ''('') of
               Some i \<Rightarrow>
                 if HasSuffix s '')'' then
                   (let tool = TrimSpace (take i s) in
                    if tool = [] then None
                    else Some \<lparr>r_Tool = tool, r_Subject = take (length s - 1 - (i + 1)) (drop (i + 1) s),
                               r_Literal = False\<rparr>)
                 else Some \<lparr>r_Tool = s, r_Subject = [], r_Literal = False\<rparr>
             | None \<Rightarrow> Some \<lparr>r_Tool = s, r_Subject = [], r_Literal = False\<rparr>)
      in
      if s = [] then None
      else
        (case IndexByte s (CHR ''='') of
           Some eq \<Rightarrow>
             if 0 < eq \<and> (case IndexByte s (CHR ''('') of None \<Rightarrow> True | Some paren \<Rightarrow> eq < paren) then
               (let tool = TrimSpace (take eq s) in
                if tool = [] then None
                else Some \<lparr>r_Tool = tool, r_Subject = drop (eq + 1) s, r_Literal = True\<rparr>)
             else call_form
         | None \<Rightarrow> call_form))"

definition ruleConfigString :: "Rule \<Rightarrow> gostr" where
  "ruleConfigString rule =
     (if r_Subject rule = [] then r_Tool rule
      else if r_Literal rule then r_Tool rule @ ''='' @ r_Subject rule
      else r_Tool rule @ ''('' @ r_Subject rule @ '')'')"

definition legacyBarePowerShellDenyCmdlet :: "gostr \<Rightarrow> gostr option" where
  "legacyBarePowerShellDenyCmdlet s =
     (let t = ToLower (TrimSpace s) in
      if t = ''set-content'' then Some ''Set-Content''
      else if t = ''add-content'' then Some ''Add-Content''
      else if t = ''out-file'' then Some ''Out-File''
      else None)"

definition isCaseInsensitivePowerShellCmdlet :: "gostr \<Rightarrow> bool" where
  "isCaseInsensitivePowerShellCmdlet s \<longleftrightarrow> legacyBarePowerShellDenyCmdlet s \<noteq> None"

fun parseRules :: "gostr list \<Rightarrow> Rule list" where
  "parseRules [] = []"
| "parseRules (s # ss) =
     (case ParseRule s of None \<Rightarrow> parseRules ss | Some r \<Rightarrow> r # parseRules ss)"

fun parseDenyRules :: "gostr list \<Rightarrow> Rule list" where
  "parseDenyRules [] = []"
| "parseDenyRules (s # ss) =
     (case ParseRule s of
        None \<Rightarrow> parseDenyRules ss
      | Some r \<Rightarrow>
          r # (if r_Subject r = [] then
                 (case legacyBarePowerShellDenyCmdlet (r_Tool r) of
                    None \<Rightarrow> []
                  | Some cmdlet \<Rightarrow>
                      [\<lparr>r_Tool = ''Bash'', r_Subject = cmdlet @ '':*'', r_Literal = False\<rparr>])
               else [])
            @ parseDenyRules ss)"

subsection \<open>Tools\<close>

definition IsFileMutationTool :: "gostr \<Rightarrow> bool" where
  "IsFileMutationTool toolName \<longleftrightarrow>
     toolName \<in> {''write_file'', ''edit_file'', ''multi_edit'', ''move_file'', ''notebook_edit'',
                 ''delete_range'', ''delete_symbol''}"

definition canonicalRuleTool :: "gostr \<Rightarrow> gostr" where
  "canonicalRuleTool toolName =
     (let t = TrimSpace toolName in
      if t \<in> {''Bash'', ''bash''} then ''bash''
      else if t \<in> {''Edit'', ''edit'', ''file_mutation''} then ''file_mutation''
      else toolName)"

definition ruleToolMatches :: "gostr \<Rightarrow> gostr \<Rightarrow> bool" where
  "ruleToolMatches ruleTool toolName \<longleftrightarrow>
     canonicalRuleTool ruleTool = toolName
     \<or> canonicalRuleTool ruleTool = ''file_mutation'' \<and> IsFileMutationTool toolName"

definition ruleToolCompatible :: "gostr \<Rightarrow> gostr \<Rightarrow> bool" where
  "ruleToolCompatible existingTool candidateTool \<longleftrightarrow>
     (let e = canonicalRuleTool existingTool; c = canonicalRuleTool candidateTool in
      e = c \<or> e = ''file_mutation'' \<and> (c = ''file_mutation'' \<or> IsFileMutationTool c))"

subsection \<open>Subjects\<close>

definition hasGlobMeta :: "gostr \<Rightarrow> bool" where
  "hasGlobMeta s = ContainsAny s ''*?''"

definition bashColonPrefixBase :: "gostr \<Rightarrow> gostr option" where
  "bashColonPrefixBase pattern =
     (if \<not> HasSuffix pattern '':*'' then None
      else let base = TrimSuffix pattern '':*'' in if base = [] then None else Some base)"

definition legacyBashSpaceStarPrefixBase :: "gostr \<Rightarrow> gostr option" where
  "legacyBashSpaceStarPrefixBase pattern =
     (if \<not> HasSuffix pattern '' *'' then None
      else let base = TrimSuffix pattern '' *'' in if base = [] then None else Some base)"

definition bashPrefixBase :: "gostr \<Rightarrow> gostr option" where
  "bashPrefixBase pattern =
     (case bashColonPrefixBase pattern of
        Some base \<Rightarrow> Some base
      | None \<Rightarrow> legacyBashSpaceStarPrefixBase pattern)"

definition bashPrefixMatches :: "shell_lib \<Rightarrow> gostr \<Rightarrow> gostr \<Rightarrow> bool" where
  "bashPrefixMatches lib base subject0 =
     (let subject = matchSubject lib subject0;
          (fields, malformed) = StaticFields lib subject;
          (baseFields, malformed') = StaticFields lib base
      in malformed = [] \<and> malformed' = [] \<and> baseFields \<noteq> []
         \<and> length baseFields \<le> length fields
         \<and> list_all2 (\<lambda>want got. got = want) baseFields (take (length baseFields) fields))"

definition ruleSubjectMatches :: "shell_lib \<Rightarrow> Rule \<Rightarrow> gostr \<Rightarrow> bool" where
  "ruleSubjectMatches lib rule subject =
     (if r_Subject rule = [] then True
      else if subject = [] then False
      else if r_Literal rule then r_Subject rule = subject
      else
        (case (if canonicalRuleTool (r_Tool rule) = ''bash'' then bashPrefixBase (r_Subject rule)
               else None) of
           Some base \<Rightarrow> bashPrefixMatches lib base subject
         | None \<Rightarrow> matchGlob (r_Subject rule) subject))"

fun rawFieldsMatch :: "bool \<Rightarrow> gostr list \<Rightarrow> gostr list \<Rightarrow> bool" where
  "rawFieldsMatch first [] got = True"
| "rawFieldsMatch first (w # ws) [] = False"
| "rawFieldsMatch first (w # ws) (g # gs) =
     (if g \<noteq> w \<and> \<not> (first \<and> isCaseInsensitivePowerShellCmdlet w \<and> EqualFold g w) then False
      else rawFieldsMatch False ws gs)"

definition rawTextPrefixMatches :: "gostr \<Rightarrow> gostr \<Rightarrow> bool" where
  "rawTextPrefixMatches base0 subject0 =
     (let base = TrimSpace base0; subject = TrimSpace subject0 in
      if subject = base \<or> isCaseInsensitivePowerShellCmdlet base \<and> EqualFold subject base then True
      else if length subject \<le> length base then False
      else if \<not> (if isCaseInsensitivePowerShellCmdlet base
                 then EqualFold (take (length base) subject) base
                 else HasPrefix subject base) then False
      else subject ! length base \<in> {CHR '' '', CHR 0x09, CHR 0x0D, CHR 0x0A})"

definition rawBashPrefixMatches :: "shell_lib \<Rightarrow> gostr \<Rightarrow> gostr \<Rightarrow> bool" where
  "rawBashPrefixMatches lib base subject =
     (let (baseFields, malformed) = StaticFields lib base in
      if malformed = [] \<and> baseFields \<noteq> [] \<and>
         (case AnalyzeApprovalFeatures lib subject of
            None \<Rightarrow> False
          | Some features \<Rightarrow>
              length baseFields \<le> length (CommandPrefix features)
              \<and> rawFieldsMatch True baseFields (CommandPrefix features))
      then True
      else rawTextPrefixMatches base subject)"

definition rawRuleSubjectMatches :: "shell_lib \<Rightarrow> Rule \<Rightarrow> gostr \<Rightarrow> bool" where
  "rawRuleSubjectMatches lib rule subject =
     (if r_Literal rule then r_Subject rule = subject
      else
        (case (if canonicalRuleTool (r_Tool rule) = ''bash'' then bashPrefixBase (r_Subject rule)
               else None) of
           Some base \<Rightarrow> rawBashPrefixMatches lib base subject
         | None \<Rightarrow> matchGlob (r_Subject rule) subject))"

subsection \<open>Rule lists\<close>

text \<open>The body that \<open>matchAny\<close>, \<open>matchAnyRaw\<close> and \<open>firstMatchingRule\<close> share.\<close>

definition ruleApplies :: "(Rule \<Rightarrow> gostr \<Rightarrow> bool) \<Rightarrow> gostr \<Rightarrow> gostr \<Rightarrow> Rule \<Rightarrow> bool" where
  "ruleApplies sm toolName subject r =
     (if \<not> ruleToolMatches (r_Tool r) toolName then False
      else if r_Subject r = [] then True
      else if subject = [] then False
      else sm r subject)"

definition matchAny :: "shell_lib \<Rightarrow> Rule list \<Rightarrow> gostr \<Rightarrow> gostr \<Rightarrow> bool" where
  "matchAny lib rules toolName subject =
     list_ex (ruleApplies (ruleSubjectMatches lib) toolName subject) rules"

definition matchAnyRaw :: "shell_lib \<Rightarrow> Rule list \<Rightarrow> gostr \<Rightarrow> gostr \<Rightarrow> bool" where
  "matchAnyRaw lib rules toolName subject =
     list_ex (ruleApplies (rawRuleSubjectMatches lib) toolName subject) rules"

definition firstMatchingRule ::
    "shell_lib \<Rightarrow> Rule list \<Rightarrow> gostr \<Rightarrow> gostr \<Rightarrow> bool \<Rightarrow> Rule option" where
  "firstMatchingRule lib rules toolName subject raw =
     List.find
       (ruleApplies (if raw then rawRuleSubjectMatches lib else ruleSubjectMatches lib)
          toolName subject) rules"

definition matchAnyExact :: "Rule list \<Rightarrow> gostr \<Rightarrow> gostr \<Rightarrow> bool" where
  "matchAnyExact rules toolName subject =
     (if subject = [] then False
      else list_ex (\<lambda>r. ruleToolMatches (r_Tool r) toolName \<and> r_Subject r \<noteq> []
                        \<and> r_Subject r = subject \<and> (r_Literal r \<or> \<not> hasGlobMeta (r_Subject r))) rules)"

definition matchAnyAllow :: "shell_lib \<Rightarrow> Rule list \<Rightarrow> gostr \<Rightarrow> gostr \<Rightarrow> bool" where
  "matchAnyAllow lib rules toolName subject =
     (if matchAnyExact rules toolName subject then True
      else if canonicalRuleTool toolName = ''bash'' \<and> bashSubjectRequiresExactRule lib subject
        then False
      else matchAny lib rules toolName subject)"

definition RuleMatchesString :: "shell_lib \<Rightarrow> gostr \<Rightarrow> gostr \<Rightarrow> gostr \<Rightarrow> bool" where
  "RuleMatchesString lib rule toolName subject =
     (case ParseRule rule of None \<Rightarrow> False | Some r \<Rightarrow> matchAnyAllow lib [r] toolName subject)"

definition bashRulePrefixBaseMatches :: "Rule \<Rightarrow> Rule \<Rightarrow> bool" where
  "bashRulePrefixBaseMatches existing candidate =
     (if canonicalRuleTool (r_Tool existing) \<noteq> ''bash''
         \<or> canonicalRuleTool (r_Tool candidate) \<noteq> ''bash'' then False
      else
        (case (bashPrefixBase (r_Subject existing), bashPrefixBase (r_Subject candidate)) of
           (Some a, Some b) \<Rightarrow> a = b
         | _ \<Rightarrow> False))"

definition RuleCoversString :: "shell_lib \<Rightarrow> gostr \<Rightarrow> gostr \<Rightarrow> bool" where
  "RuleCoversString lib existing candidate =
     (case (ParseRule existing, ParseRule candidate) of
        (Some a, Some b) \<Rightarrow>
          if \<not> ruleToolCompatible (r_Tool a) (r_Tool b) then False
          else if r_Subject b = [] then r_Subject a = []
          else if canonicalRuleTool (r_Tool b) = ''bash''
                  \<and> (r_Literal b \<or> \<not> hasGlobMeta (r_Subject b))
                  \<and> bashSubjectRequiresExactRule lib (r_Subject b)
            then matchAnyExact [a] (canonicalRuleTool (r_Tool b)) (r_Subject b)
          else if r_Subject a = [] then True
          else if bashRulePrefixBaseMatches a b then True
          else if r_Literal b \<or> \<not> hasGlobMeta (r_Subject b)
            then ruleSubjectMatches lib a (r_Subject b)
          else \<not> r_Literal a \<and> r_Subject a = r_Subject b
      | _ \<Rightarrow> False)"

subsection \<open>The contract of a subject matcher\<close>

text \<open>
  What every client of a subject matcher relies on: a literal rule, and a rule without
  wildcards, match exactly their own subject.
\<close>

locale rule_matching =
  fixes sm :: "Rule \<Rightarrow> gostr \<Rightarrow> bool"
  assumes literal: "r_Literal r \<Longrightarrow> r_Subject r \<noteq> [] \<Longrightarrow> s \<noteq> [] \<Longrightarrow> sm r s \<longleftrightarrow> r_Subject r = s"
    and no_meta: "\<not> hasGlobMeta (r_Subject r) \<Longrightarrow> r_Subject r \<noteq> [] \<Longrightarrow> s \<noteq> [] \<Longrightarrow>
      sm r s \<longleftrightarrow> r_Subject r = s"
begin

lemma applies_no_subject: "ruleApplies sm tool [] r \<longleftrightarrow> ruleToolMatches (r_Tool r) tool \<and> r_Subject r = []"
  by (simp add: ruleApplies_def)

lemma applies_bare: "r_Subject r = [] \<Longrightarrow> ruleApplies sm tool s r \<longleftrightarrow> ruleToolMatches (r_Tool r) tool"
  by (simp add: ruleApplies_def)

lemma applies_exact:
  assumes "matchAnyExact rules tool s"
  shows "list_ex (ruleApplies sm tool s) rules"
  using assms literal no_meta
  by (fastforce simp: matchAnyExact_def ruleApplies_def list_ex_iff split: if_splits)

lemma applies_mono:
  "set rules \<subseteq> set rules' \<Longrightarrow> list_ex (ruleApplies sm tool s) rules \<Longrightarrow> list_ex (ruleApplies sm tool s) rules'"
  by (auto simp: list_ex_iff)

lemma applies_tool: "ruleApplies sm tool s r \<Longrightarrow> ruleToolMatches (r_Tool r) tool"
  by (auto simp: ruleApplies_def split: if_splits)

lemma find_applies:
  assumes "List.find (ruleApplies sm tool s) rules = Some r"
  shows "r \<in> set rules \<and> ruleToolMatches (r_Tool r) tool \<and> list_ex (ruleApplies sm tool s) rules"
proof -
  from assms have r: "r \<in> set rules" "ruleApplies sm tool s r" by (auto simp: find_Some_iff)
  then show ?thesis by (auto simp: list_ex_iff dest: applies_tool)
qed

lemma find_None_iff_no_match:
  "List.find (ruleApplies sm tool s) rules = None \<longleftrightarrow> \<not> list_ex (ruleApplies sm tool s) rules"
  by (auto simp: find_None_iff list_ex_iff)

end

lemma prefix_base_has_meta: "bashPrefixBase p = Some b \<Longrightarrow> hasGlobMeta p"
  by (auto simp: bashPrefixBase_def bashColonPrefixBase_def legacyBashSpaceStarPrefixBase_def
      HasSuffix_iff hasGlobMeta_def ContainsAny_def split: if_splits option.splits)

lemma no_prefix_base: "\<not> hasGlobMeta p \<Longrightarrow> bashPrefixBase p = None"
  using prefix_base_has_meta by (cases "bashPrefixBase p") auto

lemma matchGlob_no_meta: "\<not> hasGlobMeta p \<Longrightarrow> matchGlob p s \<longleftrightarrow> p = s"
  by (rule matchGlob_literal) (auto simp: hasGlobMeta_def ContainsAny_def list_ex_iff)

interpretation stored: rule_matching "ruleSubjectMatches lib" for lib
  by unfold_locales (auto simp: ruleSubjectMatches_def no_prefix_base matchGlob_no_meta)

interpretation raw: rule_matching "rawRuleSubjectMatches lib" for lib
  by unfold_locales (auto simp: rawRuleSubjectMatches_def no_prefix_base matchGlob_no_meta)

lemmas matchAny_exact = stored.applies_exact [folded matchAny_def]
lemmas matchAnyRaw_exact = raw.applies_exact [folded matchAnyRaw_def]

lemma matchAnyExact_mono:
  "set rules \<subseteq> set rules' \<Longrightarrow> matchAnyExact rules tool s \<Longrightarrow> matchAnyExact rules' tool s"
  by (auto simp: matchAnyExact_def list_ex_iff split: if_splits)

lemma matchAny_mono: "set rules \<subseteq> set rules' \<Longrightarrow> matchAny lib rules tool s \<Longrightarrow> matchAny lib rules' tool s"
  unfolding matchAny_def by (rule stored.applies_mono)

lemma matchAnyAllow_mono:
  "set rules \<subseteq> set rules' \<Longrightarrow> matchAnyAllow lib rules tool s \<Longrightarrow> matchAnyAllow lib rules' tool s"
  using matchAny_mono matchAnyExact_mono by (auto simp: matchAnyAllow_def split: if_splits)

lemma matchAny_bare: "r \<in> set rules \<Longrightarrow> r_Subject r = [] \<Longrightarrow> ruleToolMatches (r_Tool r) tool \<Longrightarrow>
   matchAny lib rules tool s \<and> matchAnyRaw lib rules tool s"
  by (auto simp: matchAny_def matchAnyRaw_def list_ex_iff ruleApplies_def)

subsection \<open>Printing and parsing\<close>

definition printable_rule :: "Rule \<Rightarrow> bool" where
  "printable_rule r \<longleftrightarrow>
     r_Tool r \<noteq> [] \<and> TrimSpace (r_Tool r) = r_Tool r
     \<and> CHR ''='' \<notin> set (r_Tool r) \<and> CHR ''('' \<notin> set (r_Tool r)
     \<and> (r_Subject r = [] \<longrightarrow> \<not> r_Literal r)
     \<and> (r_Literal r \<longrightarrow> \<not> is_space (last (r_Subject r)))"

lemma TrimSpace_ends:
  assumes "TrimSpace t = t" and "t \<noteq> []" and "x \<noteq> [] \<Longrightarrow> \<not> is_space (last x)"
  shows "TrimSpace (t @ x) = t @ x"
proof (rule TrimSpace_id)
  from assms(1,2) have "\<not> is_space (hd t)" "\<not> is_space (last t)"
    using hd_TrimSpace [of t] last_TrimSpace [of t] by auto
  with assms(2,3) show "t @ x = [] \<or> \<not> is_space (hd (t @ x)) \<and> \<not> is_space (last (t @ x))"
    by (cases "x = []") (auto simp: hd_append)
qed

lemma ParseRule_print:
  assumes "printable_rule r"
  shows "ParseRule (ruleConfigString r) = Some r"
proof -
  obtain t where t: "r_Tool r = t" by simp
  from assms t have w: "t \<noteq> []" "TrimSpace t = t" "CHR ''='' \<notin> set t" "CHR ''('' \<notin> set t"
    by (auto simp: printable_rule_def)
  have idx: "IndexByte t (CHR ''='') = None" "IndexByte t (CHR ''('') = None"
    using w by (simp_all add: IndexByte_None_iff)
  show ?thesis
  proof (cases "r_Subject r = []")
    case True
    with assms have "\<not> r_Literal r" by (simp add: printable_rule_def)
    with True t w idx show ?thesis by (simp add: ruleConfigString_def ParseRule_def Let_def)
  next
    case False
    then obtain x where x: "r_Subject r = x" "x \<noteq> []" by simp
    show ?thesis
    proof (cases "r_Literal r")
      case True
      with assms x have l: "\<not> is_space (last x)" by (simp add: printable_rule_def)
      have tr: "TrimSpace (t @ CHR ''='' # x) = t @ CHR ''='' # x"
        using w l x by (intro TrimSpace_ends) simp_all
      have eq: "IndexByte (t @ CHR ''='' # x) (CHR ''='') = Some (length t)"
        using w by (simp add: IndexByte_append)
      have paren: "case IndexByte (t @ CHR ''='' # x) (CHR ''('') of None \<Rightarrow> True
          | Some paren \<Rightarrow> length t < paren"
      proof (cases "IndexByte (t @ CHR ''='' # x) (CHR ''('')")
        case (Some i)
        then have i: "i < length (t @ CHR ''='' # x)" "(t @ CHR ''='' # x) ! i = CHR ''(''"
          by (auto simp: IndexByte_Some_iff)
        have "\<not> i < length t" using i(2) w(4) by (metis nth_append nth_mem)
        moreover have "i \<noteq> length t" using i(2) by auto
        ultimately show ?thesis using Some by simp
      qed simp
      show ?thesis
        using True x t w tr eq paren by (simp add: ruleConfigString_def ParseRule_def Let_def)
    next
      case False
      have sp: "\<not> is_space (CHR '')'')" by (simp add: is_space_def)
      have tr: "TrimSpace (t @ CHR ''('' # x @ '')'') = t @ CHR ''('' # x @ '')''"
        using w sp by (intro TrimSpace_ends) simp_all
      have paren: "IndexByte (t @ CHR ''('' # x @ '')'') (CHR ''('') = Some (length t)"
        using w by (simp add: IndexByte_append)
      have suf: "HasSuffix (t @ CHR ''('' # x @ '')'') '')''"
        unfolding HasSuffix_iff by (rule exI [of _ "t @ CHR ''('' # x"]) simp
      have eq: "IndexByte (t @ CHR ''('' # x @ '')'') (CHR ''='') = Some i \<Longrightarrow> \<not> i < length t" for i
        using w(3) by (auto simp: IndexByte_Some_iff nth_append) (metis nth_mem)
      show ?thesis
        using False x t w tr eq paren suf
        by (auto simp: ruleConfigString_def ParseRule_def Let_def split: option.splits)
    qed
  qed
qed

end
