(* ===== verification/Demo_Shell.thy ===== *)
theory Demo_Shell imports Shell_Parse begin

text \<open>
  A concrete instance of the shell library, on which the theorems that take the library
  as a parameter are exercised: a table of command lines with the trees that the Go parser
  builds for them (offsets included), a traversal that lists words, substitutions,
  assignments and redirects, and a brace splitter that leaves words alone.
\<close>

definition at :: "nat \<Rightarrow> nat \<Rightarrow> stmt_info" where
  "at s e = \<lparr>st_negated = False, st_background = False, st_coprocess = False, st_disown = False,
     st_redirs = [], st_pos = Some s, st_end = Some e, st_semicolon = None\<rparr>"

definition litw :: "gostr \<Rightarrow> sh_word" where
  "litw s = Word [Lit s] None None"

definition call :: "nat \<Rightarrow> nat \<Rightarrow> gostr list \<Rightarrow> sh_stmt" where
  "call s e args = Stmt (at s e) (CallExpr [] (map litw args))"

definition demo_table :: "(gostr \<times> sh_file) list" where
  "demo_table =
    [(''ls'', [call 0 2 [''ls'']]),
     (''rm x'', [call 0 4 [''rm'', ''x'']]),
     (''ls && rm x'', [Stmt (at 0 10) (BinaryCmd (call 0 2 [''ls'']) (call 6 10 [''rm'', ''x'']))]),
     (''go test'', [call 0 7 [''go'', ''test'']]),
     (''go test ./...'', [call 0 13 [''go'', ''test'', ''./...'']]),
     (''git status'', [call 0 10 [''git'', ''status'']]),
     (''echo $(id)'',
        [Stmt (at 0 10) (CallExpr [] [litw ''echo'', Word [OpaquePart CmdSubst] None None])]),
     (''ls 2>/dev/null'',
        [Stmt ((at 0 14)\<lparr>st_redirs :=
            [Some \<lparr>rd_op = RdrOut, rd_op_pos = Some 4, rd_n = Some (''2'', Some 3),
                   rd_word = Word [Lit ''/dev/null''] (Some 5) (Some 14), rd_hdoc = False,
                   rd_end = Some 14\<rparr>]\<rparr>)
           (CallExpr [] [litw ''ls''])])]"

fun walk_word :: "sh_word \<Rightarrow> sh_node list" where
  "walk_word NilWord = []"
| "walk_word (Word ps p e) =
     NWord (Word ps p e)
     # List.map_filter (\<lambda>q. case q of OpaquePart k \<Rightarrow> Some (NPart k) | _ \<Rightarrow> None) ps"

definition walk_redirs :: "sh_redirect option list \<Rightarrow> sh_node list" where
  "walk_redirs rs =
     concat (map (\<lambda>r. case r of None \<Rightarrow> [] | Some d \<Rightarrow> NRedirect d # walk_word (rd_word d)) rs)"

fun walk_stmt :: "sh_stmt \<Rightarrow> sh_node list" where
  "walk_stmt NilStmt = []"
| "walk_stmt (Stmt i (CallExpr as ws)) =
     List.map_filter (map_option NAssign) as @ concat (map walk_word ws) @ walk_redirs (st_redirs i)"
| "walk_stmt (Stmt i (BinaryCmd x y)) = walk_stmt x @ walk_stmt y @ walk_redirs (st_redirs i)"
| "walk_stmt (Stmt i OtherCmd) = NOther # walk_redirs (st_redirs i)"

definition demo_lib :: shell_lib where
  "demo_lib =
     \<lparr>sh_parse = (\<lambda>cmd. case map_of demo_table cmd of None \<Rightarrow> Inl ''parse error'' | Some f \<Rightarrow> Inr f),
      sh_walk = (\<lambda>f. concat (map walk_stmt f)),
      sh_split_braces = (\<lambda>w. w)\<rparr>"

lemma demo_parser_positions: "parser_positions demo_lib"
proof -
  have "list_all (\<lambda>(cmd, f). spans_ok 0 (length cmd) (concat (map call_spans f))) demo_table"
    by code_simp
  then show ?thesis
    by (auto simp: parser_positions_def demo_lib_def list_all_iff dest!: map_of_SomeD split: option.splits)
qed

end
