(* ===== verification/Permission_Policy.thy ===== *)
theory Permission_Policy imports Permission_Rules Demo_Shell begin

text \<open>
  The decision procedure of \<open>internal/permission/permission.go\<close>: a policy is four rule
  lists and a fallback mode, and a tool call is judged deny > session allow > ask > allow >
  fallback. Compound shell commands are judged segment by segment through the same
  procedure; the recursion runs on fuel (\<open>None\<close> is running out of it) and
  \<open>DecideSubject\<close> starts with more fuel than the command has bytes, which is enough
  because every segment of a compound command is shorter than the command.
\<close>

record Policy =
  p_Mode :: Decision
  p_Allow :: "Rule list"
  p_Ask :: "Rule list"
  p_Deny :: "Rule list"
  p_SessionAllow :: "Rule list"
  p_AllowDynamicBash :: bool

definition New :: "gostr \<Rightarrow> gostr list \<Rightarrow> gostr list \<Rightarrow> gostr list \<Rightarrow> Policy" where
  "New mode allow ask deny =
     \<lparr>p_Mode = ParseDecision mode, p_Allow = parseRules allow, p_Ask = parseRules ask,
      p_Deny = parseDenyRules deny, p_SessionAllow = [], p_AllowDynamicBash = False\<rparr>"

definition WithSessionAllow :: "Policy \<Rightarrow> gostr list \<Rightarrow> Policy" where
  "WithSessionAllow p rules = p\<lparr>p_SessionAllow := p_SessionAllow p @ parseRules rules\<rparr>"

definition WithAllowDynamicBashFallback :: "Policy \<Rightarrow> bool \<Rightarrow> Policy" where
  "WithAllowDynamicBashFallback p enabled = p\<lparr>p_AllowDynamicBash := enabled\<rparr>"

subsection \<open>The subjects of a call\<close>

definition subjectKeys :: "gostr list" where
  "subjectKeys = [''command'', ''file_path'', ''path'', ''source_path'', ''destination_path'', ''pattern'']"

definition stringArg :: "(gostr \<times> json) list \<Rightarrow> gostr \<Rightarrow> gostr" where
  "stringArg m key = (case objGet m key of Some (JStr s) \<Rightarrow> s | _ \<Rightarrow> [])"

fun firstKey :: "(gostr \<times> json) list \<Rightarrow> gostr list \<Rightarrow> gostr list" where
  "firstKey m [] = []"
| "firstKey m (k # ks) = (if stringArg m k \<noteq> [] then [stringArg m k] else firstKey m ks)"

definition Subjects :: "raw_json \<Rightarrow> gostr list" where
  "Subjects args =
     (case unmarshalMap args of
        None \<Rightarrow> []
      | Some m \<Rightarrow>
          (let src = stringArg m ''source_path''; dst = stringArg m ''destination_path'' in
           if src \<noteq> [] \<and> dst \<noteq> [] then src # (if dst \<noteq> src then [dst] else [])
           else firstKey m subjectKeys))"

definition Subject :: "raw_json \<Rightarrow> gostr" where
  "Subject args = (case Subjects args of [] \<Rightarrow> [] | s # _ \<Rightarrow> s)"

subsection \<open>Decisions\<close>

text \<open>The loop \<open>decideBashSegments\<close> and \<open>DecideSubjects\<close> share: Deny leaves it at once.\<close>

fun decideLoop :: "('s \<Rightarrow> Decision option) \<Rightarrow> 's list \<Rightarrow> Decision \<Rightarrow> Decision option" where
  "decideLoop f [] out = Some out"
| "decideLoop f (s # ss) out =
     (case f s of
        None \<Rightarrow> None
      | Some Deny \<Rightarrow> Some Deny
      | Some Ask \<Rightarrow> decideLoop f ss Ask
      | Some Allow \<Rightarrow> decideLoop f ss out)"

definition decideBashSegments ::
    "shell_lib \<Rightarrow> (bool \<Rightarrow> gostr \<Rightarrow> Decision option) \<Rightarrow> bool \<Rightarrow> gostr list \<Rightarrow> Decision option" where
  "decideBashSegments lib decide readOnly parts =
     decideLoop (\<lambda>sub. decide (if \<not> readOnly then isReadOnlyBashSubject lib sub else readOnly) sub)
       parts Allow"

fun decideSubjectF ::
    "shell_lib \<Rightarrow> Policy \<Rightarrow> nat \<Rightarrow> gostr \<Rightarrow> bool \<Rightarrow> gostr \<Rightarrow> Decision option" where
  "decideSubjectF lib p 0 toolName readOnly subject = None"
| "decideSubjectF lib p (Suc fuel) toolName readOnly subject =
     (if canonicalRuleTool toolName = ''bash'' then
        (let approvalClass = classifyBashApproval lib subject;
             requiresExact = (approvalClass \<noteq> bashApprovalReusable);
             requiresHuman = (approvalClass = bashApprovalRequireHuman);
             parts = DecomposeBashCommand lib subject
         in
         if matchAnyRaw lib (p_Deny p) toolName subject then Some Deny
         else if matchAnyExact (p_SessionAllow p) toolName subject then Some Allow
         else if \<not> requiresExact \<and> parts = None
           \<and> matchAnyAllow lib (p_SessionAllow p) toolName subject then Some Allow
         else if matchAnyRaw lib (p_Ask p) toolName subject then Some Ask
         else if matchAnyExact (p_Allow p) toolName subject then Some Allow
         else
           (case parts of
              Some segs \<Rightarrow>
                decideBashSegments lib (decideSubjectF lib p fuel ''bash'') readOnly segs
            | None \<Rightarrow>
                if requiresHuman \<and> p_Mode p = Deny then Some Deny
                else if requiresHuman \<and> p_AllowDynamicBash p \<and> p_Mode p = Allow then Some Allow
                else if requiresHuman then Some Ask
                else if requiresExact \<and> readOnly then Some Allow
                else if requiresExact then Some (p_Mode p)
                else if matchAnyAllow lib (p_Allow p) toolName subject then Some Allow
                else if readOnly then Some Allow
                else Some (p_Mode p)))
      else
        (if matchAny lib (p_Deny p) toolName subject then Some Deny
         else if matchAny lib (p_SessionAllow p) toolName subject then Some Allow
         else if matchAny lib (p_Ask p) toolName subject then Some Ask
         else if matchAny lib (p_Allow p) toolName subject then Some Allow
         else if readOnly then Some Allow
         else Some (p_Mode p)))"

definition DecideSubject ::
    "shell_lib \<Rightarrow> Policy \<Rightarrow> gostr \<Rightarrow> bool \<Rightarrow> gostr \<Rightarrow> Decision option" where
  "DecideSubject lib p toolName readOnly subject =
     decideSubjectF lib p (Suc (length subject)) toolName readOnly subject"

definition DecideSubjects ::
    "shell_lib \<Rightarrow> Policy \<Rightarrow> gostr \<Rightarrow> bool \<Rightarrow> gostr list \<Rightarrow> Decision option" where
  "DecideSubjects lib p toolName readOnly subjects =
     (if subjects = [] then DecideSubject lib p toolName readOnly []
      else decideLoop (DecideSubject lib p toolName readOnly) subjects Allow)"

definition Decide ::
    "shell_lib \<Rightarrow> Policy \<Rightarrow> gostr \<Rightarrow> bool \<Rightarrow> raw_json \<Rightarrow> Decision option" where
  "Decide lib p toolName readOnly args = DecideSubjects lib p toolName readOnly (Subjects args)"

definition ExplicitlyDenies :: "shell_lib \<Rightarrow> Policy \<Rightarrow> gostr \<Rightarrow> raw_json \<Rightarrow> bool" where
  "ExplicitlyDenies lib p toolName args =
     (let subjects = (if Subjects args = [] then [[]] else Subjects args)
      in list_ex (\<lambda>subject. matchAnyRaw lib (p_Deny p) toolName subject) subjects)"

subsection \<open>The rule behind a decision\<close>

fun matchedCandidate ::
    "shell_lib \<Rightarrow> Policy \<Rightarrow> gostr \<Rightarrow> Decision \<Rightarrow> Rule list \<Rightarrow> bool \<Rightarrow> gostr list \<Rightarrow> gostr option" where
  "matchedCandidate lib p toolName decision rules raw [] = None"
| "matchedCandidate lib p toolName decision rules raw (c # cs) =
     (if DecideSubject lib p toolName False c \<noteq> Some decision
      then matchedCandidate lib p toolName decision rules raw cs
      else
        (case firstMatchingRule lib rules toolName c raw of
           Some rule \<Rightarrow> Some (ruleConfigString rule)
         | None \<Rightarrow> matchedCandidate lib p toolName decision rules raw cs))"

fun matchedSubject ::
    "shell_lib \<Rightarrow> Policy \<Rightarrow> gostr \<Rightarrow> Decision \<Rightarrow> Rule list \<Rightarrow> bool \<Rightarrow> gostr list \<Rightarrow> gostr option" where
  "matchedSubject lib p toolName decision rules raw [] = None"
| "matchedSubject lib p toolName decision rules raw (s # ss) =
     (let candidates =
        s # (if raw then (case DecomposeBashCommand lib s of None \<Rightarrow> [] | Some parts \<Rightarrow> parts) else [])
      in case matchedCandidate lib p toolName decision rules raw candidates of
           Some r \<Rightarrow> Some r
         | None \<Rightarrow> matchedSubject lib p toolName decision rules raw ss)"

definition MatchedRule ::
    "shell_lib \<Rightarrow> Policy \<Rightarrow> gostr \<Rightarrow> Decision \<Rightarrow> raw_json \<Rightarrow> gostr option" where
  "MatchedRule lib p toolName decision args =
     (if decision = Allow then None
      else
        (let rules = (if decision = Ask then p_Ask p else p_Deny p);
             subjects = (if Subjects args = [] then [[]] else Subjects args);
             raw = (canonicalRuleTool toolName = ''bash'')
         in matchedSubject lib p toolName decision rules raw subjects))"

subsection \<open>The loop\<close>

lemma decideLoop_total:
  "(\<And>s. s \<in> set ss \<Longrightarrow> f s \<noteq> None) \<Longrightarrow> decideLoop f ss out \<noteq> None"
proof (induction ss arbitrary: out)
  case (Cons s ss)
  then have ih: "\<And>out. decideLoop f ss out \<noteq> None" and s: "f s \<noteq> None" by auto
  from s obtain d where "f s = Some d" by blast
  then show ?case using ih by (cases d) auto
qed simp

lemma decideLoop_cong:
  "(\<And>s. s \<in> set ss \<Longrightarrow> f s = g s) \<Longrightarrow> decideLoop f ss out = decideLoop g ss out"
proof (induction ss arbitrary: out)
  case (Cons s ss)
  from Cons.prems [of s] have "f s = g s" by simp
  moreover from Cons have "\<And>out. decideLoop f ss out = decideLoop g ss out" by simp
  ultimately show ?case by (simp cong: option.case_cong Decision.case_cong)
qed simp

lemma decideLoop_max:
  assumes "\<And>s. s \<in> set ss \<Longrightarrow> f s = Some (d s)" and "out \<noteq> Deny"
  shows "decideLoop f ss out = Some (fold (\<lambda>s c. max (d s) c) ss out)"
  using assms
proof (induction ss arbitrary: out)
  case (Cons s ss)
  have top: "fold (\<lambda>s c. max (d s) c) xs Deny = Deny" for xs
    by (induction xs) (simp_all add: max_absorb2)
  have ask: "max Ask out = Ask" using Cons.prems(2) by (cases out) (simp_all add: max_def less_eq_Decision_def)
  show ?case
    using Cons ask by (cases "d s") (simp_all add: top max_absorb1 max_absorb2)
qed simp

lemma decideLoop_SomeE:
  assumes "decideLoop f ss out = Some r" and "r \<noteq> Deny" and "s \<in> set ss"
  shows "\<exists>d. f s = Some d \<and> d \<le> r"
  using assms
proof (induction ss arbitrary: out)
  case (Cons a ss)
  have ask: "decideLoop f xs Ask = Some r \<Longrightarrow> r \<noteq> Deny \<Longrightarrow> r = Ask" for xs
    by (induction xs) (auto split: option.splits Decision.splits)
  show ?case using Cons ask by (auto split: option.splits Decision.splits)
qed simp

lemma decideLoop_mono:
  assumes "\<And>s d. s \<in> set ss \<Longrightarrow> f s = Some d \<Longrightarrow> \<exists>d'. g s = Some d' \<and> d \<le> d'"
    and "decideLoop f ss out = Some r" and "out \<le> out'" and "out' \<noteq> Deny"
  shows "\<exists>r'. decideLoop g ss out' = Some r' \<and> r \<le> r'"
  using assms
proof (induction ss arbitrary: out out')
  case (Cons s ss)
  from Cons.prems(2) obtain d where d: "f s = Some d" by (cases "f s") auto
  with Cons.prems(1) obtain d' where d': "g s = Some d'" "d \<le> d'" by auto
  have h: "\<And>x d. x \<in> set ss \<Longrightarrow> f x = Some d \<Longrightarrow> \<exists>d'. g x = Some d' \<and> d \<le> d'"
    using Cons.prems(1) by simp
  have ih: "\<exists>r'. decideLoop g ss o2 = Some r' \<and> r \<le> r'"
    if "decideLoop f ss o1 = Some r" "o1 \<le> o2" "o2 \<noteq> Deny" for o1 o2
    using Cons.IH h that by blast
  have o: "out \<le> Ask" using Cons.prems(3,4) by (cases out; cases out') (simp_all add: less_eq_Decision_def)
  show ?case
  proof (cases d')
    case Deny
    then show ?thesis using d' by simp
  next
    case Ask
    then have "\<exists>o1 \<le> Ask. decideLoop f ss o1 = Some r"
      using d d' o Cons.prems(2)
      by (intro exI [of _ "if d = Ask then Ask else out"]) (cases d; simp add: less_eq_Decision_def)
    then show ?thesis using ih Ask d' by auto
  next
    case Allow
    then have "d = Allow" using d' by simp
    then show ?thesis using d d' Allow Cons.prems(2,3,4) ih by simp
  qed
qed simp

subsection \<open>The fuel is enough\<close>

lemma decideSubjectF_enough:
  assumes "parser_positions lib"
  shows "length subject < fuel \<Longrightarrow> decideSubjectF lib p fuel tool ro subject \<noteq> None"
proof (induction fuel arbitrary: tool ro subject)
  case (Suc fuel)
  have "decideBashSegments lib (decideSubjectF lib p fuel ''bash'') ro segs \<noteq> None"
    if "DecomposeBashCommand lib subject = Some segs" for segs
    unfolding decideBashSegments_def
  proof (rule decideLoop_total)
    fix s
    assume "s \<in> set segs"
    then have "length s < fuel"
      using DecomposeBashCommand_shorter [OF assms that, of s] Suc.prems by linarith
    then show "decideSubjectF lib p fuel ''bash'' (if \<not> ro then isReadOnlyBashSubject lib s else ro) s \<noteq> None"
      by (rule Suc.IH)
  qed
  then show ?case by (auto simp: Let_def split: option.splits)
qed simp

lemma decideSubjectF_fuel:
  assumes "parser_positions lib"
  shows "length subject < fuel \<Longrightarrow>
    decideSubjectF lib p fuel tool ro subject = DecideSubject lib p tool ro subject"
  unfolding DecideSubject_def
proof (induction "length subject" arbitrary: tool ro subject fuel rule: less_induct)
  case less
  then obtain f where f: "fuel = Suc f" "length subject \<le> f" by (cases fuel) auto
  have "decideBashSegments lib (decideSubjectF lib p f ''bash'') ro segs
      = decideBashSegments lib (decideSubjectF lib p (length subject) ''bash'') ro segs"
    if "DecomposeBashCommand lib subject = Some segs" for segs
    unfolding decideBashSegments_def
  proof (rule decideLoop_cong)
    fix s
    assume "s \<in> set segs"
    then have l: "length s < length subject" by (rule DecomposeBashCommand_shorter [OF assms that])
    let ?ro = "if \<not> ro then isReadOnlyBashSubject lib s else ro"
    show "decideSubjectF lib p f ''bash'' ?ro s = decideSubjectF lib p (length subject) ''bash'' ?ro s"
      using less.hyps [OF l] l f(2) by (metis less_le_trans)
  qed
  then show ?case
    by (cases "DecomposeBashCommand lib subject"; cases ro) (simp_all add: f(1) Let_def)
qed

lemma DecideSubject_total:
  "parser_positions lib \<Longrightarrow> \<exists>d. DecideSubject lib p tool ro subject = Some d"
  using decideSubjectF_enough [of lib subject "Suc (length subject)" p tool ro]
  by (auto simp: DecideSubject_def)

text \<open>The equation of the source, with the recursive call in it and no fuel.\<close>

lemma DecideSubject_segments:
  assumes "parser_positions lib" and "DecomposeBashCommand lib subject = Some segs"
  shows "decideBashSegments lib (decideSubjectF lib p (length subject) ''bash'') ro segs
    = decideBashSegments lib (DecideSubject lib p ''bash'') ro segs"
  unfolding decideBashSegments_def
proof (rule decideLoop_cong)
  fix s
  assume "s \<in> set segs"
  then have "length s < length subject" by (rule DecomposeBashCommand_shorter [OF assms])
  then show "decideSubjectF lib p (length subject) ''bash'' (if \<not> ro then isReadOnlyBashSubject lib s else ro) s
      = DecideSubject lib p ''bash'' (if \<not> ro then isReadOnlyBashSubject lib s else ro) s"
    by (rule decideSubjectF_fuel [OF assms(1)])
qed

lemma DecideSubjects_total:
  "parser_positions lib \<Longrightarrow> \<exists>d. DecideSubjects lib p tool ro subjects = Some d"
  using decideLoop_total [of subjects "DecideSubject lib p tool ro" Allow] DecideSubject_total [of lib p tool ro]
  by (auto simp: DecideSubjects_def)

subsection \<open>Precedence\<close>

lemma DecideSubject_deny_rule:
  assumes "if canonicalRuleTool tool = ''bash'' then matchAnyRaw lib (p_Deny p) tool subject
    else matchAny lib (p_Deny p) tool subject"
  shows "DecideSubject lib p tool ro subject = Some Deny"
  using assms by (simp add: DecideSubject_def Let_def split: if_splits)

lemma DecideSubjects_deny:
  assumes "parser_positions lib" and "s \<in> set subjects"
    and "DecideSubject lib p tool ro s = Some Deny"
  shows "DecideSubjects lib p tool ro subjects = Some Deny"
proof -
  obtain d where d: "DecideSubjects lib p tool ro subjects = Some d"
    using DecideSubjects_total [OF assms(1)] by blast
  from assms(2) have ne: "subjects \<noteq> []" by auto
  have "d = Deny"
  proof (rule ccontr)
    assume "d \<noteq> Deny"
    then obtain d' where "DecideSubject lib p tool ro s = Some d'" "d' \<le> d"
      using decideLoop_SomeE d ne assms(2) by (force simp: DecideSubjects_def)
    with assms(3) \<open>d \<noteq> Deny\<close> show False by simp
  qed
  with d show ?thesis by simp
qed

lemma DecideSubject_compound:
  assumes "parser_positions lib" and "DecomposeBashCommand lib subject = Some segs"
    and "canonicalRuleTool tool = ''bash''"
    and "\<not> matchAnyRaw lib (p_Deny p) tool subject"
    and "\<not> matchAnyExact (p_SessionAllow p) tool subject"
    and "\<not> matchAnyRaw lib (p_Ask p) tool subject"
    and "\<not> matchAnyExact (p_Allow p) tool subject"
  shows "DecideSubject lib p tool ro subject =
    decideBashSegments lib (DecideSubject lib p ''bash'') ro segs"
proof -
  have "DecideSubject lib p tool ro subject
      = decideBashSegments lib (decideSubjectF lib p (length subject) ''bash'') ro segs"
    using assms(2-) by (simp add: DecideSubject_def Let_def)
  then show ?thesis by (simp add: DecideSubject_segments [OF assms(1,2)])
qed

subsection \<open>Stricter policies\<close>

text \<open>
  One policy is stricter than another when it has more deny rules, fewer allow rules, and
  a fallback and a dynamic-shell override that concede no more; ask rules are the same.
\<close>

definition stricter :: "Policy \<Rightarrow> Policy \<Rightarrow> bool" where
  "stricter p q \<longleftrightarrow>
     p_Mode p \<le> p_Mode q \<and> set (p_Deny p) \<subseteq> set (p_Deny q) \<and> p_Ask p = p_Ask q
     \<and> set (p_Allow q) \<subseteq> set (p_Allow p) \<and> set (p_SessionAllow q) \<subseteq> set (p_SessionAllow p)
     \<and> (p_AllowDynamicBash q \<longrightarrow> p_AllowDynamicBash p)"

lemma matchAnyRaw_mono:
  "set rs \<subseteq> set rs' \<Longrightarrow> matchAnyRaw lib rs tool s \<Longrightarrow> matchAnyRaw lib rs' tool s"
  unfolding matchAnyRaw_def by (rule raw.applies_mono)

lemmas rule_list_mono = matchAny_mono matchAnyRaw_mono matchAnyExact_mono matchAnyAllow_mono

lemma stricter_matches:
  assumes "stricter p q"
  shows "matchAnyRaw lib (p_Deny p) tool s \<Longrightarrow> matchAnyRaw lib (p_Deny q) tool s"
    and "matchAny lib (p_Deny p) tool s \<Longrightarrow> matchAny lib (p_Deny q) tool s"
    and "matchAnyExact (p_SessionAllow q) tool s \<Longrightarrow> matchAnyExact (p_SessionAllow p) tool s"
    and "matchAnyAllow lib (p_SessionAllow q) tool s \<Longrightarrow> matchAnyAllow lib (p_SessionAllow p) tool s"
    and "matchAny lib (p_SessionAllow q) tool s \<Longrightarrow> matchAny lib (p_SessionAllow p) tool s"
    and "matchAnyExact (p_Allow q) tool s \<Longrightarrow> matchAnyExact (p_Allow p) tool s"
    and "matchAnyAllow lib (p_Allow q) tool s \<Longrightarrow> matchAnyAllow lib (p_Allow p) tool s"
    and "matchAny lib (p_Allow q) tool s \<Longrightarrow> matchAny lib (p_Allow p) tool s"
    and "p_Ask p = p_Ask q"
proof -
  have sub: "set (p_Deny p) \<subseteq> set (p_Deny q)" "set (p_Allow q) \<subseteq> set (p_Allow p)"
    "set (p_SessionAllow q) \<subseteq> set (p_SessionAllow p)" "p_Ask p = p_Ask q"
    using assms by (simp_all add: stricter_def)
  note d = rule_list_mono [OF sub(1)] and a = rule_list_mono [OF sub(2)]
    and se = rule_list_mono [OF sub(3)]
  show "matchAnyRaw lib (p_Deny p) tool s \<Longrightarrow> matchAnyRaw lib (p_Deny q) tool s" by (rule d)
  show "matchAny lib (p_Deny p) tool s \<Longrightarrow> matchAny lib (p_Deny q) tool s" by (rule d)
  show "matchAnyExact (p_SessionAllow q) tool s \<Longrightarrow> matchAnyExact (p_SessionAllow p) tool s" by (rule se)
  show "matchAnyAllow lib (p_SessionAllow q) tool s \<Longrightarrow> matchAnyAllow lib (p_SessionAllow p) tool s"
    by (rule se)
  show "matchAny lib (p_SessionAllow q) tool s \<Longrightarrow> matchAny lib (p_SessionAllow p) tool s" by (rule se)
  show "matchAnyExact (p_Allow q) tool s \<Longrightarrow> matchAnyExact (p_Allow p) tool s" by (rule a)
  show "matchAnyAllow lib (p_Allow q) tool s \<Longrightarrow> matchAnyAllow lib (p_Allow p) tool s" by (rule a)
  show "matchAny lib (p_Allow q) tool s \<Longrightarrow> matchAny lib (p_Allow p) tool s" by (rule a)
  show "p_Ask p = p_Ask q" by (rule sub)
qed

lemma stricter_fallback:
  assumes "stricter p q"
  shows "p_Mode p \<le> p_Mode q" and "p_Mode p = Deny \<Longrightarrow> p_Mode q = Deny"
    and "p_Mode q = Allow \<Longrightarrow> p_Mode p = Allow" and "p_AllowDynamicBash q \<Longrightarrow> p_AllowDynamicBash p"
  using assms by (auto simp: stricter_def)

text \<open>
  The outcome of one unfolding, with the verdict on the segments of a compound command
  as an argument.
\<close>

definition decideStep ::
    "shell_lib \<Rightarrow> Policy \<Rightarrow> gostr \<Rightarrow> bool \<Rightarrow> gostr \<Rightarrow> Decision \<Rightarrow> Decision" where
  "decideStep lib p toolName readOnly subject segs_decision =
     (if canonicalRuleTool toolName = ''bash'' then
        (if matchAnyRaw lib (p_Deny p) toolName subject then Deny
         else if matchAnyExact (p_SessionAllow p) toolName subject then Allow
         else if classifyBashApproval lib subject = bashApprovalReusable
           \<and> DecomposeBashCommand lib subject = None
           \<and> matchAnyAllow lib (p_SessionAllow p) toolName subject then Allow
         else if matchAnyRaw lib (p_Ask p) toolName subject then Ask
         else if matchAnyExact (p_Allow p) toolName subject then Allow
         else if DecomposeBashCommand lib subject \<noteq> None then segs_decision
         else if classifyBashApproval lib subject = bashApprovalRequireHuman then
           (if p_Mode p = Deny then Deny
            else if p_AllowDynamicBash p \<and> p_Mode p = Allow then Allow else Ask)
         else if classifyBashApproval lib subject \<noteq> bashApprovalReusable then
           (if readOnly then Allow else p_Mode p)
         else if matchAnyAllow lib (p_Allow p) toolName subject then Allow
         else if readOnly then Allow
         else p_Mode p)
      else
        (if matchAny lib (p_Deny p) toolName subject then Deny
         else if matchAny lib (p_SessionAllow p) toolName subject then Allow
         else if matchAny lib (p_Ask p) toolName subject then Ask
         else if matchAny lib (p_Allow p) toolName subject then Allow
         else if readOnly then Allow
         else p_Mode p))"

lemma decideSubject_step:
  assumes "\<And>segs. DecomposeBashCommand lib subject = Some segs \<Longrightarrow>
     decideBashSegments lib (decideSubjectF lib p (length subject) ''bash'') ro segs = Some sd"
  shows "DecideSubject lib p tool ro subject = Some (decideStep lib p tool ro subject sd)"
proof (cases "DecomposeBashCommand lib subject")
  case None
  then show ?thesis by (simp add: DecideSubject_def decideStep_def Let_def)
next
  case (Some segs)
  then show ?thesis using assms [OF Some] by (simp add: DecideSubject_def decideStep_def Let_def)
qed

lemma decideStep_stricter:
  assumes st: "stricter p q" and sd: "sd \<le> sd'"
  shows "decideStep lib p tool ro s sd \<le> decideStep lib q tool ro s sd'"
proof (cases "canonicalRuleTool tool = ''bash''")
  case bash: True
  note m = stricter_matches [OF st] and f = stricter_fallback [OF st]
  let ?r = "decideStep lib p tool ro s sd" and ?r' = "decideStep lib q tool ro s sd'"
  consider (deny) "matchAnyRaw lib (p_Deny q) tool s"
    | (session) "matchAnyExact (p_SessionAllow p) tool s" "\<not> matchAnyRaw lib (p_Deny q) tool s"
    | (rest) "\<not> matchAnyRaw lib (p_Deny q) tool s" "\<not> matchAnyExact (p_SessionAllow p) tool s"
    by blast
  then show ?thesis
  proof cases
    case deny
    then show ?thesis using bash by (simp add: decideStep_def)
  next
    case session
    with m(1) have "?r = Allow" using bash by (auto simp: decideStep_def)
    then show ?thesis by simp
  next
    case rest
    with m(1,3) have no: "\<not> matchAnyRaw lib (p_Deny p) tool s" "\<not> matchAnyExact (p_SessionAllow q) tool s"
      by blast+
    show ?thesis
    proof (cases "DecomposeBashCommand lib s")
      case None
      then show ?thesis
        using bash rest no m(4,6,7,9) f
        by (cases "classifyBashApproval lib s"; cases ro) (auto simp: decideStep_def)
    next
      case (Some segs)
      then show ?thesis using bash rest no m(6,9) sd by (auto simp: decideStep_def)
    qed
  qed
next
  case False
  note m = stricter_matches [OF st] and f = stricter_fallback [OF st]
  show ?thesis using False m(2,5,8,9) f by (auto simp: decideStep_def)
qed

lemma DecideSubject_stricter:
  assumes pos: "parser_positions lib" and st: "stricter p q"
  shows "\<exists>d d'. DecideSubject lib p tool ro s = Some d \<and> DecideSubject lib q tool ro s = Some d' \<and> d \<le> d'"
proof (induction "length s" arbitrary: tool ro s rule: less_induct)
  case less
  have "\<exists>sd sd'. (\<forall>segs. DecomposeBashCommand lib s = Some segs \<longrightarrow>
      decideBashSegments lib (DecideSubject lib p ''bash'') ro segs = Some sd
      \<and> decideBashSegments lib (DecideSubject lib q ''bash'') ro segs = Some sd') \<and> sd \<le> sd'"
  proof (cases "DecomposeBashCommand lib s")
    case None
    then show ?thesis by auto
  next
    case (Some segs)
    let ?f = "\<lambda>p x. DecideSubject lib p ''bash'' (if \<not> ro then isReadOnlyBashSubject lib x else ro) x"
    have mono: "\<exists>d'. ?f q x = Some d' \<and> d \<le> d'" if x: "x \<in> set segs" and d: "?f p x = Some d" for x d
      using less.hyps [OF DecomposeBashCommand_shorter [OF pos Some x]] d by fastforce
    obtain sd where sd: "decideLoop (?f p) segs Allow = Some sd"
      using decideLoop_total [of segs "?f p" Allow] DecideSubject_total [OF pos] by blast
    from decideLoop_mono [of segs "?f p" "?f q", OF mono sd] obtain sd' where
      "decideLoop (?f q) segs Allow = Some sd'" "sd \<le> sd'" by auto
    with sd Some show ?thesis by (auto simp: decideBashSegments_def)
  qed
  then obtain sd sd' where
    p: "\<And>segs. DecomposeBashCommand lib s = Some segs \<Longrightarrow>
      decideBashSegments lib (DecideSubject lib p ''bash'') ro segs = Some sd" and
    q: "\<And>segs. DecomposeBashCommand lib s = Some segs \<Longrightarrow>
      decideBashSegments lib (DecideSubject lib q ''bash'') ro segs = Some sd'" and le: "sd \<le> sd'"
    by blast
  have "DecideSubject lib p tool ro s = Some (decideStep lib p tool ro s sd)"
    by (rule decideSubject_step) (simp add: DecideSubject_segments [OF pos] p)
  moreover have "DecideSubject lib q tool ro s = Some (decideStep lib q tool ro s sd')"
    by (rule decideSubject_step) (simp add: DecideSubject_segments [OF pos] q)
  ultimately show ?case using decideStep_stricter [OF st le] by blast
qed

lemma DecideSubjects_value:
  assumes pos: "parser_positions lib" and ne: "subjects \<noteq> []"
  shows "\<exists>d. (\<forall>s \<in> set subjects. DecideSubject lib p tool ro s = Some (d s))
    \<and> DecideSubjects lib p tool ro subjects = Some (fold (\<lambda>s c. max (d s) c) subjects Allow)"
proof -
  let ?d = "\<lambda>s. the (DecideSubject lib p tool ro s)"
  have d: "DecideSubject lib p tool ro s = Some (?d s)" for s
    using DecideSubject_total [OF pos, of p tool ro s] by auto
  with ne have "DecideSubjects lib p tool ro subjects = Some (fold (\<lambda>s c. max (?d s) c) subjects Allow)"
    using decideLoop_max [of subjects "DecideSubject lib p tool ro" ?d Allow] by (simp add: DecideSubjects_def)
  with d show ?thesis by (intro exI [of _ ?d]) simp
qed

subsection \<open>Properties\<close>

definition demo_policy :: Policy where
  "demo_policy = New ''allow'' [''Bash(go test:*)'', ''Bash(*)''] [] [''Bash(rm:*)'']"

lemma fold_max_Max:
  assumes "xs \<noteq> []"
  shows "fold (\<lambda>s c. max (d s) c) xs Allow = Max (d ` set xs)"
proof -
  have "fold (\<lambda>s c. max (d s) c) xs Allow = Max (insert Allow (d ` set xs))"
  proof (rule Max_eqI [symmetric])
    fix y
    assume "y \<in> insert Allow (d ` set xs)"
    then show "y \<le> fold (\<lambda>s c. max (d s) c) xs Allow" by (auto intro: fold_max_ge)
  next
    show "fold (\<lambda>s c. max (d s) c) xs Allow \<in> insert Allow (d ` set xs)" by (rule fold_max_in)
  qed simp
  also have "\<dots> = max Allow (Max (d ` set xs))" using assms by (intro Max_insert) auto
  finally show ?thesis by (simp add: max_absorb2)
qed

lemma Max_Allow_iff:
  assumes "xs \<noteq> []"
  shows "Max (d ` set xs) = Allow \<longleftrightarrow> (\<forall>x \<in> set xs. d x = Allow)"
proof
  assume "Max (d ` set xs) = Allow"
  then have "d x \<le> Allow" if "x \<in> set xs" for x using that Max_ge [of "d ` set xs" "d x"] by simp
  then show "\<forall>x \<in> set xs. d x = Allow" by auto
next
  assume "\<forall>x \<in> set xs. d x = Allow"
  moreover have "Max (d ` set xs) \<in> d ` set xs" using assms by (intro Max_in) auto
  ultimately show "Max (d ` set xs) = Allow" by auto
qed





text \<open>
  A call with several subjects is as restricted as its most restricted subject: the
  decision is the maximum, in the order Allow < Ask < Deny, of the decisions of the subjects.
\<close>

theorem decide_is_strictest_subject:
  assumes "parser_positions lib" and "Subjects args \<noteq> []"
  shows "\<exists>d. (\<forall>s \<in> set (Subjects args). DecideSubject lib p tool ro s = Some (d s))
    \<and> Decide lib p tool ro args = Some (Max (d ` set (Subjects args)))"
proof -
  obtain d where d: "\<And>s. s \<in> set (Subjects args) \<Longrightarrow> DecideSubject lib p tool ro s = Some (d s)"
    "Decide lib p tool ro args = Some (fold (\<lambda>s c. max (d s) c) (Subjects args) Allow)"
    using DecideSubjects_value [OF assms] unfolding Decide_def by blast
  then show ?thesis using fold_max_Max [OF assms(2)] by auto
qed

theorem decide_is_strictest_subject_witness:
  "\<exists>d. Decide demo_lib demo_policy ''move_file'' False
     (RawJson [] (JObj [(''source_path'', JStr ''a''), (''destination_path'', JStr ''b'')])) = Some (Max (d ` {''a'', ''b''}))"
proof -
  let ?args = "RawJson [] (JObj [(''source_path'', JStr ''a''), (''destination_path'', JStr ''b'')])"
  have s: "Subjects ?args = [''a'', ''b'']" by code_simp
  then have "Subjects ?args \<noteq> []" by simp
  from decide_is_strictest_subject [OF demo_parser_positions this, of demo_policy "''move_file''" False]
  show ?thesis unfolding s by auto
qed



text \<open>
  C21. A shell command whose structure the classifier cannot vouch for (command or process
  substitution, a computed command name, an interpreter or wrapper invocation) is never
  allowed by a prefix or wildcard rule: without a rule for exactly this command text, and
  without the explicit dynamic-shell override under an Allow fallback, the answer is Ask or
  Deny.
\<close>

theorem dynamic_shell_needs_human:
  assumes "canonicalRuleTool tool = ''bash''"
    and "classifyBashApproval lib subject = bashApprovalRequireHuman"
    and "DecomposeBashCommand lib subject = None"
    and "\<not> matchAnyExact (p_SessionAllow p) tool subject" and "\<not> matchAnyExact (p_Allow p) tool subject"
    and "\<not> (p_AllowDynamicBash p \<and> p_Mode p = Allow)"
  shows "\<exists>d. DecideSubject lib p tool ro subject = Some d \<and> d \<noteq> Allow
    \<and> (d = Deny \<longleftrightarrow> matchAnyRaw lib (p_Deny p) tool subject
        \<or> p_Mode p = Deny \<and> \<not> matchAnyRaw lib (p_Ask p) tool subject)"
  using assms by (auto simp: DecideSubject_def Let_def)

theorem dynamic_shell_needs_human_witness:
  "\<exists>d. DecideSubject demo_lib demo_policy ''bash'' True ''echo $(id)'' = Some d \<and> d \<noteq> Allow"
proof -
  have "canonicalRuleTool ''bash'' = ''bash''"
    "classifyBashApproval demo_lib ''echo $(id)'' = bashApprovalRequireHuman"
    "DecomposeBashCommand demo_lib ''echo $(id)'' = None"
    "\<not> matchAnyExact (p_SessionAllow demo_policy) ''bash'' ''echo $(id)''"
    "\<not> matchAnyExact (p_Allow demo_policy) ''bash'' ''echo $(id)''"
    "\<not> (p_AllowDynamicBash demo_policy \<and> p_Mode demo_policy = Allow)"
    by code_simp+
  from dynamic_shell_needs_human [OF this, of True] show ?thesis by blast
qed



end
