(* ===== verification/Shell_Props.thy ===== *)
theory Shell_Props imports Permission_Policy begin

text \<open>
  Properties of the shell analysis below the permission policy: static reduction, splitting,
  redirect removal, read-only classification, approval classes, globs and rule strings.
\<close>

text \<open>
  The wildcard matcher of permission rules, a linear loop that backtracks to its last
  star, accepts exactly the texts of the pattern: a star stands for any run of bytes, a
  question mark for one byte, every other byte for itself.
\<close>

theorem glob_match_exact: "matchGlob pattern name \<longleftrightarrow> glob_spec pattern name"
  by (simp add: matchGlob_spec)

text \<open>
  StaticFields succeeds on a non-blank command exactly when the parser sees a single
  simple command without here-documents, redirections, assignments or job control whose
  words are all static, and the fields are the values of these words in order.
\<close>

theorem static_fields_exact:
  assumes "TrimSpace cmd \<noteq> []"
  shows "(StaticFields lib cmd = (fs, []) \<longleftrightarrow>
     (\<exists>i args. sh_parse lib cmd = Inr [Stmt i (CallExpr [] args)]
        \<and> \<not> HasHereDoc lib (Some [Stmt i (CallExpr [] args)]) \<and> simple_info i \<and> st_redirs i = []
        \<and> list_all2 (\<lambda>w f. StaticWord w = Some f) args fs))
    \<and> (snd (StaticFields lib cmd) = [] \<or> fst (StaticFields lib cmd) = [])"
  unfolding StaticFields_iff [OF assms] staticArgs_Some_iff
  by (auto simp: StaticFields_def split: sum.splits)

theorem static_fields_exact_witness:
  "\<exists>i args. sh_parse demo_lib ''go test'' = Inr [Stmt i (CallExpr [] args)]
     \<and> list_all2 (\<lambda>w f. StaticWord w = Some f) args [''go'', ''test'']"
proof -
  have "TrimSpace ''go test'' \<noteq> []" "StaticFields demo_lib ''go test'' = ([''go'', ''test''], [])" by code_simp+
  with static_fields_exact [of "''go test''" demo_lib "[''go'', ''test'']"] show ?thesis by blast
qed

text \<open>
  The pieces of a command split at its top-level operators are non-empty trimmed parts
  of its text, and a command that splits into several pieces is longer than each of them.
\<close>

theorem split_pieces:
  assumes "parser_positions lib" and "SplitTopLevel lib cmd = Some (segs, split)" and "seg \<in> set segs"
  shows "seg \<noteq> [] \<and> TrimSpace seg = seg \<and> sublist seg cmd
    \<and> (2 \<le> length segs \<longrightarrow> length seg < length cmd)"
  using SplitTopLevel_segment_text [OF assms(2,3)] SplitTopLevel_segment_shorter [OF assms(1,2) _ assms(3)]
  by blast

theorem split_pieces_witness:
  "SplitTopLevel demo_lib ''ls && rm x'' = Some ([''ls'', ''rm x''], True) \<and> sublist ''rm x'' ''ls && rm x''"
proof -
  have s: "SplitTopLevel demo_lib ''ls && rm x'' = Some ([''ls'', ''rm x''], True)" by code_simp
  with split_pieces [OF demo_parser_positions s, of "''rm x''"] show ?thesis by simp
qed

text \<open>
  Redirections are only dropped from a command before rule matching when all of them are
  harmless (a descriptor copy, or output to the null device): otherwise the command has no
  normal form. A normal form is never longer than the command.
\<close>

theorem only_safe_redirects_dropped:
  assumes "NormalizeBashSafeRedirectsForMatch lib subject = Some out"
  shows "\<exists>f. sh_parse lib subject = Inr f \<and> \<not> HasHereDoc lib (Some f)
    \<and> (\<forall>r \<in> set (concat (map spine_redirs f)). \<exists>r'. r = Some r' \<and> redirect_is_safe subject r')
    \<and> length out \<le> length subject \<and> (concat (map spine_redirs f) = [] \<longrightarrow> out = subject)"
proof -
  from Normalize_only_safe [OF assms] obtain f where f: "sh_parse lib subject = Inr f" "\<not> HasHereDoc lib (Some f)"
    "\<forall>r \<in> set (concat (map spine_redirs f)). \<exists>r'. r = Some r' \<and> redirect_is_safe subject r'" by blast
  with assms length_Normalize [OF assms] Normalize_no_redirects [OF f(1,2)] show ?thesis by auto
qed

theorem only_safe_redirects_dropped_witness:
  "NormalizeBashSafeRedirectsForMatch demo_lib ''ls 2>/dev/null'' = Some ''ls''
   \<and> (\<exists>f. sh_parse demo_lib ''ls 2>/dev/null'' = Inr f \<and> \<not> HasHereDoc demo_lib (Some f))"
proof -
  have n: "NormalizeBashSafeRedirectsForMatch demo_lib ''ls 2>/dev/null'' = Some ''ls''" by code_simp
  with only_safe_redirects_dropped [OF n] show ?thesis by blast
qed

text \<open>
  A shell command is classified as read-only only when its text, after the removal of
  harmless redirections, is one static simple command whose first word is on the read-only
  list, or whose first two words are on the list of read-only subcommands, with none of the
  arguments that the guards name as unsafe.
\<close>

theorem read_only_is_whitelisted:
  assumes "isReadOnlyBashSubject lib subject"
  shows "\<exists>fs base sub. StaticFields lib (matchSubject lib subject) = (fs, []) \<and> fs \<noteq> [] \<and> base = ToLower (hd fs)
    \<and> (sub = [] \<and> base \<in> set ReadOnlyCommands \<and> \<not> hasUnsafeReadOnlyArgs base (drop 1 fs)
       \<or> sub \<noteq> [] \<and> 2 \<le> length fs \<and> sub = ToLower (fs ! 1)
         \<and> (\<exists>subs. map_of ReadOnlyPrefixes base = Some subs \<and> sub \<in> set subs)
         \<and> \<not> hasUnsafePrefixArgs base sub (drop 2 fs))"
proof -
  let ?s = "matchSubject lib subject"
  from assms obtain base sub where c: "CommandIsReadOnly lib ?s = Some (base, sub)"
    by (auto simp: isReadOnlyBashSubject_def Let_def split: option.splits)
  from CommandIsReadOnly_fields [OF c] obtain fs where fs: "StaticFields lib ?s = (fs, [])"
    "fieldsReadOnly fs = Some (base, sub)" by blast
  from fieldsReadOnly_Some [OF fs(2)] assms c fs(1) show ?thesis
    by (intro exI [of _ fs] exI [of _ base] exI [of _ sub])
       (auto simp: isReadOnlyBashSubject_def Let_def split: if_splits)
qed

theorem read_only_is_whitelisted_witness:
  "isReadOnlyBashSubject demo_lib ''git status'' \<and>
   (\<exists>fs. StaticFields demo_lib (matchSubject demo_lib ''git status'') = (fs, []) \<and> fs \<noteq> [])"
proof -
  have r: "isReadOnlyBashSubject demo_lib ''git status''" by code_simp
  from read_only_is_whitelisted [OF r] r show ?thesis by blast
qed

text \<open>
  The approval class of a command that splits is the highest class of its pieces: one
  piece that needs a human makes the whole command need one, and no other way does.
\<close>

theorem approval_class_is_highest:
  assumes "SplitTopLevel lib cmd = Some (segs, split)" and "segs \<noteq> []" and "TrimSpace cmd \<noteq> []"
  shows "classifyBashApproval lib cmd = Max (classifyBashSegmentApproval lib ` set segs)"
proof -
  let ?f = "classifyBashSegmentApproval lib"
  have "classifyBashApproval lib cmd = fold (\<lambda>s c. max (?f s) c) segs bashApprovalReusable"
    using assms by (simp add: classifyBashApproval_def classifyLoop_max)
  also have "\<dots> = Max (insert bashApprovalReusable (?f ` set segs))"
  proof (rule Max_eqI [symmetric])
    fix y
    assume "y \<in> insert bashApprovalReusable (?f ` set segs)"
    then show "y \<le> fold (\<lambda>s c. max (?f s) c) segs bashApprovalReusable"
      using Reusable_bot by (auto intro: fold_max_ge)
  next
    show "fold (\<lambda>s c. max (?f s) c) segs bashApprovalReusable \<in> insert bashApprovalReusable (?f ` set segs)"
      by (rule fold_max_in)
  qed simp
  also have "\<dots> = max bashApprovalReusable (Max (?f ` set segs))" using assms(2) by (intro Max_insert) auto
  finally show ?thesis by (simp add: max_absorb2 Reusable_bot)
qed

theorem approval_class_is_highest_witness:
  "classifyBashApproval demo_lib ''echo $(id)'' = Max {classifyBashSegmentApproval demo_lib ''echo $(id)''}"
proof -
  have "SplitTopLevel demo_lib ''echo $(id)'' = Some ([''echo $(id)''], False)" "TrimSpace ''echo $(id)'' \<noteq> []"
    by code_simp+
  from approval_class_is_highest [OF this(1) _ this(2)] show ?thesis by simp
qed

text \<open>
  A rule that can be written as a rule string is read back unchanged: ParseRule inverts
  the printing used for reports and for stored grants.
\<close>

theorem rule_string_round_trip:
  assumes "printable_rule r"
  shows "ParseRule (ruleConfigString r) = Some r"
  by (rule ParseRule_print [OF assms])

theorem rule_string_round_trip_witness:
  "ParseRule ''Bash(git push:*)'' = Some \<lparr>r_Tool = ''Bash'', r_Subject = ''git push:*'', r_Literal = False\<rparr>"
proof -
  let ?r = "\<lparr>r_Tool = ''Bash'', r_Subject = ''git push:*'', r_Literal = False\<rparr>"
  have "printable_rule ?r" by code_simp
  moreover have "ruleConfigString ?r = ''Bash(git push:*)''" by code_simp
  ultimately show ?thesis using rule_string_round_trip [of ?r] by simp
qed

end
