(* ===== verification/Permission_Gate.thy ===== *)
theory Permission_Gate imports Permission_Policy begin

text \<open>
  The gate of \<open>internal/permission/permission.go\<close>: \<open>Gate.Check\<close> asks the policy, then the
  approver when the answer is Ask, and records a remembered grant in the policy of the
  running session; and the rules that an approval stores (\<open>RememberRuleForScope\<close>,
  \<open>SessionGrantRuleForScope\<close>, \<open>BashCommandPrefix\<close>). The approver is code of a front end
  behind an interface, so it is a value of the model: which of the three interfaces it
  implements, and the function it answers with.
\<close>

subsection \<open>Rules that an approval stores\<close>

definition isPackageManagerRun :: "gostr \<Rightarrow> bool" where
  "isPackageManagerRun base \<longleftrightarrow> base \<in> {''npm'', ''pnpm'', ''yarn'', ''bun''}"

definition BashCommandPrefix :: "shell_lib \<Rightarrow> gostr \<Rightarrow> gostr" where
  "BashCommandPrefix lib subject =
     (let cmd = TrimSpace subject in
      if cmd = [] \<or> ContainsShellSyntax lib cmd \<or> bashSubjectRequiresExactRule lib cmd then []
      else if BashDangerWarning cmd \<noteq> [] then []
      else
        (let (fields, malformed) = StaticFields lib cmd in
         if malformed \<noteq> [] then []
         else if length fields < 2 then []
         else if isPackageManagerRun (ToLower (fields ! 0)) \<and> 3 \<le> length fields
           \<and> ToLower (fields ! 1) = ''run''
         then fields ! 0 @ '' '' @ fields ! 1 @ '' '' @ fields ! 2 @ '':*''
         else fields ! 0 @ '' '' @ fields ! 1 @ '':*''))"

definition RememberRuleForScope :: "shell_lib \<Rightarrow> gostr \<Rightarrow> gostr \<Rightarrow> gostr" where
  "RememberRuleForScope lib toolName subject0 =
     (let subject = TrimSpace subject0 in
      if subject \<noteq> [] \<and> toolName = ''bash'' then
        (let pattern = BashCommandPrefix lib subject in
         if pattern \<noteq> [] then ''Bash('' @ pattern @ '')'' else ''Bash='' @ subject)
      else if IsFileMutationTool toolName then ''Edit''
      else toolName)"

definition SessionGrantRuleForScope :: "shell_lib \<Rightarrow> gostr \<Rightarrow> gostr \<Rightarrow> gostr" where
  "SessionGrantRuleForScope lib toolName subject0 =
     (let subject = TrimSpace subject0 in
      if toolName = ''bash'' \<and> subject \<noteq> [] then
        (let pattern = BashCommandPrefix lib subject in
         if pattern \<noteq> [] then ''Bash('' @ pattern @ '')'' else ''Bash='' @ subject)
      else if IsFileMutationTool toolName then ''Edit''
      else toolName)"

subsection \<open>The gate\<close>

record approval =
  a_allow :: bool
  a_remember :: bool
  a_reason :: gostr
  a_err :: "gostr option"

datatype Approver =
    PlainApprover "gostr \<Rightarrow> gostr \<Rightarrow> raw_json \<Rightarrow> approval"
  | ReasonedApprover "gostr \<Rightarrow> gostr \<Rightarrow> raw_json \<Rightarrow> approval"
  | PolicyReasonedApprover "gostr \<Rightarrow> gostr \<Rightarrow> raw_json \<Rightarrow> gostr \<Rightarrow> approval"

text \<open>\<open>g_Remembered\<close> logs the calls of \<open>OnRemember\<close>; \<open>g_OnRemember\<close> says whether it is set.\<close>

record Gate =
  g_Policy :: Policy
  g_Approver :: "Approver option"
  g_OnRemember :: bool
  g_Remembered :: "gostr list"

text \<open>A plain approver has no reason to give: the Go method returns the empty string.\<close>

fun approve :: "Approver \<Rightarrow> gostr \<Rightarrow> gostr \<Rightarrow> raw_json \<Rightarrow> gostr \<Rightarrow> approval" where
  "approve (PolicyReasonedApprover f) toolName subject args policyReason =
     f toolName subject args policyReason"
| "approve (ReasonedApprover f) toolName subject args policyReason = f toolName subject args"
| "approve (PlainApprover f) toolName subject args policyReason =
     (f toolName subject args)\<lparr>a_reason := []\<rparr>"

definition em_dash :: gostr where
  "em_dash = [CHR 0xE2, CHR 0x80, CHR 0x94]"

definition deny_reason :: gostr where
  "deny_reason = ''denied by permission policy '' @ em_dash @
     '' this tool/command is on the deny list. Do not retry it; choose another approach or stop and explain.''"

definition declined_reason :: gostr where
  "declined_reason = ''the user declined this tool call '' @ em_dash @
     '' do not retry it; ask how they would like to proceed or choose another approach.''"

record verdict =
  v_allow :: bool
  v_reason :: gostr
  v_err :: "gostr option"

definition verdict :: "bool \<Rightarrow> gostr \<Rightarrow> verdict" where
  "verdict allow reason = \<lparr>v_allow = allow, v_reason = reason, v_err = None\<rparr>"

definition rememberTool :: "gostr \<Rightarrow> Gate \<Rightarrow> Gate" where
  "rememberTool toolName g =
     (let g' = g\<lparr>g_Remembered := g_Remembered g @ [toolName]\<rparr> in
      case ParseRule toolName of
        None \<Rightarrow> g'
      | Some rule \<Rightarrow> g'\<lparr>g_Policy := (g_Policy g')\<lparr>p_Allow := p_Allow (g_Policy g') @ [rule]\<rparr>\<rparr>)"

definition askApprover ::
    "Approver \<Rightarrow> gostr \<Rightarrow> raw_json \<Rightarrow> gostr \<Rightarrow> Gate \<Rightarrow> verdict \<times> Gate" where
  "askApprover a toolName args ruleReason g =
     (let ans = approve a toolName (Subject args) args ruleReason in
      case a_err ans of
        Some err \<Rightarrow> (\<lparr>v_allow = False, v_reason = ''approval aborted'', v_err = Some err\<rparr>, g)
      | None \<Rightarrow>
          if \<not> a_allow ans
          then (verdict False (if a_reason ans \<noteq> [] then a_reason ans else declined_reason), g)
          else if a_remember ans \<and> g_OnRemember g then (verdict True [], rememberTool toolName g)
          else (verdict True [], g))"

definition Check ::
    "shell_lib \<Rightarrow> gostr \<Rightarrow> raw_json \<Rightarrow> bool \<Rightarrow> Gate \<Rightarrow> (verdict \<times> Gate) option" where
  "Check lib toolName args readOnly0 g =
     (let readOnly = (if toolName = ''bash'' \<and> \<not> readOnly0
                      then BashCommandIsReadOnly lib args else readOnly0) in
      case Decide lib (g_Policy g) toolName readOnly args of
        None \<Rightarrow> None
      | Some decision \<Rightarrow>
          (let ruleReason =
             (case MatchedRule lib (g_Policy g) toolName decision args of
                None \<Rightarrow> []
              | Some rule \<Rightarrow>
                  ''Matched permission rule: '' @ decisionString decision @ '' '' @ rule) in
           case decision of
             Deny \<Rightarrow>
               Some (verdict False
                 (if ruleReason \<noteq> [] then ruleReason @ [nl] @ deny_reason else deny_reason), g)
           | Ask \<Rightarrow>
               (case g_Approver g of
                  None \<Rightarrow> Some (verdict True [], g)
                | Some a \<Rightarrow> Some (askApprover a toolName args ruleReason g))
           | Allow \<Rightarrow> Some (verdict True [], g)))"

text \<open>A run of calls through one gate, with the verdicts in order.\<close>

type_synonym tool_call = "gostr \<times> raw_json \<times> bool"

fun runCalls :: "shell_lib \<Rightarrow> tool_call list \<Rightarrow> Gate \<Rightarrow> (verdict list \<times> Gate) option" where
  "runCalls lib [] g = Some ([], g)"
| "runCalls lib ((tool, args, ro) # cs) g =
     (case Check lib tool args ro g of
        None \<Rightarrow> None
      | Some (v, g') \<Rightarrow>
          (case runCalls lib cs g' of
             None \<Rightarrow> None
           | Some (vs, g'') \<Rightarrow> Some (v # vs, g'')))"

subsection \<open>Gate lemmas\<close>

lemma rememberTool_policy:
  "p_Deny (g_Policy (rememberTool tool g)) = p_Deny (g_Policy g)"
  "p_Ask (g_Policy (rememberTool tool g)) = p_Ask (g_Policy g)"
  "p_SessionAllow (g_Policy (rememberTool tool g)) = p_SessionAllow (g_Policy g)"
  "p_Mode (g_Policy (rememberTool tool g)) = p_Mode (g_Policy g)"
  "g_Approver (rememberTool tool g) = g_Approver g"
  by (simp_all add: rememberTool_def Let_def split: option.splits)

lemma Check_state:
  assumes "Check lib tool args ro g = Some (v, g')"
  shows "g' = g \<or> g' = rememberTool tool g"
  using assms
  by (auto simp: Check_def Let_def askApprover_def split: option.splits Decision.splits if_splits)

lemma runCalls_Deny:
  "runCalls lib cs g = Some (vs, g') \<Longrightarrow> p_Deny (g_Policy g') = p_Deny (g_Policy g)"
proof (induction cs arbitrary: g vs)
  case (Cons c cs)
  obtain tool args ro where c: "c = (tool, args, ro)" by (cases c)
  from Cons.prems obtain v g1 vs1 where
    1: "Check lib tool args ro g = Some (v, g1)" and 2: "runCalls lib cs g1 = Some (vs1, g')"
    by (auto simp: c split: option.splits)
  have "p_Deny (g_Policy g1) = p_Deny (g_Policy g)"
    using Check_state [OF 1] by (auto simp: rememberTool_policy)
  with Cons.IH [OF 2] show ?case by simp
qed simp

lemma Check_deny:
  assumes "\<And>ro. Decide lib (g_Policy g) tool ro args = Some Deny"
  shows "\<exists>v. Check lib tool args ro g = Some (v, g) \<and> \<not> v_allow v"
  using assms by (auto simp: Check_def verdict_def Let_def)

lemma Check_value:
  assumes "Decide lib (g_Policy g) tool
      (if tool = ''bash'' \<and> \<not> ro then BashCommandIsReadOnly lib args else ro) args = Some d"
  shows "Check lib tool args ro g \<noteq> None"
    and "d = Allow \<Longrightarrow> Check lib tool args ro g = Some (verdict True [], g)"
    and "d = Ask \<Longrightarrow> g_Approver g = None \<Longrightarrow> Check lib tool args ro g = Some (verdict True [], g)"
    and "d = Deny \<Longrightarrow> \<exists>v. Check lib tool args ro g = Some (v, g) \<and> \<not> v_allow v"
    and "d = Ask \<Longrightarrow> g_Approver g = Some a \<Longrightarrow> \<exists>r. Check lib tool args ro g = Some (askApprover a tool args r g)"
  using assms by (auto simp: Check_def verdict_def Let_def split: option.splits Decision.splits)

lemma askApprover_allows:
  "v_allow (fst (askApprover a tool args r g)) \<longleftrightarrow>
     a_err (approve a tool (Subject args) args r) = None \<and> a_allow (approve a tool (Subject args) args r)"
  by (simp add: askApprover_def verdict_def Let_def split: option.splits)

subsection \<open>Remembered rules\<close>

lemma ParseRule_Bash_prefix: "ParseRule (''Bash('' @ pat @ '')'') =
    Some \<lparr>r_Tool = ''Bash'', r_Subject = pat, r_Literal = False\<rparr>" if "pat \<noteq> []"
proof -
  let ?r = "\<lparr>r_Tool = ''Bash'', r_Subject = pat, r_Literal = False\<rparr>"
  have "printable_rule ?r" by (simp add: printable_rule_def) code_simp
  from ParseRule_print [OF this] that show ?thesis by (simp add: ruleConfigString_def)
qed

lemma ParseRule_Bash_exact: "ParseRule (''Bash='' @ s) =
    Some \<lparr>r_Tool = ''Bash'', r_Subject = s, r_Literal = True\<rparr>" if "TrimSpace s = s" "s \<noteq> []"
proof -
  let ?r = "\<lparr>r_Tool = ''Bash'', r_Subject = s, r_Literal = True\<rparr>"
  have "\<not> is_space (last s)" using last_TrimSpace [of s] that by simp
  then have "printable_rule ?r" using that by (simp add: printable_rule_def) code_simp
  from ParseRule_print [OF this] that show ?thesis by (simp add: ruleConfigString_def)
qed

lemma canonical_Bash: "canonicalRuleTool ''Bash'' = ''bash''" "canonicalRuleTool ''bash'' = ''bash''"
  by code_simp+

lemma StaticFields_matchSubject:
  assumes "StaticFields lib s = (fs, [])" and "TrimSpace s \<noteq> []"
  shows "matchSubject lib s = s"
proof -
  from assms obtain i args where f: "sh_parse lib s = Inr [Stmt i (CallExpr [] args)]"
    "\<not> HasHereDoc lib (Some [Stmt i (CallExpr [] args)])" "st_redirs i = []"
    by (auto simp: StaticFields_iff)
  have "NormalizeBashSafeRedirectsForMatch lib s = Some s"
    by (rule Normalize_no_redirects [OF f(1,2)]) (simp add: f(3))
  then show ?thesis by (simp add: matchSubject_def)
qed

text \<open>
  A prefix of the fields of a command that reads back as these fields: no field needs
  quoting to survive the join with blanks.
\<close>

definition plain_prefix :: "shell_lib \<Rightarrow> gostr list \<Rightarrow> bool" where
  "plain_prefix lib fs \<longleftrightarrow> StaticFields lib (Join fs '' '') = (fs, [])"

definition plain_command :: "shell_lib \<Rightarrow> gostr \<Rightarrow> bool" where
  "plain_command lib s \<longleftrightarrow> list_all (\<lambda>k. plain_prefix lib (take k (fst (StaticFields lib s)))) [2, 3]"

definition plain_tool_name :: "gostr \<Rightarrow> bool" where
  "plain_tool_name tool \<longleftrightarrow>
     canonicalRuleTool tool = tool \<and> TrimSpace tool = tool \<and> tool \<noteq> []
     \<and> CHR ''='' \<notin> set tool \<and> CHR ''('' \<notin> set tool"

lemma BashCommandPrefix_shape:
  assumes "BashCommandPrefix lib s \<noteq> []"
  shows "\<exists>fs k. StaticFields lib (TrimSpace s) = (fs, []) \<and> k \<in> {2, 3} \<and> k \<le> length fs
    \<and> BashCommandPrefix lib s = Join (take k fs) '' '' @ '':*''
    \<and> \<not> bashSubjectRequiresExactRule lib (TrimSpace s) \<and> BashDangerWarning (TrimSpace s) = []"
proof -
  obtain fs m where fs: "StaticFields lib (TrimSpace s) = (fs, m)" by fastforce
  have m: "m = []" "2 \<le> length fs" and ex: "\<not> bashSubjectRequiresExactRule lib (TrimSpace s)"
    and dg: "BashDangerWarning (TrimSpace s) = []"
    using assms fs by (auto simp: BashCommandPrefix_def Let_def split: if_splits)
  then obtain a b r where r: "fs = a # b # r" by (cases fs; cases "tl fs") auto
  show ?thesis
  proof (cases "isPackageManagerRun (ToLower a) \<and> 3 \<le> length fs \<and> ToLower b = ''run''")
    case True
    then obtain c r' where r': "r = c # r'" using r by (cases r) auto
    show ?thesis
      using True assms fs m(1) ex dg unfolding r r'
      by (intro exI [of _ "a # b # c # r'"] exI [of _ 3])
         (auto simp: BashCommandPrefix_def Let_def numeral_3_eq_3 split: if_splits)
  next
    case False
    then show ?thesis
      using assms fs m(1) ex dg unfolding r
      by (intro exI [of _ "a # b # r"] exI [of _ 2])
         (auto simp: BashCommandPrefix_def Let_def numeral_2_eq_2 split: if_splits)
  qed
qed

lemma bash_prefix_rule_matches:
  assumes fs: "StaticFields lib s = (fs, [])" and pl: "plain_prefix lib (take k fs)"
    and k: "0 < k" "k \<le> length fs" and s: "TrimSpace s = s" "s \<noteq> []"
    and ne: "Join (take k fs) '' '' \<noteq> []"
  shows "ruleSubjectMatches lib
    \<lparr>r_Tool = ''Bash'', r_Subject = Join (take k fs) '' '' @ '':*'', r_Literal = False\<rparr> s"
proof -
  let ?b = "Join (take k fs) '' ''"
  have colon: "bashColonPrefixBase (?b @ '':*'') = Some ?b"
    using ne by (simp add: bashColonPrefixBase_def)
  have "bashPrefixMatches lib ?b s"
    using fs pl k s StaticFields_matchSubject [OF fs]
    by (auto simp: bashPrefixMatches_def plain_prefix_def list_all2_refl)
  then show ?thesis
    using s colon by (simp add: ruleSubjectMatches_def canonical_Bash bashPrefixBase_def)
qed

subsection \<open>Properties\<close>

definition demo_gate :: Gate where
  "demo_gate = \<lparr>g_Policy = demo_policy\<lparr>p_Mode := Ask\<rparr>,
     g_Approver = Some (PlainApprover (\<lambda>tool subject args.
       \<lparr>a_allow = True, a_remember = True, a_reason = [], a_err = None\<rparr>)),
     g_OnRemember = True, g_Remembered = []\<rparr>"



text \<open>
  A grant remembered during a session never overrides a deny rule: after any run of
  calls through the gate, a call that matched a deny rule of the initial policy is still
  refused, and the gate is left unchanged by it.
\<close>

theorem remembered_grants_respect_deny:
  assumes "parser_positions lib" and "runCalls lib calls g = Some (vs, g')"
    and "s \<in> set (Subjects args)"
    and "if canonicalRuleTool tool = ''bash'' then matchAnyRaw lib (p_Deny (g_Policy g)) tool s
         else matchAny lib (p_Deny (g_Policy g)) tool s"
  shows "\<exists>v. Check lib tool args ro g' = Some (v, g') \<and> \<not> v_allow v"
proof (rule Check_deny)
  fix ro
  have "DecideSubject lib (g_Policy g') tool ro s = Some Deny"
    by (rule DecideSubject_deny_rule) (use assms(4) runCalls_Deny [OF assms(2)] in simp)
  then show "Decide lib (g_Policy g') tool ro args = Some Deny"
    unfolding Decide_def by (rule DecideSubjects_deny [OF assms(1,3)])
qed

theorem remembered_grants_respect_deny_witness:
  "\<exists>g' v. runCalls demo_lib [(''bash'', RawJson [] (JObj [(''command'', JStr ''git status'')]), False)] demo_gate = Some ([verdict True []], g')
    \<and> Check demo_lib ''bash'' (RawJson [] (JObj [(''command'', JStr ''rm x'')])) False g' = Some (v, g') \<and> \<not> v_allow v"
proof -
  let ?g = "demo_gate"
  have c: "Check demo_lib ''bash'' (RawJson [] (JObj [(''command'', JStr ''git status'')])) False ?g
      = Some (verdict True [], ?g)"
    by (rule Check_value(2) [where d = Allow]) (code_simp, simp)
  then have run: "runCalls demo_lib [(''bash'', RawJson [] (JObj [(''command'', JStr ''git status'')]), False)] ?g
      = Some ([verdict True []], ?g)" by simp
  have s: "''rm x'' \<in> set (Subjects (RawJson [] (JObj [(''command'', JStr ''rm x'')])))" by code_simp
  have d: "if canonicalRuleTool ''bash'' = ''bash'' then matchAnyRaw demo_lib (p_Deny (g_Policy ?g)) ''bash'' ''rm x''
      else matchAny demo_lib (p_Deny (g_Policy ?g)) ''bash'' ''rm x''" by code_simp
  show ?thesis using run remembered_grants_respect_deny [OF demo_parser_positions run s d, of False] by blast
qed

text \<open>
  The rule that an approval stores covers the call that was approved: reading the stored
  string back and matching it against the same tool and subject succeeds, for shell commands
  (a prefix rule when one is safe, the exact command otherwise), file-mutation tools and all
  other tools. A prefix rule needs its words to survive the join with blanks.
\<close>

theorem stored_rule_covers_call:
  assumes "TrimSpace s = s" and "s \<noteq> []"
    and "tool = ''bash'' \<or> IsFileMutationTool tool \<or> plain_tool_name tool"
    and "tool = ''bash'' \<Longrightarrow> plain_command lib s"
  shows "RuleMatchesString lib (RememberRuleForScope lib tool s) tool s"
proof (cases "tool = ''bash''")
  case bash: True
  show ?thesis
  proof (cases "BashCommandPrefix lib s = []")
    case True
    then have "RememberRuleForScope lib tool s = ''Bash='' @ s"
      using assms(1,2) bash by (simp add: RememberRuleForScope_def)
    then show ?thesis
      using assms(1,2) bash ParseRule_Bash_exact [of s]
      by (simp add: RuleMatchesString_def matchAnyAllow_def matchAnyExact_def ruleToolMatches_def canonical_Bash)
  next
    case False
    then obtain fs k where fs: "StaticFields lib s = (fs, [])" "k \<in> {2, 3}" "k \<le> length fs"
      "BashCommandPrefix lib s = Join (take k fs) '' '' @ '':*''" "\<not> bashSubjectRequiresExactRule lib s"
      using BashCommandPrefix_shape [OF False] assms(1) by auto
    from fs(2,3) have ne: "Join (take k fs) '' '' \<noteq> []"
      by (cases fs; cases "tl fs") (auto simp: numeral_2_eq_2 numeral_3_eq_3)
    have pl: "plain_prefix lib (take k fs)" using assms(4) bash fs(1,2) by (auto simp: plain_command_def)
    from fs(2) have k0: "0 < k" by auto
    have "RememberRuleForScope lib tool s = ''Bash('' @ (Join (take k fs) '' '' @ '':*'') @ '')''"
      using False assms(1,2) bash fs(4) by (simp add: RememberRuleForScope_def Let_def)
    moreover have "ParseRule (''Bash('' @ (Join (take k fs) '' '' @ '':*'') @ '')'') =
        Some \<lparr>r_Tool = ''Bash'', r_Subject = Join (take k fs) '' '' @ '':*'', r_Literal = False\<rparr>"
      by (rule ParseRule_Bash_prefix) simp
    ultimately show ?thesis
      using bash_prefix_rule_matches [OF fs(1) pl k0 fs(3) assms(1,2) ne] bash fs(5) assms(2)
      by (simp add: RuleMatchesString_def matchAnyAllow_def matchAny_def ruleApplies_def
          ruleToolMatches_def canonical_Bash)
  qed
next
  case other: False
  show ?thesis
  proof (cases "IsFileMutationTool tool")
    case True
    have "ParseRule ''Edit'' = Some \<lparr>r_Tool = ''Edit'', r_Subject = [], r_Literal = False\<rparr>" by code_simp
    moreover have "canonicalRuleTool ''Edit'' = ''file_mutation''" by code_simp
    moreover have "canonicalRuleTool tool \<noteq> ''bash''" using True by (auto simp: IsFileMutationTool_def) code_simp+
    ultimately show ?thesis
      using True other by (simp add: RememberRuleForScope_def RuleMatchesString_def matchAnyAllow_def
          matchAny_def ruleApplies_def ruleToolMatches_def)
  next
    case False
    with assms(3) other have pt: "plain_tool_name tool" by simp
    let ?r = "\<lparr>r_Tool = tool, r_Subject = [], r_Literal = False\<rparr>"
    have "printable_rule ?r" using pt by (simp add: printable_rule_def plain_tool_name_def)
    from ParseRule_print [OF this] have "ParseRule tool = Some ?r" by (simp add: ruleConfigString_def)
    then show ?thesis
      using pt False other by (simp add: RememberRuleForScope_def RuleMatchesString_def matchAnyAllow_def
          matchAny_def ruleApplies_def ruleToolMatches_def plain_tool_name_def)
  qed
qed

theorem stored_rule_covers_call_witness:
  "RememberRuleForScope demo_lib ''bash'' ''go test ./...'' = ''Bash(go test:*)''
   \<and> RuleMatchesString demo_lib (RememberRuleForScope demo_lib ''bash'' ''go test ./...'') ''bash'' ''go test ./...''"
proof
  show "RememberRuleForScope demo_lib ''bash'' ''go test ./...'' = ''Bash(go test:*)''" by code_simp
  show "RuleMatchesString demo_lib (RememberRuleForScope demo_lib ''bash'' ''go test ./...'') ''bash'' ''go test ./...''"
    by (rule stored_rule_covers_call) (code_simp, simp, simp, code_simp)
qed

text \<open>
  "Always allow" takes effect at once: after an approval that is remembered, later
  calls of the same tool (other than the shell) pass without a question, on every subject
  that no deny or ask rule names.
\<close>

theorem remembered_tool_passes:
  assumes "plain_tool_name tool" and "tool \<noteq> ''bash''"
    and "\<And>s. s \<in> set (if Subjects args = [] then [[]] else Subjects args) \<Longrightarrow>
      \<not> matchAny lib (p_Deny (g_Policy g)) tool s \<and> \<not> matchAny lib (p_Ask (g_Policy g)) tool s"
  shows "Check lib tool args ro (rememberTool tool g) = Some (verdict True [], rememberTool tool g)"
proof -
  let ?g = "rememberTool tool g"
  let ?r = "\<lparr>r_Tool = tool, r_Subject = [], r_Literal = False\<rparr>"
  have ct: "canonicalRuleTool tool = tool" using assms(1) by (simp add: plain_tool_name_def)
  have "printable_rule ?r" using assms(1) by (simp add: printable_rule_def plain_tool_name_def)
  from ParseRule_print [OF this] have "ParseRule tool = Some ?r" by (simp add: ruleConfigString_def)
  then have allow: "?r \<in> set (p_Allow (g_Policy ?g))" by (simp add: rememberTool_def Let_def)
  have m: "matchAny lib (p_Allow (g_Policy ?g)) tool s" for s
    unfolding matchAny_def list_ex_iff
    by (rule bexI [OF _ allow]) (simp add: ruleApplies_def ruleToolMatches_def ct)
  have one: "DecideSubject lib (g_Policy ?g) tool ro s = Some Allow"
    if "s \<in> set (if Subjects args = [] then [[]] else Subjects args)" for s ro
    using assms(2) assms(3) [OF that] m [of s] ct
    by (simp add: DecideSubject_def rememberTool_policy)
  have "fold (\<lambda>s c. max Allow c) xs Allow = Allow" for xs :: "gostr list"
    by (induction xs) simp_all
  then have "Decide lib (g_Policy ?g) tool ro args = Some Allow" for ro
    using one decideLoop_max [of "Subjects args" "DecideSubject lib (g_Policy ?g) tool ro" "\<lambda>_. Allow" Allow]
    by (auto simp: Decide_def DecideSubjects_def split: if_splits)
  then show ?thesis by (intro Check_value(2) [where d = Allow]) simp_all
qed

theorem remembered_tool_passes_witness:
  "Check demo_lib ''write_file'' (RawJson [] (JObj [(''path'', JStr ''a.txt'')])) False (rememberTool ''write_file'' demo_gate)
    = Some (verdict True [], rememberTool ''write_file'' demo_gate)"
proof (rule remembered_tool_passes)
  show "plain_tool_name ''write_file''" by code_simp
  have s: "set (if Subjects (RawJson [] (JObj [(''path'', JStr ''a.txt'')])) = [] then [[]]
      else Subjects (RawJson [] (JObj [(''path'', JStr ''a.txt'')]))) = {''a.txt''}" by code_simp
  fix s
  assume "s \<in> set (if Subjects (RawJson [] (JObj [(''path'', JStr ''a.txt'')])) = [] then [[]]
      else Subjects (RawJson [] (JObj [(''path'', JStr ''a.txt'')])))"
  then have "s = ''a.txt''" unfolding s by simp
  moreover have "\<not> matchAny demo_lib (p_Deny (g_Policy demo_gate)) ''write_file'' ''a.txt''"
    and "\<not> matchAny demo_lib (p_Ask (g_Policy demo_gate)) ''write_file'' ''a.txt''" by code_simp+
  ultimately show "\<not> matchAny demo_lib (p_Deny (g_Policy demo_gate)) ''write_file'' s
      \<and> \<not> matchAny demo_lib (p_Ask (g_Policy demo_gate)) ''write_file'' s" by simp
qed simp

end
