(* ===== verification/File_Paths.thy ===== *)
theory File_Paths imports Go_Strings begin

text \<open>
  The part of Go's \<open>path/filepath\<close> (Unix rules) the repository uses to compare paths:
  \<open>Clean\<close> as a rooted flag with its components, \<open>Rel\<close>, \<open>Join\<close>, and the containment test
  built on \<open>Rel\<close>. Containment is a prefix order on components, which the locale
  \<open>containment\<close> states as the contract that claims rely on.
\<close>

definition Rooted :: "gostr \<Rightarrow> bool" where
  "Rooted s = HasPrefix s ''/''"

fun cleanLoop :: "bool \<Rightarrow> gostr list \<Rightarrow> gostr list \<Rightarrow> gostr list" where
  "cleanLoop rooted acc [] = rev acc"
| "cleanLoop rooted acc (c # cs) =
     (if c = [] \<or> c = ''.'' then cleanLoop rooted acc cs
      else if c = ''..'' then
        (case acc of
           [] \<Rightarrow> if rooted then cleanLoop rooted [] cs else cleanLoop rooted [''..''] cs
         | a # as \<Rightarrow>
             if a = ''..'' then cleanLoop rooted (''..'' # acc) cs else cleanLoop rooted as cs)
      else cleanLoop rooted (c # acc) cs)"

definition cleanComps :: "gostr \<Rightarrow> gostr list" where
  "cleanComps s = cleanLoop (Rooted s) [] (Split s (CHR ''/''))"

definition renderPath :: "bool \<Rightarrow> gostr list \<Rightarrow> gostr" where
  "renderPath rooted cs =
     (if rooted then ''/'' @ Join cs ''/'' else if cs = [] then ''.'' else Join cs ''/'')"

definition Clean :: "gostr \<Rightarrow> gostr" where
  "Clean s = renderPath (Rooted s) (cleanComps s)"

definition JoinPath :: "gostr \<Rightarrow> gostr list \<Rightarrow> gostr" where
  "JoinPath s tail =
     (if s = [] then renderPath False (cleanLoop False [] tail)
      else renderPath (Rooted s) (cleanLoop (Rooted s) [] (Split s (CHR ''/'') @ tail)))"

text \<open>\<open>filepath.Base\<close> and \<open>filepath.Dir\<close>.\<close>

definition FilepathBase :: "gostr \<Rightarrow> gostr" where
  "FilepathBase p =
     (if p = [] then ''.''
      else
        (let q = rev (dropWhile (\<lambda>c. c = CHR ''/'') (rev p)) in
         if q = [] then ''/''
         else (case LastIndexAny q ''/'' of None \<Rightarrow> q | Some i \<Rightarrow> drop (Suc i) q)))"

definition FilepathDir :: "gostr \<Rightarrow> gostr" where
  "FilepathDir p =
     Clean (case LastIndexAny p ''/'' of None \<Rightarrow> [] | Some i \<Rightarrow> take (Suc i) p)"

fun stripCommon :: "gostr list \<Rightarrow> gostr list \<Rightarrow> gostr list \<times> gostr list" where
  "stripCommon (b # bs) (t # ts) = (if b = t then stripCommon bs ts else (b # bs, t # ts))"
| "stripCommon bs ts = (bs, ts)"

text \<open>\<open>Rel\<close> as components: \<open>[]\<close> is \<open>"."\<close>, \<open>None\<close> an error.\<close>

definition Rel :: "gostr \<Rightarrow> gostr \<Rightarrow> gostr list option" where
  "Rel base target =
     (if Rooted base \<noteq> Rooted target then None
      else
        (case stripCommon (cleanComps base) (cleanComps target) of
           ([], ts) \<Rightarrow> Some ts
         | (b # bs, ts) \<Rightarrow>
             if b = ''..'' then None else Some (replicate (Suc (length bs)) ''..'' @ ts)))"

definition within :: "gostr \<Rightarrow> gostr \<Rightarrow> bool" where
  "within root path =
     (if root = [] \<or> path = [] then False
      else
        (case Rel root path of
           None \<Rightarrow> False
         | Some [] \<Rightarrow> True
         | Some (c # cs) \<Rightarrow> c \<noteq> ''..''))"

subsection \<open>Containment is a prefix order\<close>

lemma stripCommon_prefix: "stripCommon bs ts = ([], r) \<longleftrightarrow> ts = bs @ r"
  by (induction bs ts rule: stripCommon.induct) auto

lemma within_iff:
  "within root path \<longleftrightarrow> root \<noteq> [] \<and> path \<noteq> [] \<and> Rooted root = Rooted path
     \<and> (\<exists>r. cleanComps path = cleanComps root @ r \<and> (r = [] \<or> hd r \<noteq> ''..''))"
proof -
  obtain b t where s: "stripCommon (cleanComps root) (cleanComps path) = (b, t)" by fastforce
  show ?thesis
  proof (cases b)
    case Nil
    then have "cleanComps path = cleanComps root @ t" using s stripCommon_prefix by blast
    then show ?thesis using s Nil by (cases t) (auto simp: within_def Rel_def)
  next
    case (Cons x xs)
    then have "\<nexists>r. cleanComps path = cleanComps root @ r"
      using s stripCommon_prefix [of "cleanComps root" "cleanComps path"] by auto
    then show ?thesis using s Cons by (auto simp: within_def Rel_def)
  qed
qed

lemma withinE:
  assumes "within a t"
  obtains r where "cleanComps t = cleanComps a @ r" "r = [] \<or> hd r \<noteq> ''..''"
    "a \<noteq> []" "t \<noteq> []" "Rooted a = Rooted t"
  using assms unfolding within_iff by blast

lemma within_refl: "root \<noteq> [] \<Longrightarrow> within root root"
  by (simp add: within_iff)

lemma within_trans:
  assumes "within a b" and "within b c"
  shows "within a c"
proof -
  from assms(1) obtain r where r: "cleanComps b = cleanComps a @ r" "r = [] \<or> hd r \<noteq> ''..''"
    by (rule withinE)
  from assms(2) obtain q where q: "cleanComps c = cleanComps b @ q" "q = [] \<or> hd q \<noteq> ''..''"
    by (rule withinE)
  have "cleanComps c = cleanComps a @ (r @ q)" using r(1) q(1) by simp
  moreover have "r @ q = [] \<or> hd (r @ q) \<noteq> ''..''" using r(2) q(2) by (cases r) simp_all
  moreover have "a \<noteq> []" "c \<noteq> []" "Rooted a = Rooted c" using assms unfolding within_iff by simp_all
  ultimately show ?thesis unfolding within_iff by blast
qed

lemma within_comparable:
  assumes "within a t" and "within b t"
  shows "within a b \<or> within b a"
proof -
  from assms(1) obtain r where r: "cleanComps t = cleanComps a @ r" "r = [] \<or> hd r \<noteq> ''..''"
    and a: "a \<noteq> []" "Rooted a = Rooted t" by (rule withinE)
  from assms(2) obtain q where q: "cleanComps t = cleanComps b @ q" "q = [] \<or> hd q \<noteq> ''..''"
    and b: "b \<noteq> []" "Rooted b = Rooted t" by (rule withinE)
  from a b have base: "a \<noteq> []" "b \<noteq> []" "Rooted a = Rooted b" by simp_all
  from r(1) q(1) have "cleanComps a @ r = cleanComps b @ q" by simp
  then obtain us where "cleanComps a = cleanComps b @ us \<and> us @ r = q
      \<or> cleanComps a @ us = cleanComps b \<and> r = us @ q"
    unfolding append_eq_append_conv2 by blast
  then consider "cleanComps a @ us = cleanComps b" "r = us @ q"
    | "cleanComps a = cleanComps b @ us" "us @ r = q"
    by blast
  then show ?thesis
  proof cases
    case 1
    then have "us = [] \<or> hd us \<noteq> ''..''" using r(2) by (cases us) auto
    then have "within a b"
      unfolding within_iff by (intro conjI exI [of _ us]) (use 1 base in simp_all)
    then show ?thesis ..
  next
    case 2
    then have "us = [] \<or> hd us \<noteq> ''..''" using q(2) by (cases us) auto
    then have "within b a"
      unfolding within_iff by (intro conjI exI [of _ us]) (use 2 base in simp_all)
    then show ?thesis ..
  qed
qed

text \<open>
  What claims over paths rely on: containment is transitive, and two containers of one
  target are nested.
\<close>

locale containment =
  fixes inside :: "'p \<Rightarrow> 'p \<Rightarrow> bool"
  assumes trans: "inside a b \<Longrightarrow> inside b c \<Longrightarrow> inside a c"
    and nested: "inside a t \<Longrightarrow> inside b t \<Longrightarrow> inside a b \<or> inside b a"
begin

lemma no_shared_target:
  assumes "\<not> inside a b" and "\<not> inside b a"
  shows "\<not> (inside a t \<and> inside b t)"
  using assms nested by blast

lemma disjoint_below:
  assumes "\<not> inside a b" "\<not> inside b a" and "inside a x" "inside b y"
  shows "\<not> inside x y \<and> \<not> inside y x"
  using assms trans nested by blast

end

end
