(* ===== verification/Write_Claims.thy ===== *)
theory Write_Claims imports File_Paths begin

text \<open>
  The model of \<open>internal/agent/write_claims.go\<close>: the write claims of sub-agents, their
  normalization against a workspace, the overlap test and the containment test that
  re-binds writers. The file system (\<open>filepath.Abs\<close>, \<open>EvalSymlinks\<close>, \<open>os.Lstat\<close>) is the
  parameter \<open>fs_lib\<close>; the case folding of the platform is the parameter \<open>foldPaths\<close>.
\<close>

record fs_lib =
  fs_Abs :: "gostr \<Rightarrow> gostr + gostr"
  fs_EvalSymlinks :: "gostr \<Rightarrow> gostr option"
  fs_IsSymlink :: "gostr \<Rightarrow> bool"

record WritePathSet =
  wp_Paths :: "gostr list"
  wp_WholeWorkspace :: bool
  wp_WorkspaceRoot :: gostr

definition emptyClaim :: WritePathSet where
  "emptyClaim = \<lparr>wp_Paths = [], wp_WholeWorkspace = False, wp_WorkspaceRoot = []\<rparr>"

definition Empty :: "WritePathSet \<Rightarrow> bool" where
  "Empty s \<longleftrightarrow> \<not> wp_WholeWorkspace s \<and> wp_Paths s = []"

definition DefaultMaxSubagentConcurrency :: int where "DefaultMaxSubagentConcurrency = 6"
definition DefaultMaxParallelWriters :: int where "DefaultMaxParallelWriters = 3"
definition MaxSubagentConcurrencyLimit :: int where "MaxSubagentConcurrencyLimit = 32"

definition NormalizeConcurrencyLimits :: "int \<Rightarrow> int \<Rightarrow> int \<times> int" where
  "NormalizeConcurrencyLimits total0 writers0 =
     (let total1 = (if total0 \<le> 0 then DefaultMaxSubagentConcurrency else total0);
          writers1 = (if writers0 \<le> 0 then DefaultMaxParallelWriters else writers0);
          total = (if MaxSubagentConcurrencyLimit < total1 then MaxSubagentConcurrencyLimit else total1);
          writers2 = (if MaxSubagentConcurrencyLimit < writers1 then MaxSubagentConcurrencyLimit else writers1);
          writers = (if total < writers2 then total else writers2)
      in (total, writers))"

subsection \<open>Paths of a claim\<close>

definition foldPathKey :: "bool \<Rightarrow> gostr \<Rightarrow> gostr" where
  "foldPathKey foldPaths path = (if foldPaths then ToLower path else path)"

definition pathWithinFold :: "bool \<Rightarrow> gostr \<Rightarrow> gostr \<Rightarrow> bool" where
  "pathWithinFold foldPaths root path =
     (if root = [] \<or> path = [] then False
      else within (foldPathKey foldPaths root) (foldPathKey foldPaths path))"

definition normalizeExistingRoot :: "fs_lib \<Rightarrow> gostr \<Rightarrow> gostr + gostr" where
  "normalizeExistingRoot fs root0 =
     (let root = TrimSpace root0 in
      if root = [] then Inl ''workspace root is required for write_paths''
      else
        (case fs_Abs fs root of
           Inl err \<Rightarrow> Inl (''resolve workspace root: '' @ err)
         | Inr absp \<Rightarrow>
             (case fs_EvalSymlinks fs (Clean absp) of
                None \<Rightarrow> Inr (Clean absp)
              | Some real \<Rightarrow> Inr real)))"

text \<open>
  The loop of \<open>realPathForClaim\<close> over the components of the cleaned path: the innermost
  component is the last of \<open>cs\<close>, the tail collects what does not exist yet.
\<close>

function realPathLoop ::
    "fs_lib \<Rightarrow> gostr \<Rightarrow> gostr \<Rightarrow> bool \<Rightarrow> gostr list \<Rightarrow> gostr list \<Rightarrow> gostr + gostr" where
  "realPathLoop fs path absp rooted cs tail =
     (case fs_EvalSymlinks fs (renderPath rooted cs) of
        Some real \<Rightarrow> Inr (JoinPath real tail)
      | None \<Rightarrow>
          if cs = [] then Inr absp
          else if fs_IsSymlink fs (renderPath rooted cs)
          then Inl (''cannot resolve symlink path '' @ path)
          else realPathLoop fs path absp rooted (butlast cs) (last cs # tail))"
  by pat_completeness auto
termination
  by (relation "measure (\<lambda>(_, _, _, _, cs, _). length cs)") (auto simp: length_butlast)

definition realPathForClaim :: "fs_lib \<Rightarrow> gostr \<Rightarrow> gostr + gostr" where
  "realPathForClaim fs path =
     (case fs_Abs fs path of
        Inl err \<Rightarrow> Inl err
      | Inr absp \<Rightarrow> realPathLoop fs path (Clean absp) (Rooted absp) (cleanComps absp) [])"

definition resolveWriteClaimPath :: "fs_lib \<Rightarrow> gostr \<Rightarrow> gostr \<Rightarrow> gostr + gostr" where
  "resolveWriteClaimPath fs workspaceRoot raw =
     realPathForClaim fs
       (if \<not> Rooted raw then JoinPath workspaceRoot (Split raw (CHR ''/'')) else raw)"

datatype claim_error =
    RootError gostr
  | PathRequired nat
  | GlobNotAllowed nat gostr
  | ResolveError nat gostr
  | OutsideWorkspace nat gostr

fun normalizeLoop ::
    "bool \<Rightarrow> fs_lib \<Rightarrow> gostr \<Rightarrow> nat \<Rightarrow> gostr list \<Rightarrow> gostr set \<Rightarrow> gostr list \<Rightarrow> claim_error + gostr list" where
  "normalizeLoop foldPaths fs root i [] seen out = Inr out"
| "normalizeLoop foldPaths fs root i (entry0 # raw) seen out =
     (let entry = TrimSpace entry0 in
      if entry = [] then Inl (PathRequired i)
      else if ContainsAny entry ''*?['' then Inl (GlobNotAllowed i entry)
      else
        (case resolveWriteClaimPath fs root entry of
           Inl err \<Rightarrow> Inl (ResolveError i err)
         | Inr absp \<Rightarrow>
             if \<not> pathWithinFold foldPaths root absp then Inl (OutsideWorkspace i entry)
             else if foldPathKey foldPaths absp \<in> seen
             then normalizeLoop foldPaths fs root (Suc i) raw seen out
             else normalizeLoop foldPaths fs root (Suc i) raw
                    (insert (foldPathKey foldPaths absp) seen) (out @ [absp])))"

definition NormalizeWritePaths ::
    "bool \<Rightarrow> fs_lib \<Rightarrow> gostr \<Rightarrow> gostr list \<Rightarrow> claim_error + WritePathSet" where
  "NormalizeWritePaths foldPaths fs workspaceRoot raw =
     (case normalizeExistingRoot fs workspaceRoot of
        Inl err \<Rightarrow> Inl (RootError err)
      | Inr root \<Rightarrow>
          if raw = [] then Inr emptyClaim
          else
            (case normalizeLoop foldPaths fs root 0 raw {} [] of
               Inl e \<Rightarrow> Inl e
             | Inr paths \<Rightarrow>
                 Inr \<lparr>wp_Paths = paths, wp_WholeWorkspace = False, wp_WorkspaceRoot = root\<rparr>))"

definition WholeWorkspaceWriteClaim :: "fs_lib \<Rightarrow> gostr \<Rightarrow> gostr + WritePathSet" where
  "WholeWorkspaceWriteClaim fs workspaceRoot =
     (case normalizeExistingRoot fs workspaceRoot of
        Inl err \<Rightarrow> Inl err
      | Inr root \<Rightarrow> Inr \<lparr>wp_Paths = [], wp_WholeWorkspace = True, wp_WorkspaceRoot = root\<rparr>)"

subsection \<open>Conflicts\<close>

definition Overlaps :: "bool \<Rightarrow> WritePathSet \<Rightarrow> WritePathSet \<Rightarrow> bool" where
  "Overlaps foldPaths s other =
     (if Empty s \<or> Empty other then False
      else if wp_WholeWorkspace s \<or> wp_WholeWorkspace other then
        (if wp_WorkspaceRoot s = [] \<or> wp_WorkspaceRoot other = [] then True
         else pathWithinFold foldPaths (wp_WorkspaceRoot s) (wp_WorkspaceRoot other)
           \<or> pathWithinFold foldPaths (wp_WorkspaceRoot other) (wp_WorkspaceRoot s))
      else list_ex (\<lambda>a. list_ex (\<lambda>b. pathWithinFold foldPaths a b \<or> pathWithinFold foldPaths b a)
             (wp_Paths other)) (wp_Paths s))"

text \<open>The nested loops of the preflight; the error names the pair, counted from 1.\<close>

fun conflictWith :: "bool \<Rightarrow> WritePathSet \<Rightarrow> nat \<Rightarrow> nat \<Rightarrow> WritePathSet list \<Rightarrow> (nat \<times> nat) option" where
  "conflictWith foldPaths c i j [] = None"
| "conflictWith foldPaths c i j (d # ds) =
     (if Empty d then conflictWith foldPaths c i (Suc j) ds
      else if Overlaps foldPaths c d then Some (Suc i, Suc j)
      else conflictWith foldPaths c i (Suc j) ds)"

fun validateLoop :: "bool \<Rightarrow> nat \<Rightarrow> WritePathSet list \<Rightarrow> (nat \<times> nat) option" where
  "validateLoop foldPaths i [] = None"
| "validateLoop foldPaths i (c # cs) =
     (if Empty c then validateLoop foldPaths (Suc i) cs
      else
        (case conflictWith foldPaths c i (Suc i) cs of
           Some e \<Rightarrow> Some e
         | None \<Rightarrow> validateLoop foldPaths (Suc i) cs))"

definition ValidateNonOverlappingWriteClaims :: "bool \<Rightarrow> WritePathSet list \<Rightarrow> (nat \<times> nat) option" where
  "ValidateNonOverlappingWriteClaims foldPaths claims = validateLoop foldPaths 0 claims"

definition AllowsPath :: "bool \<Rightarrow> fs_lib \<Rightarrow> WritePathSet \<Rightarrow> gostr \<Rightarrow> bool" where
  "AllowsPath foldPaths fs s target =
     (if Empty s then False
      else
        (case realPathForClaim fs target of
           Inl _ \<Rightarrow> False
         | Inr absp \<Rightarrow>
             if wp_WholeWorkspace s then
               (if wp_WorkspaceRoot s = [] then True else pathWithinFold foldPaths (wp_WorkspaceRoot s) absp)
             else list_ex (\<lambda>root. pathWithinFold foldPaths root absp) (wp_Paths s)))"

definition Roots :: "WritePathSet \<Rightarrow> gostr list" where
  "Roots s =
     (if wp_WholeWorkspace s then
        (if wp_WorkspaceRoot s = [] then [] else [wp_WorkspaceRoot s])
      else wp_Paths s)"

definition writeClaimEqual :: "WritePathSet \<Rightarrow> WritePathSet \<Rightarrow> bool" where
  "writeClaimEqual a b =
     (if wp_WholeWorkspace a \<noteq> wp_WholeWorkspace b \<or> wp_WorkspaceRoot a \<noteq> wp_WorkspaceRoot b then False
      else if length (wp_Paths a) \<noteq> length (wp_Paths b) then False
      else list_all2 (=) (wp_Paths a) (wp_Paths b))"

subsection \<open>Facts\<close>

lemma foldPathKey_Nil [simp]: "foldPathKey foldPaths s = [] \<longleftrightarrow> s = []"
  by (simp add: foldPathKey_def ToLower_def)

lemma pathWithinFold_alt: "pathWithinFold foldPaths a b \<longleftrightarrow> within (foldPathKey foldPaths a) (foldPathKey foldPaths b)"
  by (auto simp: pathWithinFold_def within_iff)

interpretation claim_paths: containment "pathWithinFold foldPaths" for foldPaths
proof
  show "pathWithinFold foldPaths a b \<Longrightarrow> pathWithinFold foldPaths b c \<Longrightarrow> pathWithinFold foldPaths a c" for a b c
    unfolding pathWithinFold_alt by (rule within_trans)
  show "pathWithinFold foldPaths a t \<Longrightarrow> pathWithinFold foldPaths b t \<Longrightarrow>
      pathWithinFold foldPaths a b \<or> pathWithinFold foldPaths b a" for a b t
    unfolding pathWithinFold_alt by (rule within_comparable)
qed

lemma pathWithinFold_refl: "a \<noteq> [] \<Longrightarrow> pathWithinFold foldPaths a a"
  by (simp add: pathWithinFold_alt within_refl)

lemma Overlaps_sym: "Overlaps foldPaths a b = Overlaps foldPaths b a"
  by (auto simp: Overlaps_def list_ex_iff)

lemma Overlaps_self:
  assumes "\<not> Empty s" and "[] \<notin> set (wp_Paths s)"
  shows "Overlaps foldPaths s s"
proof (cases "wp_WholeWorkspace s")
  case True
  then show ?thesis using assms(1) by (auto simp: Overlaps_def pathWithinFold_refl)
next
  case False
  with assms obtain p where "p \<in> set (wp_Paths s)" "p \<noteq> []"
    by (cases "wp_Paths s") (auto simp: Empty_def)
  then show ?thesis using False assms(1) pathWithinFold_refl
    by (auto simp: Overlaps_def list_ex_iff)
qed

lemma writeClaimEqual_iff [simp]: "writeClaimEqual a b \<longleftrightarrow> a = b"
  unfolding writeClaimEqual_def list_all2_eq [symmetric] by (cases a; cases b) auto

text \<open>A claim as the two constructors build them: every path lies in the workspace.\<close>

definition wf_claim :: "bool \<Rightarrow> WritePathSet \<Rightarrow> bool" where
  "wf_claim foldPaths s \<longleftrightarrow>
     list_all (\<lambda>p. pathWithinFold foldPaths (wp_WorkspaceRoot s) p) (wp_Paths s)"

lemma normalizeLoop_ok:
  assumes "normalizeLoop foldPaths fs root i raw seen out = Inr paths"
    and "foldPathKey foldPaths ` set out \<subseteq> seen" and "distinct (map (foldPathKey foldPaths) out)"
  shows "\<exists>new. paths = out @ new
    \<and> (\<forall>p \<in> set new. pathWithinFold foldPaths root p \<and> (\<exists>e \<in> set raw. resolveWriteClaimPath fs root (TrimSpace e) = Inr p))
    \<and> (\<forall>e \<in> set raw. \<exists>p. resolveWriteClaimPath fs root (TrimSpace e) = Inr p
        \<and> foldPathKey foldPaths p \<in> seen \<union> foldPathKey foldPaths ` set new)
    \<and> (foldPathKey foldPaths ` set new) \<inter> seen = {} \<and> distinct (map (foldPathKey foldPaths) new)
    \<and> (\<forall>e \<in> set raw. TrimSpace e \<noteq> [] \<and> \<not> ContainsAny (TrimSpace e) ''*?['')"
  using assms
proof (induction raw arbitrary: i seen out)
  case (Cons e raw)
  from Cons.prems(1) obtain p where p: "resolveWriteClaimPath fs root (TrimSpace e) = Inr p"
    "pathWithinFold foldPaths root p" and ne: "TrimSpace e \<noteq> []" "\<not> ContainsAny (TrimSpace e) ''*?[''"
    by (auto simp: Let_def split: if_splits sum.splits)
  let ?k = "foldPathKey foldPaths p"
  show ?case
  proof (cases "?k \<in> seen")
    case True
    with Cons.prems p ne have "normalizeLoop foldPaths fs root (Suc i) raw seen out = Inr paths" by simp
    from Cons.IH [OF this Cons.prems(2,3)] show ?thesis using True p ne by auto
  next
    case False
    with Cons.prems p ne have l: "normalizeLoop foldPaths fs root (Suc i) raw (insert ?k seen) (out @ [p]) = Inr paths"
      by simp
    have "foldPathKey foldPaths ` set (out @ [p]) \<subseteq> insert ?k seen" using Cons.prems(2) by auto
    moreover have "distinct (map (foldPathKey foldPaths) (out @ [p]))" using Cons.prems(2,3) False by auto
    ultimately obtain new where new: "paths = (out @ [p]) @ new"
      "\<forall>q \<in> set new. pathWithinFold foldPaths root q \<and> (\<exists>e \<in> set raw. resolveWriteClaimPath fs root (TrimSpace e) = Inr q)"
      "\<forall>e \<in> set raw. \<exists>q. resolveWriteClaimPath fs root (TrimSpace e) = Inr q
        \<and> foldPathKey foldPaths q \<in> insert ?k seen \<union> foldPathKey foldPaths ` set new"
      "(foldPathKey foldPaths ` set new) \<inter> insert ?k seen = {}" "distinct (map (foldPathKey foldPaths) new)"
      "\<forall>e \<in> set raw. TrimSpace e \<noteq> [] \<and> \<not> ContainsAny (TrimSpace e) ''*?[''"
      using Cons.IH [OF l] by blast
    show ?thesis
      by (rule exI [of _ "p # new"]) (use new p ne False in auto)
  qed
qed simp

lemma NormalizeWritePaths_ok:
  assumes "NormalizeWritePaths foldPaths fs ws raw = Inr s" and "raw \<noteq> []"
  shows "\<exists>root. normalizeExistingRoot fs ws = Inr root \<and> wp_WorkspaceRoot s = root \<and> \<not> wp_WholeWorkspace s
    \<and> normalizeLoop foldPaths fs root 0 raw {} [] = Inr (wp_Paths s)"
  using assms by (auto simp: NormalizeWritePaths_def split: sum.splits)

lemma wf_claim_constructors:
  "NormalizeWritePaths foldPaths fs ws raw = Inr s \<Longrightarrow> wf_claim foldPaths s"
  "WholeWorkspaceWriteClaim fs ws = Inr s \<Longrightarrow> wf_claim foldPaths s"
proof -
  assume n: "NormalizeWritePaths foldPaths fs ws raw = Inr s"
  show "wf_claim foldPaths s"
  proof (cases "raw = []")
    case True
    with n show ?thesis
      by (auto simp: NormalizeWritePaths_def wf_claim_def emptyClaim_def split: sum.splits)
  next
    case False
    from NormalizeWritePaths_ok [OF n False] normalizeLoop_ok show ?thesis
      by (fastforce simp: wf_claim_def list_all_iff)
  qed
qed (auto simp: WholeWorkspaceWriteClaim_def wf_claim_def split: sum.splits)

lemma allowed_within_root:
  assumes "wf_claim foldPaths s" and "wp_WorkspaceRoot s \<noteq> []" and "AllowsPath foldPaths fs s t"
    and "realPathForClaim fs t = Inr ap"
  shows "pathWithinFold foldPaths (wp_WorkspaceRoot s) ap"
  using assms claim_paths.trans
  by (fastforce simp: AllowsPath_def wf_claim_def list_ex_iff list_all_iff split: if_splits)

lemma AllowsPath_real:
  "AllowsPath foldPaths fs s t \<Longrightarrow> \<not> Empty s \<and> (\<exists>ap. realPathForClaim fs t = Inr ap)"
  by (auto simp: AllowsPath_def split: if_splits sum.splits)

lemma claims_disjoint:
  assumes "wf_claim foldPaths s" "wf_claim foldPaths s'" and "\<not> Overlaps foldPaths s s'"
  shows "\<not> (AllowsPath foldPaths fs s t \<and> AllowsPath foldPaths fs s' t)"
proof
  assume a: "AllowsPath foldPaths fs s t \<and> AllowsPath foldPaths fs s' t"
  then obtain ap where ap: "realPathForClaim fs t = Inr ap" and ne: "\<not> Empty s" "\<not> Empty s'"
    using AllowsPath_real by blast
  show False
  proof (cases "wp_WholeWorkspace s \<or> wp_WholeWorkspace s'")
    case True
    with assms(3) ne have r: "wp_WorkspaceRoot s \<noteq> []" "wp_WorkspaceRoot s' \<noteq> []"
      and no: "\<not> pathWithinFold foldPaths (wp_WorkspaceRoot s) (wp_WorkspaceRoot s')"
        "\<not> pathWithinFold foldPaths (wp_WorkspaceRoot s') (wp_WorkspaceRoot s)"
      by (auto simp: Overlaps_def split: if_splits)
    from claim_paths.no_shared_target [OF no] allowed_within_root [OF assms(1) r(1) _ ap]
      allowed_within_root [OF assms(2) r(2) _ ap] a show False by blast
  next
    case False
    with a ap ne obtain p q where "p \<in> set (wp_Paths s)" "pathWithinFold foldPaths p ap"
      "q \<in> set (wp_Paths s')" "pathWithinFold foldPaths q ap"
      by (auto simp: AllowsPath_def list_ex_iff)
    moreover from this have "pathWithinFold foldPaths p q \<or> pathWithinFold foldPaths q p"
      using claim_paths.nested by blast
    ultimately show False using False assms(3) ne by (auto simp: Overlaps_def list_ex_iff)
  qed
qed

subsection \<open>The preflight\<close>

lemma conflictWith_None:
  "\<not> Empty c \<Longrightarrow> conflictWith foldPaths c i j ds = None \<longleftrightarrow> (\<forall>d \<in> set ds. \<not> Overlaps foldPaths c d)"
  by (induction ds arbitrary: j) (auto simp: Overlaps_def)

lemma conflictWith_Some:
  "conflictWith foldPaths c i j ds = Some (a, b) \<Longrightarrow>
   \<exists>k < length ds. a = Suc i \<and> b = Suc (j + k) \<and> Overlaps foldPaths c (ds ! k)"
proof (induction ds arbitrary: j)
  case (Cons d ds)
  show ?case
  proof (cases "\<not> Empty d \<and> Overlaps foldPaths c d")
    case True
    then show ?thesis using Cons.prems by (intro exI [of _ 0]) simp
  next
    case False
    then have "conflictWith foldPaths c i (Suc j) ds = Some (a, b)" using Cons.prems by (auto split: if_splits)
    from Cons.IH [OF this] obtain k where "k < length ds" "a = Suc i" "b = Suc (Suc j + k)"
      "Overlaps foldPaths c (ds ! k)" by blast
    then show ?thesis by (intro exI [of _ "Suc k"]) simp
  qed
qed simp

lemma validateLoop_None:
  "validateLoop foldPaths i cs = None \<longleftrightarrow> sorted_wrt (\<lambda>c d. \<not> Overlaps foldPaths c d) cs"
proof (induction cs arbitrary: i)
  case (Cons c cs)
  have "Empty c \<Longrightarrow> \<not> Overlaps foldPaths c d" for d by (simp add: Overlaps_def)
  then show ?case using Cons conflictWith_None [of c foldPaths i "Suc i" cs] by (auto split: option.splits)
qed simp

lemma validateLoop_Some:
  "validateLoop foldPaths i cs = Some (a, b) \<Longrightarrow>
   \<exists>m n. m < n \<and> n < length cs \<and> a = Suc (i + m) \<and> b = Suc (i + n) \<and> Overlaps foldPaths (cs ! m) (cs ! n)"
proof (induction cs arbitrary: i)
  case (Cons c cs)
  show ?case
  proof (cases "\<not> Empty c \<and> conflictWith foldPaths c i (Suc i) cs \<noteq> None")
    case True
    then have "conflictWith foldPaths c i (Suc i) cs = Some (a, b)" using Cons.prems by auto
    from conflictWith_Some [OF this] obtain k where "k < length cs" "a = Suc i" "b = Suc (Suc i + k)"
      "Overlaps foldPaths c (cs ! k)" by blast
    then show ?thesis by (intro exI [of _ 0] exI [of _ "Suc k"]) simp
  next
    case False
    then have "validateLoop foldPaths (Suc i) cs = Some (a, b)"
      using Cons.prems by (cases "conflictWith foldPaths c i (Suc i) cs") (auto split: if_splits)
    from Cons.IH [OF this] obtain m n where "m < n" "n < length cs" "a = Suc (Suc i + m)" "b = Suc (Suc i + n)"
      "Overlaps foldPaths (cs ! m) (cs ! n)" by blast
    then show ?thesis by (intro exI [of _ "Suc m"] exI [of _ "Suc n"]) simp
  qed
qed simp

subsection \<open>Properties\<close>

text \<open>A small file system: a workspace with two directories and a link out of it.\<close>

definition demo_fs :: fs_lib where
  "demo_fs = \<lparr>fs_Abs = (\<lambda>p. Inr (if Rooted p then p else ''/w/'' @ p)),
     fs_EvalSymlinks = (\<lambda>p. if p \<in> {''/'', ''/w'', ''/w/a'', ''/w/b''} then Some p
        else if p = ''/w/out'' then Some ''/etc'' else None),
     fs_IsSymlink = (\<lambda>p. p = ''/w/out'')\<rparr>"

definition demo_claim :: "gostr list \<Rightarrow> WritePathSet" where
  "demo_claim ps = \<lparr>wp_Paths = ps, wp_WholeWorkspace = False, wp_WorkspaceRoot = ''/w''\<rparr>"

text \<open>
  The concurrency limits the scheduler works with are always sane: at least one slot,
  at most 32, never more writers than slots; limits that are already sane are kept.
\<close>

theorem limits_sane:
  "case NormalizeConcurrencyLimits total0 writers0 of (t, w) \<Rightarrow>
     1 \<le> w \<and> w \<le> t \<and> t \<le> 32 \<and> NormalizeConcurrencyLimits t w = (t, w)
     \<and> (1 \<le> writers0 \<and> writers0 \<le> total0 \<and> total0 \<le> 32 \<longrightarrow> (t, w) = (total0, writers0))"
  by (simp add: NormalizeConcurrencyLimits_def Let_def DefaultMaxSubagentConcurrency_def
      DefaultMaxParallelWriters_def MaxSubagentConcurrencyLimit_def)

theorem limits_sane_witness: "NormalizeConcurrencyLimits 4 2 = (4, 2)"
  using limits_sane [where ?total0.0 = 4 and ?writers0.0 = 2] by (auto split: prod.splits)

text \<open>
  C39. NormalizeWritePaths accepts a list of paths only when every entry is non-empty and
  free of wildcards; each path of the claim resolves from an entry, lies in the resolved
  workspace root, and occurs once (up to the case folding); every entry is in the claim.
\<close>

theorem normalized_claim_sound:
  assumes "NormalizeWritePaths foldPaths fs ws raw = Inr s" and "raw \<noteq> []"
  shows "\<exists>root. normalizeExistingRoot fs ws = Inr root
    \<and> (\<forall>p \<in> set (wp_Paths s). pathWithinFold foldPaths root p
        \<and> (\<exists>e \<in> set raw. resolveWriteClaimPath fs root (TrimSpace e) = Inr p))
    \<and> (\<forall>e \<in> set raw. TrimSpace e \<noteq> [] \<and> \<not> ContainsAny (TrimSpace e) ''*?[''
        \<and> (\<exists>p. resolveWriteClaimPath fs root (TrimSpace e) = Inr p
            \<and> foldPathKey foldPaths p \<in> foldPathKey foldPaths ` set (wp_Paths s)))
    \<and> distinct (map (foldPathKey foldPaths) (wp_Paths s)) \<and> \<not> Empty s"
proof -
  from NormalizeWritePaths_ok [OF assms] obtain root where root: "normalizeExistingRoot fs ws = Inr root"
    "normalizeLoop foldPaths fs root 0 raw {} [] = Inr (wp_Paths s)" by blast
  have l: "(\<forall>p \<in> set (wp_Paths s). pathWithinFold foldPaths root p
        \<and> (\<exists>e \<in> set raw. resolveWriteClaimPath fs root (TrimSpace e) = Inr p))
    \<and> (\<forall>e \<in> set raw. \<exists>p. resolveWriteClaimPath fs root (TrimSpace e) = Inr p
        \<and> foldPathKey foldPaths p \<in> foldPathKey foldPaths ` set (wp_Paths s))
    \<and> distinct (map (foldPathKey foldPaths) (wp_Paths s))
    \<and> (\<forall>e \<in> set raw. TrimSpace e \<noteq> [] \<and> \<not> ContainsAny (TrimSpace e) ''*?['')"
    using normalizeLoop_ok [OF root(2)] by simp
  moreover from l assms(2) have "wp_Paths s \<noteq> []" by (cases raw) auto
  then have "\<not> Empty s" by (simp add: Empty_def)
  ultimately show ?thesis using root(1) by blast
qed

theorem normalized_claim_sound_witness:
  "NormalizeWritePaths False demo_fs ''/w'' [''a/x.go'', '' b ''] = Inr (demo_claim [''/w/a/x.go'', ''/w/b''])
   \<and> pathWithinFold False ''/w'' ''/w/a/x.go''"
proof -
  have n: "NormalizeWritePaths False demo_fs ''/w'' [''a/x.go'', '' b ''] = Inr (demo_claim [''/w/a/x.go'', ''/w/b''])"
    by code_simp
  have r: "normalizeExistingRoot demo_fs ''/w'' = Inr ''/w''" by code_simp
  from normalized_claim_sound [OF n] r n show ?thesis by (auto simp: demo_claim_def)
qed

text \<open>
  Write isolation: two claims that do not overlap never both allow one target, whatever
  the target resolves to; overlap is symmetric, so it does not matter which task asks.
\<close>

theorem write_isolation:
  assumes "wf_claim foldPaths s" and "wf_claim foldPaths s'" and "\<not> Overlaps foldPaths s s'"
  shows "\<not> (AllowsPath foldPaths fs s t \<and> AllowsPath foldPaths fs s' t) \<and> \<not> Overlaps foldPaths s' s"
  using claims_disjoint [OF assms] assms(3) Overlaps_sym by blast

theorem write_isolation_witness:
  "AllowsPath False demo_fs (demo_claim [''/w/a'']) ''a/y.go''
   \<and> \<not> AllowsPath False demo_fs (demo_claim [''/w/b'']) ''a/y.go''"
proof -
  have w: "wf_claim False (demo_claim [''/w/a''])" "wf_claim False (demo_claim [''/w/b''])"
    "\<not> Overlaps False (demo_claim [''/w/a'']) (demo_claim [''/w/b''])" by code_simp+
  have "AllowsPath False demo_fs (demo_claim [''/w/a'']) ''a/y.go''" by code_simp
  with write_isolation [OF w, of demo_fs "''a/y.go''"] show ?thesis by blast
qed

text \<open>
  The fleet preflight accepts a division exactly when no two claims overlap, and the
  pair of tasks its error names (counted from 1) really does.
\<close>

theorem preflight_exact:
  "(ValidateNonOverlappingWriteClaims foldPaths claims = None \<longleftrightarrow>
      (\<forall>m n. m < n \<and> n < length claims \<longrightarrow> \<not> Overlaps foldPaths (claims ! m) (claims ! n)))
   \<and> (\<forall>a b. ValidateNonOverlappingWriteClaims foldPaths claims = Some (a, b) \<longrightarrow>
      1 \<le> a \<and> a < b \<and> b \<le> length claims \<and> Overlaps foldPaths (claims ! (a - 1)) (claims ! (b - 1)))"
proof -
  have "ValidateNonOverlappingWriteClaims foldPaths claims = None \<longleftrightarrow>
      (\<forall>m n. m < n \<and> n < length claims \<longrightarrow> \<not> Overlaps foldPaths (claims ! m) (claims ! n))"
    by (auto simp: ValidateNonOverlappingWriteClaims_def validateLoop_None sorted_wrt_iff_nth_less)
  moreover have "1 \<le> a \<and> a < b \<and> b \<le> length claims \<and> Overlaps foldPaths (claims ! (a - 1)) (claims ! (b - 1))"
    if "ValidateNonOverlappingWriteClaims foldPaths claims = Some (a, b)" for a b
    using validateLoop_Some [of foldPaths 0 claims a b] that
    by (auto simp: ValidateNonOverlappingWriteClaims_def)
  ultimately show ?thesis by blast
qed

theorem preflight_exact_witness:
  "ValidateNonOverlappingWriteClaims False [demo_claim [''/w/a''], demo_claim [''/w/b''], demo_claim [''/w/a/x'']] = Some (1, 3)
   \<and> Overlaps False (demo_claim [''/w/a'']) (demo_claim [''/w/a/x''])"
proof -
  let ?cs = "[demo_claim [''/w/a''], demo_claim [''/w/b''], demo_claim [''/w/a/x'']]"
  have v: "ValidateNonOverlappingWriteClaims False ?cs = Some (1, 3)" by code_simp
  with preflight_exact [of False ?cs] have "Overlaps False (?cs ! (1 - 1)) (?cs ! (3 - 1))" by blast
  with v show ?thesis by simp
qed

end
