(* ===== verification/Scheduler.thy ===== *)
theory Scheduler imports Write_Claims "HOL-Library.Multiset" begin

text \<open>
  The model of \<open>internal/agent/scheduler.go\<close>, the session pool of sub-agent slots. Every
  critical section under the mutex is one function on the state; a blocked acquire is a
  queued waiter, named by a fresh identity where the code compares pointers. The system
  around it is a step relation that remembers which slots and parent reservations are
  currently held, and the invariant relates those to the scheduler's counters.
\<close>

record AcquireRequest =
  rq_Writer :: bool
  rq_WritePaths :: WritePathSet
  rq_Nested :: bool

record schedulerWaiter =
  w_id :: nat
  w_req :: AcquireRequest

record SubagentScheduler =
  s_maxTotal :: int
  s_maxWriters :: int
  s_activeTotal :: int
  s_activeWriters :: int
  s_activeClaims :: "WritePathSet list"
  s_parentClaims :: "WritePathSet list"
  s_waiters :: "schedulerWaiter list"

definition NewSubagentScheduler :: "int \<Rightarrow> int \<Rightarrow> SubagentScheduler" where
  "NewSubagentScheduler maxTotal0 maxWriters0 =
     (let (maxTotal, maxWriters) = NormalizeConcurrencyLimits maxTotal0 maxWriters0 in
      \<lparr>s_maxTotal = maxTotal, s_maxWriters = maxWriters, s_activeTotal = 0, s_activeWriters = 0,
       s_activeClaims = [], s_parentClaims = [], s_waiters = []\<rparr>)"

subsection \<open>Critical sections\<close>

datatype blocked = TotalLimit int int | WriterLimit int int | SubagentConflict | ParentConflict

text \<open>\<open>canStartLocked\<close>: \<open>None\<close> when the request can start, otherwise the reason.\<close>

definition canStartLocked :: "bool \<Rightarrow> SubagentScheduler \<Rightarrow> AcquireRequest \<Rightarrow> blocked option" where
  "canStartLocked foldPaths s req =
     (if s_maxTotal s \<le> s_activeTotal s then Some (TotalLimit (s_activeTotal s) (s_maxTotal s))
      else if \<not> rq_Writer req then None
      else if s_maxWriters s \<le> s_activeWriters s
        then Some (WriterLimit (s_activeWriters s) (s_maxWriters s))
      else if list_ex (\<lambda>active. Overlaps foldPaths active (rq_WritePaths req)) (s_activeClaims s)
        then Some SubagentConflict
      else if list_ex (\<lambda>active. Overlaps foldPaths active (rq_WritePaths req)) (s_parentClaims s)
        then Some ParentConflict
      else None)"

definition activateLocked :: "SubagentScheduler \<Rightarrow> AcquireRequest \<Rightarrow> SubagentScheduler" where
  "activateLocked s req =
     (let s1 = s\<lparr>s_activeTotal := s_activeTotal s + 1\<rparr> in
      if rq_Writer req then
        (let s2 = s1\<lparr>s_activeWriters := s_activeWriters s1 + 1\<rparr> in
         if \<not> Empty (rq_WritePaths req)
         then s2\<lparr>s_activeClaims := s_activeClaims s2 @ [rq_WritePaths req]\<rparr> else s2)
      else s1)"

fun removeClaim :: "WritePathSet list \<Rightarrow> WritePathSet \<Rightarrow> WritePathSet list" where
  "removeClaim [] target = []"
| "removeClaim (c # cs) target = (if writeClaimEqual c target then cs else c # removeClaim cs target)"

definition deactivateLocked :: "SubagentScheduler \<Rightarrow> AcquireRequest \<Rightarrow> SubagentScheduler" where
  "deactivateLocked s req =
     (let s1 = (if 0 < s_activeTotal s then s\<lparr>s_activeTotal := s_activeTotal s - 1\<rparr> else s) in
      if rq_Writer req then
        (let s2 = (if 0 < s_activeWriters s1 then s1\<lparr>s_activeWriters := s_activeWriters s1 - 1\<rparr> else s1) in
         if \<not> Empty (rq_WritePaths req)
         then s2\<lparr>s_activeClaims := removeClaim (s_activeClaims s2) (rq_WritePaths req)\<rparr> else s2)
      else s1)"

text \<open>
  The loop of \<open>pumpWaitersLocked\<close>: the state, the waiters that stay (in order) and the
  waiters whose channel was closed.
\<close>

fun pumpLoop ::
    "('s \<Rightarrow> 'w \<Rightarrow> bool) \<Rightarrow> ('s \<Rightarrow> 'w \<Rightarrow> 's) \<Rightarrow> 'w list \<Rightarrow> 's \<Rightarrow> 's \<times> 'w list \<times> 'w list" where
  "pumpLoop can act [] s = (s, [], [])"
| "pumpLoop can act (w # ws) s =
     (if can s w
      then (let (s', remaining, ready) = pumpLoop can act ws (act s w) in (s', remaining, w # ready))
      else (let (s', remaining, ready) = pumpLoop can act ws s in (s', w # remaining, ready)))"

definition pumpWaitersLocked ::
    "bool \<Rightarrow> SubagentScheduler \<Rightarrow> SubagentScheduler \<times> schedulerWaiter list" where
  "pumpWaitersLocked foldPaths s =
     (let (s', remaining, ready) =
        pumpLoop (\<lambda>s w. canStartLocked foldPaths s (w_req w) = None) (\<lambda>s w. activateLocked s (w_req w))
          (s_waiters s) s
      in (s'\<lparr>s_waiters := remaining\<rparr>, ready))"

definition removeWaiterLocked :: "SubagentScheduler \<Rightarrow> nat \<Rightarrow> SubagentScheduler" where
  "removeWaiterLocked s target = s\<lparr>s_waiters := filter (\<lambda>w. w_id w \<noteq> target) (s_waiters s)\<rparr>"

datatype acquired = Granted | Refused blocked | Queued

text \<open>\<open>Acquire\<close> up to the point where it returns or waits; \<open>wid\<close> is the new waiter's identity.\<close>

definition Acquire ::
    "bool \<Rightarrow> nat \<Rightarrow> AcquireRequest \<Rightarrow> SubagentScheduler \<Rightarrow> SubagentScheduler \<times> acquired" where
  "Acquire foldPaths wid req s =
     (case canStartLocked foldPaths s req of
        None \<Rightarrow> (activateLocked s req, Granted)
      | Some reason \<Rightarrow>
          if rq_Nested req then (s, Refused reason)
          else (s\<lparr>s_waiters := s_waiters s @ [\<lparr>w_id = wid, w_req = req\<rparr>]\<rparr>, Queued))"

text \<open>The function that \<open>makeRelease\<close> returns, on its first call.\<close>

definition release ::
    "bool \<Rightarrow> AcquireRequest \<Rightarrow> SubagentScheduler \<Rightarrow> SubagentScheduler \<times> schedulerWaiter list" where
  "release foldPaths req s = pumpWaitersLocked foldPaths (deactivateLocked s req)"

datatype claim_conflict = SubagentClaim | ParentClaim

definition conflictLocked :: "bool \<Rightarrow> SubagentScheduler \<Rightarrow> WritePathSet \<Rightarrow> claim_conflict option" where
  "conflictLocked foldPaths s paths =
     (if Empty paths then None
      else if list_ex (\<lambda>active. Overlaps foldPaths active paths) (s_activeClaims s) then Some SubagentClaim
      else if list_ex (\<lambda>active. Overlaps foldPaths active paths) (s_parentClaims s) then Some ParentClaim
      else None)"

definition TryClaimWritePaths :: "bool \<Rightarrow> SubagentScheduler \<Rightarrow> WritePathSet \<Rightarrow> claim_conflict option" where
  "TryClaimWritePaths foldPaths s paths = (if Empty paths then None else conflictLocked foldPaths s paths)"

definition ReserveParentWrite ::
    "bool \<Rightarrow> WritePathSet \<Rightarrow> SubagentScheduler \<Rightarrow> claim_conflict + SubagentScheduler" where
  "ReserveParentWrite foldPaths paths s =
     (if Empty paths then Inr s
      else
        (case conflictLocked foldPaths s paths of
           Some e \<Rightarrow> Inl e
         | None \<Rightarrow> Inr (s\<lparr>s_parentClaims := s_parentClaims s @ [paths]\<rparr>)))"

definition releaseParent ::
    "bool \<Rightarrow> WritePathSet \<Rightarrow> SubagentScheduler \<Rightarrow> SubagentScheduler \<times> schedulerWaiter list" where
  "releaseParent foldPaths paths s =
     pumpWaitersLocked foldPaths (s\<lparr>s_parentClaims := removeClaim (s_parentClaims s) paths\<rparr>)"

definition ActiveWriterClaims :: "SubagentScheduler \<Rightarrow> WritePathSet list" where
  "ActiveWriterClaims s = s_activeClaims s @ s_parentClaims s"

subsection \<open>The system\<close>

text \<open>
  Who holds what: \<open>sy_Held\<close> lists the slots that some goroutine has to release (a granted
  acquire, or a waiter whose channel was closed, whether it has noticed or was cancelled in
  between), and \<open>sy_Parents\<close> the parent reservations in progress.
\<close>

record system =
  sy_S :: SubagentScheduler
  sy_Next :: nat
  sy_Held :: "AcquireRequest multiset"
  sy_Parents :: "WritePathSet multiset"

definition init :: "int \<Rightarrow> int \<Rightarrow> system" where
  "init maxTotal maxWriters =
     \<lparr>sy_S = NewSubagentScheduler maxTotal maxWriters, sy_Next = 0, sy_Held = {#}, sy_Parents = {#}\<rparr>"

inductive step :: "bool \<Rightarrow> system \<Rightarrow> system \<Rightarrow> bool" for foldPaths where
  acquire_granted:
    "Acquire foldPaths (sy_Next y) req (sy_S y) = (s', Granted) \<Longrightarrow>
     step foldPaths y (y\<lparr>sy_S := s', sy_Held := add_mset req (sy_Held y)\<rparr>)"
| acquire_refused:
    "Acquire foldPaths (sy_Next y) req (sy_S y) = (s', Refused reason) \<Longrightarrow>
     step foldPaths y (y\<lparr>sy_S := s'\<rparr>)"
| acquire_queued:
    "Acquire foldPaths (sy_Next y) req (sy_S y) = (s', Queued) \<Longrightarrow>
     step foldPaths y (y\<lparr>sy_S := s', sy_Next := Suc (sy_Next y)\<rparr>)"
| slot_released:
    "req \<in># sy_Held y \<Longrightarrow> release foldPaths req (sy_S y) = (s', ready) \<Longrightarrow>
     step foldPaths y (y\<lparr>sy_S := s',
       sy_Held := sy_Held y - {#req#} + mset (map w_req ready)\<rparr>)"
| waiter_cancelled:
    "w \<in> set (s_waiters (sy_S y)) \<Longrightarrow>
     step foldPaths y (y\<lparr>sy_S := removeWaiterLocked (sy_S y) (w_id w)\<rparr>)"
| parent_reserved:
    "\<not> Empty paths \<Longrightarrow> ReserveParentWrite foldPaths paths (sy_S y) = Inr s' \<Longrightarrow>
     step foldPaths y (y\<lparr>sy_S := s', sy_Parents := add_mset paths (sy_Parents y)\<rparr>)"
| parent_released:
    "paths \<in># sy_Parents y \<Longrightarrow> releaseParent foldPaths paths (sy_S y) = (s', ready) \<Longrightarrow>
     step foldPaths y (y\<lparr>sy_S := s', sy_Parents := sy_Parents y - {#paths#},
       sy_Held := sy_Held y + mset (map w_req ready)\<rparr>)"

inductive reachable :: "bool \<Rightarrow> int \<Rightarrow> int \<Rightarrow> system \<Rightarrow> bool" for foldPaths maxTotal maxWriters where
  start: "reachable foldPaths maxTotal maxWriters (init maxTotal maxWriters)"
| step: "reachable foldPaths maxTotal maxWriters y \<Longrightarrow> step foldPaths y y' \<Longrightarrow>
    reachable foldPaths maxTotal maxWriters y'"

subsection \<open>The contract of the pump\<close>

text \<open>
  What the pump needs of the pool it serves: starting one request never unblocks another.
\<close>

locale slot_pool =
  fixes can :: "'s \<Rightarrow> 'w \<Rightarrow> bool" and act :: "'s \<Rightarrow> 'w \<Rightarrow> 's"
  assumes act_blocks: "can (act s w) v \<Longrightarrow> can s v"
begin

lemma pump_blocks: "pumpLoop can act ws s = (s', remaining, ready) \<Longrightarrow> can s' v \<Longrightarrow> can s v"
  by (induction ws arbitrary: s remaining ready) (auto split: if_splits prod.splits dest: act_blocks)

lemma pump_remaining_blocked:
  "pumpLoop can act ws s = (s', remaining, ready) \<Longrightarrow> w \<in> set remaining \<Longrightarrow> \<not> can s' w"
  by (induction ws arbitrary: s remaining ready)
     (auto split: if_splits prod.splits, metis pump_blocks)

lemma pump_split:
  "pumpLoop can act ws s = (s', remaining, ready) \<Longrightarrow> mset ws = mset remaining + mset ready"
  by (induction ws arbitrary: s remaining ready) (auto split: if_splits prod.splits)

lemma pump_subseq:
  "pumpLoop can act ws s = (s', remaining, ready) \<Longrightarrow> subseq remaining ws \<and> subseq ready ws"
  by (induction ws arbitrary: s remaining ready) (auto split: if_splits prod.splits)

lemma pump_invariant:
  assumes "\<And>s w A. P s A \<Longrightarrow> can s w \<Longrightarrow> P (act s w) (add_mset w A)"
  shows "pumpLoop can act ws s = (s', remaining, ready) \<Longrightarrow> P s A \<Longrightarrow> P s' (A + mset ready)"
proof (induction ws arbitrary: s remaining ready A)
  case (Cons w ws)
  show ?case
  proof (cases "can s w")
    case True
    with Cons.prems obtain ready' where
      l: "pumpLoop can act ws (act s w) = (s', remaining, ready')" "ready = w # ready'"
      by (auto split: prod.splits)
    from Cons.IH [OF l(1) assms [OF Cons.prems(2) True]] l(2) show ?thesis by simp
  next
    case False
    then show ?thesis using Cons by (auto split: prod.splits)
  qed
qed simp

lemma pump_frame:
  assumes "\<And>s w. f (act s w) = f s"
  shows "pumpLoop can act ws s = (s', remaining, ready) \<Longrightarrow> f s' = f s"
  by (induction ws arbitrary: s remaining ready) (auto split: if_splits prod.splits simp: assms)

lemma pump_first:
  assumes "pumpLoop can act (pre @ w # post) s = (s', remaining, ready)"
    and "\<And>v. v \<in> set pre \<Longrightarrow> \<not> can s v" and "can s w"
  shows "\<exists>ready'. ready = w # ready'"
  using assms by (induction pre arbitrary: remaining) (auto split: prod.splits)

end

subsection \<open>The scheduler as a slot pool\<close>

lemma activate_fields [simp]:
  "s_maxTotal (activateLocked s r) = s_maxTotal s"
  "s_maxWriters (activateLocked s r) = s_maxWriters s"
  "s_parentClaims (activateLocked s r) = s_parentClaims s"
  "s_waiters (activateLocked s r) = s_waiters s"
  "s_activeTotal (activateLocked s r) = s_activeTotal s + 1"
  "s_activeWriters (activateLocked s r) = s_activeWriters s + (if rq_Writer r then 1 else 0)"
  "s_activeClaims (activateLocked s r) = s_activeClaims s @
     (if rq_Writer r \<and> \<not> Empty (rq_WritePaths r) then [rq_WritePaths r] else [])"
  by (simp_all add: activateLocked_def Let_def)

lemma deactivate_fields [simp]:
  "s_maxTotal (deactivateLocked s r) = s_maxTotal s"
  "s_maxWriters (deactivateLocked s r) = s_maxWriters s"
  "s_parentClaims (deactivateLocked s r) = s_parentClaims s"
  "s_waiters (deactivateLocked s r) = s_waiters s"
  "s_activeTotal (deactivateLocked s r) = s_activeTotal s - (if 0 < s_activeTotal s then 1 else 0)"
  "s_activeWriters (deactivateLocked s r) =
     s_activeWriters s - (if rq_Writer r \<and> 0 < s_activeWriters s then 1 else 0)"
  "s_activeClaims (deactivateLocked s r) =
     (if rq_Writer r \<and> \<not> Empty (rq_WritePaths r) then removeClaim (s_activeClaims s) (rq_WritePaths r)
      else s_activeClaims s)"
  by (simp_all add: deactivateLocked_def Let_def)

lemma canStart_None_iff:
  "canStartLocked foldPaths s r = None \<longleftrightarrow>
     s_activeTotal s < s_maxTotal s \<and>
     (rq_Writer r \<longrightarrow> s_activeWriters s < s_maxWriters s
       \<and> (\<forall>c \<in> set (s_activeClaims s) \<union> set (s_parentClaims s). \<not> Overlaps foldPaths c (rq_WritePaths r)))"
  by (auto simp: canStartLocked_def list_ex_iff)

lemma canStart_waiters [simp]:
  "canStartLocked foldPaths (s\<lparr>s_waiters := ws\<rparr>) r = canStartLocked foldPaths s r"
  by (simp add: canStartLocked_def)

interpretation slots: slot_pool "\<lambda>s w. canStartLocked foldPaths s (w_req w) = None"
    "\<lambda>s w. activateLocked s (w_req w)" for foldPaths
  by unfold_locales (auto simp: canStart_None_iff split: if_splits)

lemma removeClaim_remove1 [simp]: "removeClaim cs c = remove1 c cs"
  by (induction cs) auto

subsection \<open>Accounts\<close>

text \<open>
  The books balance: the counters and claim lists of the scheduler are those of the slots
  and reservations held, within the limits, and no two claims overlap.
\<close>

definition claims_of :: "AcquireRequest multiset \<Rightarrow> WritePathSet multiset" where
  "claims_of H = image_mset rq_WritePaths (filter_mset (\<lambda>r. rq_Writer r \<and> \<not> Empty (rq_WritePaths r)) H)"

definition balanced ::
    "bool \<Rightarrow> SubagentScheduler \<Rightarrow> AcquireRequest multiset \<Rightarrow> WritePathSet multiset \<Rightarrow> bool" where
  "balanced foldPaths s H P \<longleftrightarrow>
     s_activeTotal s = int (size H) \<and> s_activeTotal s \<le> s_maxTotal s
     \<and> s_activeWriters s = int (size (filter_mset rq_Writer H)) \<and> s_activeWriters s \<le> s_maxWriters s
     \<and> mset (s_activeClaims s) = claims_of H \<and> mset (s_parentClaims s) = P
     \<and> sorted_wrt (\<lambda>c d. \<not> Overlaps foldPaths c d) (ActiveWriterClaims s)"

lemma claims_of_add [simp]:
  "claims_of (add_mset r H) = (if rq_Writer r \<and> \<not> Empty (rq_WritePaths r)
     then add_mset (rq_WritePaths r) (claims_of H) else claims_of H)"
  by (simp add: claims_of_def)

lemma balanced_waiters [simp]: "balanced foldPaths (s\<lparr>s_waiters := ws\<rparr>) H P = balanced foldPaths s H P"
  by (simp add: balanced_def ActiveWriterClaims_def)

lemma apart_mset:
  "mset xs = mset ys \<Longrightarrow> sorted_wrt (\<lambda>c d. \<not> Overlaps foldPaths c d) xs \<Longrightarrow>
   sorted_wrt (\<lambda>c d. \<not> Overlaps foldPaths c d) ys"
proof (induction ys arbitrary: xs)
  case (Cons y ys)
  from Cons.prems(1) have "y \<in> set xs" by (metis list.set_intros(1) set_mset_mset)
  then obtain a b where xs: "xs = a @ y # b" by (meson split_list)
  with Cons.prems have "mset (a @ b) = mset ys"
    "sorted_wrt (\<lambda>c d. \<not> Overlaps foldPaths c d) (a @ b)" by (auto simp: sorted_wrt_append)
  with Cons.IH have ys: "sorted_wrt (\<lambda>c d. \<not> Overlaps foldPaths c d) ys" "set ys = set a \<union> set b"
    by (blast, metis set_append set_mset_mset)
  have "\<not> Overlaps foldPaths y d" if "d \<in> set ys" for d
    using that ys(2) Cons.prems(2) Overlaps_sym unfolding xs by (auto simp: sorted_wrt_append)
  with ys(1) show ?case by simp
qed simp

lemma apart_remove1:
  "sorted_wrt (\<lambda>c d. \<not> Overlaps foldPaths c d) (xs @ ys) \<Longrightarrow>
   sorted_wrt (\<lambda>c d. \<not> Overlaps foldPaths c d) (remove1 x xs @ ys)
   \<and> sorted_wrt (\<lambda>c d. \<not> Overlaps foldPaths c d) (xs @ remove1 x ys)"
proof -
  have s: "sorted_wrt (\<lambda>c d. \<not> Overlaps foldPaths c d) (remove1 x zs)"
    if "sorted_wrt (\<lambda>c d. \<not> Overlaps foldPaths c d) zs" for zs
    using that notin_set_remove1 by (induction zs) fastforce+
  show "sorted_wrt (\<lambda>c d. \<not> Overlaps foldPaths c d) (xs @ ys) \<Longrightarrow> ?thesis"
    using s by (auto simp: sorted_wrt_append dest: notin_set_remove1)
qed

lemma balanced_activate:
  assumes "balanced foldPaths s H P" and "canStartLocked foldPaths s r = None"
  shows "balanced foldPaths (activateLocked s r) (add_mset r H) P"
proof -
  let ?c = "if rq_Writer r \<and> \<not> Empty (rq_WritePaths r) then [rq_WritePaths r] else []"
  have "sorted_wrt (\<lambda>c d. \<not> Overlaps foldPaths c d) ((s_activeClaims s @ s_parentClaims s) @ ?c)"
    using assms by (auto simp: balanced_def canStart_None_iff sorted_wrt_append ActiveWriterClaims_def)
  then have "sorted_wrt (\<lambda>c d. \<not> Overlaps foldPaths c d) ((s_activeClaims s @ ?c) @ s_parentClaims s)"
    by (rule apart_mset [rotated]) simp
  then show ?thesis
    using assms by (auto simp: balanced_def canStart_None_iff ActiveWriterClaims_def)
qed

lemma balanced_deactivate:
  assumes "balanced foldPaths s H P" and "r \<in># H"
  shows "balanced foldPaths (deactivateLocked s r) (H - {#r#}) P"
proof -
  from assms(2) obtain H' where H: "H = add_mset r H'" by (metis multi_member_split)
  show ?thesis
    using assms(1) apart_remove1 [of foldPaths "s_activeClaims s" "s_parentClaims s" "rq_WritePaths r"]
    unfolding H by (auto simp: balanced_def ActiveWriterClaims_def split: if_splits)
qed

subsection \<open>The invariant\<close>

definition all_blocked :: "bool \<Rightarrow> SubagentScheduler \<Rightarrow> bool" where
  "all_blocked foldPaths s \<longleftrightarrow> (\<forall>w \<in> set (s_waiters s). canStartLocked foldPaths s (w_req w) \<noteq> None)"

definition limits :: "SubagentScheduler \<Rightarrow> int \<times> int" where
  "limits s = (s_maxTotal s, s_maxWriters s)"

lemma limits_simps [simp]:
  "limits (activateLocked s r) = limits s" "limits (deactivateLocked s r) = limits s"
  "limits (s\<lparr>s_waiters := ws\<rparr>) = limits s" "limits (s\<lparr>s_parentClaims := ps\<rparr>) = limits s"
  by (simp_all add: limits_def)

lemma pump_facts:
  assumes "pumpWaitersLocked foldPaths s = (s', ready)"
  shows "all_blocked foldPaths s'" and "limits s' = limits s"
    and "balanced foldPaths s H P \<Longrightarrow> balanced foldPaths s' (H + mset (map w_req ready)) P"
    and "subseq (s_waiters s') (s_waiters s)"
    and "mset (s_waiters s) = mset (s_waiters s') + mset ready"
proof -
  obtain s1 remaining where l: "pumpLoop (\<lambda>s w. canStartLocked foldPaths s (w_req w) = None)
      (\<lambda>s w. activateLocked s (w_req w)) (s_waiters s) s = (s1, remaining, ready)"
    and s': "s' = s1\<lparr>s_waiters := remaining\<rparr>"
    using assms by (auto simp: pumpWaitersLocked_def split: prod.splits)
  show "all_blocked foldPaths s'" using slots.pump_remaining_blocked [OF l] by (auto simp: all_blocked_def s')
  show "limits s' = limits s" using slots.pump_frame [of limits, OF _ l] by (simp add: s')
  show "balanced foldPaths s' (H + mset (map w_req ready)) P" if "balanced foldPaths s H P"
    using slots.pump_invariant [of "\<lambda>s A. balanced foldPaths s (H + image_mset w_req A) P", OF _ l, of "{#}"] that
    by (auto simp: s' balanced_activate)
  show "subseq (s_waiters s') (s_waiters s)" using slots.pump_subseq [OF l] by (simp add: s')
  show "mset (s_waiters s) = mset (s_waiters s') + mset ready" using slots.pump_split [OF l] by (simp add: s')
qed

definition inv :: "bool \<Rightarrow> int \<Rightarrow> int \<Rightarrow> system \<Rightarrow> bool" where
  "inv foldPaths maxTotal maxWriters y \<longleftrightarrow>
     limits (sy_S y) = NormalizeConcurrencyLimits maxTotal maxWriters
     \<and> balanced foldPaths (sy_S y) (sy_Held y) (sy_Parents y)
     \<and> all_blocked foldPaths (sy_S y)
     \<and> (\<forall>p \<in># sy_Parents y. \<not> Empty p)
     \<and> distinct (map w_id (s_waiters (sy_S y)))
     \<and> (\<forall>w \<in> set (s_waiters (sy_S y)). w_id w < sy_Next y)"

lemma limits_pos:
  "limits s = NormalizeConcurrencyLimits a b \<Longrightarrow> 1 \<le> s_maxWriters s \<and> s_maxWriters s \<le> s_maxTotal s \<and> s_maxTotal s \<le> 32"
  by (auto simp: limits_def NormalizeConcurrencyLimits_def Let_def DefaultMaxSubagentConcurrency_def
      DefaultMaxParallelWriters_def MaxSubagentConcurrencyLimit_def)

lemma inv_init: "inv foldPaths maxTotal maxWriters (init maxTotal maxWriters)"
proof -
  let ?s = "NewSubagentScheduler maxTotal maxWriters"
  have l: "limits ?s = NormalizeConcurrencyLimits maxTotal maxWriters"
    by (simp add: limits_def NewSubagentScheduler_def split: prod.splits)
  have "s_activeTotal ?s = 0" "s_activeWriters ?s = 0" "s_activeClaims ?s = []" "s_parentClaims ?s = []"
    "s_waiters ?s = []"
    by (simp_all add: NewSubagentScheduler_def split: prod.splits)
  with l limits_pos [OF l] show ?thesis
    by (simp add: inv_def init_def balanced_def claims_of_def all_blocked_def ActiveWriterClaims_def)
qed

lemma all_blocked_activate: "all_blocked foldPaths s \<Longrightarrow> all_blocked foldPaths (activateLocked s r)"
  using slots.act_blocks [of foldPaths s "\<lparr>w_id = 0, w_req = r\<rparr>"]
  by (fastforce simp: all_blocked_def)

lemma subseq_set': "subseq xs ys \<Longrightarrow> set xs \<subseteq> set ys"
  by (induction rule: list_emb.induct) auto

lemma subseq_distinct': "subseq xs ys \<Longrightarrow> distinct ys \<Longrightarrow> distinct xs"
  by (induction rule: list_emb.induct) (auto dest: subseq_set')

lemma waiters_pump:
  assumes "pumpWaitersLocked foldPaths s = (s', ready)" and "distinct (map w_id (s_waiters s))"
    and "\<forall>w \<in> set (s_waiters s). w_id w < n"
  shows "distinct (map w_id (s_waiters s')) \<and> (\<forall>w \<in> set (s_waiters s'). w_id w < n)"
proof -
  note sub = pump_facts(4) [OF assms(1)]
  have "subseq (map w_id (s_waiters s')) (map w_id (s_waiters s))" using sub by (rule subseq_map)
  then have "distinct (map w_id (s_waiters s'))" using assms(2) subseq_distinct' by blast
  moreover have "set (s_waiters s') \<subseteq> set (s_waiters s)" using sub by (rule subseq_set')
  ultimately show ?thesis using assms(3) by blast
qed

lemma inv_pump:
  assumes i: "limits s = NormalizeConcurrencyLimits a b" "balanced foldPaths s H P" "\<forall>p \<in># P. \<not> Empty p"
    "distinct (map w_id (s_waiters s))" "\<forall>w \<in> set (s_waiters s). w_id w < n"
    and p: "pumpWaitersLocked foldPaths s = (s', ready)"
  shows "inv foldPaths a b \<lparr>sy_S = s', sy_Next = n, sy_Held = H + mset (map w_req ready), sy_Parents = P\<rparr>"
  using pump_facts [OF p] waiters_pump [OF p i(4,5)] i by (simp add: inv_def)

lemma inv_step:
  assumes "step foldPaths y y'" and "inv foldPaths a b y"
  shows "inv foldPaths a b y'"
  using assms
proof (cases rule: step.cases)
  case (acquire_granted req s')
  then have s': "s' = activateLocked (sy_S y) req" "canStartLocked foldPaths (sy_S y) req = None"
    by (auto simp: Acquire_def split: option.splits if_splits)
  then show ?thesis
    using acquire_granted(1) assms(2) balanced_activate all_blocked_activate by (auto simp: inv_def)
next
  case (acquire_refused req s' reason)
  then have "s' = sy_S y" by (auto simp: Acquire_def split: option.splits if_splits)
  then show ?thesis using acquire_refused assms(2) by (simp add: inv_def)
next
  case (acquire_queued req s')
  then have s': "s' = (sy_S y)\<lparr>s_waiters := s_waiters (sy_S y) @ [\<lparr>w_id = sy_Next y, w_req = req\<rparr>]\<rparr>"
    "canStartLocked foldPaths (sy_S y) req \<noteq> None"
    by (auto simp: Acquire_def split: option.splits if_splits)
  have "w_id w \<noteq> sy_Next y" if "w \<in> set (s_waiters (sy_S y))" for w
    using assms(2) that by (auto simp: inv_def)
  then show ?thesis
    using acquire_queued(1) assms(2) s' by (auto simp: inv_def all_blocked_def less_SucI)
next
  case (slot_released req s' ready)
  let ?d = "deactivateLocked (sy_S y) req"
  have b: "balanced foldPaths ?d (sy_Held y - {#req#}) (sy_Parents y)"
    using assms(2) slot_released(2) by (intro balanced_deactivate) (simp_all add: inv_def)
  have p: "pumpWaitersLocked foldPaths ?d = (s', ready)" using slot_released(3) by (simp add: release_def)
  have "inv foldPaths a b \<lparr>sy_S = s', sy_Next = sy_Next y,
      sy_Held = sy_Held y - {#req#} + mset (map w_req ready), sy_Parents = sy_Parents y\<rparr>"
    by (rule inv_pump [OF _ b _ _ _ p]) (use assms(2) in \<open>simp_all add: inv_def\<close>)
  then show ?thesis unfolding slot_released(1) by (simp add: inv_def)
next
  case (waiter_cancelled w)
  have "distinct (map w_id (filter f (s_waiters (sy_S y))))" for f
    using assms(2) distinct_map_filter by (auto simp: inv_def)
  then show ?thesis
    using waiter_cancelled(1) assms(2) by (auto simp: inv_def removeWaiterLocked_def all_blocked_def)
next
  case (parent_reserved paths s')
  then have s': "s' = (sy_S y)\<lparr>s_parentClaims := s_parentClaims (sy_S y) @ [paths]\<rparr>"
    "conflictLocked foldPaths (sy_S y) paths = None"
    by (auto simp: ReserveParentWrite_def split: option.splits)
  then have "\<forall>c \<in> set (ActiveWriterClaims (sy_S y)). \<not> Overlaps foldPaths c paths"
    using parent_reserved(2) by (auto simp: conflictLocked_def ActiveWriterClaims_def list_ex_iff split: if_splits)
  then have "balanced foldPaths s' (sy_Held y) (add_mset paths (sy_Parents y))"
    using assms(2) unfolding s'(1)
    by (auto simp: inv_def balanced_def ActiveWriterClaims_def sorted_wrt_append)
  moreover have "all_blocked foldPaths s'"
    using assms(2) unfolding s'(1) by (auto simp: inv_def all_blocked_def canStart_None_iff split: if_splits)
  ultimately show ?thesis using parent_reserved(1,2) assms(2) s'(1) by (auto simp: inv_def)
next
  case (parent_released paths s' ready)
  let ?d = "(sy_S y)\<lparr>s_parentClaims := removeClaim (s_parentClaims (sy_S y)) paths\<rparr>"
  have b: "balanced foldPaths ?d (sy_Held y) (sy_Parents y - {#paths#})"
    using assms(2) apart_remove1 [of foldPaths "s_activeClaims (sy_S y)" "s_parentClaims (sy_S y)" paths]
    by (auto simp: inv_def balanced_def ActiveWriterClaims_def)
  have p: "pumpWaitersLocked foldPaths ?d = (s', ready)" using parent_released(3) by (simp add: releaseParent_def)
  have "inv foldPaths a b \<lparr>sy_S = s', sy_Next = sy_Next y,
      sy_Held = sy_Held y + mset (map w_req ready), sy_Parents = sy_Parents y - {#paths#}\<rparr>"
    by (rule inv_pump [OF _ b _ _ _ p]) (use assms(2) in \<open>auto simp: inv_def dest: in_diffD\<close>)
  then show ?thesis unfolding parent_released(1) by (simp add: inv_def)
qed

lemma reachable_inv: "reachable foldPaths a b y \<Longrightarrow> inv foldPaths a b y"
  by (induction rule: reachable.induct) (auto intro: inv_init inv_step)

subsection \<open>Properties\<close>

definition demo_req :: "gostr list \<Rightarrow> AcquireRequest" where
  "demo_req ps = \<lparr>rq_Writer = True, rq_WritePaths = demo_claim ps, rq_Nested = False\<rparr>"

text \<open>
  A reachable system of one slot: a writer of \<open>/w/a\<close> runs and a second writer waits for it.
\<close>

definition demo_busy :: system where
  "demo_busy = \<lparr>sy_S = fst (Acquire False 0 (demo_req [''/w/b''])
       (fst (Acquire False 0 (demo_req [''/w/a'']) (NewSubagentScheduler 1 1)))),
     sy_Next = 1, sy_Held = {#demo_req [''/w/a'']#}, sy_Parents = {#}\<rparr>"

lemma demo_busy_reachable: "reachable False 1 1 demo_busy"
proof -
  let ?s0 = "NewSubagentScheduler 1 1"
  let ?s1 = "fst (Acquire False 0 (demo_req [''/w/a'']) ?s0)"
  let ?s2 = "fst (Acquire False 0 (demo_req [''/w/b'']) ?s1)"
  have g: "snd (Acquire False 0 (demo_req [''/w/a'']) ?s0) = Granted" by code_simp
  have q: "snd (Acquire False 0 (demo_req [''/w/b'']) ?s1) = Queued" by code_simp
  have "step False (init 1 1) ((init 1 1)\<lparr>sy_S := ?s1, sy_Held := add_mset (demo_req [''/w/a'']) (sy_Held (init 1 1))\<rparr>)"
    by (rule step.acquire_granted) (use g in \<open>simp add: init_def prod_eq_iff\<close>)
  with reachable.start have r: "reachable False 1 1
      ((init 1 1)\<lparr>sy_S := ?s1, sy_Held := add_mset (demo_req [''/w/a'']) (sy_Held (init 1 1))\<rparr>)"
    by (rule reachable.step)
  have "step False ((init 1 1)\<lparr>sy_S := ?s1, sy_Held := add_mset (demo_req [''/w/a'']) (sy_Held (init 1 1))\<rparr>)
      demo_busy"
    using step.acquire_queued [of False "(init 1 1)\<lparr>sy_S := ?s1, sy_Held := add_mset (demo_req [''/w/a'']) (sy_Held (init 1 1))\<rparr>"
        "demo_req [''/w/b'']" ?s2] q
    by (simp add: init_def prod_eq_iff demo_busy_def)
  with r show ?thesis by (rule reachable.step)
qed

text \<open>
  C36. Whatever the interleaving of acquires, releases, cancellations and parent writes, the
  number of running sub-agents and of running writers stays within the normalized limits,
  and the counters of the scheduler are exactly the numbers of slots held: no slot leaks and
  none is released twice.
\<close>

theorem scheduler_within_limits:
  assumes "reachable foldPaths maxTotal maxWriters y"
  shows "case NormalizeConcurrencyLimits maxTotal maxWriters of (t, w) \<Rightarrow>
    s_activeTotal (sy_S y) = int (size (sy_Held y)) \<and> int (size (sy_Held y)) \<le> t
    \<and> s_activeWriters (sy_S y) = int (size (filter_mset rq_Writer (sy_Held y)))
    \<and> int (size (filter_mset rq_Writer (sy_Held y))) \<le> w"
proof -
  have i: "inv foldPaths maxTotal maxWriters y" by (rule reachable_inv [OF assms])
  then have "NormalizeConcurrencyLimits maxTotal maxWriters = (s_maxTotal (sy_S y), s_maxWriters (sy_S y))"
    by (simp add: inv_def limits_def)
  with i show ?thesis by (simp add: inv_def balanced_def)
qed

theorem scheduler_within_limits_witness: "s_activeTotal (sy_S demo_busy) = 1"
  using scheduler_within_limits [OF demo_busy_reachable] by (simp add: demo_busy_def split: prod.splits)

text \<open>
  C24. The claims the scheduler reports as active are those of the running writers and of
  the parent writes in progress; no two of them overlap, so two writers that run at the same
  time are never both allowed to write one path.
\<close>

theorem running_writers_isolated:
  assumes "reachable foldPaths maxTotal maxWriters y"
  shows "mset (ActiveWriterClaims (sy_S y)) = claims_of (sy_Held y) + sy_Parents y
    \<and> (\<forall>m n. m < n \<and> n < length (ActiveWriterClaims (sy_S y)) \<longrightarrow>
        \<not> Overlaps foldPaths (ActiveWriterClaims (sy_S y) ! m) (ActiveWriterClaims (sy_S y) ! n)
        \<and> (wf_claim foldPaths (ActiveWriterClaims (sy_S y) ! m) \<and> wf_claim foldPaths (ActiveWriterClaims (sy_S y) ! n) \<longrightarrow>
            \<not> (AllowsPath foldPaths fs (ActiveWriterClaims (sy_S y) ! m) t
               \<and> AllowsPath foldPaths fs (ActiveWriterClaims (sy_S y) ! n) t)))"
proof -
  have b: "balanced foldPaths (sy_S y) (sy_Held y) (sy_Parents y)"
    using reachable_inv [OF assms] by (simp add: inv_def)
  then have "mset (ActiveWriterClaims (sy_S y)) = claims_of (sy_Held y) + sy_Parents y"
    by (simp add: balanced_def ActiveWriterClaims_def)
  moreover from b have "\<forall>m n. m < n \<and> n < length (ActiveWriterClaims (sy_S y)) \<longrightarrow>
      \<not> Overlaps foldPaths (ActiveWriterClaims (sy_S y) ! m) (ActiveWriterClaims (sy_S y) ! n)"
    by (simp add: balanced_def sorted_wrt_iff_nth_less)
  ultimately show ?thesis using claims_disjoint by blast
qed

theorem running_writers_isolated_witness:
  "mset (ActiveWriterClaims (sy_S demo_busy)) = claims_of {#demo_req [''/w/a'']#}"
  using running_writers_isolated [OF demo_busy_reachable, of demo_fs "[]"] by (simp add: demo_busy_def)

text \<open>
  C37. No wakeup is lost and the pool cannot deadlock: in every reachable state each queued
  request is blocked by a limit or a conflicting claim that is in force, and while anyone
  waits some slot or parent write is held, whose release runs the pump again.
\<close>

theorem no_lost_wakeup:
  assumes "reachable foldPaths maxTotal maxWriters y" and "w \<in> set (s_waiters (sy_S y))"
  shows "canStartLocked foldPaths (sy_S y) (w_req w) \<noteq> None \<and> (sy_Held y \<noteq> {#} \<or> sy_Parents y \<noteq> {#})"
proof -
  have i: "inv foldPaths maxTotal maxWriters y" by (rule reachable_inv [OF assms(1)])
  then have blocked: "canStartLocked foldPaths (sy_S y) (w_req w) \<noteq> None"
    using assms(2) by (auto simp: inv_def all_blocked_def)
  have "sy_Held y \<noteq> {#} \<or> sy_Parents y \<noteq> {#}"
  proof (rule ccontr)
    assume "\<not> ?thesis"
    with i have "s_activeTotal (sy_S y) = 0" "s_activeWriters (sy_S y) = 0"
      "s_activeClaims (sy_S y) = []" "s_parentClaims (sy_S y) = []"
      by (simp_all add: inv_def balanced_def claims_of_def)
    moreover have "1 \<le> s_maxWriters (sy_S y) \<and> s_maxWriters (sy_S y) \<le> s_maxTotal (sy_S y)"
      using i limits_pos by (auto simp: inv_def)
    ultimately show False using blocked by (auto simp: canStart_None_iff)
  qed
  with blocked show ?thesis by blast
qed

theorem no_lost_wakeup_witness:
  "canStartLocked False (sy_S demo_busy) (demo_req [''/w/b'']) \<noteq> None \<and> sy_Held demo_busy \<noteq> {#}"
proof -
  have "\<lparr>w_id = 0, w_req = demo_req [''/w/b'']\<rparr> \<in> set (s_waiters (sy_S demo_busy))" by code_simp
  from no_lost_wakeup [OF demo_busy_reachable this] show ?thesis by (simp add: demo_busy_def)
qed

text \<open>
  When a slot is released, the queue is served in order: every waiter either stays
  queued in its place or is started, the first waiter that can start is started first, and
  nobody who still can start is left behind.
\<close>

theorem release_serves_queue:
  assumes "release foldPaths req s = (s', ready)"
  shows "mset (s_waiters s) = mset (s_waiters s') + mset ready
    \<and> subseq (s_waiters s') (s_waiters s) \<and> subseq ready (s_waiters s)
    \<and> (\<forall>w \<in> set (s_waiters s'). canStartLocked foldPaths s' (w_req w) \<noteq> None)
    \<and> (\<forall>pre w post. s_waiters s = pre @ w # post
        \<and> canStartLocked foldPaths (deactivateLocked s req) (w_req w) = None
        \<and> (\<forall>v \<in> set pre. canStartLocked foldPaths (deactivateLocked s req) (w_req v) \<noteq> None)
        \<longrightarrow> (\<exists>later. ready = w # later))"
proof -
  let ?d = "deactivateLocked s req"
  have p: "pumpWaitersLocked foldPaths ?d = (s', ready)" using assms by (simp add: release_def)
  then obtain s1 remaining where l: "pumpLoop (\<lambda>s w. canStartLocked foldPaths s (w_req w) = None)
      (\<lambda>s w. activateLocked s (w_req w)) (s_waiters s) ?d = (s1, remaining, ready)"
    by (auto simp: pumpWaitersLocked_def split: prod.splits)
  have first: "\<exists>later. ready = w # later"
    if "s_waiters s = pre @ w # post" "canStartLocked foldPaths ?d (w_req w) = None"
      "\<forall>v \<in> set pre. canStartLocked foldPaths ?d (w_req v) \<noteq> None" for pre w post
    by (rule slots.pump_first [OF l [unfolded that(1)]]) (use that in auto)
  show ?thesis
    using pump_facts(1,4,5) [OF p] slots.pump_subseq [OF l] first by (auto simp: all_blocked_def)
qed

theorem release_serves_queue_witness:
  "\<exists>later. snd (release False (demo_req [''/w/a'']) (sy_S demo_busy)) = \<lparr>w_id = 0, w_req = demo_req [''/w/b'']\<rparr> # later"
proof -
  let ?s = "sy_S demo_busy"
  let ?w = "\<lparr>w_id = 0, w_req = demo_req [''/w/b'']\<rparr>"
  obtain s' ready where r: "release False (demo_req [''/w/a'']) ?s = (s', ready)" by fastforce
  have q: "s_waiters ?s = [] @ ?w # []"
    "canStartLocked False (deactivateLocked ?s (demo_req [''/w/a''])) (w_req ?w) = None" by code_simp+
  have "\<exists>later. ready = ?w # later"
    using release_serves_queue [OF r] q by (metis empty_iff empty_set)
  with r show ?thesis by simp
qed

end
