(* ===== verification/Text_Encoding.thy ===== *)
theory Text_Encoding imports Go_Strings begin

text \<open>
  The model of \<open>internal/fileutil/encoding/encoding.go\<close>: detecting the encoding of a file,
  decoding it to UTF-8 for editing and encoding it back. A byte is a \<open>char\<close>, a rune a
  natural number, a UTF-16 code unit a natural number below \<open>2 ^ 16\<close> (conversions to
  \<open>uint16\<close> are written as \<open>mod\<close>). Go's own UTF-8 conversions between strings and runes are
  modelled; the GB18030 transformer of \<open>golang.org/x/text\<close> is the parameter \<open>gb_lib\<close>.
\<close>

subsection \<open>UTF-8 as the Go language defines it\<close>

type_synonym rune = nat

definition RuneError :: rune where "RuneError = 0xFFFD"

definition surrogate :: "rune \<Rightarrow> bool" where
  "surrogate r \<longleftrightarrow> 0xD800 \<le> r \<and> r < 0xE000"

definition scalar :: "rune \<Rightarrow> bool" where
  "scalar r \<longleftrightarrow> r < 0x110000 \<and> \<not> surrogate r"

definition byte :: "nat \<Rightarrow> char" where "byte n = char_of n"
definition byte_val :: "char \<Rightarrow> nat" where "byte_val c = of_char c"

definition encodeRune :: "rune \<Rightarrow> gostr" where
  "encodeRune r =
     (if r < 0x80 then [byte r]
      else if r < 0x800 then [byte (0xC0 + r div 64), byte (0x80 + r mod 64)]
      else if \<not> scalar r then [byte 0xEF, byte 0xBF, byte 0xBD]
      else if r < 0x10000 then
        [byte (0xE0 + r div 4096), byte (0x80 + r div 64 mod 64), byte (0x80 + r mod 64)]
      else [byte (0xF0 + r div 262144), byte (0x80 + r div 4096 mod 64),
            byte (0x80 + r div 64 mod 64), byte (0x80 + r mod 64)])"

definition cont :: "nat \<Rightarrow> bool" where "cont b \<longleftrightarrow> 0x80 \<le> b \<and> b < 0xC0"

text \<open>\<open>utf8.DecodeRune\<close>: the rune and the bytes it takes; an invalid sequence takes one.\<close>

fun decodeRuneVals :: "nat list \<Rightarrow> rune \<times> nat" where
  "decodeRuneVals [] = (RuneError, 0)"
| "decodeRuneVals (a # s) =
     (if a < 0x80 then (a, 1)
      else if 0xC2 \<le> a \<and> a < 0xE0 then
        (case s of
           b # _ \<Rightarrow> if cont b then ((a - 0xC0) * 64 + (b - 0x80), 2) else (RuneError, 1)
         | [] \<Rightarrow> (RuneError, 1))
      else if 0xE0 \<le> a \<and> a < 0xF0 then
        (case s of
           b # c # _ \<Rightarrow>
             if cont b \<and> cont c \<and> (a = 0xE0 \<longrightarrow> 0xA0 \<le> b) \<and> (a = 0xED \<longrightarrow> b < 0xA0)
             then ((a - 0xE0) * 4096 + (b - 0x80) * 64 + (c - 0x80), 3) else (RuneError, 1)
         | _ \<Rightarrow> (RuneError, 1))
      else if 0xF0 \<le> a \<and> a < 0xF5 then
        (case s of
           b # c # d # _ \<Rightarrow>
             if cont b \<and> cont c \<and> cont d \<and> (a = 0xF0 \<longrightarrow> 0x90 \<le> b) \<and> (a = 0xF4 \<longrightarrow> b < 0x90)
             then ((a - 0xF0) * 262144 + (b - 0x80) * 4096 + (c - 0x80) * 64 + (d - 0x80), 4)
             else (RuneError, 1)
         | _ \<Rightarrow> (RuneError, 1))
      else (RuneError, 1))"

definition decodeRune :: "gostr \<Rightarrow> rune \<times> nat" where
  "decodeRune s = decodeRuneVals (map byte_val (take 4 s))"

lemma decodeRune_size: "s \<noteq> [] \<Longrightarrow> 0 < snd (decodeRune s)"
proof -
  have "xs \<noteq> [] \<Longrightarrow> 0 < snd (decodeRuneVals xs)" for xs
    by (cases xs) (auto split: list.splits)
  then show "s \<noteq> [] \<Longrightarrow> 0 < snd (decodeRune s)" by (simp add: decodeRune_def)
qed

text \<open>\<open>[]rune(s)\<close>, \<open>string(runes)\<close> and \<open>utf8.Valid\<close>.\<close>

function runes :: "gostr \<Rightarrow> rune list" where
  "runes s = (if s = [] then [] else fst (decodeRune s) # runes (drop (snd (decodeRune s)) s))"
  by pat_completeness auto
termination by (relation "measure length") (use decodeRune_size in \<open>auto simp: diff_less\<close>)

definition runesString :: "rune list \<Rightarrow> gostr" where
  "runesString rs = concat (map encodeRune rs)"

function utf8Valid :: "gostr \<Rightarrow> bool" where
  "utf8Valid s =
     (if s = [] then True
      else decodeRune s \<noteq> (RuneError, 1) \<and> utf8Valid (drop (snd (decodeRune s)) s))"
  by pat_completeness auto
termination by (relation "measure length") (use decodeRune_size in \<open>auto simp: diff_less\<close>)

declare runes.simps [simp del] utf8Valid.simps [simp del]

subsection \<open>UTF-16\<close>

fun utf16Decode :: "nat list \<Rightarrow> rune list" where
  "utf16Decode [] = []"
| "utf16Decode [c] = [c]"
| "utf16Decode (c # c2 # u) =
     (if 0xD800 \<le> c \<and> c \<le> 0xDBFF \<and> 0xDC00 \<le> c2 \<and> c2 \<le> 0xDFFF
      then ((c - 0xD800) * 1024 + (c2 - 0xDC00) + 0x10000) # utf16Decode u
      else c # utf16Decode (c2 # u))"

fun utf16Encode :: "rune list \<Rightarrow> nat list" where
  "utf16Encode [] = []"
| "utf16Encode (r # rs) =
     (if 0x10000 \<le> r \<and> r \<le> 0x10FFFF
      then [(0xD800 + (r - 0x10000) div 1024) mod 65536, (0xDC00 + (r - 0x10000) mod 1024) mod 65536]
           @ utf16Encode rs
      else (r mod 65536) # utf16Encode rs)"

datatype byte_order = LittleEndian | BigEndian

fun Uint16 :: "byte_order \<Rightarrow> char \<Rightarrow> char \<Rightarrow> nat" where
  "Uint16 LittleEndian a b = byte_val a + 256 * byte_val b"
| "Uint16 BigEndian a b = 256 * byte_val a + byte_val b"

fun PutUint16 :: "byte_order \<Rightarrow> nat \<Rightarrow> gostr" where
  "PutUint16 LittleEndian u = [byte (u mod 256), byte (u div 256)]"
| "PutUint16 BigEndian u = [byte (u div 256), byte (u mod 256)]"

fun units :: "byte_order \<Rightarrow> gostr \<Rightarrow> nat list" where
  "units ord (a # b # s) = Uint16 ord a b # units ord s"
| "units ord s = []"

definition decodeUTF16 :: "gostr \<Rightarrow> byte_order \<Rightarrow> gostr" where
  "decodeUTF16 b ord = runesString (utf16Decode (units ord b))"

fun bomOf :: "byte_order \<Rightarrow> gostr" where
  "bomOf LittleEndian = [CHR 0xFF, CHR 0xFE]"
| "bomOf BigEndian = [CHR 0xFE, CHR 0xFF]"

definition encodeUTF16 :: "gostr \<Rightarrow> byte_order \<Rightarrow> bool \<Rightarrow> gostr" where
  "encodeUTF16 text ord withBOM =
     (if withBOM then bomOf ord else []) @ concat (map (PutUint16 ord) (utf16Encode (runes text)))"

subsection \<open>Detection and conversion\<close>

datatype Kind =
    UTF8 | UTF8BOM | UTF16LE | UTF16BE | GB18030 | LossyUTF8 | UTF16LENoBOM | UTF16BENoBOM

record gb_lib =
  gb_decode :: "gostr \<Rightarrow> gostr option"
  gb_encode :: "gostr \<Rightarrow> gostr option"

definition utf8BOM :: gostr where "utf8BOM = [CHR 0xEF, CHR 0xBB, CHR 0xBF]"

fun countNUL :: "nat \<Rightarrow> gostr \<Rightarrow> nat \<times> nat \<Rightarrow> nat \<times> nat" where
  "countNUL i [] acc = acc"
| "countNUL i (c # s) (even_n, odd_n) =
     (if c \<noteq> CHR 0x00 then countNUL (Suc i) s (even_n, odd_n)
      else if i mod 2 = 0 then countNUL (Suc i) s (Suc even_n, odd_n)
      else countNUL (Suc i) s (even_n, Suc odd_n))"

definition DetectUTF16NoBOM :: "gostr \<Rightarrow> Kind option" where
  "DetectUTF16NoBOM b =
     (if length b < 16 then None
      else
        (let n = length b - length b mod 2;
             (evenNUL, oddNUL) = countNUL 0 (take n b) (0, 0);
             half = n div 2
         in if half * 3 \<le> oddNUL * 10 \<and> evenNUL * 20 \<le> half then Some UTF16LENoBOM
            else if half * 3 \<le> evenNUL * 10 \<and> oddNUL * 20 \<le> half then Some UTF16BENoBOM
            else None))"

definition Detect :: "gb_lib \<Rightarrow> gostr \<Rightarrow> Kind" where
  "Detect gb data =
     (if HasPrefix data utf8BOM then UTF8BOM
      else if HasPrefix data (bomOf LittleEndian) then UTF16LE
      else if HasPrefix data (bomOf BigEndian) then UTF16BE
      else
        (case DetectUTF16NoBOM data of
           Some k \<Rightarrow> k
         | None \<Rightarrow>
             if utf8Valid data then UTF8
             else if gb_decode gb data \<noteq> None then GB18030
             else LossyUTF8))"

definition DetectQuick :: "gostr \<Rightarrow> Kind" where
  "DetectQuick peek =
     (if HasPrefix peek utf8BOM then UTF8BOM
      else if HasPrefix peek (bomOf LittleEndian) then UTF16LE
      else if HasPrefix peek (bomOf BigEndian) then UTF16BE
      else UTF8)"

fun Decode :: "gb_lib \<Rightarrow> gostr \<Rightarrow> Kind \<Rightarrow> gostr" where
  "Decode gb data UTF8BOM = drop 3 data"
| "Decode gb data UTF16LE = decodeUTF16 (drop 2 data) LittleEndian"
| "Decode gb data UTF16BE = decodeUTF16 (drop 2 data) BigEndian"
| "Decode gb data UTF16LENoBOM = decodeUTF16 data LittleEndian"
| "Decode gb data UTF16BENoBOM = decodeUTF16 data BigEndian"
| "Decode gb data GB18030 = (case gb_decode gb data of None \<Rightarrow> data | Some out \<Rightarrow> out)"
| "Decode gb data UTF8 = data"
| "Decode gb data LossyUTF8 = data"

definition DecodeToUTF8 :: "gb_lib \<Rightarrow> gostr \<Rightarrow> gostr" where
  "DecodeToUTF8 gb data = Decode gb data (Detect gb data)"

fun Encode :: "gb_lib \<Rightarrow> gostr \<Rightarrow> Kind \<Rightarrow> gostr" where
  "Encode gb text UTF8BOM = utf8BOM @ text"
| "Encode gb text UTF16LE = encodeUTF16 text LittleEndian True"
| "Encode gb text UTF16BE = encodeUTF16 text BigEndian True"
| "Encode gb text UTF16LENoBOM = encodeUTF16 text LittleEndian False"
| "Encode gb text UTF16BENoBOM = encodeUTF16 text BigEndian False"
| "Encode gb text GB18030 = (case gb_encode gb text of None \<Rightarrow> text | Some out \<Rightarrow> out)"
| "Encode gb text UTF8 = text"
| "Encode gb text LossyUTF8 = text"

subsection \<open>UTF-8 round trip\<close>

lemma byte_val_byte [simp]: "n < 256 \<Longrightarrow> byte_val (byte n) = n"
  by (simp add: byte_val_def byte_def)

lemma byte_byte_val [simp]: "byte (byte_val c) = c"
  by (simp add: byte_val_def byte_def)

lemma byte_val_less: "byte_val c < 256"
  by (simp add: byte_val_def)

lemma digits64: "r = r div 64 * 64 + r mod 64" for r :: nat by simp

lemma decodeRune_encodeRune:
  assumes "scalar r"
  shows "decodeRune (encodeRune r @ s) = (r, length (encodeRune r))"
proof -
  consider (1) "r < 0x80" | (2) "0x80 \<le> r" "r < 0x800" | (3) "0x800 \<le> r" "r < 0x10000" | (4) "0x10000 \<le> r"
    by linarith
  then show ?thesis
  proof cases
    case 1
    then show ?thesis by (simp add: decodeRune_def encodeRune_def)
  next
    case 2
    define a where "a = r div 64"
    define b where "b = r mod 64"
    have r: "r = a * 64 + b" and b: "b < 64" by (simp_all add: a_def b_def)
    with 2 have a: "2 \<le> a" "a < 32" by linarith+
    have e: "encodeRune r = [byte (0xC0 + a), byte (0x80 + b)]" using 2 by (simp add: encodeRune_def a_def b_def)
    show ?thesis unfolding e using a b r by (simp add: decodeRune_def cont_def)
  next
    case 3
    define a where "a = r div 64 div 64"
    define b where "b = r div 64 mod 64"
    define c where "c = r mod 64"
    have "r div 64 = a * 64 + b" by (simp add: a_def b_def)
    then have r: "r = a * 4096 + b * 64 + c" using digits64 [of r] by (simp add: c_def)
    have bc: "b < 64" "c < 64" by (simp_all add: b_def c_def)
    with 3 r have a: "a < 16" by linarith
    have e: "encodeRune r = [byte (0xE0 + a), byte (0x80 + b), byte (0x80 + c)]"
      using 3 assms by (simp add: encodeRune_def a_def b_def c_def div_mult2_eq [symmetric])
    have lo: "a = 0 \<Longrightarrow> 32 \<le> b" using 3 r bc by linarith
    have sur: "a = 13 \<Longrightarrow> b < 32"
      using assms r bc by (auto simp: scalar_def surrogate_def)
    show ?thesis unfolding e using a bc r lo sur by (auto simp: decodeRune_def cont_def)
  next
    case 4
    define a where "a = r div 64 div 64 div 64"
    define b where "b = r div 64 div 64 mod 64"
    define c where "c = r div 64 mod 64"
    define d where "d = r mod 64"
    have "r div 64 div 64 = a * 64 + b" by (simp add: a_def b_def)
    then have "r div 64 = a * 4096 + b * 64 + c" using digits64 [of "r div 64"] by (simp add: c_def)
    then have r: "r = a * 262144 + b * 4096 + c * 64 + d" using digits64 [of r] by (simp add: d_def)
    have bcd: "b < 64" "c < 64" "d < 64" by (simp_all add: b_def c_def d_def)
    have ub: "r < 0x110000" using assms by (simp add: scalar_def)
    with r have a: "a < 5" by linarith
    have e: "encodeRune r = [byte (0xF0 + a), byte (0x80 + b), byte (0x80 + c), byte (0x80 + d)]"
      using 4 assms by (simp add: encodeRune_def a_def b_def c_def d_def div_mult2_eq [symmetric])
    have lo: "a = 0 \<Longrightarrow> 16 \<le> b" using 4 r bcd by linarith
    have hi: "a = 4 \<Longrightarrow> b < 16" using ub r bcd by linarith
    show ?thesis unfolding e using a bcd r lo hi by (auto simp: decodeRune_def cont_def)
  qed
qed

lemma div64 [simp]: "y < 64 \<Longrightarrow> (x * 64 + y) div 64 = x" for x y :: nat by simp
lemma mod64 [simp]: "y < 64 \<Longrightarrow> (x * 64 + y) mod 64 = y" for x y :: nat by simp

lemma encode_2:
  assumes "0xC2 \<le> a" "a < 0xE0" "cont b"
  shows "scalar ((a - 0xC0) * 64 + (b - 0x80))
    \<and> map byte_val (encodeRune ((a - 0xC0) * 64 + (b - 0x80))) = [a, b]"
proof -
  define x where "x = a - 0xC0"
  define y where "y = b - 0x80"
  have a: "a = x + 0xC0" "2 \<le> x" "x < 32" and b: "b = y + 0x80" "y < 64"
    using assms by (auto simp: x_def y_def cont_def)
  then show ?thesis by (auto simp: encodeRune_def scalar_def surrogate_def)
qed

lemma encode_3:
  assumes "0xE0 \<le> a" "a < 0xF0" "cont b" "cont c" "a = 0xE0 \<longrightarrow> 0xA0 \<le> b" "a = 0xED \<longrightarrow> b < 0xA0"
  shows "scalar ((a - 0xE0) * 4096 + (b - 0x80) * 64 + (c - 0x80))
    \<and> map byte_val (encodeRune ((a - 0xE0) * 4096 + (b - 0x80) * 64 + (c - 0x80))) = [a, b, c]"
proof -
  define x where "x = a - 0xE0"
  define y where "y = b - 0x80"
  define z where "z = c - 0x80"
  have a: "a = x + 0xE0" "x < 16" and b: "b = y + 0x80" "y < 64" and c: "c = z + 0x80" "z < 64"
    and lo: "x = 0 \<longrightarrow> 32 \<le> y" and sur: "x = 13 \<longrightarrow> y < 32"
    using assms by (auto simp: x_def y_def z_def cont_def)
  let ?r = "x * 4096 + y * 64 + z"
  have r: "?r = (x * 64 + y) * 64 + z" by simp
  have d1: "?r div 64 = x * 64 + y" unfolding r by (rule div64) (rule c(2))
  have d2: "?r mod 64 = z" unfolding r by (rule mod64) (rule c(2))
  have "?r div 4096 = ?r div 64 div 64" using div_mult2_eq [of ?r 64 64] by simp
  then have d3: "?r div 4096 = x" unfolding d1 using div64 [OF b(2)] by simp
  note d = d1 d2 d3
  have big: "0x800 \<le> ?r" "?r < 0x10000" using a b c lo by linarith+
  have "\<not> surrogate ?r"
  proof
    assume s: "surrogate ?r"
    then have "x < 14" "12 < x" using b(2) c(2) unfolding surrogate_def by linarith+
    then have x: "x = 13" by linarith
    with sur have "y < 32" by blast
    with s x c(2) show False unfolding surrogate_def by linarith
  qed
  with big have sc: "scalar ?r" by (simp add: scalar_def)
  have "encodeRune ?r = [byte (0xE0 + x), byte (0x80 + y), byte (0x80 + z)]"
    using big sc mod64 [OF b(2), of x] unfolding encodeRune_def d by auto
  then have "map byte_val (encodeRune ?r) = [a, b, c]" using a b c by simp
  with sc show ?thesis unfolding x_def y_def z_def by blast
qed

lemma encode_4:
  assumes "0xF0 \<le> a" "a < 0xF5" "cont b" "cont c" "cont d" "a = 0xF0 \<longrightarrow> 0x90 \<le> b" "a = 0xF4 \<longrightarrow> b < 0x90"
  shows "scalar ((a - 0xF0) * 262144 + (b - 0x80) * 4096 + (c - 0x80) * 64 + (d - 0x80))
    \<and> map byte_val (encodeRune ((a - 0xF0) * 262144 + (b - 0x80) * 4096 + (c - 0x80) * 64 + (d - 0x80))) = [a, b, c, d]"
proof -
  define x where "x = a - 0xF0"
  define y where "y = b - 0x80"
  define z where "z = c - 0x80"
  define w where "w = d - 0x80"
  have a: "a = x + 0xF0" "x < 5" and b: "b = y + 0x80" "y < 64" and c: "c = z + 0x80" "z < 64"
    and d: "d = w + 0x80" "w < 64" and lo: "x = 0 \<longrightarrow> 16 \<le> y" and hi: "x = 4 \<longrightarrow> y < 16"
    using assms by (auto simp: x_def y_def z_def w_def cont_def)
  let ?r = "x * 262144 + y * 4096 + z * 64 + w"
  have r: "?r = ((x * 64 + y) * 64 + z) * 64 + w" by simp
  have q1: "?r div 64 = (x * 64 + y) * 64 + z" unfolding r by (rule div64) (rule d(2))
  have q0: "?r mod 64 = w" unfolding r by (rule mod64) (rule d(2))
  have "?r div 4096 = ?r div 64 div 64" using div_mult2_eq [of ?r 64 64] by simp
  then have q2: "?r div 4096 = x * 64 + y" unfolding q1 using div64 [OF c(2)] by simp
  have "?r div 262144 = ?r div 4096 div 64" using div_mult2_eq [of ?r 4096 64] by simp
  then have q3: "?r div 262144 = x" unfolding q2 using div64 [OF b(2)] by simp
  have q4: "?r div 64 mod 64 = z" unfolding q1 by (rule mod64) (rule c(2))
  have q5: "?r div 4096 mod 64 = y" unfolding q2 by (rule mod64) (rule b(2))
  have big: "0x10000 \<le> ?r" "?r < 0x110000" using a b c d lo hi by linarith+
  then have sc: "scalar ?r" by (simp add: scalar_def surrogate_def)
  have "encodeRune ?r = [byte (0xF0 + x), byte (0x80 + y), byte (0x80 + z), byte (0x80 + w)]"
    using big sc unfolding encodeRune_def q0 q3 q4 q5 by auto
  then have "map byte_val (encodeRune ?r) = [a, b, c, d]" using a b c d by simp
  with sc show ?thesis unfolding x_def y_def z_def w_def by blast
qed

lemma decodeRuneVals_inverse:
  assumes "decodeRuneVals vs = (r, n)" and "(r, n) \<noteq> (RuneError, 1)" and "vs \<noteq> []"
  shows "scalar r \<and> map byte_val (encodeRune r) = take n vs"
proof -
  obtain a s where vs: "vs = a # s" using assms(3) by (cases vs) auto
  consider (1) "a < 0x80" | (2) "0xC2 \<le> a" "a < 0xE0" | (3) "0xE0 \<le> a" "a < 0xF0"
    | (4) "0xF0 \<le> a" "a < 0xF5" | (5) "0x80 \<le> a" "a < 0xC2 \<or> 0xF5 \<le> a" by linarith
  then show ?thesis
  proof cases
    case 1
    then show ?thesis using assms vs by (auto simp: encodeRune_def scalar_def surrogate_def)
  next
    case 2
    then show ?thesis using assms vs encode_2 [OF 2] by (auto split: list.splits if_splits)
  next
    case 3
    then show ?thesis using assms vs encode_3 [OF 3]
      by (auto split: list.splits if_splits simp: numeral_3_eq_3)
  next
    case 4
    then show ?thesis using assms vs encode_4 [OF 4] by (auto split: list.splits if_splits)
  next
    case 5
    then show ?thesis using assms vs by auto
  qed
qed

lemma encodeRune_nonempty [simp]: "encodeRune r \<noteq> []" by (simp add: encodeRune_def)

lemma length_encodeRune: "length (encodeRune r) \<le> 4" by (simp add: encodeRune_def)

lemma runes_Nil [simp]: "runes [] = []" by (simp add: runes.simps)

lemma runes_encode [simp]: "scalar r \<Longrightarrow> runes (encodeRune r @ s) = r # runes s"
  by (subst runes.simps) (simp add: decodeRune_encodeRune)

lemma runes_runesString: "list_all scalar rs \<Longrightarrow> runes (runesString rs) = rs"
  by (induction rs) (simp_all add: runesString_def)

lemma decodeRuneVals_length: "decodeRuneVals vs = (r, n) \<Longrightarrow> vs \<noteq> [] \<Longrightarrow> n \<le> length vs \<and> n \<le> 4"
  by (cases vs) (auto split: list.splits if_splits)

lemma decodeRune_inverse:
  assumes "s \<noteq> []" and "decodeRune s \<noteq> (RuneError, 1)"
  shows "scalar (fst (decodeRune s)) \<and> encodeRune (fst (decodeRune s)) = take (snd (decodeRune s)) s
    \<and> snd (decodeRune s) \<le> length s"
proof -
  obtain r n where d: "decodeRuneVals (map byte_val (take 4 s)) = (r, n)" by fastforce
  then have dr: "decodeRune s = (r, n)" by (simp add: decodeRune_def)
  have v: "scalar r \<and> map byte_val (encodeRune r) = take n (map byte_val (take 4 s))"
    by (rule decodeRuneVals_inverse [OF d]) (use assms dr in auto)
  have "map byte (map byte_val (encodeRune r)) = map byte (take n (map byte_val (take 4 s)))"
    using v by simp
  then have e: "encodeRune r = take (min n 4) s" by (simp add: take_map comp_def)
  have n: "n \<le> 4 \<and> n \<le> length (take 4 s)" using decodeRuneVals_length [OF d] assms(1) by simp
  then have "take (min n 4) s = take n s" "n \<le> length s" by (simp_all add: min_def split: if_splits)
  with v e dr show ?thesis by simp
qed

lemma runesString_runes:
  "utf8Valid s \<Longrightarrow> runesString (runes s) = s \<and> list_all scalar (runes s)"
proof (induction s rule: utf8Valid.induct)
  case (1 s)
  show ?case
  proof (cases "s = []")
    case True
    then show ?thesis by (simp add: runesString_def)
  next
    case False
    with 1(2) have v: "decodeRune s \<noteq> (RuneError, 1)" "utf8Valid (drop (snd (decodeRune s)) s)"
      by (auto simp: utf8Valid.simps [of s])
    from decodeRune_inverse [OF False v(1)] 1(1) [OF False v(2)] show ?thesis
      unfolding runes.simps [of s] using False by (simp add: runesString_def)
  qed
qed

subsection \<open>UTF-16 round trip\<close>

lemma utf16_round_trip:
  "list_all scalar rs \<Longrightarrow> utf16Decode (utf16Encode rs) = rs"
proof (induction rs)
  case (Cons r rs)
  show ?case
  proof (cases "0x10000 \<le> r")
    case True
    define q where "q = (r - 0x10000) div 1024"
    define m where "m = (r - 0x10000) mod 1024"
    have r: "r = q * 1024 + m + 0x10000" using True by (simp add: q_def m_def)
    have m: "m < 1024" by (simp add: m_def)
    have "r < 0x110000" using Cons.prems by (simp add: scalar_def)
    with r have q: "q < 1024" by linarith
    have "utf16Encode (r # rs) = (0xD800 + q) # (0xDC00 + m) # utf16Encode rs"
      using True \<open>r < 0x110000\<close> q m by (simp add: q_def m_def)
    then show ?thesis using Cons q m r by simp
  next
    case False
    with Cons.prems have r: "utf16Encode (r # rs) = r # utf16Encode rs" by simp
    have ns: "\<not> (0xD800 \<le> r \<and> r \<le> 0xDBFF)" using Cons.prems by (auto simp: scalar_def surrogate_def)
    show ?thesis
      unfolding r using Cons ns by (cases "utf16Encode rs") auto
  qed
qed simp

lemma utf16Encode_units: "u \<in> set (utf16Encode rs) \<Longrightarrow> u < 65536"
  by (induction rs) (auto split: if_splits)

lemma units_PutUint16: "u < 65536 \<Longrightarrow> units ord (PutUint16 ord u @ s) = u # units ord s"
  by (cases ord) (simp_all add: byte_val_def byte_def)

lemma units_concat: "\<forall>u \<in> set us. u < 65536 \<Longrightarrow> units ord (concat (map (PutUint16 ord) us)) = us"
  by (induction us) (auto simp: units_PutUint16 simp del: PutUint16.simps)

lemma decodeUTF16_encodeUTF16:
  "utf8Valid s \<Longrightarrow> decodeUTF16 (concat (map (PutUint16 ord) (utf16Encode (runes s)))) ord = s"
  using runesString_runes [of s]
  by (simp add: decodeUTF16_def units_concat utf16Encode_units utf16_round_trip)

text \<open>The other direction: a UTF-16 file whose surrogates are paired comes back byte for byte.\<close>

fun well_paired :: "nat list \<Rightarrow> bool" where
  "well_paired [] = True"
| "well_paired [c] = (\<not> surrogate c)"
| "well_paired (c # c2 # u) =
     (if 0xD800 \<le> c \<and> c \<le> 0xDBFF then 0xDC00 \<le> c2 \<and> c2 \<le> 0xDFFF \<and> well_paired u
      else \<not> surrogate c \<and> well_paired (c2 # u))"

lemma utf16Decode_scalar:
  "well_paired us \<Longrightarrow> \<forall>u \<in> set us. u < 65536 \<Longrightarrow> list_all scalar (utf16Decode us)"
  by (induction us rule: well_paired.induct) (auto simp: scalar_def surrogate_def split: if_splits)

lemma utf16Encode_Decode:
  "well_paired us \<Longrightarrow> \<forall>u \<in> set us. u < 65536 \<Longrightarrow> utf16Encode (utf16Decode us) = us"
proof (induction us rule: well_paired.induct)
  case (3 c c2 u)
  show ?case
  proof (cases "0xD800 \<le> c \<and> c \<le> 0xDBFF")
    case True
    define x where "x = c - 0xD800"
    define y where "y = c2 - 0xDC00"
    have c: "c = x + 0xD800" "x < 1024" "c2 = y + 0xDC00" "y < 1024"
      using True 3 by (auto simp: x_def y_def)
    have "(x * 1024 + y) div 1024 = x" "(x * 1024 + y) mod 1024 = y" using c by simp_all
    then show ?thesis using 3 True c by simp
  next
    case False
    then show ?thesis using 3 by (auto simp: surrogate_def)
  qed
qed (auto simp: surrogate_def)

lemma Uint16_less: "Uint16 ord a b < 65536"
  using byte_val_less [of a] byte_val_less [of b] by (cases ord) simp_all

lemma units_less: "u \<in> set (units ord s) \<Longrightarrow> u < 65536"
  by (induction ord s rule: units.induct) (auto simp: Uint16_less)

lemma PutUint16_Uint16: "PutUint16 ord (Uint16 ord a b) = [a, b]"
  using byte_val_less [of a] byte_val_less [of b] by (cases ord) simp_all

lemma concat_units:
  "even (length s) \<Longrightarrow> concat (map (PutUint16 ord) (units ord s)) = s"
  by (induction ord s rule: units.induct) (simp_all add: PutUint16_Uint16 del: PutUint16.simps Uint16.simps)

lemma encodeUTF16_decodeUTF16:
  assumes "even (length b)" and "well_paired (units ord b)"
  shows "concat (map (PutUint16 ord) (utf16Encode (runes (decodeUTF16 b ord)))) = b"
proof -
  have "list_all scalar (utf16Decode (units ord b))"
    using assms(2) units_less by (blast intro: utf16Decode_scalar)
  then have "runes (decodeUTF16 b ord) = utf16Decode (units ord b)"
    by (simp add: decodeUTF16_def runes_runesString)
  then show ?thesis using assms units_less by (simp add: utf16Encode_Decode concat_units)
qed

subsection \<open>Properties\<close>

definition demo_gb :: gb_lib where
  "demo_gb = \<lparr>gb_decode = (\<lambda>_. None), gb_encode = (\<lambda>_. None)\<rparr>"

text \<open>
  Text survives being written and read back: for every encoding except GB18030, decoding
  what Encode produced from valid UTF-8 text gives the text, supplementary characters
  (surrogate pairs) included; the byte order mark makes a BOM encoding recognised again.
\<close>

theorem encode_round_trip:
  assumes "utf8Valid s" and "k \<noteq> GB18030"
  shows "Decode gb (Encode gb s k) k = s
    \<and> (k \<in> {UTF8BOM, UTF16LE, UTF16BE} \<longrightarrow> Detect gb (Encode gb s k) = k \<and> DetectQuick (Encode gb s k) = k)"
proof -
  have d: "utf8BOM = CHR 0xEF # CHR 0xBB # [CHR 0xBF]" by (simp add: utf8BOM_def)
  have "Decode gb (Encode gb s k) k = s"
    using assms(2) decodeUTF16_encodeUTF16 [OF assms(1)]
    by (cases k) (simp_all add: encodeUTF16_def utf8BOM_def)
  then show ?thesis by (cases k) (simp_all add: encodeUTF16_def Detect_def DetectQuick_def d HasPrefix_def)
qed

theorem encode_round_trip_witness:
  "Decode demo_gb (Encode demo_gb [CHR ''h'', CHR 0xF0, CHR 0x9F, CHR 0x98, CHR 0x80] UTF16LE) UTF16LE
    = [CHR ''h'', CHR 0xF0, CHR 0x9F, CHR 0x98, CHR 0x80]"
proof -
  have "utf8Valid [CHR ''h'', CHR 0xF0, CHR 0x9F, CHR 0x98, CHR 0x80]"
    by (simp add: utf8Valid.simps decodeRune_def byte_val_def RuneError_def cont_def)
  from encode_round_trip [OF this, of UTF16LE demo_gb] show ?thesis by simp
qed

text \<open>
  Editing keeps the bytes of an untouched file: decoding a file with its detected
  encoding and encoding it back gives the same bytes, when the file is UTF-8 (with or
  without a byte order mark) or undecodable, or is UTF-16 of even length whose surrogates
  are paired.
\<close>

theorem decode_encode_bytes:
  assumes "Detect gb b \<noteq> GB18030"
    and "Detect gb b \<in> {UTF16LE, UTF16BE} \<Longrightarrow> even (length b)
      \<and> well_paired (units (if Detect gb b = UTF16LE then LittleEndian else BigEndian) (drop 2 b))"
    and "Detect gb b \<in> {UTF16LENoBOM, UTF16BENoBOM} \<Longrightarrow> even (length b)
      \<and> well_paired (units (if Detect gb b = UTF16LENoBOM then LittleEndian else BigEndian) b)"
  shows "Encode gb (Decode gb b (Detect gb b)) (Detect gb b) = b"
proof -
  have bom: "b = p @ drop (length p) b" if "HasPrefix b p" for p
    using that by (metis HasPrefix_def append_take_drop_id)
  have le: "Detect gb b = UTF16LE \<Longrightarrow> HasPrefix b (bomOf LittleEndian)"
    and be: "Detect gb b = UTF16BE \<Longrightarrow> HasPrefix b (bomOf BigEndian)"
    and u8: "Detect gb b = UTF8BOM \<Longrightarrow> HasPrefix b utf8BOM"
    by (auto simp: Detect_def DetectUTF16NoBOM_def Let_def split: if_splits prod.splits)
  show ?thesis
  proof (cases "Detect gb b")
    case UTF8BOM
    have l: "length utf8BOM = 3" by (simp add: utf8BOM_def)
    from UTF8BOM show ?thesis using bom [OF u8 [OF UTF8BOM], symmetric] unfolding l by simp
  next
    case UTF16LE
    have l: "length (bomOf LittleEndian) = 2" by simp
    have "b = bomOf LittleEndian @ drop 2 b" using bom [OF le [OF UTF16LE]] unfolding l .
    with UTF16LE show ?thesis using encodeUTF16_decodeUTF16 [of "drop 2 b" LittleEndian] assms(2)
      by (simp add: encodeUTF16_def del: bomOf.simps)
  next
    case UTF16BE
    have l: "length (bomOf BigEndian) = 2" by simp
    have "b = bomOf BigEndian @ drop 2 b" using bom [OF be [OF UTF16BE]] unfolding l .
    with UTF16BE show ?thesis using encodeUTF16_decodeUTF16 [of "drop 2 b" BigEndian] assms(2)
      by (simp add: encodeUTF16_def del: bomOf.simps)
  next
    case UTF16LENoBOM
    then show ?thesis using encodeUTF16_decodeUTF16 [of b LittleEndian] assms(3) by (simp add: encodeUTF16_def)
  next
    case UTF16BENoBOM
    then show ?thesis using encodeUTF16_decodeUTF16 [of b BigEndian] assms(3) by (simp add: encodeUTF16_def)
  qed (use assms(1) in simp_all)
qed

theorem decode_encode_bytes_witness:
  "Encode demo_gb (Decode demo_gb [CHR 0xFF, CHR 0xFE, CHR ''h'', CHR 0x00] UTF16LE) UTF16LE
    = [CHR 0xFF, CHR 0xFE, CHR ''h'', CHR 0x00]"
proof -
  let ?b = "[CHR 0xFF, CHR 0xFE, CHR ''h'', CHR 0x00]"
  have k: "Detect demo_gb ?b = UTF16LE" by (simp add: Detect_def utf8BOM_def HasPrefix_def)
  have "well_paired (units LittleEndian (drop 2 ?b))" by (simp add: byte_val_def surrogate_def)
  then show ?thesis using decode_encode_bytes [of demo_gb ?b] unfolding k by simp
qed

end
