(* ===== verification/Diff.thy ===== *)
theory Diff imports Go_Strings "HOL-Library.Multiset" begin

text \<open>
  The model of \<open>internal/diff/diff.go\<close>: the preview of a file change, with its line tallies
  and the guard that keeps oversized rewrites away from the exact differ. The differ and
  the unified renderer (\<open>go-udiff\<close>) are the parameter \<open>udiff_lib\<close>.
\<close>

datatype change_kind = Create | Modify | Delete

datatype OutputMode = OutputModeUnset | OutputModePatch | OutputModePreview

fun mode_text :: "OutputMode \<Rightarrow> gostr" where
  "mode_text OutputModeUnset = []"
| "mode_text OutputModePatch = ''patch''"
| "mode_text OutputModePreview = ''preview''"

record Change =
  ch_Path :: gostr
  ch_Kind :: change_kind
  ch_OldText :: gostr
  ch_NewText :: gostr
  ch_Added :: nat
  ch_Removed :: nat
  ch_Diff :: gostr
  ch_Binary :: bool
  ch_Mode :: gostr
  ch_Hunks :: nat

record BuildOptions =
  bo_ContextLines :: int
  bo_OldLabel :: gostr
  bo_NewLabel :: gostr
  bo_Mode :: OutputMode

record Edit =
  ed_Start :: int
  ed_End :: int
  ed_New :: gostr

record udiff_lib =
  ud_Lines :: "gostr \<Rightarrow> gostr \<Rightarrow> Edit list"
  ud_ToUnified :: "gostr \<Rightarrow> gostr \<Rightarrow> gostr \<Rightarrow> Edit list \<Rightarrow> int \<Rightarrow> gostr option"

definition defaultContext :: int where "defaultContext = 3"
definition maxDiffEdits :: nat where "maxDiffEdits = 2000"

definition normalizeBuildOptions :: "gostr \<Rightarrow> BuildOptions \<Rightarrow> BuildOptions" where
  "normalizeBuildOptions path opts0 =
     (let o1 = (if bo_ContextLines opts0 < 0 then opts0\<lparr>bo_ContextLines := defaultContext\<rparr> else opts0);
          o2 = (if bo_Mode o1 = OutputModeUnset then o1\<lparr>bo_Mode := OutputModePatch\<rparr> else o1);
          o3 = (if bo_OldLabel o2 = []
                then o2\<lparr>bo_OldLabel := (if bo_Mode o2 = OutputModePreview then ''before/'' else ''a/'') @ path\<rparr>
                else o2)
      in if bo_NewLabel o3 = []
         then o3\<lparr>bo_NewLabel := (if bo_Mode o3 = OutputModePreview then ''after/'' else ''b/'') @ path\<rparr>
         else o3)"

text \<open>\<open>strings.Count\<close> of a non-empty separator: occurrences that do not overlap.\<close>

function countSub :: "gostr \<Rightarrow> gostr \<Rightarrow> nat" where
  "countSub sep s =
     (if sep = [] \<or> s = [] then 0
      else if HasPrefix s sep then Suc (countSub sep (drop (length sep) s))
      else countSub sep (tl s))"
  by pat_completeness auto
termination by (relation "measure (length o snd)") auto

declare countSub.simps [simp del]

definition countUnifiedHunks :: "gostr \<Rightarrow> nat" where
  "countUnifiedHunks diff = countSub ([nl] @ ''@@ '') diff"

subsection \<open>Lines\<close>

definition splitLines :: "gostr \<Rightarrow> gostr list \<times> bool" where
  "splitLines s =
     (if s = [] then ([], True)
      else
        (let ends = HasSuffix s [nl];
             body = (if ends then take (length s - 1) s else s)
         in (Split body nl, ends)))"

definition logicalLineCount :: "gostr \<Rightarrow> nat" where
  "logicalLineCount s = length (fst (splitLines s))"

definition isBinary :: "gostr \<Rightarrow> bool" where
  "isBinary s \<longleftrightarrow> IndexByte s (CHR 0x00) \<noteq> None"

text \<open>The two loops: the common prefix first, then the common suffix of what is left.\<close>

fun dropCommon :: "gostr list \<Rightarrow> gostr list \<Rightarrow> gostr list \<times> gostr list" where
  "dropCommon (a # as) (b # bs) = (if a = b then dropCommon as bs else (a # as, b # bs))"
| "dropCommon as bs = (as, bs)"

definition changedWindowSize :: "gostr list \<Rightarrow> gostr list \<Rightarrow> nat" where
  "changedWindowSize oldLines newLines =
     (let (o1, n1) = dropCommon oldLines newLines;
          (o2, n2) = dropCommon (rev o1) (rev n1)
      in length o2 + length n2)"

definition exactDiffTooLarge :: "gostr list \<Rightarrow> gostr list \<Rightarrow> bool" where
  "exactDiffTooLarge oldLines newLines \<longleftrightarrow> maxDiffEdits < changedWindowSize oldLines newLines"

subsection \<open>Tallies\<close>

fun tallyEdits :: "gostr \<Rightarrow> Edit list \<Rightarrow> nat \<times> nat \<Rightarrow> nat \<times> nat" where
  "tallyEdits oldText [] acc = acc"
| "tallyEdits oldText (e # es) (added, removed) =
     tallyEdits oldText es
       (added + logicalLineCount (ed_New e),
        (if 0 \<le> ed_Start e \<and> ed_Start e \<le> ed_End e \<and> ed_End e \<le> int (length oldText)
         then removed + logicalLineCount
                (take (nat (ed_End e - ed_Start e)) (drop (nat (ed_Start e)) oldText))
         else removed))"

fun countLines :: "gostr list \<Rightarrow> (gostr \<Rightarrow> nat) \<Rightarrow> (gostr \<Rightarrow> nat)" where
  "countLines [] counts = counts"
| "countLines (l # ls) counts = countLines ls (counts(l := counts l + 1))"

fun spendLines :: "gostr list \<Rightarrow> (gostr \<Rightarrow> nat) \<Rightarrow> nat \<Rightarrow> (gostr \<Rightarrow> nat) \<times> nat" where
  "spendLines [] counts added = (counts, added)"
| "spendLines (l # ls) counts added =
     (if 0 < counts l then spendLines ls (counts(l := counts l - 1)) added
      else spendLines ls counts (Suc added))"

text \<open>The keys of the Go map are the distinct old lines.\<close>

definition approxTally :: "gostr list \<Rightarrow> gostr list \<Rightarrow> nat \<times> nat" where
  "approxTally oldLines newLines =
     (let (counts, added) = spendLines newLines (countLines oldLines (\<lambda>_. 0)) 0
      in (added, sum_list (map counts (remdups oldLines))))"

subsection \<open>Building a change\<close>

definition omittedMessage :: "gostr \<Rightarrow> nat \<Rightarrow> nat \<Rightarrow> gostr" where
  "omittedMessage why added removed =
     ''(diff omitted: '' @ why @ '' '' @ [CHR 0xE2, CHR 0x80, CHR 0x94] @ '' +'' @ itoa added
       @ '' / -'' @ itoa removed @ '' lines)''"

definition BuildWithOptions ::
    "udiff_lib \<Rightarrow> gostr \<Rightarrow> gostr \<Rightarrow> gostr \<Rightarrow> change_kind \<Rightarrow> BuildOptions \<Rightarrow> Change" where
  "BuildWithOptions ud path oldText newText kind opts0 =
     (let opts = normalizeBuildOptions path opts0;
          c = \<lparr>ch_Path = path, ch_Kind = kind, ch_OldText = oldText, ch_NewText = newText,
               ch_Added = 0, ch_Removed = 0, ch_Diff = [], ch_Binary = False,
               ch_Mode = (if bo_Mode opts \<noteq> OutputModeUnset \<and> bo_Mode opts \<noteq> OutputModePatch
                          then mode_text (bo_Mode opts) else []),
               ch_Hunks = 0\<rparr>;
          oldLines = fst (splitLines oldText);
          newLines = fst (splitLines newText);
          (approxAdded, approxRemoved) = approxTally oldLines newLines
      in
      if isBinary oldText \<or> isBinary newText then c\<lparr>ch_Binary := True\<rparr>
      else if oldText = newText then c
      else if exactDiffTooLarge oldLines newLines then
        c\<lparr>ch_Added := approxAdded, ch_Removed := approxRemoved,
          ch_Diff := omittedMessage ''change too large to render'' approxAdded approxRemoved\<rparr>
      else
        (let edits = ud_Lines ud oldText newText;
             (added, removed) = tallyEdits oldText edits (0, 0)
         in case ud_ToUnified ud (bo_OldLabel opts) (bo_NewLabel opts) oldText edits (bo_ContextLines opts) of
              None \<Rightarrow>
                c\<lparr>ch_Added := approxAdded, ch_Removed := approxRemoved,
                  ch_Diff := omittedMessage ''failed to render'' approxAdded approxRemoved\<rparr>
            | Some diff \<Rightarrow>
                c\<lparr>ch_Added := added, ch_Removed := removed, ch_Diff := diff,
                  ch_Hunks := countUnifiedHunks diff\<rparr>))"

definition Build :: "udiff_lib \<Rightarrow> gostr \<Rightarrow> gostr \<Rightarrow> gostr \<Rightarrow> change_kind \<Rightarrow> Change" where
  "Build ud path oldText newText kind =
     BuildWithOptions ud path oldText newText kind
       \<lparr>bo_ContextLines = -1, bo_OldLabel = [], bo_NewLabel = [], bo_Mode = OutputModeUnset\<rparr>"

subsection \<open>Facts\<close>

lemma countLines_mset: "c = count M \<Longrightarrow> countLines ls c = count (mset ls + M)"
proof (induction ls arbitrary: c M)
  case (Cons l ls)
  have "c(l := c l + 1) = count (add_mset l M)" using Cons.prems by auto
  from Cons.IH [OF this] show ?case
    unfolding countLines.simps mset.simps union_mset_add_mset_left union_mset_add_mset_right .
qed simp

lemma spendLines_mset:
  "c = count M \<Longrightarrow> spendLines ls c n = (count (M - mset ls), n + size (mset ls - M))"
proof (induction ls arbitrary: c M n)
  case (Cons a ls)
  show ?case
  proof (cases "0 < c a")
    case True
    then obtain M' where M: "M = add_mset a M'"
      using Cons.prems by (metis count_greater_zero_iff multi_member_split)
    have "c(a := c a - 1) = count M'" using Cons.prems by (auto simp: M)
    note ih = Cons.IH [OF this]
    have e: "spendLines (a # ls) c n = spendLines ls (c(a := c a - 1)) n" using True by simp
    show ?thesis unfolding e ih M mset.simps add_mset_diff_bothsides ..
  next
    case False
    then have "a \<notin># M" using Cons.prems by (simp add: count_eq_zero_iff)
    then show ?thesis using False Cons.IH [OF Cons.prems]
      by (simp add: diff_add_mset_swap minus_add_mset_if_not_in_lhs)
  qed
qed simp

lemma sum_count_keys:
  assumes "set_mset M \<subseteq> set xs"
  shows "sum_list (map (count M) (remdups xs)) = size M"
proof -
  have "sum_list (map (count M) (remdups xs)) = sum (count M) (set xs)"
    by (simp add: sum_list_distinct_conv_sum_set)
  also have "\<dots> = sum (count M) (set_mset M)"
    using assms by (intro sum.mono_neutral_right) (auto simp: count_eq_zero_iff)
  finally show ?thesis by (simp add: size_multiset_overloaded_eq)
qed

lemma approxTally_mset:
  "approxTally oldLines newLines =
     (size (mset newLines - mset oldLines), size (mset oldLines - mset newLines))"
proof -
  have "countLines oldLines (\<lambda>_. 0) = count (mset oldLines)"
    by (subst countLines_mset [of _ "{#}"]) auto
  moreover have "set_mset (mset oldLines - mset newLines) \<subseteq> set oldLines"
    by (auto dest: in_diffD)
  ultimately show ?thesis
    by (simp add: approxTally_def spendLines_mset [OF refl] sum_count_keys)
qed

lemma dropCommon_split:
  "dropCommon as bs = (x, y) \<Longrightarrow> \<exists>p. as = p @ x \<and> bs = p @ y \<and> (x = [] \<or> y = [] \<or> hd x \<noteq> hd y)"
proof (induction as bs rule: dropCommon.induct)
  case (1 a as b bs)
  show ?case
  proof (cases "a = b")
    case True
    with 1 obtain p where "as = p @ x \<and> bs = p @ y \<and> (x = [] \<or> y = [] \<or> hd x \<noteq> hd y)" by auto
    then show ?thesis using True by (intro exI [of _ "a # p"]) simp
  next
    case False
    then show ?thesis using 1 by auto
  qed
qed auto

lemma window_split:
  "\<exists>p o' n' q. oldLines = p @ o' @ q \<and> newLines = p @ n' @ q
    \<and> changedWindowSize oldLines newLines = length o' + length n'
    \<and> (o' = [] \<or> n' = [] \<or> hd o' \<noteq> hd n' \<and> last o' \<noteq> last n')"
proof -
  obtain o1 n1 where 1: "dropCommon oldLines newLines = (o1, n1)" by fastforce
  obtain o2 n2 where 2: "dropCommon (rev o1) (rev n1) = (o2, n2)" by fastforce
  from dropCommon_split [OF 1] obtain p where p: "oldLines = p @ o1" "newLines = p @ n1"
    "o1 = [] \<or> n1 = [] \<or> hd o1 \<noteq> hd n1" by blast
  from dropCommon_split [OF 2] obtain q where q: "rev o1 = q @ o2" "rev n1 = q @ n2"
    "o2 = [] \<or> n2 = [] \<or> hd o2 \<noteq> hd n2" by blast
  then have o1: "o1 = rev o2 @ rev q" and n1: "n1 = rev n2 @ rev q"
    by (simp_all add: rev_swap)
  have "changedWindowSize oldLines newLines = length (rev o2) + length (rev n2)"
    by (simp add: changedWindowSize_def 1 2)
  moreover have "rev o2 = [] \<or> rev n2 = [] \<or> hd (rev o2) \<noteq> hd (rev n2) \<and> last (rev o2) \<noteq> last (rev n2)"
    using p(3) q(3) o1 n1 by (cases "o2 = [] \<or> n2 = []") (auto simp: last_rev hd_append)
  ultimately show ?thesis using p(1,2) o1 n1 by blast
qed

lemma splitLines_join:
  assumes "splitLines s = (lines, ends)"
  shows "s = (if lines = [] then [] else Join lines [nl] @ (if ends then [nl] else []))"
proof (cases "s = []")
  case True
  then show ?thesis using assms by (auto simp: splitLines_def)
next
  case False
  have ne: "Split t nl \<noteq> []" for t by (induction t) (auto split: list.splits)
  show ?thesis
  proof (cases "HasSuffix s [nl]")
    case True
    then obtain r where "s = r @ [nl]" by (auto simp: HasSuffix_iff)
    then show ?thesis using assms True ne [of r] by (auto simp: splitLines_def Let_def Join_Split)
  next
    case False
    then show ?thesis using assms \<open>s \<noteq> []\<close> ne [of s] by (auto simp: splitLines_def Let_def Join_Split)
  qed
qed

subsection \<open>Properties\<close>

definition demo_udiff :: udiff_lib where
  "demo_udiff = \<lparr>ud_Lines = (\<lambda>a b. [\<lparr>ed_Start = 0, ed_End = int (length a), ed_New = b\<rparr>]),
     ud_ToUnified = (\<lambda>l m a es n. None)\<rparr>"

text \<open>
  The approximate tally is the multiset difference of the lines: added lines are those
  of the new text beyond the old ones, removed lines the other way round, so their
  difference is the change in the number of lines.
\<close>

theorem approx_tally_exact:
  "approxTally oldLines newLines =
     (size (mset newLines - mset oldLines), size (mset oldLines - mset newLines))
   \<and> int (fst (approxTally oldLines newLines)) - int (snd (approxTally oldLines newLines))
     = int (length newLines) - int (length oldLines)"
proof -
  let ?O = "mset oldLines" and ?N = "mset newLines"
  have "size ?N = size (?N - ?O) + size (?N \<inter># ?O)"
    by (metis diff_intersect_left_idem inter_mset_def size_Diff_submset size_union subset_mset.inf_le1 subset_mset.diff_add)
  moreover have "size ?O = size (?O - ?N) + size (?O \<inter># ?N)"
    by (metis diff_intersect_left_idem inter_mset_def size_Diff_submset size_union subset_mset.inf_le1 subset_mset.diff_add)
  moreover have "?N \<inter># ?O = ?O \<inter># ?N" by (rule subset_mset.inf_commute)
  ultimately show ?thesis by (simp add: approxTally_mset)
qed

text \<open>
  The window handed to the exact differ is what is left after the longest common prefix
  and suffix: the texts agree outside it, and inside it they differ at both ends; it is
  empty exactly when the lines are equal.
\<close>

theorem changed_window:
  "(\<exists>p o' n' q. oldLines = p @ o' @ q \<and> newLines = p @ n' @ q
     \<and> changedWindowSize oldLines newLines = length o' + length n'
     \<and> (o' = [] \<or> n' = [] \<or> hd o' \<noteq> hd n' \<and> last o' \<noteq> last n'))
   \<and> (changedWindowSize oldLines newLines = 0 \<longleftrightarrow> oldLines = newLines)"
proof -
  have "changedWindowSize xs xs = 0" for xs
  proof -
    have "dropCommon xs xs = ([], [])" by (induction xs) simp_all
    then show ?thesis by (simp add: changedWindowSize_def)
  qed
  with window_split [of oldLines newLines] show ?thesis by auto
qed

text \<open>
  A built change always carries both texts unchanged; equal texts and binary texts have
  no tallies and no diff; and a change too large for the exact differ, or one the renderer
  rejects, reports the multiset tally.
\<close>

theorem build_change:
  assumes "c = BuildWithOptions ud path oldText newText kind opts"
  shows "ch_Path c = path \<and> ch_Kind c = kind \<and> ch_OldText c = oldText \<and> ch_NewText c = newText
    \<and> (ch_Binary c \<longleftrightarrow> CHR 0x00 \<in> set oldText \<union> set newText)
    \<and> (ch_Binary c \<or> oldText = newText \<longrightarrow> ch_Added c = 0 \<and> ch_Removed c = 0 \<and> ch_Diff c = [])
    \<and> (\<not> ch_Binary c \<and> oldText \<noteq> newText \<and>
        (exactDiffTooLarge (fst (splitLines oldText)) (fst (splitLines newText))
         \<or> (\<forall>a b e n. ud_ToUnified ud a b oldText e n = None)) \<longrightarrow>
        ch_Added c = size (mset (fst (splitLines newText)) - mset (fst (splitLines oldText)))
        \<and> ch_Removed c = size (mset (fst (splitLines oldText)) - mset (fst (splitLines newText))))"
  using IndexByte_None_iff [of oldText "CHR 0x00"] IndexByte_None_iff [of newText "CHR 0x00"]
  by (auto simp: assms BuildWithOptions_def Let_def isBinary_def approxTally_mset
      split: prod.splits option.splits)

theorem build_change_witness:
  "ch_Added (Build demo_udiff ''f'' ''a'' ''b'' Modify) = 1"
proof -
  have s: "fst (splitLines ''a'') = [''a'']" "fst (splitLines ''b'') = [''b'']" by code_simp+
  from build_change [OF Build_def, of demo_udiff "''f''" "''a''" "''b''" Modify]
  show ?thesis unfolding s by (simp add: demo_udiff_def)
qed

end
