(* ===== verification/Checkpoint.thy ===== *)
theory Checkpoint imports File_Paths Text_Encoding Diff "HOL-Library.AList" begin

text \<open>
  The model of \<open>internal/checkpoint/checkpoint.go\<close>: the per-turn snapshots of edited files,
  their persistence, and the rewind of the workspace. The disk is a map from absolute
  paths to bytes; the failures the operating system may report are the parameter \<open>os_lib\<close>;
  the checkpoint directory is the list of its files by turn number. A snapshot that goes
  through JSON keeps its text only as far as it is valid UTF-8 (\<open>jsonText\<close>).
\<close>

record FileSnap =
  sn_Path :: gostr
  sn_Content :: "gostr option"
  sn_Encoding :: "Kind option"

record FileState =
  fst_Content :: "gostr option"
  fst_Encoding :: "Kind option"

record Checkpoint =
  cp_Turn :: int
  cp_Time :: int
  cp_Prompt :: gostr
  cp_MsgIndex :: int
  cp_Files :: "FileSnap list"

record Meta =
  me_Turn :: int
  me_Time :: int
  me_Prompt :: gostr
  me_Paths :: "gostr list"

record Store =
  st_dir :: "(int \<times> Checkpoint) list option"
  st_root :: gostr
  st_done :: "Checkpoint list"
  st_cur :: "Checkpoint option"
  st_seen :: "gostr set"

record os_lib =
  os_RemoveErr :: "gostr \<Rightarrow> gostr option"
  os_MkdirErr :: "gostr \<Rightarrow> gostr option"
  os_WriteErr :: "gostr \<Rightarrow> gostr option"
  os_PersistOK :: "int \<Rightarrow> bool"

type_synonym disk = "gostr \<Rightarrow> gostr option"

subsection \<open>Paths\<close>

datatype path_error = Escapes gostr gostr

definition safePath :: "gostr \<Rightarrow> gostr \<Rightarrow> path_error + gostr" where
  "safePath root p =
     (let absp = Clean (if \<not> Rooted p then JoinPath root (Split p (CHR ''/'')) else p) in
      if root \<noteq> [] then
        (case Rel (Clean root) absp of
           None \<Rightarrow> Inl (Escapes p root)
         | Some rel \<Rightarrow> if rel \<noteq> [] \<and> hd rel = ''..'' then Inl (Escapes p root) else Inr absp)
      else Inr absp)"

subsection \<open>Persistence\<close>

definition jsonText :: "gostr \<Rightarrow> gostr" where
  "jsonText s = runesString (runes s)"

definition jsonSnap :: "FileSnap \<Rightarrow> FileSnap" where
  "jsonSnap f = f\<lparr>sn_Path := jsonText (sn_Path f), sn_Content := map_option jsonText (sn_Content f)\<rparr>"

definition jsonCheckpoint :: "Checkpoint \<Rightarrow> Checkpoint" where
  "jsonCheckpoint c = c\<lparr>cp_Prompt := jsonText (cp_Prompt c), cp_Files := map jsonSnap (cp_Files c)\<rparr>"

definition persist :: "os_lib \<Rightarrow> Checkpoint \<Rightarrow> Store \<Rightarrow> Store" where
  "persist os c s =
     (case st_dir s of
        None \<Rightarrow> s
      | Some files \<Rightarrow>
          if \<not> os_PersistOK os (cp_Turn c) then s
          else s\<lparr>st_dir := Some (AList.update (cp_Turn c) (jsonCheckpoint c) files)\<rparr>)"

definition load :: "Store \<Rightarrow> Store" where
  "load s =
     (case st_dir s of
        None \<Rightarrow> s
      | Some files \<Rightarrow> s\<lparr>st_done := sort_key cp_Turn (st_done s @ map snd files)\<rparr>)"

definition New :: "(int \<times> Checkpoint) list option \<Rightarrow> gostr \<Rightarrow> Store" where
  "New dir root =
     load \<lparr>st_dir = dir, st_root = root, st_done = [], st_cur = None, st_seen = {}\<rparr>"

subsection \<open>Recording\<close>

definition Begin :: "os_lib \<Rightarrow> int \<Rightarrow> int \<Rightarrow> gostr \<Rightarrow> int \<Rightarrow> Store \<Rightarrow> Store" where
  "Begin os now turn prompt msgIndex s =
     (let done' = (case st_cur s of None \<Rightarrow> st_done s | Some c \<Rightarrow> st_done s @ [c]);
          c = \<lparr>cp_Turn = turn, cp_Time = now, cp_Prompt = prompt, cp_MsgIndex = msgIndex, cp_Files = []\<rparr>
      in persist os c (s\<lparr>st_done := done', st_cur := Some c, st_seen := {}\<rparr>))"

definition detectCurrentEncoding :: "gb_lib \<Rightarrow> disk \<Rightarrow> gostr \<Rightarrow> Kind option" where
  "detectCurrentEncoding gb d absp = (case d absp of None \<Rightarrow> None | Some b \<Rightarrow> Some (Detect gb b))"

definition detectEncoding :: "gb_lib \<Rightarrow> disk \<Rightarrow> Store \<Rightarrow> gostr \<Rightarrow> Kind option" where
  "detectEncoding gb d s p =
     (case safePath (st_root s) p of
        Inl _ \<Rightarrow> None
      | Inr absp \<Rightarrow> (case d absp of None \<Rightarrow> None | Some b \<Rightarrow> Some (Detect gb b)))"

definition Snapshot :: "os_lib \<Rightarrow> gb_lib \<Rightarrow> disk \<Rightarrow> Change \<Rightarrow> Store \<Rightarrow> Store" where
  "Snapshot os gb d ch s =
     (if ch_Path ch = [] then s
      else
        (let enc = (if ch_Kind ch \<noteq> Create then detectEncoding gb d s (ch_Path ch) else None) in
         case st_cur s of
           None \<Rightarrow> s
         | Some cur \<Rightarrow>
             if ch_Path ch \<in> st_seen s then s
             else
               (let content = (if ch_Kind ch \<noteq> Create then Some (ch_OldText ch) else None);
                    cur' = cur\<lparr>cp_Files := cp_Files cur
                      @ [\<lparr>sn_Path = ch_Path ch, sn_Content = content, sn_Encoding = enc\<rparr>]\<rparr>
                in persist os cur' (s\<lparr>st_seen := insert (ch_Path ch) (st_seen s), st_cur := Some cur'\<rparr>))))"

subsection \<open>Reading\<close>

text \<open>\<open>all\<close>: the finished checkpoints and the current one in turn order.\<close>

definition all_checkpoints :: "Store \<Rightarrow> Checkpoint list" where
  "all_checkpoints s =
     sort_key cp_Turn (st_done s @ (case st_cur s of None \<Rightarrow> [] | Some c \<Rightarrow> [c]))"

definition Bounds :: "Store \<Rightarrow> int \<Rightarrow> int option" where
  "Bounds s =
     (let m = fold (\<lambda>c m. m(cp_Turn c \<mapsto> cp_MsgIndex c)) (st_done s) Map.empty in
      case st_cur s of None \<Rightarrow> m | Some c \<Rightarrow> m(cp_Turn c \<mapsto> cp_MsgIndex c))"

fun nextLoop :: "Checkpoint list \<Rightarrow> int \<Rightarrow> int" where
  "nextLoop [] nxt = nxt"
| "nextLoop (c # cs) nxt = nextLoop cs (if nxt \<le> cp_Turn c then cp_Turn c + 1 else nxt)"

definition NextTurn :: "Store \<Rightarrow> int" where
  "NextTurn s =
     (let nxt = nextLoop (st_done s) 0 in
      case st_cur s of
        None \<Rightarrow> nxt
      | Some c \<Rightarrow> if nxt \<le> cp_Turn c then cp_Turn c + 1 else nxt)"

definition List_checkpoints :: "Store \<Rightarrow> Meta list" where
  "List_checkpoints s =
     map (\<lambda>c. \<lparr>me_Turn = cp_Turn c, me_Time = cp_Time c, me_Prompt = cp_Prompt c,
               me_Paths = map sn_Path (cp_Files c)\<rparr>) (all_checkpoints s)"

fun fileStateLoop :: "gostr \<Rightarrow> gostr \<Rightarrow> FileSnap list \<Rightarrow> FileState option" where
  "fileStateLoop root want [] = None"
| "fileStateLoop root want (f # fs) =
     (if safePath root (sn_Path f) \<noteq> Inr want then fileStateLoop root want fs
      else Some \<lparr>fst_Content = sn_Content f, fst_Encoding = sn_Encoding f\<rparr>)"

definition fileState :: "Store \<Rightarrow> gostr \<Rightarrow> FileState option" where
  "fileState s p =
     (case safePath (st_root s) p of
        Inl _ \<Rightarrow> None
      | Inr want \<Rightarrow>
          fileStateLoop (st_root s) want (concat (map cp_Files (all_checkpoints s))))"

subsection \<open>Rewinding\<close>

definition TruncateFrom :: "int \<Rightarrow> Store \<Rightarrow> Store" where
  "TruncateFrom fromTurn s =
     (let deleted1 = filter (\<lambda>t. fromTurn \<le> t) (map cp_Turn (st_done s));
          s1 = s\<lparr>st_done := filter (\<lambda>c. \<not> fromTurn \<le> cp_Turn c) (st_done s)\<rparr>;
          (s2, deleted) =
            (case st_cur s1 of
               None \<Rightarrow> (s1, deleted1)
             | Some c \<Rightarrow>
                 if fromTurn \<le> cp_Turn c
                 then (s1\<lparr>st_cur := None, st_seen := {}\<rparr>, deleted1 @ [cp_Turn c])
                 else (s1, deleted1))
      in s2\<lparr>st_dir := map_option (filter (\<lambda>(t, c). t \<notin> set deleted)) (st_dir s2)\<rparr>)"

fun collectEarliest :: "FileSnap list \<Rightarrow> (gostr \<times> FileSnap) list \<Rightarrow> (gostr \<times> FileSnap) list" where
  "collectEarliest [] acc = acc"
| "collectEarliest (f # fs) acc =
     (if map_of acc (sn_Path f) \<noteq> None then collectEarliest fs acc
      else collectEarliest fs (acc @ [(sn_Path f, f)]))"

record restored =
  re_Disk :: disk
  re_Written :: "gostr list"
  re_Deleted :: "gostr list"
  re_Err :: "gostr option"

definition restoreOne :: "os_lib \<Rightarrow> gb_lib \<Rightarrow> gostr \<Rightarrow> gostr \<times> FileSnap \<Rightarrow> restored \<Rightarrow> restored" where
  "restoreOne os gb root ps r =
     (case safePath root (fst ps) of
        Inl _ \<Rightarrow> r\<lparr>re_Err := Some ''escapes workspace''\<rparr>
      | Inr absp \<Rightarrow>
          (case sn_Content (snd ps) of
             None \<Rightarrow>
               (case os_RemoveErr os absp of
                  Some e \<Rightarrow> r\<lparr>re_Err := Some e\<rparr>
                | None \<Rightarrow>
                    if re_Disk r absp = None then r
                    else r\<lparr>re_Disk := (re_Disk r)(absp := None), re_Deleted := re_Deleted r @ [fst ps]\<rparr>)
           | Some content \<Rightarrow>
               (case os_MkdirErr os absp of
                  Some e \<Rightarrow> r\<lparr>re_Err := Some e\<rparr>
                | None \<Rightarrow>
                    (let enc = (case sn_Encoding (snd ps) of
                                  Some k \<Rightarrow> k
                                | None \<Rightarrow> (case detectCurrentEncoding gb (re_Disk r) absp of
                                             Some k \<Rightarrow> k | None \<Rightarrow> UTF8))
                     in case os_WriteErr os absp of
                          Some e \<Rightarrow> r\<lparr>re_Err := Some e\<rparr>
                        | None \<Rightarrow> r\<lparr>re_Disk := (re_Disk r)(absp := Some (Encode gb content enc)),
                                    re_Written := re_Written r @ [fst ps]\<rparr>))))"

definition RestoreCode :: "os_lib \<Rightarrow> gb_lib \<Rightarrow> int \<Rightarrow> Store \<Rightarrow> disk \<Rightarrow> restored" where
  "RestoreCode os gb fromTurn s d =
     (let snaps = concat (map cp_Files (filter (\<lambda>c. \<not> cp_Turn c < fromTurn) (all_checkpoints s)));
          earliest = collectEarliest snaps []
      in fold (restoreOne os gb (st_root s)) earliest
           \<lparr>re_Disk = d, re_Written = [], re_Deleted = [], re_Err = None\<rparr>)"

subsection \<open>A session\<close>

text \<open>
  What the agent does between two rewinds: it opens turns and edits files, taking a snapshot
  of the file it is about to change. An edit writes new bytes or deletes the file.
\<close>

datatype action = BeginTurn int gostr int | EditFile gostr "gostr option"

definition preview :: "udiff_lib \<Rightarrow> gb_lib \<Rightarrow> gostr \<Rightarrow> gostr option \<Rightarrow> gostr option \<Rightarrow> Change" where
  "preview ud gb p before after =
     Build ud p (case before of None \<Rightarrow> [] | Some b \<Rightarrow> Decode gb b (Detect gb b))
       (case after of None \<Rightarrow> [] | Some b \<Rightarrow> DecodeToUTF8 gb b)
       (if before = None then Create else if after = None then Delete else Modify)"

fun exec :: "os_lib \<Rightarrow> udiff_lib \<Rightarrow> gb_lib \<Rightarrow> action \<Rightarrow> Store \<times> disk \<Rightarrow> Store \<times> disk" where
  "exec os ud gb (BeginTurn now prompt msgIndex) (s, d) =
     (Begin os now (NextTurn s) prompt msgIndex s, d)"
| "exec os ud gb (EditFile p new) (s, d) =
     (case safePath (st_root s) p of
        Inl _ \<Rightarrow> (s, d)
      | Inr absp \<Rightarrow> (Snapshot os gb d (preview ud gb p (d absp) new) s, d(absp := new)))"

text \<open>The snapshot that records the state \<open>before\<close> of the file at \<open>p\<close>.\<close>

definition snap_of :: "gb_lib \<Rightarrow> gostr \<Rightarrow> gostr option \<Rightarrow> FileSnap" where
  "snap_of gb p before =
     \<lparr>sn_Path = p, sn_Content = map_option (\<lambda>b. Decode gb b (Detect gb b)) before,
      sn_Encoding = map_option (Detect gb) before\<rparr>"

subsection \<open>Frame facts\<close>

lemma persist_fields [simp]:
  "st_root (persist os c s) = st_root s" "st_done (persist os c s) = st_done s"
  "st_cur (persist os c s) = st_cur s" "st_seen (persist os c s) = st_seen s"
  by (simp_all add: persist_def split: option.splits)

lemma preview_fields [simp]:
  "ch_Path (preview ud gb p before after) = p"
  "ch_Kind (preview ud gb p before after) = (if before = None then Create else if after = None then Delete else Modify)"
  "ch_OldText (preview ud gb p before after) = (case before of None \<Rightarrow> [] | Some b \<Rightarrow> Decode gb b (Detect gb b))"
  by (simp_all add: preview_def Build_def BuildWithOptions_def Let_def split: prod.splits option.splits)

lemma Snapshot_preview:
  assumes "safePath (st_root s) p = Inr absp" and "p \<noteq> []" and "st_cur s = Some c"
  shows "st_root (Snapshot os gb d (preview ud gb p (d absp) new) s) = st_root s
    \<and> st_done (Snapshot os gb d (preview ud gb p (d absp) new) s) = st_done s
    \<and> st_seen (Snapshot os gb d (preview ud gb p (d absp) new) s) = insert p (st_seen s)
    \<and> st_cur (Snapshot os gb d (preview ud gb p (d absp) new) s) =
        Some (if p \<in> st_seen s then c else c\<lparr>cp_Files := cp_Files c @ [snap_of gb p (d absp)]\<rparr>)"
  using assms by (auto simp: Snapshot_def Let_def snap_of_def detectEncoding_def split: option.splits)

subsection \<open>Turn order\<close>

definition turns :: "Store \<Rightarrow> int list" where
  "turns s = map cp_Turn (st_done s @ (case st_cur s of None \<Rightarrow> [] | Some c \<Rightarrow> [c]))"

definition turns_ok :: "Store \<Rightarrow> bool" where
  "turns_ok s \<longleftrightarrow> sorted_wrt (<) (turns s)"

lemma nextLoop_bounds: "n \<le> nextLoop cs n \<and> (\<forall>c \<in> set cs. cp_Turn c < nextLoop cs n)"
proof (induction cs arbitrary: n)
  case (Cons c cs)
  show ?case using Cons [of "if n \<le> cp_Turn c then cp_Turn c + 1 else n"] by (auto split: if_splits)
qed simp

lemma NextTurn_greater: "0 \<le> NextTurn s \<and> (\<forall>t \<in> set (turns s). t < NextTurn s)"
  using nextLoop_bounds [of 0 "st_done s"]
  by (fastforce simp: NextTurn_def turns_def Let_def split: option.splits)

lemma Begin_fields [simp]:
  "st_root (Begin os now turn prompt i s) = st_root s"
  "st_done (Begin os now turn prompt i s) = st_done s @ (case st_cur s of None \<Rightarrow> [] | Some c \<Rightarrow> [c])"
  "st_cur (Begin os now turn prompt i s) =
     Some \<lparr>cp_Turn = turn, cp_Time = now, cp_Prompt = prompt, cp_MsgIndex = i, cp_Files = []\<rparr>"
  "st_seen (Begin os now turn prompt i s) = {}"
  by (simp_all add: Begin_def Let_def split: option.splits)

lemma turns_Begin: "turns (Begin os now turn prompt i s) = turns s @ [turn]"
  by (simp add: turns_def split: option.splits)

lemma all_checkpoints_sorted:
  assumes "turns_ok s"
  shows "all_checkpoints s = st_done s @ (case st_cur s of None \<Rightarrow> [] | Some c \<Rightarrow> [c])"
proof -
  let ?xs = "st_done s @ (case st_cur s of None \<Rightarrow> [] | Some c \<Rightarrow> [c])"
  have "sorted (map cp_Turn ?xs)"
    using assms unfolding turns_ok_def turns_def by (rule sorted_wrt_mono_rel [rotated]) simp
  then show ?thesis unfolding all_checkpoints_def by (rule sort_key_id_if_sorted)
qed

subsection \<open>The snapshots since a turn\<close>

definition snaps_from :: "int \<Rightarrow> Store \<Rightarrow> FileSnap list" where
  "snaps_from t s = concat (map cp_Files (filter (\<lambda>c. \<not> cp_Turn c < t) (all_checkpoints s)))"

text \<open>
  Spellings: the paths a session uses, each resolving inside the workspace, and no two of
  them naming the same file.
\<close>

definition spellings :: "gostr \<Rightarrow> gostr set \<Rightarrow> bool" where
  "spellings root U \<longleftrightarrow>
     (\<forall>p \<in> U. p \<noteq> [] \<and> (\<exists>a. safePath root p = Inr a)) \<and> inj_on (safePath root) U"

text \<open>
  The books of a session that began turn \<open>t\<close> on disk \<open>d0\<close>: a path in use either has its
  state of the disk \<open>d0\<close> as its earliest snapshot since \<open>t\<close>, or has not been touched.
\<close>

definition recorded ::
    "gb_lib \<Rightarrow> int \<Rightarrow> disk \<Rightarrow> gostr set \<Rightarrow> Store \<Rightarrow> disk \<Rightarrow> bool" where
  "recorded gb t d0 U s d \<longleftrightarrow>
     turns_ok s
     \<and> (\<exists>c. st_cur s = Some c \<and> t \<le> cp_Turn c \<and> st_seen s = sn_Path ` set (cp_Files c))
     \<and> sn_Path ` set (snaps_from t s) \<subseteq> U
     \<and> (\<forall>p \<in> U. \<forall>a. safePath (st_root s) p = Inr a \<longrightarrow>
          (case List.find (\<lambda>f. sn_Path f = p) (snaps_from t s) of
             None \<Rightarrow> d a = d0 a
           | Some f \<Rightarrow> f = snap_of gb p (d0 a)))
     \<and> (\<forall>a. Inr a \<notin> safePath (st_root s) ` U \<longrightarrow> d a = d0 a)"

lemma snaps_from_cur:
  assumes "turns_ok s" and "st_cur s = Some c" and "t \<le> cp_Turn c"
  shows "snaps_from t s = concat (map cp_Files (filter (\<lambda>c. \<not> cp_Turn c < t) (st_done s))) @ cp_Files c"
  using assms by (simp add: snaps_from_def all_checkpoints_sorted)

lemma find_append: "List.find q (xs @ ys) = (case List.find q xs of None \<Rightarrow> List.find q ys | Some x \<Rightarrow> Some x)"
  by (induction xs) auto

lemma find_path_None: "List.find (\<lambda>f. sn_Path f = p) fs = None \<longleftrightarrow> p \<notin> sn_Path ` set fs"
  by (auto simp: find_None_iff)

lemma recorded_Begin:
  assumes "recorded gb t d0 U s d"
  shows "recorded gb t d0 U (Begin os now (NextTurn s) prompt i s) d"
proof -
  let ?s = "Begin os now (NextTurn s) prompt i s"
  from assms obtain c where c: "turns_ok s" "st_cur s = Some c" "t \<le> cp_Turn c" by (auto simp: recorded_def)
  have ok: "turns_ok ?s"
    using c(1) NextTurn_greater [of s] by (auto simp: turns_ok_def turns_Begin sorted_wrt_append)
  have "cp_Turn c < NextTurn s" using NextTurn_greater [of s] c(2) by (auto simp: turns_def)
  then have "t \<le> NextTurn s" using c(3) by simp
  then have "snaps_from t ?s = snaps_from t s"
    using c by (simp add: snaps_from_cur [OF ok] snaps_from_cur [OF c])
  then show ?thesis using assms ok \<open>t \<le> NextTurn s\<close> by (auto simp: recorded_def)
qed

lemma recorded_start:
  assumes "turns_ok s" and "\<And>f. f \<in> set (snaps_from (NextTurn s) s) \<Longrightarrow> False"
  shows "recorded gb (NextTurn s) d U (Begin os now (NextTurn s) prompt i s) d"
proof -
  let ?s = "Begin os now (NextTurn s) prompt i s"
  have ok: "turns_ok ?s"
    using assms(1) NextTurn_greater [of s] by (auto simp: turns_ok_def turns_Begin sorted_wrt_append)
  have "filter (\<lambda>c. \<not> cp_Turn c < NextTurn s) (st_done ?s) = []"
    using NextTurn_greater [of s] by (auto simp: turns_def filter_empty_conv split: option.splits)
  then have "snaps_from (NextTurn s) ?s = []" by (simp add: snaps_from_cur [OF ok])
  with ok show ?thesis by (simp add: recorded_def)
qed

lemma recorded_Edit:
  assumes r: "recorded gb t d0 U s d" and sp: "spellings (st_root s) U" and p: "p \<in> U"
    and a: "safePath (st_root s) p = Inr absp"
  shows "recorded gb t d0 U (Snapshot os gb d (preview ud gb p (d absp) new) s) (d(absp := new))"
proof -
  let ?s = "Snapshot os gb d (preview ud gb p (d absp) new) s"
  from r obtain c where c: "turns_ok s" "st_cur s = Some c" "t \<le> cp_Turn c" "st_seen s = sn_Path ` set (cp_Files c)"
    by (auto simp: recorded_def)
  have ne: "p \<noteq> []" using sp p by (auto simp: spellings_def)
  note s' = Snapshot_preview [OF a ne c(2), of os gb d ud new]
  let ?c = "if p \<in> st_seen s then c else c\<lparr>cp_Files := cp_Files c @ [snap_of gb p (d absp)]\<rparr>"
  have turn: "cp_Turn ?c = cp_Turn c" by simp
  have ok: "turns_ok ?s" using c(1,2) s' by (simp add: turns_ok_def turns_def)
  have snaps: "snaps_from t ?s = snaps_from t s @ (if p \<in> st_seen s then [] else [snap_of gb p (d absp)])"
    using snaps_from_cur [OF ok, of ?c t] snaps_from_cur [OF c(1-3)] s' c(3) by simp
  have path: "sn_Path (snap_of gb p x) = p" for x by (simp add: snap_of_def)
  have other: "q = p" if "q \<in> U" "safePath (st_root s) q = Inr absp" for q
    using sp p a that by (auto simp: spellings_def inj_on_def)
  have entry: "case List.find (\<lambda>f. sn_Path f = q) (snaps_from t ?s) of
      None \<Rightarrow> (d(absp := new)) b = d0 b | Some f \<Rightarrow> f = snap_of gb q (d0 b)"
    if q: "q \<in> U" "safePath (st_root s) q = Inr b" for q b
  proof (cases "q = p")
    case True
    with q(2) a have b: "b = absp" by simp
    show ?thesis
    proof (cases "List.find (\<lambda>f. sn_Path f = p) (snaps_from t s)")
      case None
      then have "d absp = d0 absp" using r p a by (auto simp: recorded_def)
      moreover have "p \<notin> st_seen s"
        using None c snaps_from_cur [OF c(1-3)] by (auto simp: find_path_None)
      ultimately show ?thesis using None True b unfolding snaps find_append by (simp add: path)
    next
      case (Some f)
      then show ?thesis using r p a True b by (auto simp: recorded_def snaps find_append)
    qed
  next
    case False
    then have "b \<noteq> absp" using other q by auto
    then show ?thesis
      using r q False by (auto simp: recorded_def snaps find_append path split: option.splits)
  qed
  have "\<exists>c. st_cur ?s = Some c \<and> t \<le> cp_Turn c \<and> st_seen ?s = sn_Path ` set (cp_Files c)"
    using s' c by (auto simp: path)
  moreover have "sn_Path ` set (snaps_from t ?s) \<subseteq> U" using r p by (auto simp: snaps recorded_def path)
  moreover have "(d(absp := new)) b = d0 b" if "Inr b \<notin> safePath (st_root s) ` U" for b
    using r that p a by (auto simp: recorded_def image_iff)
  ultimately show ?thesis using ok entry s' unfolding recorded_def by auto
qed

lemma exec_recorded:
  assumes "recorded gb t d0 U s d" and "spellings (st_root s) U"
    and "\<And>p new. act = EditFile p new \<Longrightarrow> p \<in> U" and "exec os ud gb act (s, d) = (s', d')"
  shows "recorded gb t d0 U s' d' \<and> st_root s' = st_root s"
proof (cases act)
  case (BeginTurn now prompt i)
  then show ?thesis using assms recorded_Begin by auto
next
  case (EditFile p new)
  then have p: "p \<in> U" using assms(3) by blast
  then obtain a where a: "safePath (st_root s) p = Inr a" using assms(2) by (auto simp: spellings_def)
  obtain c where "st_cur s = Some c" using assms(1) by (auto simp: recorded_def)
  then show ?thesis
    using assms EditFile a p recorded_Edit [OF assms(1,2) p a]
      Snapshot_preview [OF a _ \<open>st_cur s = Some c\<close>] by (auto simp: spellings_def)
qed

lemma run_recorded:
  assumes "recorded gb t d0 U s d" and "spellings (st_root s) U"
    and "\<And>p new. EditFile p new \<in> set acts \<Longrightarrow> p \<in> U" and "fold (exec os ud gb) acts (s, d) = (s', d')"
  shows "recorded gb t d0 U s' d' \<and> st_root s' = st_root s"
  using assms
proof (induction acts arbitrary: s d)
  case (Cons act acts)
  obtain s1 d1 where e: "exec os ud gb act (s, d) = (s1, d1)" by fastforce
  have 1: "recorded gb t d0 U s1 d1 \<and> st_root s1 = st_root s"
    by (rule exec_recorded [OF Cons.prems(1,2) _ e]) (use Cons.prems(3) in auto)
  then have "recorded gb t d0 U s' d' \<and> st_root s' = st_root s1"
    using Cons.prems(2,3,4) e by (intro Cons.IH [of s1 d1]) auto
  with 1 show ?case by simp
qed simp

subsection \<open>Restoring\<close>

lemma collectEarliest_map:
  "map_of (collectEarliest fs acc) p =
     (case map_of acc p of Some f \<Rightarrow> Some f | None \<Rightarrow> List.find (\<lambda>f. sn_Path f = p) fs)"
proof (induction fs arbitrary: acc)
  case Nil
  show ?case by (simp split: option.splits)
next
  case (Cons f fs)
  then show ?case by (auto simp: map_add_def split: option.splits)
qed

lemma collectEarliest_distinct: "distinct (map fst acc) \<Longrightarrow> distinct (map fst (collectEarliest fs acc))"
  by (induction fs arbitrary: acc) (auto simp: map_of_eq_None_iff)

lemma restoreOne_snap:
  assumes "safePath root p = Inr a" and "\<And>x. os_RemoveErr os x = None" "\<And>x. os_MkdirErr os x = None" "\<And>x. os_WriteErr os x = None"
    and "\<And>b. before = Some b \<Longrightarrow> Encode gb (Decode gb b (Detect gb b)) (Detect gb b) = b"
  shows "re_Disk (restoreOne os gb root (p, snap_of gb p before) r) = (re_Disk r)(a := before)"
    and "re_Err (restoreOne os gb root (p, snap_of gb p before) r) = re_Err r"
  using assms by (cases before; auto simp: restoreOne_def snap_of_def fun_eq_iff)+

lemma restore_loop:
  assumes "\<And>p f. (p, f) \<in> set xs \<Longrightarrow> \<exists>a. safePath root p = Inr a \<and> f = snap_of gb p (d0 a)
      \<and> (\<forall>b. d0 a = Some b \<longrightarrow> Encode gb (Decode gb b (Detect gb b)) (Detect gb b) = b)"
    and "\<And>x. os_RemoveErr os x = None" "\<And>x. os_MkdirErr os x = None" "\<And>x. os_WriteErr os x = None"
  shows "re_Disk (fold (restoreOne os gb root) xs r) a =
      (if Inr a \<in> safePath root ` fst ` set xs then d0 a else re_Disk r a)
    \<and> re_Err (fold (restoreOne os gb root) xs r) = re_Err r"
  using assms(1)
proof (induction xs arbitrary: r)
  case (Cons x xs)
  obtain p f where x: "x = (p, f)" by (cases x)
  from Cons.prems [of p f] x obtain b where b: "safePath root p = Inr b" "f = snap_of gb p (d0 b)"
    "\<And>c. d0 b = Some c \<Longrightarrow> Encode gb (Decode gb c (Detect gb c)) (Detect gb c) = c" by auto
  note one = restoreOne_snap [OF b(1) assms(2-4) b(3), of "d0 b" r]
  show ?case
    using Cons.IH [of "restoreOne os gb root x r"] Cons.prems one b(1,2) by (auto simp: x)
qed simp

lemma restoreOne_inside:
  assumes "\<And>a. inside a \<longleftrightarrow> (\<exists>p. safePath root p = Inr a)" and "\<not> inside a"
  shows "re_Disk (restoreOne os gb root ps r) a = re_Disk r a"
  using assms by (auto simp: restoreOne_def Let_def split: sum.splits option.splits)

lemma safePath_inside:
  assumes "safePath root p = Inr a" and "root \<noteq> []"
  shows "within (Clean root) a"
proof -
  have ne: "Clean q \<noteq> []" for q
  proof -
    have "cleanLoop r acc cs = [] \<or> cleanLoop r acc cs \<noteq> []" for r acc cs by simp
    have j: "Join (c # cs) ''/'' \<noteq> []" if "c \<noteq> []" for c cs using that by (cases cs) auto
    have c: "[] \<notin> set (cleanLoop r acc cs)" if "[] \<notin> set acc" for r acc cs
      using that by (induction r acc cs rule: cleanLoop.induct) (auto split: list.splits)
    then have "[] \<notin> set (cleanComps q)" by (simp add: cleanComps_def)
    then show ?thesis using j by (cases "cleanComps q") (auto simp: Clean_def renderPath_def)
  qed
  then show ?thesis
    using assms by (auto simp: safePath_def Let_def within_def split: option.splits if_splits list.splits)
qed

subsection \<open>Persistence\<close>

lemma cp_Turn_json [simp]: "cp_Turn (jsonCheckpoint c) = cp_Turn c"
  by (simp add: jsonCheckpoint_def)

definition live :: "Store \<Rightarrow> Checkpoint list" where
  "live s = st_done s @ (case st_cur s of None \<Rightarrow> [] | Some c \<Rightarrow> [c])"

definition entry :: "Checkpoint \<Rightarrow> int \<times> Checkpoint" where
  "entry c = (cp_Turn c, jsonCheckpoint c)"

text \<open>The directory holds exactly the checkpoints in memory.\<close>

definition persisted :: "Store \<Rightarrow> bool" where
  "persisted s \<longleftrightarrow> turns_ok s \<and>
     (\<exists>files. st_dir s = Some files \<and> distinct (map fst files)
        \<and> map_of files = map_of (map entry (live s)))"

lemma turns_live: "turns s = map cp_Turn (live s)"
  by (simp add: turns_def live_def)

lemma fst_entry [simp]: "map fst (map entry cs) = map cp_Turn cs"
  by (simp add: entry_def comp_def)

lemma map_of_entries_last:
  assumes "cp_Turn c \<notin> cp_Turn ` set cs"
  shows "map_of (map entry (cs @ [c])) = (map_of (map entry cs))(cp_Turn c \<mapsto> jsonCheckpoint c)"
proof -
  have "map_of (map entry cs) (cp_Turn c) = None"
    using assms by (auto simp: map_of_eq_None_iff entry_def)
  then show ?thesis by (auto simp: entry_def fun_eq_iff map_add_def split: option.splits)
qed

lemma persist_writes:
  assumes "\<And>t. os_PersistOK os t" and "st_dir s = Some files" and "distinct (map fst files)"
  shows "\<exists>files'. st_dir (persist os c s) = Some files' \<and> distinct (map fst files')
    \<and> map_of files' = (map_of files)(cp_Turn c \<mapsto> jsonCheckpoint c)"
  using assms by (auto simp: persist_def update_conv' distinct_update)

lemma persisted_Begin:
  assumes "persisted s" and "\<And>t. os_PersistOK os t"
  shows "persisted (Begin os now (NextTurn s) prompt i s)"
proof -
  let ?c = "\<lparr>cp_Turn = NextTurn s, cp_Time = now, cp_Prompt = prompt, cp_MsgIndex = i, cp_Files = []\<rparr>"
  let ?s = "Begin os now (NextTurn s) prompt i s"
  from assms(1) obtain files where f: "turns_ok s" "st_dir s = Some files" "distinct (map fst files)"
    "map_of files = map_of (map entry (live s))" by (auto simp: persisted_def)
  have live: "live ?s = live s @ [?c]" by (simp add: live_def split: option.splits)
  have new: "NextTurn s \<notin> cp_Turn ` set (live s)"
    using NextTurn_greater [of s] by (auto simp: turns_live)
  have ok: "turns_ok ?s"
    using f(1) NextTurn_greater [of s] by (auto simp: turns_ok_def turns_Begin sorted_wrt_append)
  obtain files' where f': "st_dir ?s = Some files'" "distinct (map fst files')"
      "map_of files' = (map_of files)(cp_Turn ?c \<mapsto> jsonCheckpoint ?c)"
    using persist_writes [OF assms(2), of "s\<lparr>st_done := (case st_cur s of None \<Rightarrow> st_done s | Some c \<Rightarrow> st_done s @ [c]),
        st_cur := Some ?c, st_seen := {}\<rparr>" files ?c] f(2,3)
    by (auto simp: Begin_def Let_def)
  have "map_of files' = map_of (map entry (live ?s))"
    unfolding live by (subst map_of_entries_last) (use new f(4) f'(3) in auto)
  with ok f'(1,2) show ?thesis by (auto simp: persisted_def)
qed

lemma persisted_Snapshot:
  assumes "persisted s" and "\<And>t. os_PersistOK os t"
  shows "persisted (Snapshot os gb d ch s)"
proof (cases "ch_Path ch = [] \<or> st_cur s = None \<or> ch_Path ch \<in> st_seen s")
  case True
  then have "Snapshot os gb d ch s = s" by (auto simp: Snapshot_def Let_def split: option.splits)
  with assms(1) show ?thesis by simp
next
  case False
  then obtain c where c: "st_cur s = Some c" by auto
  let ?f = "\<lparr>sn_Path = ch_Path ch, sn_Content = (if ch_Kind ch \<noteq> Create then Some (ch_OldText ch) else None),
      sn_Encoding = (if ch_Kind ch \<noteq> Create then detectEncoding gb d s (ch_Path ch) else None)\<rparr>"
  let ?c = "c\<lparr>cp_Files := cp_Files c @ [?f]\<rparr>"
  let ?s = "Snapshot os gb d ch s"
  have s': "?s = persist os ?c (s\<lparr>st_seen := insert (ch_Path ch) (st_seen s), st_cur := Some ?c\<rparr>)"
    using False c by (auto simp: Snapshot_def Let_def)
  from assms(1) obtain files where f: "turns_ok s" "st_dir s = Some files" "distinct (map fst files)"
    "map_of files = map_of (map entry (st_done s @ [c]))" by (auto simp: persisted_def live_def c)
  have new: "cp_Turn c \<notin> cp_Turn ` set (st_done s)"
    using f(1) c by (auto simp: turns_ok_def turns_def sorted_wrt_append)
  obtain files' where f': "st_dir ?s = Some files'" "distinct (map fst files')"
      "map_of files' = (map_of files)(cp_Turn ?c \<mapsto> jsonCheckpoint ?c)"
    using persist_writes [OF assms(2), of "s\<lparr>st_seen := insert (ch_Path ch) (st_seen s), st_cur := Some ?c\<rparr>" files ?c] f(2,3)
    unfolding s' by auto
  have "map_of files = (map_of (map entry (st_done s)))(cp_Turn c \<mapsto> jsonCheckpoint c)"
    using f(4) map_of_entries_last [OF new] by simp
  then have "map_of files' = map_of (map entry (live ?s))"
    using f'(3) map_of_entries_last [of ?c "st_done s"] new by (simp add: live_def s')
  moreover have "turns_ok ?s" using f(1) c by (simp add: turns_ok_def turns_def s')
  ultimately show ?thesis using f'(1,2) by (auto simp: persisted_def)
qed

lemma persisted_exec:
  assumes "persisted s" and "\<And>t. os_PersistOK os t" and "exec os ud gb act (s, d) = (s', d')"
  shows "persisted s'"
  using assms persisted_Begin persisted_Snapshot by (cases act) (auto split: sum.splits)

lemma New_loaded:
  assumes "persisted s"
  shows "st_done (New (st_dir s) root) = map jsonCheckpoint (all_checkpoints s)"
    and "st_cur (New (st_dir s) root) = None" and "st_root (New (st_dir s) root) = root"
proof -
  from assms obtain files where f: "turns_ok s" "st_dir s = Some files" "distinct (map fst files)"
    "map_of files = map_of (map entry (live s))" by (auto simp: persisted_def)
  have srt: "sorted_wrt (<) (map cp_Turn (live s))" using f(1) by (simp add: turns_ok_def turns_live)
  then have srt': "sorted (map cp_Turn (live s))" and dt: "distinct (map cp_Turn (live s))"
    by (simp_all add: strict_sorted_iff)
  from dt have dist: "distinct (map fst (map entry (live s)))" unfolding fst_entry .
  have "set files = set (map entry (live s))"
    using map_of_inject_set [OF f(3) dist] f(4) by simp
  moreover have "distinct files" by (rule distinct_map [THEN iffD1, OF f(3), THEN conjunct1])
  moreover have "distinct (map entry (live s))" by (rule distinct_map [THEN iffD1, OF dist, THEN conjunct1])
  ultimately have "mset files = mset (map entry (live s))"
    by (subst set_eq_iff_mset_eq_distinct [symmetric]) auto
  then have "image_mset snd (mset files) = image_mset snd (mset (map entry (live s)))" by (rule arg_cong)
  then have m: "mset (map snd files) = mset (map jsonCheckpoint (live s))"
    by (simp add: entry_def image_mset.compositionality comp_def)
  have "map cp_Turn (map jsonCheckpoint (live s)) = map cp_Turn (live s)" by simp
  then have so: "sorted (map cp_Turn (map jsonCheckpoint (live s)))" using srt' by metis
  have "inj_on cp_Turn (set (map jsonCheckpoint (live s)))"
    using dt by (auto simp: inj_on_def distinct_map)
  then have inj: "inj_on cp_Turn (set (map snd files))" using m by (metis set_mset_mset)
  have "sort_key cp_Turn (map snd files) = map jsonCheckpoint (live s)"
    by (rule sort_key_inj_key_eq [OF m inj so])
  then show "st_done (New (st_dir s) root) = map jsonCheckpoint (all_checkpoints s)"
    using all_checkpoints_sorted [OF f(1)] by (simp add: New_def load_def f(2) live_def)
  show "st_cur (New (st_dir s) root) = None" "st_root (New (st_dir s) root) = root"
    by (simp_all add: New_def load_def f(2))
qed

lemma nextLoop_append: "nextLoop (xs @ ys) n = nextLoop ys (nextLoop xs n)"
  by (induction xs arbitrary: n) auto

lemma NextTurn_live: "NextTurn s = nextLoop (live s) 0"
  by (simp add: NextTurn_def live_def nextLoop_append Let_def split: option.splits)

lemma nextLoop_cong: "map cp_Turn xs = map cp_Turn ys \<Longrightarrow> nextLoop xs n = nextLoop ys n"
proof (induction xs arbitrary: ys n)
  case (Cons x xs)
  then obtain y zs where "ys = y # zs" "cp_Turn y = cp_Turn x" "map cp_Turn xs = map cp_Turn zs"
    by (cases ys) auto
  with Cons.IH [of zs] show ?case by simp
qed simp

subsection \<open>Properties\<close>

definition plain_os :: os_lib where
  "plain_os = \<lparr>os_RemoveErr = (\<lambda>_. None), os_MkdirErr = (\<lambda>_. None), os_WriteErr = (\<lambda>_. None),
     os_PersistOK = (\<lambda>_. True)\<rparr>"

text \<open>
  C23. Rewinding restores the turn: open a turn, then let the agent edit, create and delete
  files and open further turns in any order; RestoreCode of that turn brings the whole disk
  back to what it was when the turn began, without an error. The session names each file by
  one path inside the workspace, and the touched files decode and encode back to the same
  bytes.
\<close>

theorem rewind_restores_turn:
  assumes "turns_ok s" and "spellings (st_root s) U" and "\<And>p new. EditFile p new \<in> set acts \<Longrightarrow> p \<in> U"
    and "fold (exec os ud gb) (BeginTurn now prompt i # acts) (s, d) = (s', d')"
    and "\<And>x. os_RemoveErr os x = None \<and> os_MkdirErr os x = None \<and> os_WriteErr os x = None"
    and "\<And>p a b. p \<in> U \<Longrightarrow> safePath (st_root s) p = Inr a \<Longrightarrow> d a = Some b \<Longrightarrow>
      Encode gb (Decode gb b (Detect gb b)) (Detect gb b) = b"
  shows "re_Disk (RestoreCode os gb (NextTurn s) s' d') = d
    \<and> re_Err (RestoreCode os gb (NextTurn s) s' d') = None"
proof -
  let ?t = "NextTurn s"
  let ?s0 = "Begin os now ?t prompt i s"
  have none: "snaps_from ?t s = []"
    using NextTurn_greater [of s] all_checkpoints_sorted [OF assms(1)]
    by (auto simp: snaps_from_def filter_empty_conv turns_def split: option.splits)
  have start: "recorded gb ?t d U ?s0 d" by (rule recorded_start [OF assms(1)]) (simp add: none)
  have root0: "st_root ?s0 = st_root s" by simp
  have "recorded gb ?t d U s' d' \<and> st_root s' = st_root ?s0"
    by (rule run_recorded [OF start _ _ _]) (use assms(2,3,4) in auto)
  then have r: "recorded gb ?t d U s' d'" and root: "st_root s' = st_root s" by simp_all
  let ?xs = "collectEarliest (snaps_from ?t s') []"
  have look: "map_of ?xs p = List.find (\<lambda>f. sn_Path f = p) (snaps_from ?t s')" for p
    by (simp add: collectEarliest_map)
  have dist: "distinct (map fst ?xs)" by (simp add: collectEarliest_distinct)
  have sub: "p \<in> U" if "p \<in> fst ` set ?xs" for p
  proof -
    have "map_of ?xs p \<noteq> None" using that by (simp add: map_of_eq_None_iff)
    then have "p \<in> sn_Path ` set (snaps_from ?t s')" unfolding look
      by (simp add: find_path_None del: not_None_eq)
    then show ?thesis using r by (auto simp: recorded_def)
  qed
  have ok: "\<exists>a. safePath (st_root s') p = Inr a \<and> f = snap_of gb p (d a)
      \<and> (\<forall>b. d a = Some b \<longrightarrow> Encode gb (Decode gb b (Detect gb b)) (Detect gb b) = b)"
    if "(p, f) \<in> set ?xs" for p f
  proof -
    from that have U: "p \<in> U" using sub by force
    then obtain a where a: "safePath (st_root s') p = Inr a" using assms(2) root by (auto simp: spellings_def)
    have "map_of ?xs p = Some f" using that dist by simp
    then have "List.find (\<lambda>f. sn_Path f = p) (snaps_from ?t s') = Some f" unfolding look .
    then have "f = snap_of gb p (d a)" using r U a by (auto simp: recorded_def)
    then show ?thesis using a assms(6) [OF U] root by auto
  qed
  have restore: "RestoreCode os gb ?t s' d' = fold (restoreOne os gb (st_root s')) ?xs
      \<lparr>re_Disk = d', re_Written = [], re_Deleted = [], re_Err = None\<rparr>"
    by (simp add: RestoreCode_def snaps_from_def Let_def)
  have same: "d' a = d a" if "Inr a \<notin> safePath (st_root s') ` fst ` set ?xs" for a
  proof (cases "Inr a \<in> safePath (st_root s') ` U")
    case True
    then obtain p where p: "p \<in> U" "safePath (st_root s') p = Inr a" by (metis imageE)
    with that have "p \<notin> fst ` set ?xs" by force
    then have "List.find (\<lambda>f. sn_Path f = p) (snaps_from ?t s') = None"
      unfolding look [symmetric] by (simp add: map_of_eq_None_iff)
    then show ?thesis using r p by (auto simp: recorded_def split: option.splits)
  next
    case False
    then show ?thesis using r by (auto simp: recorded_def)
  qed
  have "re_Disk (RestoreCode os gb ?t s' d') a = d a" for a
    unfolding restore using restore_loop [where xs = ?xs and root = "st_root s'" and ?d0.0 = d and os = os and a = a, OF ok] same [of a] assms(5) by auto
  moreover have "re_Err (RestoreCode os gb ?t s' d') = None"
    unfolding restore using restore_loop [where xs = ?xs and root = "st_root s'" and ?d0.0 = d and os = os, OF ok] assms(5) by auto
  ultimately show ?thesis by auto
qed

definition demo_disk :: disk where
  "demo_disk = [''/w/a'' \<mapsto> ''x'']"

lemma demo_paths:
  "safePath ''/w'' ''a'' = Inr ''/w/a''" "safePath ''/w'' ''b'' = Inr ''/w/b''" "safePath ''/w'' ''./a'' = Inr ''/w/a''"
  by code_simp+

lemma demo_new: "turns_ok (New None ''/w'')" "st_root (New None ''/w'') = ''/w''" "NextTurn (New None ''/w'') = 0"
  by (simp_all add: turns_ok_def turns_def New_def load_def NextTurn_def)

lemma demo_store:
  "New None ''/w'' = \<lparr>st_dir = None, st_root = ''/w'', st_done = [], st_cur = None, st_seen = {}\<rparr>"
  by (simp add: New_def load_def)

lemma demo_detect: "Detect demo_gb ''x'' = UTF8"
  by (simp add: Detect_def utf8BOM_def HasPrefix_def DetectUTF16NoBOM_def utf8Valid.simps decodeRune_def
      byte_val_def RuneError_def)

theorem rewind_restores_turn_witness:
  "re_Disk (RestoreCode plain_os demo_gb 0
     (fst (fold (exec plain_os demo_udiff demo_gb) [BeginTurn 7 ''hi'' 1, EditFile ''a'' (Some ''y''), EditFile ''b'' (Some ''z'')]
        (New None ''/w'', demo_disk)))
     (snd (fold (exec plain_os demo_udiff demo_gb) [BeginTurn 7 ''hi'' 1, EditFile ''a'' (Some ''y''), EditFile ''b'' (Some ''z'')]
        (New None ''/w'', demo_disk)))) = demo_disk"
proof -
  let ?acts = "[EditFile ''a'' (Some ''y''), EditFile ''b'' (Some ''z'')]"
  let ?r = "fold (exec plain_os demo_udiff demo_gb) (BeginTurn 7 ''hi'' 1 # ?acts) (New None ''/w'', demo_disk)"
  have sp: "spellings (st_root (New None ''/w'')) {''a'', ''b''}"
    by (simp add: spellings_def demo_new demo_paths inj_on_def)
  have run: "?r = (fst ?r, snd ?r)" by simp
  have "re_Disk (RestoreCode plain_os demo_gb (NextTurn (New None ''/w'')) (fst ?r) (snd ?r)) = demo_disk
      \<and> re_Err (RestoreCode plain_os demo_gb (NextTurn (New None ''/w'')) (fst ?r) (snd ?r)) = None"
  proof (rule rewind_restores_turn [OF demo_new(1) sp _ run])
    fix p a b
    assume "p \<in> {''a'', ''b''}" "safePath (st_root (New None ''/w'')) p = Inr a" "demo_disk a = Some b"
    then have "b = ''x''" by (auto simp: demo_new demo_paths demo_disk_def split: if_splits)
    then show "Encode demo_gb (Decode demo_gb b (Detect demo_gb b)) (Detect demo_gb b) = b"
      by (simp add: demo_detect)
  qed (auto simp: plain_os_def)
  then show ?thesis by (simp add: demo_new)
qed

text \<open>
  The limit of that statement: two spellings of one file are two entries of a checkpoint.
  Rewinding then writes the file twice, and the later snapshot, of the already edited file,
  wins.
\<close>

theorem rewind_two_spellings:
  "re_Disk (RestoreCode plain_os demo_gb 0
     (fst (fold (exec plain_os demo_udiff demo_gb) [BeginTurn 7 ''hi'' 1, EditFile ''a'' (Some ''y''), EditFile ''./a'' (Some ''z'')]
        (New None ''/w'', demo_disk)))
     (snd (fold (exec plain_os demo_udiff demo_gb) [BeginTurn 7 ''hi'' 1, EditFile ''a'' (Some ''y''), EditFile ''./a'' (Some ''z'')]
        (New None ''/w'', demo_disk)))) ''/w/a'' = Some ''y''"
proof -
  have y: "Detect demo_gb ''y'' = UTF8"
    by (simp add: Detect_def utf8BOM_def HasPrefix_def DetectUTF16NoBOM_def utf8Valid.simps decodeRune_def
        byte_val_def RuneError_def)
  show ?thesis
    by (simp add: demo_store demo_paths Snapshot_def Let_def Begin_def persist_def detectEncoding_def
        RestoreCode_def all_checkpoints_def restoreOne_def demo_detect y plain_os_def demo_disk_def NextTurn_def)
qed



text \<open>
  A resumed session rewinds like the one it continues: after any run of turns and edits
  that could be persisted, a store loaded from the checkpoint directory has the same
  checkpoints, continues with the same turn number, and restores the same files, as far as
  the recorded texts are valid UTF-8 (what JSON keeps).
\<close>

theorem resume_restores_same:
  assumes "st_dir s0 = Some []" and "live s0 = []" and "\<And>t. os_PersistOK os t"
    and "fold (exec os ud gb) acts (s0, d0) = (s, d)"
    and "\<And>c. c \<in> set (all_checkpoints s) \<Longrightarrow> jsonCheckpoint c = c"
  shows "all_checkpoints (New (st_dir s) (st_root s)) = all_checkpoints s
    \<and> NextTurn (New (st_dir s) (st_root s)) = NextTurn s
    \<and> RestoreCode os gb t (New (st_dir s) (st_root s)) d' = RestoreCode os gb t s d'"
proof -
  have run: "persisted s'" if "persisted s1" "fold (exec os ud gb) acts (s1, d1) = (s', d')" for s1 d1 s' d' acts
    using that
  proof (induction acts arbitrary: s1 d1)
    case (Cons act acts)
    obtain s2 d2 where e: "exec os ud gb act (s1, d1) = (s2, d2)" by fastforce
    have "persisted s2" by (rule persisted_exec [OF Cons.prems(1) assms(3) e])
    then show ?case by (rule Cons.IH) (use Cons.prems(2) e in simp)
  qed simp
  have "persisted s0" using assms(1,2) by (simp add: persisted_def turns_ok_def turns_live)
  from run [OF this assms(4)] have p: "persisted s" .
  let ?n = "New (st_dir s) (st_root s)"
  have ok: "turns_ok s" using p by (simp add: persisted_def)
  have "map jsonCheckpoint (all_checkpoints s) = map id (all_checkpoints s)"
    by (rule map_cong [OF refl]) (simp add: assms(5))
  then have dn: "st_done ?n = all_checkpoints s" using New_loaded(1) [OF p, of "st_root s"] by simp
  note n = New_loaded(2,3) [OF p, of "st_root s"]
  have live: "live ?n = all_checkpoints s" "all_checkpoints s = live s"
    using dn n all_checkpoints_sorted [OF ok] by (simp_all add: live_def)
  have "all_checkpoints ?n = all_checkpoints s"
    using dn n by (simp add: all_checkpoints_def sort_key_id_if_sorted)
  then show ?thesis using live n by (simp add: NextTurn_live RestoreCode_def)
qed

theorem resume_restores_same_witness:
  "NextTurn (New (st_dir (fst (exec plain_os demo_udiff demo_gb (BeginTurn 7 [] 1) (New (Some []) ''/w'', demo_disk)))) ''/w'') = 1"
proof -
  let ?s0 = "New (Some []) ''/w''"
  let ?r = "fold (exec plain_os demo_udiff demo_gb) [BeginTurn 7 [] 1] (?s0, demo_disk)"
  have s0: "st_dir ?s0 = Some []" "live ?s0 = []" by (simp_all add: New_def load_def live_def)
  have n0: "NextTurn ?s0 = 0" "st_root ?s0 = ''/w''" "st_done ?s0 = []" "st_cur ?s0 = None"
    by (simp_all add: New_def load_def NextTurn_def)
  have r: "?r = (fst ?r, snd ?r)" by simp
  have js: "jsonText [] = []"
    by (simp add: jsonText_def runesString_def)
  have c: "all_checkpoints (fst ?r) = [\<lparr>cp_Turn = 0, cp_Time = 7, cp_Prompt = [], cp_MsgIndex = 1, cp_Files = []\<rparr>]"
    by (simp add: all_checkpoints_def n0)
  have "NextTurn (New (st_dir (fst ?r)) (st_root (fst ?r))) = NextTurn (fst ?r)"
    using resume_restores_same [OF s0 _ r, of 0 demo_disk] c js by (simp add: plain_os_def jsonCheckpoint_def)
  moreover have "NextTurn (fst ?r) = 1" by (simp add: NextTurn_def n0)
  ultimately show ?thesis by (simp add: n0)
qed

text \<open>
  Truncating the conversation at a turn forgets exactly the checkpoints from that turn
  on: the earlier ones stay as they were, the next turn number is at most the cut, and a
  file of the checkpoint directory survives only when its turn was not cut.
\<close>

theorem truncate_forgets_future:
  assumes "0 \<le> t" and "turns_ok s"
  shows "all_checkpoints (TruncateFrom t s) = filter (\<lambda>c. cp_Turn c < t) (all_checkpoints s)
    \<and> NextTurn (TruncateFrom t s) \<le> t
    \<and> (\<forall>files. st_dir s = Some files \<longrightarrow>
        st_dir (TruncateFrom t s) = Some (filter (\<lambda>(u, c). u \<notin> {v \<in> set (turns s). t \<le> v}) files))"
proof -
  have l: "live (TruncateFrom t s) = filter (\<lambda>c. cp_Turn c < t) (live s)"
    by (auto simp: TruncateFrom_def live_def Let_def not_le split: option.splits prod.splits if_splits)
  have srt: "sorted_wrt (<) (map cp_Turn (live s))" using assms(2) by (simp add: turns_ok_def turns_live)
  then have "turns_ok (TruncateFrom t s)"
    by (simp add: turns_ok_def turns_live l sorted_wrt_map sorted_wrt_filter)
  then have "all_checkpoints (TruncateFrom t s) = filter (\<lambda>c. cp_Turn c < t) (all_checkpoints s)"
    using all_checkpoints_sorted assms(2) l by (simp add: live_def)
  moreover have "nextLoop cs n \<le> t" if "\<forall>c \<in> set cs. cp_Turn c < t" "n \<le> t" for cs n
    using that by (induction cs arbitrary: n) auto
  then have "NextTurn (TruncateFrom t s) \<le> t" unfolding NextTurn_live l using assms(1) by simp
  moreover have "st_dir (TruncateFrom t s) = Some (filter (\<lambda>(u, c). u \<notin> {v \<in> set (turns s). t \<le> v}) files)"
    if "st_dir s = Some files" for files
    using that by (auto simp: TruncateFrom_def turns_def Let_def intro!: filter_cong split: option.splits)
  ultimately show ?thesis by blast
qed

theorem truncate_forgets_future_witness: "NextTurn (TruncateFrom 0 (New None ''/w'')) \<le> 0"
  using truncate_forgets_future [OF _ demo_new(1), of 0] by simp

end
