(* ===== verification/Recovery_Types.thy ===== *)
theory Recovery_Types imports File_Paths Json "HOL-Library.AList" begin

text \<open>
  The data of Auto Guard, the failure recovery gate of \<open>internal/recovery\<close>: proposals,
  observations and decisions exchanged with the agent (\<open>agent/recovery_gate.go\<close>), failure
  evidence, snapshots and counters (\<open>types.go\<close>), the fixed budgets (\<open>budget.go\<close>) and the
  fingerprints that identify an operation (\<open>fingerprint.go\<close>). A Go map from strings is an
  association list read with \<open>map_of\<close> and changed with \<open>AList.update\<close> and \<open>AList.delete\<close>;
  a map to \<open>struct{}\<close> is a set. Times are milliseconds.
\<close>

type_synonym 'v gomap = "(gostr \<times> 'v) list"

lemmas gomap_simps = AList.update_conv' AList.delete_conv'

subsection \<open>Budgets\<close>

definition MaxOperationFailures :: nat where "MaxOperationFailures = 3"
definition MaxEpisodeFailures :: nat where "MaxEpisodeFailures = 6"
definition MaxReviewRejects :: nat where "MaxReviewRejects = 3"
definition MaxStoppedOperationRetries :: nat where "MaxStoppedOperationRetries = 3"

datatype StopReason =
    StopReasonNone
  | StopReasonEpisodeFailures
  | StopReasonReviewRejects
  | StopReasonStoppedOpRetries
  | StopReasonOperationFailures

fun stopReasonString :: "StopReason \<Rightarrow> gostr" where
  "stopReasonString StopReasonNone = []"
| "stopReasonString StopReasonEpisodeFailures = ''episode_failures''"
| "stopReasonString StopReasonReviewRejects = ''review_rejects''"
| "stopReasonString StopReasonStoppedOpRetries = ''stopped_op_retries''"
| "stopReasonString StopReasonOperationFailures = ''operation_failures''"

subsection \<open>Failure classes, change kinds, outcomes\<close>

text \<open>
  Phases and failure classes only take the declared constants; change kinds, review
  outcomes and user actions arrive from models and clients as free text.
\<close>

datatype Phase = PhaseIdle | PhaseDiagnosing | PhaseAwaitingDecision

datatype FailureClass =
    FailureClassUnset
  | FailureClassExecution
  | FailureClassMutation
  | FailureClassTransient
  | FailureClassVerification

type_synonym ChangeKind = gostr
type_synonym ReviewOutcome = gostr
type_synonym Action = gostr

definition ChangeSameStrategy :: ChangeKind where "ChangeSameStrategy = ''same_strategy''"
definition ChangeStrategy :: ChangeKind where "ChangeStrategy = ''strategy''"
definition ChangeScope :: ChangeKind where "ChangeScope = ''scope''"
definition ChangeRisk :: ChangeKind where "ChangeRisk = ''risk''"
definition ChangeUncertain :: ChangeKind where "ChangeUncertain = ''uncertain''"

definition ReviewContinue :: ReviewOutcome where "ReviewContinue = ''continue''"
definition ReviewConfirm :: ReviewOutcome where "ReviewConfirm = ''confirm''"

definition ActionContinue :: Action where "ActionContinue = ''continue''"
definition ActionContinueTask :: Action where "ActionContinueTask = ''continue_task''"
definition ActionRevise :: Action where "ActionRevise = ''revise''"

lemmas change_kind_defs = ChangeSameStrategy_def ChangeStrategy_def ChangeScope_def
  ChangeRisk_def ChangeUncertain_def

lemmas outcome_defs = ReviewContinue_def ReviewConfirm_def

lemmas action_defs = ActionContinue_def ActionContinueTask_def ActionRevise_def

record ReviewVerdict =
  rv_Outcome :: ReviewOutcome
  rv_ChangeKind :: ChangeKind
  rv_Rationale :: gostr
  rv_FailureSummary :: gostr
  rv_Diagnosis :: gostr
  rv_ProposedAction :: gostr

subsection \<open>Evidence and proposals\<close>

record FailureEvent =
  fe_Class :: FailureClass
  fe_Tool :: gostr
  fe_ArgsSummary :: gostr
  fe_Subject :: gostr
  fe_ErrSummary :: gostr
  fe_OutputExcerpt :: gostr
  fe_SourceAgent :: gostr
  fe_TaskID :: gostr
  fe_TaskScopeID :: gostr
  fe_ReadOnly :: bool
  fe_Verification :: bool
  fe_Mutates :: bool
  fe_RepeatCount :: int
  fe_CreatedAt :: int
  fe_Args :: raw_json
  fe_Fingerprint :: gostr
  fe_SafeRetryLeft :: int
  fe_DiagnosisNotes :: "gostr list"

record PendingProposal =
  pp_Tool :: gostr
  pp_Subject :: gostr
  pp_Preview :: gostr
  pp_Args :: raw_json
  pp_Fingerprint :: gostr
  pp_SourceAgent :: gostr
  pp_ChangeKind :: ChangeKind
  pp_Rationale :: gostr
  pp_Diagnosis :: gostr
  pp_Failure :: gostr
  pp_Proposed :: gostr
  pp_PlanBefore :: gostr
  pp_PlanAfter :: gostr
  pp_TaskGrantKey :: gostr
  pp_TaskGrantTaskScope :: gostr
  pp_TaskGrantDisplay :: gostr

record TaskState =
  ts_Phase :: Phase
  ts_Failure :: "FailureEvent option"
  ts_LastFailure :: "FailureEvent option"
  ts_Pending :: "PendingProposal option"
  ts_ApprovalID :: gostr
  ts_ConsecutiveFails :: int
  ts_ReviewBlocks :: int
  ts_TailInjected :: bool
  ts_EpisodeID :: gostr
  ts_EpisodeStopped :: bool
  ts_StopReason :: gostr

type_synonym recovery_snapshot = "TaskState option gomap"

record Observation =
  ob_AgentID :: gostr
  ob_TaskID :: gostr
  ob_TaskScopeID :: gostr
  ob_EpisodeID :: gostr
  ob_Generation :: u64
  ob_Tool :: gostr
  ob_Args :: raw_json
  ob_Subject :: gostr
  ob_ReadOnly :: bool
  ob_Mutates :: bool
  ob_Verification :: bool
  ob_Success :: bool
  ob_Blocked :: bool
  ob_UserRejected :: bool
  ob_ProviderError :: bool
  ob_Cancelled :: bool
  ob_EmptySearch :: bool
  ob_ErrSummary :: gostr
  ob_Output :: gostr

record Proposal =
  pr_AgentID :: gostr
  pr_TaskID :: gostr
  pr_TaskScopeID :: gostr
  pr_EpisodeID :: gostr
  pr_TaskSummary :: gostr
  pr_Tool :: gostr
  pr_Args :: raw_json
  pr_Subject :: gostr
  pr_Preview :: gostr
  pr_ReadOnly :: bool
  pr_Mutates :: bool
  pr_Verification :: bool
  pr_PlanTransition :: bool
  pr_PlanBefore :: gostr
  pr_PlanAfter :: gostr
  pr_SafeRetry :: bool
  pr_HighRisk :: bool
  pr_ExpandedScope :: bool
  pr_StrategyChanged :: bool

record RecoveryDecision =
  rd_Allow :: bool
  rd_AuthorizePlanReplacement :: bool
  rd_Blocked :: bool
  rd_Message :: gostr
  rd_Generation :: u64
  rd_StopTurn :: bool
  rd_StopReason :: gostr

text \<open>Go's zero values, from which the code builds its composite literals.\<close>

definition noFailureEvent :: FailureEvent where
  "noFailureEvent =
     \<lparr>fe_Class = FailureClassUnset, fe_Tool = [], fe_ArgsSummary = [], fe_Subject = [],
      fe_ErrSummary = [], fe_OutputExcerpt = [], fe_SourceAgent = [], fe_TaskID = [],
      fe_TaskScopeID = [], fe_ReadOnly = False, fe_Verification = False, fe_Mutates = False,
      fe_RepeatCount = 0, fe_CreatedAt = 0, fe_Args = RawEmpty, fe_Fingerprint = [],
      fe_SafeRetryLeft = 0, fe_DiagnosisNotes = []\<rparr>"

definition noTaskState :: TaskState where
  "noTaskState =
     \<lparr>ts_Phase = PhaseIdle, ts_Failure = None, ts_LastFailure = None, ts_Pending = None,
      ts_ApprovalID = [], ts_ConsecutiveFails = 0, ts_ReviewBlocks = 0, ts_TailInjected = False,
      ts_EpisodeID = [], ts_EpisodeStopped = False, ts_StopReason = []\<rparr>"

definition noDecision :: RecoveryDecision where
  "noDecision =
     \<lparr>rd_Allow = False, rd_AuthorizePlanReplacement = False, rd_Blocked = False,
      rd_Message = [], rd_Generation = 0, rd_StopTurn = False, rd_StopReason = []\<rparr>"

definition noPending :: PendingProposal where
  "noPending =
     \<lparr>pp_Tool = [], pp_Subject = [], pp_Preview = [], pp_Args = RawEmpty, pp_Fingerprint = [],
      pp_SourceAgent = [], pp_ChangeKind = [], pp_Rationale = [], pp_Diagnosis = [],
      pp_Failure = [], pp_Proposed = [], pp_PlanBefore = [], pp_PlanAfter = [],
      pp_TaskGrantKey = [], pp_TaskGrantTaskScope = [], pp_TaskGrantDisplay = []\<rparr>"

subsection \<open>The confirmation card\<close>

record RecoveryApproval =
  ra_SourceAgent :: gostr
  ra_FailedTool :: gostr
  ra_FailedSummary :: gostr
  ra_Diagnosis :: gostr
  ra_NextTool :: gostr
  ra_NextAction :: gostr
  ra_ChangeKind :: gostr
  ra_ChangeRationale :: gostr
  ra_ReviewRationale :: gostr
  ra_PlanBefore :: gostr
  ra_PlanAfter :: gostr
  ra_CanGrantTask :: bool
  ra_TaskGrantScope :: gostr

record event_approval =
  ea_ID :: gostr
  ea_Tool :: gostr
  ea_Subject :: gostr
  ea_Reason :: gostr
  ea_RawInput :: raw_json
  ea_Fresh :: bool
  ea_Kind :: gostr
  ea_Recovery :: "RecoveryApproval option"

definition ToEventApproval :: "gostr \<Rightarrow> PendingProposal \<Rightarrow> FailureEvent option \<Rightarrow> event_approval" where
  "ToEventApproval aid pending failure =
     (let rec0 =
        \<lparr>ra_SourceAgent = pp_SourceAgent pending, ra_FailedTool = [],
         ra_FailedSummary = pp_Failure pending, ra_Diagnosis = pp_Diagnosis pending,
         ra_NextTool = pp_Tool pending,
         ra_NextAction = firstNonEmpty [pp_Proposed pending, pp_Subject pending, pp_Preview pending],
         ra_ChangeKind = pp_ChangeKind pending, ra_ChangeRationale = pp_Rationale pending,
         ra_ReviewRationale = pp_Rationale pending, ra_PlanBefore = pp_PlanBefore pending,
         ra_PlanAfter = pp_PlanAfter pending, ra_CanGrantTask = (pp_TaskGrantKey pending \<noteq> []),
         ra_TaskGrantScope = pp_TaskGrantDisplay pending\<rparr>;
        rec1 =
        (case failure of
           None \<Rightarrow> rec0
         | Some f \<Rightarrow>
             rec0\<lparr>ra_FailedTool := fe_Tool f,
                  ra_FailedSummary :=
                    (if ra_FailedSummary rec0 = [] then fe_ErrSummary f else ra_FailedSummary rec0),
                  ra_SourceAgent :=
                    (if ra_SourceAgent rec0 = [] then fe_SourceAgent f else ra_SourceAgent rec0)\<rparr>)
      in \<lparr>ea_ID = aid, ea_Tool = pp_Tool pending,
          ea_Subject = firstNonEmpty [pp_Subject pending, pp_Preview pending, pp_Tool pending],
          ea_Reason = firstNonEmpty [pp_Rationale pending, pp_Diagnosis pending,
                                     ''Plan change requires confirmation''],
          ea_RawInput = RawEmpty, ea_Fresh = True, ea_Kind = ''recovery'', ea_Recovery = Some rec1\<rparr>)"

subsection \<open>Fingerprints\<close>

text \<open>
  The parameter \<open>digest_lib\<close> is the part of Go's library the fingerprints call: the
  hexadecimal SHA-256 digest of a text, and \<open>json.Marshal\<close> of a decoded value. Nothing
  is assumed of either.
\<close>

record digest_lib =
  dl_sha256hex :: "gostr \<Rightarrow> gostr"
  dl_marshal :: "json \<Rightarrow> gostr"

fun normalizeArgs :: "digest_lib \<Rightarrow> raw_json \<Rightarrow> gostr" where
  "normalizeArgs lib RawEmpty = []"
| "normalizeArgs lib (RawInvalid t) = t"
| "normalizeArgs lib (RawJson t v) = dl_marshal lib v"

definition CallFingerprint :: "digest_lib \<Rightarrow> gostr \<Rightarrow> gostr \<Rightarrow> gostr \<Rightarrow> raw_json \<Rightarrow> gostr" where
  "CallFingerprint lib tool subject preview args =
     dl_sha256hex lib
       (''tool='' @ TrimSpace tool @ [nl] @ ''subject='' @ TrimSpace subject @ [nl]
        @ ''preview='' @ TrimSpace preview @ [nl] @ ''args='' @ normalizeArgs lib args @ [nl])"

definition ellipsis :: gostr where
  "ellipsis = [CHR 0xE2, CHR 0x80, CHR 0xA6]"

text \<open>A string member of the object that is not blank, trimmed.\<close>

definition stringField :: "(gostr \<times> json) list \<Rightarrow> gostr \<Rightarrow> gostr option" where
  "stringField kvs k =
     (case objGet kvs k of
        Some (JStr v) \<Rightarrow> if TrimSpace v \<noteq> [] then Some (TrimSpace v) else None
      | _ \<Rightarrow> None)"

definition ArgsSummary :: "raw_json \<Rightarrow> int \<Rightarrow> gostr" where
  "ArgsSummary args limit0 =
     (let limit = (if limit0 \<le> 0 then 200 else limit0); s = TrimSpace (raw_text args) in
      if s = [] then []
      else
        (let s1 =
           (case unmarshalMap args of
              None \<Rightarrow> s
            | Some kvs \<Rightarrow>
                (case stringField kvs ''command'' of
                   Some c \<Rightarrow> c
                 | None \<Rightarrow>
                     (case stringField kvs ''path'' of
                        Some p \<Rightarrow> p
                      | None \<Rightarrow>
                          (case stringField kvs ''file_path'' of Some p \<Rightarrow> p | None \<Rightarrow> s))));
           s2 = Join (Fields s1) '' ''
         in if limit < int (length s2) then take (nat limit) s2 @ ellipsis else s2))"

lemma length_ArgsSummary:
  "0 < limit \<Longrightarrow> length (ArgsSummary args limit) \<le> nat limit + 3"
  by (auto simp: ArgsSummary_def Let_def ellipsis_def)

end
