(* ===== verification/Recovery_State.thy ===== *)
theory Recovery_State imports Recovery_Types begin

text \<open>
  The run-time state of Auto Guard (\<open>state.go\<close>): the budget one episode shares between all
  tasks, the evidence and exact-operation counters of one task, and the bounded diagnosis
  notes. The lemmas give the counters' laws and the bounds of the notes.
\<close>

subsection \<open>Clipping\<close>

text \<open>\<open>utf8.RuneStart\<close>: the byte does not continue a multi-byte sequence.\<close>

definition RuneStart :: "char \<Rightarrow> bool" where
  "RuneStart c \<longleftrightarrow> (of_char c :: nat) < 128 \<or> 192 \<le> (of_char c :: nat)"

fun runeCut :: "gostr \<Rightarrow> nat \<Rightarrow> nat" where
  "runeCut s 0 = 0"
| "runeCut s (Suc k) = (if RuneStart (s ! Suc k) then Suc k else runeCut s k)"

definition clipBytes :: "gostr \<Rightarrow> nat \<Rightarrow> gostr" where
  "clipBytes s0 n =
     (let s = TrimSpace s0 in
      if n = 0 \<or> length s \<le> n then s
      else if n \<le> length ellipsis then ellipsis
      else take (runeCut s (n - length ellipsis)) s @ ellipsis)"

definition clip :: "gostr \<Rightarrow> nat \<Rightarrow> gostr" where
  "clip s0 n = (let s = TrimSpace s0 in if n = 0 \<or> length s \<le> n then s else clipBytes s n)"

definition maxDiagnosisNotes :: nat where "maxDiagnosisNotes = 4"
definition maxDiagnosisNoteBytes :: nat where "maxDiagnosisNoteBytes = 400"
definition maxDiagnosisTotalBytes :: nat where "maxDiagnosisTotalBytes = 1600"

lemmas note_limits = maxDiagnosisNotes_def maxDiagnosisNoteBytes_def maxDiagnosisTotalBytes_def

definition clipDiagnosisNote :: "gostr \<Rightarrow> gostr" where
  "clipDiagnosisNote note = clipBytes (TrimSpace note) maxDiagnosisNoteBytes"

definition normalizeTaskID :: "gostr \<Rightarrow> gostr" where
  "normalizeTaskID tid = (if TrimSpace tid = [] then ''root'' else TrimSpace tid)"

subsection \<open>The episode budget\<close>

record episodeBudget =
  eb_totalFailures :: u8
  eb_reviewRejects :: u8
  eb_stoppedOpRetries :: u8
  eb_stopped :: bool
  eb_stopReason :: StopReason
  eb_finalizationOffered :: bool
  eb_finalizationConsumed :: bool

definition clearBudget :: episodeBudget where
  "clearBudget =
     \<lparr>eb_totalFailures = 0, eb_reviewRejects = 0, eb_stoppedOpRetries = 0, eb_stopped = False,
      eb_stopReason = StopReasonNone, eb_finalizationOffered = False,
      eb_finalizationConsumed = False\<rparr>"

subsection \<open>One task\<close>

record activeFailure =
  af_evidence :: FailureEvent
  af_safeRetryUsed :: bool
  af_diagnosis :: "gostr list"

record taskRuntime =
  tr_episodeID :: gostr
  tr_operationFailures :: "u8 gomap"
  tr_stoppedOps :: "gostr set"
  tr_lastFailure :: "activeFailure option"
  tr_guidanceSent :: bool
  tr_taskGrants :: "gostr set"
  tr_taskGrantScope :: gostr

definition newRuntime :: "gostr \<Rightarrow> taskRuntime" where
  "newRuntime eid =
     \<lparr>tr_episodeID = eid, tr_operationFailures = [], tr_stoppedOps = {}, tr_lastFailure = None,
      tr_guidanceSent = False, tr_taskGrants = {}, tr_taskGrantScope = []\<rparr>"

definition runtimeEmpty :: "taskRuntime \<Rightarrow> bool" where
  "runtimeEmpty st \<longleftrightarrow>
     \<not> (tr_lastFailure st \<noteq> None \<or> tr_guidanceSent st)
     \<and> \<not> (tr_operationFailures st \<noteq> [] \<or> tr_stoppedOps st \<noteq> {})"

definition hasTaskGrant :: "taskRuntime \<Rightarrow> gostr \<Rightarrow> bool" where
  "hasTaskGrant st key \<longleftrightarrow> key \<noteq> [] \<and> key \<in> tr_taskGrants st"

definition addTaskGrant :: "taskRuntime \<Rightarrow> gostr \<Rightarrow> taskRuntime" where
  "addTaskGrant st key =
     (if key = [] then st else st\<lparr>tr_taskGrants := insert key (tr_taskGrants st)\<rparr>)"

definition useTaskGrantScope :: "taskRuntime \<Rightarrow> gostr \<Rightarrow> taskRuntime" where
  "useTaskGrantScope st scope =
     (if scope = [] then st
      else
        (let st1 = (if tr_taskGrantScope st \<noteq> [] \<and> tr_taskGrantScope st \<noteq> scope
                    then st\<lparr>tr_taskGrants := {}\<rparr> else st)
         in st1\<lparr>tr_taskGrantScope := scope\<rparr>))"

definition hasTaskGrants :: "taskRuntime \<Rightarrow> bool" where
  "hasTaskGrants st \<longleftrightarrow> tr_taskGrants st \<noteq> {}"

definition clearTaskRecoveryState :: "taskRuntime \<Rightarrow> taskRuntime" where
  "clearTaskRecoveryState st =
     st\<lparr>tr_operationFailures := [], tr_stoppedOps := {}, tr_lastFailure := None,
        tr_guidanceSent := False\<rparr>"

definition operationFailureCount :: "taskRuntime \<Rightarrow> gostr \<Rightarrow> u8" where
  "operationFailureCount st fp =
     (if fp = [] then 0
      else (case map_of (tr_operationFailures st) fp of None \<Rightarrow> 0 | Some n \<Rightarrow> n))"

definition isOperationStopped :: "taskRuntime \<Rightarrow> gostr \<Rightarrow> bool" where
  "isOperationStopped st fp \<longleftrightarrow>
     (if fp = [] then False
      else if fp \<in> tr_stoppedOps st then True
      else MaxOperationFailures \<le> unat (operationFailureCount st fp))"

definition markOperationStopped :: "taskRuntime \<Rightarrow> gostr \<Rightarrow> taskRuntime" where
  "markOperationStopped st fp =
     (if fp = [] then st else st\<lparr>tr_stoppedOps := insert fp (tr_stoppedOps st)\<rparr>)"

definition failureCount :: "taskRuntime \<Rightarrow> u8" where
  "failureCount st =
     (case tr_lastFailure st of
        None \<Rightarrow> 0
      | Some af \<Rightarrow>
          (let fp = TrimSpace (fe_Fingerprint (af_evidence af)) in
           if fp \<noteq> [] \<and> 0 < operationFailureCount st fp then operationFailureCount st fp else 0))"

definition safeRetryAvailable :: "taskRuntime \<Rightarrow> bool" where
  "safeRetryAvailable st =
     (case tr_lastFailure st of None \<Rightarrow> False | Some af \<Rightarrow> \<not> af_safeRetryUsed af)"

definition diagnosisNotes :: "taskRuntime \<Rightarrow> gostr list" where
  "diagnosisNotes st = (case tr_lastFailure st of None \<Rightarrow> [] | Some af \<Rightarrow> af_diagnosis af)"

definition cloneFailureEvent :: "activeFailure \<Rightarrow> taskRuntime \<Rightarrow> FailureEvent" where
  "cloneFailureEvent af st =
     (let ev = af_evidence af; fp = TrimSpace (fe_Fingerprint ev);
          cp = (if fp \<noteq> [] then ev\<lparr>fe_RepeatCount := uint (operationFailureCount st fp)\<rparr> else ev)
      in cp\<lparr>fe_SafeRetryLeft := (if af_safeRetryUsed af then 0 else 1),
            fe_DiagnosisNotes := af_diagnosis af\<rparr>)"

definition evidenceCopy :: "taskRuntime \<Rightarrow> FailureEvent option" where
  "evidenceCopy st = map_option (\<lambda>af. cloneFailureEvent af st) (tr_lastFailure st)"

definition toTaskState :: "taskRuntime \<Rightarrow> Phase \<Rightarrow> TaskState option" where
  "toTaskState st phase =
     (if runtimeEmpty st then None
      else
        (let out = noTaskState\<lparr>ts_Phase := phase, ts_TailInjected := tr_guidanceSent st,
                               ts_EpisodeID := tr_episodeID st\<rparr>
         in Some (case tr_lastFailure st of
                    None \<Rightarrow> out
                  | Some af \<Rightarrow>
                      out\<lparr>ts_Failure := Some (cloneFailureEvent af st),
                          ts_LastFailure := Some (cloneFailureEvent af st),
                          ts_ConsecutiveFails := uint (failureCount st),
                          ts_Phase := (if phase = PhaseIdle then PhaseDiagnosing else phase)\<rparr>)))"

definition toPersistenceState :: "taskRuntime \<Rightarrow> TaskState option" where
  "toPersistenceState st =
     (case tr_lastFailure st of
        None \<Rightarrow> None
      | Some af \<Rightarrow>
          Some (noTaskState\<lparr>ts_Phase := PhaseIdle,
                            ts_LastFailure := Some (cloneFailureEvent af st)\<rparr>))"

subsection \<open>Diagnosis notes\<close>

text \<open>\<open>keepNotes\<close> is the loop from the newest note to the oldest.\<close>

fun keepNotes :: "gostr list \<Rightarrow> nat \<Rightarrow> gostr list \<Rightarrow> gostr list" where
  "keepNotes [] used kept = kept"
| "keepNotes (x # xs) used kept =
     (let n = clipDiagnosisNote x in
      if n = [] then keepNotes xs used kept
      else if maxDiagnosisTotalBytes < used + length n then
        (if kept = [] then
           (let m = clipBytes n maxDiagnosisTotalBytes in if m \<noteq> [] then kept @ [m] else kept)
         else kept)
      else keepNotes xs (used + length n) (kept @ [n]))"

definition trimmedNotes :: "gostr list \<Rightarrow> gostr list" where
  "trimmedNotes notes =
     (let recent = (if maxDiagnosisNotes < length notes
                    then drop (length notes - maxDiagnosisNotes) notes else notes)
      in rev (keepNotes (rev recent) 0 []))"

definition trimDiagnosis :: "activeFailure \<Rightarrow> activeFailure" where
  "trimDiagnosis af =
     (let kept = trimmedNotes (af_diagnosis af) in
      af\<lparr>af_diagnosis := kept, af_evidence := (af_evidence af)\<lparr>fe_DiagnosisNotes := kept\<rparr>\<rparr>)"

definition appendDiagnosisNote :: "activeFailure \<Rightarrow> gostr \<Rightarrow> activeFailure \<times> bool" where
  "appendDiagnosisNote af note0 =
     (let note = clipDiagnosisNote note0 in
      if note = [] then (af, False)
      else if note \<in> set (af_diagnosis af) then (af, False)
      else (trimDiagnosis (af\<lparr>af_diagnosis := af_diagnosis af @ [note]\<rparr>), True))"

definition taskRuntimeFromState :: "TaskState \<Rightarrow> taskRuntime option" where
  "taskRuntimeFromState ts =
     (case (case ts_LastFailure ts of None \<Rightarrow> ts_Failure ts | Some f \<Rightarrow> Some f) of
        None \<Rightarrow> None
      | Some src \<Rightarrow>
          (let af = \<lparr>af_evidence =
                       noFailureEvent\<lparr>fe_Tool := fe_Tool src, fe_ArgsSummary := fe_ArgsSummary src,
                         fe_Subject := fe_Subject src, fe_ErrSummary := fe_ErrSummary src,
                         fe_OutputExcerpt := fe_OutputExcerpt src,
                         fe_SourceAgent := fe_SourceAgent src, fe_TaskID := fe_TaskID src,
                         fe_TaskScopeID := fe_TaskScopeID src, fe_ReadOnly := fe_ReadOnly src,
                         fe_Verification := fe_Verification src, fe_Mutates := fe_Mutates src,
                         fe_CreatedAt := fe_CreatedAt src, fe_Args := fe_Args src,
                         fe_Fingerprint := fe_Fingerprint src\<rparr>,
                     af_safeRetryUsed = True, af_diagnosis = fe_DiagnosisNotes src\<rparr>
           in Some (newRuntime []\<lparr>tr_lastFailure := Some (trimDiagnosis af)\<rparr>)))"

subsection \<open>Bounds\<close>

lemma runeCut_le: "runeCut s k \<le> k"
  by (induction k) auto

lemma length_ellipsis: "length ellipsis = 3"
  by (simp add: ellipsis_def)

lemma length_clipBytes:
  assumes "3 \<le> n"
  shows "length (clipBytes s n) \<le> n"
proof -
  have cut: "min (length t) (runeCut t (n - 3)) + 3 \<le> n" for t
    using runeCut_le [of t "n - 3"] assms by linarith
  show ?thesis
    using assms cut [of "TrimSpace s"] by (auto simp: clipBytes_def Let_def length_ellipsis)
qed

lemma length_clip: "3 \<le> n \<Longrightarrow> length (clip s n) \<le> n"
  by (auto simp: clip_def Let_def length_clipBytes)

lemma clipBytes_short: "length (TrimSpace s) \<le> n \<Longrightarrow> clipBytes s n = TrimSpace s"
  by (simp add: clipBytes_def Let_def)

lemma length_clipDiagnosisNote: "length (clipDiagnosisNote s) \<le> 400"
  by (simp add: clipDiagnosisNote_def note_limits length_clipBytes)

text \<open>A clipped text neither starts nor ends with white space, so clipping it again changes nothing.\<close>

lemma TrimSpace_clipBytes: "TrimSpace (clipBytes s n) = clipBytes s n"
proof (cases "n = 0 \<or> length (TrimSpace s) \<le> n \<or> n \<le> 3")
  case True
  have "TrimSpace ellipsis = ellipsis"
    by (rule TrimSpace_id) (simp add: ellipsis_def is_space_def)
  with True show ?thesis by (auto simp: clipBytes_def Let_def length_ellipsis)
next
  case False
  let ?t = "take (runeCut (TrimSpace s) (n - 3)) (TrimSpace s)"
  have eq: "clipBytes s n = ?t @ ellipsis"
    using False by (simp add: clipBytes_def Let_def length_ellipsis)
  have "\<not> is_space (hd (?t @ ellipsis))"
  proof (cases "?t")
    case Nil
    show ?thesis unfolding Nil by (simp add: ellipsis_def is_space_def)
  next
    case (Cons c r)
    have start: "take k t = c # r \<Longrightarrow> t \<noteq> [] \<and> hd t = c" for k and t :: gostr
      by (cases t; cases k) simp_all
    from start [OF Cons] have "TrimSpace s \<noteq> []" and "hd (TrimSpace s) = c" by simp_all
    then show ?thesis using hd_TrimSpace [of s] Cons by (simp add: hd_append)
  qed
  moreover have "\<not> is_space (last (?t @ ellipsis))" by (simp add: ellipsis_def is_space_def)
  ultimately show ?thesis unfolding eq by (intro TrimSpace_id) blast
qed

lemma clipBytes_idem: "3 \<le> n \<Longrightarrow> clipBytes (clipBytes s n) n = clipBytes s n"
  using length_clipBytes [of n s] by (simp add: clipBytes_short TrimSpace_clipBytes)

lemma clipDiagnosisNote_idem [simp]:
  "clipDiagnosisNote (clipDiagnosisNote s) = clipDiagnosisNote s"
  by (simp add: clipDiagnosisNote_def TrimSpace_clipBytes clipBytes_idem note_limits)

text \<open>The total limit never fires: four notes of at most 400 bytes fit in it.\<close>

lemma keepNotes_closed:
  "used + 400 * length xs \<le> 1600
   \<Longrightarrow> keepNotes xs used kept = kept @ filter (\<lambda>n. n \<noteq> []) (map clipDiagnosisNote xs)"
proof (induction xs arbitrary: used kept)
  case (Cons x xs)
  have le: "length (clipDiagnosisNote x) \<le> 400" by (rule length_clipDiagnosisNote)
  have "used + length (clipDiagnosisNote x) + 400 * length xs \<le> 1600"
    using Cons.prems le by simp
  moreover have "used + length (clipDiagnosisNote x) \<le> 1600" using Cons.prems le by simp
  moreover have "used + 400 * length xs \<le> 1600" using Cons.prems by simp
  ultimately show ?case using Cons.IH by (simp add: Let_def note_limits)
qed simp

lemma trimmedNotes_closed:
  "trimmedNotes notes =
     filter (\<lambda>n. n \<noteq> []) (map clipDiagnosisNote (drop (length notes - 4) notes))"
  by (simp add: trimmedNotes_def Let_def note_limits keepNotes_closed rev_filter flip: rev_map)

definition notes_ok :: "gostr list \<Rightarrow> bool" where
  "notes_ok ns \<longleftrightarrow>
     length ns \<le> maxDiagnosisNotes
     \<and> list_all (\<lambda>n. n \<noteq> [] \<and> length n \<le> maxDiagnosisNoteBytes \<and> clipDiagnosisNote n = n) ns
     \<and> sum_list (map length ns) \<le> maxDiagnosisTotalBytes"

lemma sum_list_bound: "list_all (\<lambda>n. length n \<le> b) ns \<Longrightarrow> sum_list (map length ns) \<le> b * length ns"
  by (induction ns) auto

lemma notes_okI:
  assumes "length ns \<le> 4"
    and all: "list_all (\<lambda>n. n \<noteq> [] \<and> length n \<le> 400 \<and> clipDiagnosisNote n = n) ns"
  shows "notes_ok ns"
proof -
  have "list_all (\<lambda>n. length n \<le> 400) ns" using all by (auto simp: list_all_iff)
  then have "sum_list (map length ns) \<le> 400 * length ns" by (rule sum_list_bound)
  then have "sum_list (map length ns) \<le> 1600" using assms(1) by linarith
  then show ?thesis using assms by (simp add: notes_ok_def note_limits)
qed

lemma notes_ok_Nil [simp]: "notes_ok []"
  by (simp add: notes_ok_def)

lemma notes_ok_trimmed [simp]: "notes_ok (trimmedNotes ns)"
proof (rule notes_okI)
  show "length (trimmedNotes ns) \<le> 4"
    unfolding trimmedNotes_closed by (rule order_trans [OF length_filter_le]) simp
  show "list_all (\<lambda>n. n \<noteq> [] \<and> length n \<le> 400 \<and> clipDiagnosisNote n = n) (trimmedNotes ns)"
    using length_clipDiagnosisNote by (auto simp: trimmedNotes_closed list_all_iff)
qed

lemma trimmedNotes_id: "notes_ok ns \<Longrightarrow> trimmedNotes ns = ns"
  by (auto simp: notes_ok_def trimmedNotes_closed note_limits list_all_iff map_idI)

lemma trimDiagnosis_fields [simp, frame_simps]:
  "af_diagnosis (trimDiagnosis af) = trimmedNotes (af_diagnosis af)"
  "af_safeRetryUsed (trimDiagnosis af) = af_safeRetryUsed af"
  "fe_Fingerprint (af_evidence (trimDiagnosis af)) = fe_Fingerprint (af_evidence af)"
  by (simp_all add: trimDiagnosis_def Let_def)

lemma appendDiagnosisNote_fields [simp, frame_simps]:
  "af_safeRetryUsed (fst (appendDiagnosisNote af n)) = af_safeRetryUsed af"
  "fe_Fingerprint (af_evidence (fst (appendDiagnosisNote af n))) = fe_Fingerprint (af_evidence af)"
  by (simp_all add: appendDiagnosisNote_def Let_def)

lemma appendDiagnosisNote_ok [inv_intros]:
  "notes_ok (af_diagnosis af) \<Longrightarrow> notes_ok (af_diagnosis (fst (appendDiagnosisNote af n)))"
  by (simp add: appendDiagnosisNote_def Let_def)

subsection \<open>Runtimes\<close>

lemma clearTaskRecoveryState_fields [simp, frame_simps]:
  "tr_operationFailures (clearTaskRecoveryState st) = []"
  "tr_stoppedOps (clearTaskRecoveryState st) = {}"
  "tr_lastFailure (clearTaskRecoveryState st) = None"
  "tr_guidanceSent (clearTaskRecoveryState st) = False"
  "tr_taskGrants (clearTaskRecoveryState st) = tr_taskGrants st"
  "tr_taskGrantScope (clearTaskRecoveryState st) = tr_taskGrantScope st"
  "tr_episodeID (clearTaskRecoveryState st) = tr_episodeID st"
  by (simp_all add: clearTaskRecoveryState_def)

lemma runtimeEmpty_clear [simp]: "runtimeEmpty (clearTaskRecoveryState st)"
  by (simp add: runtimeEmpty_def)

lemma useTaskGrantScope_fields [simp, frame_simps]:
  "tr_operationFailures (useTaskGrantScope st sc) = tr_operationFailures st"
  "tr_stoppedOps (useTaskGrantScope st sc) = tr_stoppedOps st"
  "tr_lastFailure (useTaskGrantScope st sc) = tr_lastFailure st"
  "tr_guidanceSent (useTaskGrantScope st sc) = tr_guidanceSent st"
  "tr_episodeID (useTaskGrantScope st sc) = tr_episodeID st"
  by (simp_all add: useTaskGrantScope_def Let_def)

lemma runtimeEmpty_useTaskGrantScope [simp]:
  "runtimeEmpty (useTaskGrantScope st sc) = runtimeEmpty st"
  by (simp add: runtimeEmpty_def)

lemma newRuntime_fields [simp, frame_simps]:
  "tr_operationFailures (newRuntime e) = []" "tr_stoppedOps (newRuntime e) = {}"
  "tr_lastFailure (newRuntime e) = None" "tr_guidanceSent (newRuntime e) = False"
  "tr_taskGrants (newRuntime e) = {}" "tr_taskGrantScope (newRuntime e) = []"
  "tr_episodeID (newRuntime e) = e"
  by (simp_all add: newRuntime_def)

lemma isOperationStopped_empty: "runtimeEmpty st \<Longrightarrow> \<not> isOperationStopped st fp"
  by (simp add: runtimeEmpty_def isOperationStopped_def operationFailureCount_def
      MaxOperationFailures_def)

end
