(* ===== verification/Recovery_Rules.thy ===== *)
theory Recovery_Rules imports Recovery_State Shell_Safe begin

text \<open>
  The rules of Auto Guard about tool calls (\<open>rules.go\<close>): which observations are failures
  and of which class, what is a diagnostic or an empty search, when a verification command
  is retried safely, and whether a proposal writes outside the paths of the failure. The
  command-level risk rules are in \<open>Recovery_Risk\<close>.
\<close>

subsection \<open>Observations\<close>

definition QualifyingFailure :: "Observation \<Rightarrow> bool" where
  "QualifyingFailure obs =
     (if ob_Success obs \<or> ob_Blocked obs \<or> ob_UserRejected obs \<or> ob_ProviderError obs
         \<or> ob_Cancelled obs \<or> ob_EmptySearch obs
      then False
      else if ob_Mutates obs then True
      else if ob_Verification obs then True
      else if \<not> ob_ReadOnly obs \<and> TrimSpace (ob_Tool obs) \<noteq> [] then True
      else False)"

definition transientMarkers :: "gostr list" where
  "transientMarkers =
     [''command timed out'', ''timed out after'', ''timed out (>'', ''context deadline exceeded'',
      ''deadline exceeded'', ''execution timeout'']"

definition transientFailureText :: "gostr \<Rightarrow> bool" where
  "transientFailureText text0 =
     (let t = ToLower (TrimSpace text0) in
      if t = [] then False else list_ex (Contains t) transientMarkers)"

definition ClassifyFailure :: "Observation \<Rightarrow> FailureClass" where
  "ClassifyFailure obs =
     (if transientFailureText (ob_ErrSummary obs) \<or> transientFailureText (ob_Output obs)
      then FailureClassTransient
      else if ob_Verification obs then FailureClassVerification
      else if ob_Mutates obs then FailureClassMutation
      else FailureClassExecution)"

definition ClassifyEmptySearch :: "gostr \<Rightarrow> bool \<Rightarrow> bool \<Rightarrow> gostr \<Rightarrow> bool" where
  "ClassifyEmptySearch tool success readOnly output =
     (if \<not> success \<or> \<not> readOnly then False
      else if TrimSpace tool \<notin> {''grep'', ''glob'', ''ls'', ''code_index'', ''codeindex''} then False
      else
        (let out = TrimSpace output in
         if out = [] then True
         else list_ex (Contains (ToLower out))
                [''no matches'', ''no files found'', ''0 matches'', ''not found'', ''no results'']))"

definition commandFromArgs :: "raw_json \<Rightarrow> gostr" where
  "commandFromArgs args =
     (case unmarshalMap args of
        None \<Rightarrow> []
      | Some kvs \<Rightarrow>
          (case objGet kvs ''command'' of
             Some (JStr cmd) \<Rightarrow> TrimSpace cmd
           | _ \<Rightarrow> []))"

definition IsDiagnosticSuccess :: "shell_lib \<Rightarrow> Observation \<Rightarrow> bool" where
  "IsDiagnosticSuccess sh obs =
     (if \<not> ob_Success obs \<or> ob_Mutates obs \<or> ob_Verification obs then False
      else
        (let tool = TrimSpace (ob_Tool obs) in
         if tool = ''bash'' then CommandIsReadOnly sh (commandFromArgs (ob_Args obs)) \<noteq> None
         else if tool \<in> {''read_file'', ''grep'', ''glob'', ''ls'', ''code_index'', ''codeindex''}
         then ob_ReadOnly obs
         else False))"

subsection \<open>Safe verification retries\<close>

definition normalizeCommand :: "gostr \<Rightarrow> gostr" where
  "normalizeCommand s = Join (Fields (TrimSpace s)) '' ''"

definition IsSafeVerificationRetry :: "digest_lib \<Rightarrow> FailureEvent option \<Rightarrow> Proposal \<Rightarrow> bool" where
  "IsSafeVerificationRetry dl failure proposal =
     (case failure of
        None \<Rightarrow> False
      | Some f \<Rightarrow>
          if \<not> fe_Verification f then False
          else if fe_SafeRetryLeft f \<le> 0 then False
          else if \<not> pr_Verification proposal \<or> pr_HighRisk proposal \<or> pr_ExpandedScope proposal
                  \<or> pr_StrategyChanged proposal then False
          else if TrimSpace (pr_Tool proposal) \<noteq> TrimSpace (fe_Tool f) then False
          else if normalizeCommand (pr_Subject proposal) \<noteq> [] \<and> normalizeCommand (fe_Subject f) \<noteq> []
          then normalizeCommand (pr_Subject proposal) = normalizeCommand (fe_Subject f)
          else CallFingerprint dl (pr_Tool proposal) (pr_Subject proposal) [] (pr_Args proposal)
               = CallFingerprint dl (fe_Tool f) (fe_Subject f) [] (fe_Args f))"

subsection \<open>Scope\<close>

fun uniqueLoop :: "gostr set \<Rightarrow> gostr list \<Rightarrow> gostr list" where
  "uniqueLoop seen [] = []"
| "uniqueLoop seen (s0 # ss) =
     (let s = TrimSpace s0 in
      if s = [] then uniqueLoop seen ss
      else if s \<in> seen then uniqueLoop seen ss
      else s # uniqueLoop (insert s seen) ss)"

definition uniqueStrings :: "gostr list \<Rightarrow> gostr list" where
  "uniqueStrings xs = uniqueLoop {} xs"

definition scopeKeys :: "gostr list" where
  "scopeKeys =
     [''path'', ''file_path'', ''file'', ''target'', ''destination'',
      ''source_path'', ''destination_path'', ''old_path'', ''new_path'']"

definition pathsFromArgs :: "raw_json \<Rightarrow> gostr list" where
  "pathsFromArgs args =
     (case unmarshalMap args of
        None \<Rightarrow> []
      | Some kvs \<Rightarrow> uniqueStrings (List.map_filter (stringField kvs) scopeKeys))"

text \<open>
  Decoding into \<open>struct { Edits []struct { Path string } }\<close>: member names match without
  regard to case, null leaves a string alone and empties a slice, a later member replaces
  an earlier one, and any mismatch makes \<open>json.Unmarshal\<close> fail (\<open>None\<close>).
\<close>

fun decodeEditPath :: "(gostr \<times> json) list \<Rightarrow> gostr \<Rightarrow> gostr option" where
  "decodeEditPath [] p = Some p"
| "decodeEditPath ((k, v) # kvs) p =
     (if EqualFold k ''path'' then
        (case v of JStr q \<Rightarrow> decodeEditPath kvs q | JNull \<Rightarrow> decodeEditPath kvs p | _ \<Rightarrow> None)
      else decodeEditPath kvs p)"

fun decodeEdit :: "json \<Rightarrow> gostr option" where
  "decodeEdit (JObj kvs) = decodeEditPath kvs []"
| "decodeEdit JNull = Some []"
| "decodeEdit _ = None"

fun decodeEditList :: "json list \<Rightarrow> gostr list option" where
  "decodeEditList [] = Some []"
| "decodeEditList (e # es) =
     (case decodeEdit e of
        None \<Rightarrow> None
      | Some p \<Rightarrow> map_option (\<lambda>ps. p # ps) (decodeEditList es))"

fun decodeEdits :: "(gostr \<times> json) list \<Rightarrow> gostr list \<Rightarrow> gostr list option" where
  "decodeEdits [] ps = Some ps"
| "decodeEdits ((k, v) # kvs) ps =
     (if EqualFold k ''edits'' then
        (case v of
           JArr es \<Rightarrow>
             (case decodeEditList es of None \<Rightarrow> None | Some qs \<Rightarrow> decodeEdits kvs qs)
         | JNull \<Rightarrow> decodeEdits kvs []
         | _ \<Rightarrow> None)
      else decodeEdits kvs ps)"

definition multiEditPaths :: "raw_json \<Rightarrow> gostr list" where
  "multiEditPaths args =
     (case unmarshalMap args of
        None \<Rightarrow> []
      | Some kvs \<Rightarrow>
          (case decodeEdits kvs [] of
             None \<Rightarrow> []
           | Some ps \<Rightarrow> map Clean (filter (\<lambda>p. TrimSpace p \<noteq> []) ps)))"

definition WriteScopePaths :: "gostr \<Rightarrow> raw_json \<Rightarrow> gostr list" where
  "WriteScopePaths tool0 args =
     (let tool = TrimSpace tool0;
          paths = map Clean (pathsFromArgs args);
          paths1 = (if tool = ''multi_edit'' \<or> tool = ''multi-edit''
                    then paths @ multiEditPaths args else paths)
      in if tool = ''bash'' then paths1 else uniqueStrings paths1)"

definition allowedScope :: "gostr list \<Rightarrow> gostr set" where
  "allowedScope failedPaths =
     (\<Union>p \<in> set failedPaths. {Clean p, Clean (FilepathDir p)})"

definition ScopeExpanded :: "FailureEvent option \<Rightarrow> Proposal \<Rightarrow> bool" where
  "ScopeExpanded failure proposal =
     (if pr_ExpandedScope proposal then True
      else
        (case failure of
           None \<Rightarrow> False
         | Some f \<Rightarrow>
             (let failedPaths = WriteScopePaths (fe_Tool f) (fe_Args f);
                  nextPaths = WriteScopePaths (pr_Tool proposal) (pr_Args proposal)
              in if failedPaths = [] \<or> nextPaths = [] then False
                 else list_ex (\<lambda>p0. let p = Clean p0 in
                        p \<notin> allowedScope failedPaths
                        \<and> Clean (FilepathDir p) \<notin> allowedScope failedPaths) nextPaths)))"

definition StrategyChanged :: "FailureEvent option \<Rightarrow> Proposal \<Rightarrow> bool" where
  "StrategyChanged failure proposal = pr_StrategyChanged proposal"

subsection \<open>Facts\<close>

lemma uniqueLoop_props:
  "distinct (uniqueLoop seen xs) \<and> set (uniqueLoop seen xs) \<inter> seen = {}
   \<and> set (uniqueLoop seen xs) = TrimSpace ` set xs - {[]} - seen"
proof (induction xs arbitrary: seen)
  case (Cons x xs)
  show ?case using Cons [of seen] Cons [of "insert (TrimSpace x) seen"]
    by (auto simp: Let_def)
qed simp

lemma distinct_uniqueStrings: "distinct (uniqueStrings xs)"
  and set_uniqueStrings: "set (uniqueStrings xs) = TrimSpace ` set xs - {[]}"
  using uniqueLoop_props [of "{}" xs] by (auto simp: uniqueStrings_def)

lemma qualifying_not_success: "QualifyingFailure obs \<Longrightarrow> \<not> ob_Success obs"
  by (simp add: QualifyingFailure_def split: if_splits)

end
