(* ===== verification/Recovery_Risk.thy ===== *)
theory Recovery_Risk imports Recovery_Rules begin

text \<open>
  The execution-risk classifier of Auto Guard (the command part of \<open>rules.go\<close>): which
  shell commands are high risk, which mutations are known to be safe, and which commands
  could be granted for a whole task. Fields of a command are the static words
  \<open>Shell_Parse\<close> computes.
\<close>

subsection \<open>Fields\<close>

text \<open>A \<open>case\<close> label with several strings.\<close>

definition oneOf :: "gostr \<Rightarrow> gostr list \<Rightarrow> bool" where
  "oneOf s labels \<longleftrightarrow> s \<in> set labels"

definition lowerFields :: "gostr list \<Rightarrow> gostr list" where
  "lowerFields fs = map (\<lambda>f. ToLower (TrimSpace f)) fs"

definition containsAny :: "gostr list \<Rightarrow> gostr list \<Rightarrow> bool" where
  "containsAny fs values = list_ex (\<lambda>f. f \<in> set values) fs"

definition hasGlobalFlag :: "gostr list \<Rightarrow> bool" where
  "hasGlobalFlag fs = containsAny fs [''-g'', ''--global'', ''--system'', ''--user'']"

fun unwrapEnvCommand :: "gostr list \<Rightarrow> gostr list option" where
  "unwrapEnvCommand [] = None"
| "unwrapEnvCommand (arg # args) =
     (let lower = ToLower arg in
      if oneOf lower [''-i'', ''--ignore-environment'', ''-0'', ''--null''] then unwrapEnvCommand args
      else if oneOf lower [''-u'', ''--unset'', ''-c'', ''--chdir''] then
        (case args of [] \<Rightarrow> None | v # rest \<Rightarrow> unwrapEnvCommand rest)
      else if HasPrefix lower ''--unset='' \<or> HasPrefix lower ''--chdir='' then unwrapEnvCommand args
      else if HasPrefix arg ''-'' then None
      else if Contains arg ''='' then unwrapEnvCommand args
      else Some (arg # args))"

text \<open>\<open>Some []\<close> is \<open>command -v\<close>, which only looks a command up.\<close>

fun unwrapCommandBuiltin :: "gostr list \<Rightarrow> gostr list option" where
  "unwrapCommandBuiltin [] = None"
| "unwrapCommandBuiltin (arg # args) =
     (if ToLower arg = ''-p'' then unwrapCommandBuiltin args
      else if ToLower arg = ''-v'' then Some []
      else if HasPrefix arg ''-'' then None
      else Some (arg # args))"

definition trimLeadingOptions :: "gostr list \<Rightarrow> gostr list" where
  "trimLeadingOptions args = dropWhile (\<lambda>a. HasPrefix a ''-'') args"

lemma length_unwrapEnvCommand: "unwrapEnvCommand args = Some w \<Longrightarrow> length w \<le> length args"
  by (induction args rule: unwrapEnvCommand.induct)
     (force simp: Let_def split: if_splits list.splits)+

lemma length_unwrapCommandBuiltin: "unwrapCommandBuiltin args = Some w \<Longrightarrow> length w \<le> length args"
  by (induction args rule: unwrapCommandBuiltin.induct) (auto split: if_splits)

lemma length_trimLeadingOptions: "length (trimLeadingOptions args) \<le> length args"
  by (simp add: trimLeadingOptions_def length_dropWhile_le)

subsection \<open>Git\<close>

definition gitCommandHighRisk :: "gostr list \<Rightarrow> bool" where
  "gitCommandHighRisk args =
     (if containsAny args [''push'', ''clean'', ''prune'', ''filter-branch'', ''filter-repo''] then True
      else if containsAny args [''gc''] then True
      else if containsAny args [''reset''] \<and> containsAny args [''--hard'', ''--merge'', ''--keep'']
      then True
      else if containsAny args [''checkout''] then True
      else if containsAny args [''switch''] \<and> containsAny args [''--discard-changes''] then True
      else if containsAny args [''restore'']
              \<and> (\<not> containsAny args [''--staged''] \<or> containsAny args [''--worktree'']) then True
      else if containsAny args [''branch''] \<and> containsAny args [''-d'', ''--delete'', ''-f'', ''--force'']
      then True
      else if containsAny args [''tag''] \<and> containsAny args [''-d'', ''--delete'', ''-f'', ''--force'']
      then True
      else if containsAny args [''stash''] \<and> containsAny args [''clear'', ''drop''] then True
      else if containsAny args [''reflog''] \<and> containsAny args [''expire'', ''delete''] then True
      else if containsAny args [''worktree''] \<and> containsAny args [''remove'', ''prune''] then True
      else if containsAny args [''update-ref''] \<and> containsAny args [''-d'', ''--delete'', ''--stdin'']
      then True
      else if containsAny args [''remote'']
              \<and> containsAny args [''add'', ''remove'', ''rm'', ''rename'', ''set-url'', ''set-head'',
                                   ''set-branches'', ''prune'', ''update''] then True
      else if containsAny args [''config''] then
        (if containsAny args [''--unset'', ''--unset-all'', ''--add'', ''--replace-all'',
                              ''--rename-section'', ''--remove-section'', ''--edit'', ''-e''] then True
         else \<not> containsAny args [''--get'', ''--get-all'', ''--get-regexp'', ''--get-urlmatch'',
                                   ''--list'', ''-l'', ''--name-only''])
      else False)"

fun gitSubcommand :: "gostr list \<Rightarrow> gostr" where
  "gitSubcommand [] = []"
| "gitSubcommand (arg # args) =
     (if oneOf arg [''-c'', ''--git-dir'', ''--work-tree'', ''--namespace''] then gitSubcommand (drop 1 args)
      else if HasPrefix arg ''-'' then gitSubcommand args
      else ToLower arg)"

definition gitSafeSubcommands :: "gostr list" where
  "gitSafeSubcommands =
     [''add'', ''commit'', ''status'', ''diff'', ''log'', ''show'', ''rev-parse'', ''rev-list'',
      ''describe'', ''blame'', ''grep'', ''ls-files'', ''ls-tree'', ''cat-file'', ''for-each-ref'',
      ''name-rev'', ''shortlog'', ''whatchanged'', ''cherry'', ''fetch'', ''pull'', ''clone'', ''init'',
      ''merge'', ''rebase'', ''cherry-pick'', ''revert'', ''apply'', ''am'', ''switch'', ''reset'',
      ''branch'', ''tag'', ''stash'', ''restore'', ''worktree'', ''remote'', ''config'', ''reflog'']"

definition gitCommandKnownSafe :: "gostr list \<Rightarrow> bool" where
  "gitCommandKnownSafe args \<longleftrightarrow> gitSubcommand args \<in> set gitSafeSubcommands"

subsection \<open>HTTP clients and the GitHub client\<close>

definition safeMethod :: "gostr \<Rightarrow> bool" where
  "safeMethod m \<longleftrightarrow> m \<in> {''GET'', ''HEAD'', ''OPTIONS''}"

definition curlBodyFlag :: "gostr \<Rightarrow> gostr \<Rightarrow> bool" where
  "curlBodyFlag arg lower \<longleftrightarrow>
     arg = ''-d'' \<or> oneOf lower [''--data'', ''--data-ascii'', ''--data-binary'', ''--data-raw'',
                                 ''--data-urlencode'', ''--json'']
     \<or> arg = ''-F'' \<or> lower = ''--form'' \<or> lower = ''--form-string''
     \<or> arg = ''-T'' \<or> lower = ''--upload-file''"

definition curlBodyValue :: "gostr \<Rightarrow> gostr \<Rightarrow> bool" where
  "curlBodyValue arg lower \<longleftrightarrow>
     HasPrefix arg ''-d'' \<and> 2 < length arg \<or> HasPrefix arg ''-F'' \<and> 2 < length arg
     \<or> HasPrefix arg ''-T'' \<and> 2 < length arg
     \<or> list_ex (HasPrefix lower)
          [''--data='', ''--data-ascii='', ''--data-binary='', ''--data-raw='',
           ''--data-urlencode='', ''--json='', ''--form='', ''--form-string='', ''--upload-file='']"

text \<open>\<open>None\<close>: the loop returns true at once; otherwise the method it has seen last.\<close>

fun curlLoop :: "gostr list \<Rightarrow> gostr \<Rightarrow> gostr option" where
  "curlLoop [] method = Some method"
| "curlLoop (arg # rest) method =
     (if arg = ''-X'' \<or> ToLower arg = ''--request'' then
        (case rest of [] \<Rightarrow> None | m # _ \<Rightarrow> curlLoop rest (ToUpper m))
      else if HasPrefix arg ''-X'' \<and> 2 < length arg then curlLoop rest (ToUpper (drop 2 arg))
      else if HasPrefix (ToLower arg) ''--request='' then
        curlLoop rest (ToUpper (drop (length ''--request='') arg))
      else if curlBodyFlag arg (ToLower arg) then None
      else if curlBodyValue arg (ToLower arg) then None
      else curlLoop rest method)"

definition curlCommandHighRisk :: "gostr list \<Rightarrow> bool" where
  "curlCommandHighRisk args =
     (case curlLoop args [] of None \<Rightarrow> True | Some m \<Rightarrow> m \<noteq> [] \<and> \<not> safeMethod m)"

fun wgetCommandHighRisk :: "gostr list \<Rightarrow> bool" where
  "wgetCommandHighRisk [] = False"
| "wgetCommandHighRisk (arg # rest) =
     (if arg = ''--post-data'' \<or> arg = ''--post-file'' \<or> HasPrefix arg ''--post-data=''
         \<or> HasPrefix arg ''--post-file='' then True
      else if arg = ''--method'' then
        (case rest of [] \<Rightarrow> True | m # _ \<Rightarrow> \<not> safeMethod (ToUpper m))
      else if HasPrefix arg ''--method='' then \<not> safeMethod (ToUpper (TrimPrefix arg ''--method=''))
      else wgetCommandHighRisk rest)"

definition ghGroups :: "gostr list" where
  "ghGroups =
     [''api'', ''pr'', ''issue'', ''repo'', ''release'', ''workflow'', ''run'', ''secret'',
      ''variable'', ''label'', ''gist'', ''ssh-key'', ''gpg-key'', ''cache'', ''auth'', ''alias'',
      ''config'', ''extension'', ''project'', ''codespace'']"

fun ghCommandGroup :: "gostr list \<Rightarrow> gostr \<times> gostr list" where
  "ghCommandGroup [] = ([], [])"
| "ghCommandGroup (arg # rest) =
     (if arg \<in> set ghGroups then (arg, rest) else ghCommandGroup rest)"

fun ghAPILoop :: "gostr list \<Rightarrow> gostr \<Rightarrow> bool \<Rightarrow> (gostr \<times> bool) option" where
  "ghAPILoop [] method hasBody = Some (method, hasBody)"
| "ghAPILoop (arg # rest) method hasBody =
     (if arg = ''-x'' \<or> arg = ''--method'' then
        (case rest of [] \<Rightarrow> None | m # _ \<Rightarrow> ghAPILoop rest (ToUpper m) hasBody)
      else if HasPrefix arg ''-x'' \<and> 2 < length arg then ghAPILoop rest (ToUpper (drop 2 arg)) hasBody
      else if HasPrefix arg ''--method='' then
        ghAPILoop rest (ToUpper (TrimPrefix arg ''--method='')) hasBody
      else if oneOf arg [''-f'', ''--raw-field'', ''--field'', ''--input''] then ghAPILoop rest method True
      else if HasPrefix arg ''-f'' \<and> 2 < length arg then ghAPILoop rest method True
      else if HasPrefix arg ''--raw-field='' \<or> HasPrefix arg ''--field='' \<or> HasPrefix arg ''--input=''
      then ghAPILoop rest method True
      else ghAPILoop rest method hasBody)"

definition ghAPICommandHighRisk :: "gostr list \<Rightarrow> bool" where
  "ghAPICommandHighRisk args =
     (case ghAPILoop args [] False of
        None \<Rightarrow> True
      | Some (method, hasBody) \<Rightarrow> if method = [] then hasBody else \<not> safeMethod method)"

definition ghWriteVerbs :: "(gostr \<times> gostr list) list" where
  "ghWriteVerbs =
     [(''pr'', [''create'', ''close'', ''comment'', ''edit'', ''merge'', ''ready'', ''reopen'', ''review'']),
      (''issue'', [''create'', ''close'', ''comment'', ''delete'', ''edit'', ''reopen'', ''transfer'',
                    ''pin'', ''unpin'', ''lock'', ''unlock'']),
      (''repo'', [''create'', ''delete'', ''archive'', ''edit'', ''fork'', ''rename'', ''sync'']),
      (''release'', [''create'', ''delete'', ''edit'', ''upload'']),
      (''workflow'', [''run'', ''enable'', ''disable'']),
      (''run'', [''cancel'', ''delete'', ''rerun'']),
      (''secret'', [''set'', ''delete'']),
      (''variable'', [''set'', ''delete'']),
      (''label'', [''create'', ''delete'', ''edit'', ''clone'']),
      (''gist'', [''create'', ''delete'', ''edit'']),
      (''ssh-key'', [''add'', ''delete'']),
      (''gpg-key'', [''add'', ''delete'']),
      (''cache'', [''delete'']),
      (''auth'', [''login'', ''logout'', ''refresh'', ''setup-git'', ''switch'']),
      (''alias'', [''set'', ''delete'']),
      (''config'', [''set'', ''clear'']),
      (''extension'', [''install'', ''remove'', ''upgrade'', ''create''])]"

definition ghCommandHighRisk :: "gostr list \<Rightarrow> bool" where
  "ghCommandHighRisk args =
     (let (group, rest) = ghCommandGroup args in
      if group = ''api'' then ghAPICommandHighRisk rest
      else
        (case map_of ghWriteVerbs group of
           Some verbs \<Rightarrow> containsAny rest verbs
         | None \<Rightarrow>
             if oneOf group [''project'', ''codespace'']
             then \<not> containsAny rest [''list'', ''view'', ''status'', ''logs'']
             else False))"

fun httpCommandHighRisk :: "gostr list \<Rightarrow> bool" where
  "httpCommandHighRisk [] = False"
| "httpCommandHighRisk (arg # rest) =
     (if oneOf (ToUpper arg) [''POST'', ''PUT'', ''PATCH'', ''DELETE'', ''CONNECT'', ''PURGE'', ''LOCK'', ''UNLOCK'']
      then True
      else if ToLower arg = ''--raw'' \<or> ToLower arg = ''--form'' \<or> HasPrefix (ToLower arg) ''--raw=''
      then True
      else if HasPrefix arg ''-'' \<or> Contains arg ''://'' then httpCommandHighRisk rest
      else if Contains arg ''=='' \<and> \<not> Contains arg '':='' \<and> \<not> Contains arg ''@''
      then httpCommandHighRisk rest
      else if Contains arg ''='' \<or> Contains arg ''@'' then True
      else httpCommandHighRisk rest)"

subsection \<open>Commands\<close>

definition highRiskBases :: "gostr list" where
  "highRiskBases =
     [''rm'', ''rmdir'', ''unlink'', ''shred'', ''dd'', ''mkfs'', ''chmod'', ''chown'',
      ''docker'', ''kubectl'', ''terraform'',
      ''remove-item'', ''clear-content'', ''set-content'', ''add-content'', ''move-item'',
      ''copy-item'', ''new-item'', ''rename-item'', ''invoke-restmethod'', ''invoke-webrequest'',
      ''start-process'', ''stop-process'', ''restart-computer'', ''stop-computer'',
      ''format-volume'', ''clear-disk'', ''initialize-disk'', ''powershell'', ''powershell.exe'',
      ''pwsh'', ''pwsh.exe'', ''cmd'', ''cmd.exe'', ''del'', ''erase'', ''rd'', ''format'', ''diskpart'']"

definition remoteBases :: "gostr list" where
  "remoteBases =
     [''aws'', ''gcloud'', ''az'', ''oci'', ''doctl'', ''heroku'', ''vercel'', ''netlify'', ''flyctl'',
      ''railway'', ''firebase'', ''wrangler'', ''cloudflared'', ''ssh'', ''scp'', ''sftp'', ''rsync'',
      ''psql'', ''mysql'', ''redis-cli'', ''mongosh'']"

text \<open>The package managers and build tools of the switch (from \<open>npm\<close> on).\<close>

definition packageCommandHighRisk :: "gostr \<Rightarrow> gostr list \<Rightarrow> bool" where
  "packageCommandHighRisk base args =
     (if base = ''npm'' then
        containsAny args [''publish'', ''unpublish'', ''link'', ''unlink'', ''config''] \<or> hasGlobalFlag args
      else if base = ''pnpm'' then
        containsAny args [''publish'', ''deploy'', ''link'', ''unlink'', ''setup''] \<or> hasGlobalFlag args
        \<or> containsAny args [''env''] \<and> containsAny args [''use'', ''remove''] \<and> containsAny args [''--global'']
      else if base = ''yarn'' then
        containsAny args [''publish'', ''link'', ''unlink''] \<or> hasGlobalFlag args
        \<or> containsAny args [''global''] \<and> containsAny args [''add'', ''remove'', ''upgrade'']
      else if oneOf base [''pip'', ''pip3'', ''pipx''] then
        containsAny args [''install'', ''uninstall'', ''inject'', ''upgrade'']
      else if oneOf base [''brew'', ''apt'', ''apt-get'', ''dnf'', ''yum'', ''apk'', ''pacman''] then
        containsAny args [''install'', ''add'', ''remove'', ''uninstall'', ''upgrade'', ''update'']
      else if base = ''go'' then
        (if containsAny args [''install'', ''clean''] then True
         else if containsAny args [''env''] \<and> containsAny args [''-w'', ''-u''] then True
         else False)
      else if base = ''cargo'' then
        containsAny args [''install'', ''uninstall'', ''publish'', ''yank'', ''login'', ''logout'']
      else if base = ''composer'' then
        containsAny args [''config''] \<and> hasGlobalFlag args
        \<or> containsAny args [''global'']
          \<and> containsAny args [''require'', ''remove'', ''update'', ''install'', ''config'', ''exec'']
      else if base = ''poetry'' then containsAny args [''publish'', ''config'', ''self'']
      else if base = ''uv'' then containsAny args [''publish'', ''tool'']
      else if base = ''dotnet'' then containsAny args [''push'', ''delete''] \<or> hasGlobalFlag args
      else if oneOf base [''gem'', ''bundle'', ''bundler''] then
        containsAny args [''install'', ''uninstall'', ''update'', ''add'', ''remove'', ''push'', ''yank'', ''publish'']
      else False)"

text \<open>The cases of the switch that do not unwrap another command.\<close>

definition plainCommandHighRisk :: "gostr \<Rightarrow> gostr list \<Rightarrow> bool" where
  "plainCommandHighRisk base rawArgs =
     (let args = lowerFields rawArgs in
      if oneOf base highRiskBases then True
      else if base = ''find'' then
        containsAny args [''-delete'', ''-exec'', ''-execdir'', ''-ok'', ''-okdir'']
      else if base = ''git'' then gitCommandHighRisk args
      else if base = ''curl'' then curlCommandHighRisk rawArgs
      else if base = ''wget'' then wgetCommandHighRisk args
      else if base = ''gh'' then ghCommandHighRisk args
      else if oneOf base [''http'', ''https'', ''xh''] then httpCommandHighRisk args
      else if oneOf base remoteBases then True
      else packageCommandHighRisk base args)"

function commandFieldsHighRisk :: "gostr list \<Rightarrow> bool" where
  "commandFieldsHighRisk [] = True"
| "commandFieldsHighRisk (f # rawArgs) =
     (let base = ToLower (FilepathBase f) in
      if oneOf base [''sudo'', ''doas'', ''pkexec'', ''xargs''] then True
      else if base = ''env'' then
        (case unwrapEnvCommand rawArgs of
           None \<Rightarrow> True | Some wrapped \<Rightarrow> commandFieldsHighRisk wrapped)
      else if base = ''command'' then
        (case unwrapCommandBuiltin rawArgs of
           None \<Rightarrow> True
         | Some wrapped \<Rightarrow> if wrapped \<noteq> [] then commandFieldsHighRisk wrapped else False)
      else if base = ''nohup'' then commandFieldsHighRisk (trimLeadingOptions rawArgs)
      else plainCommandHighRisk base rawArgs)"
  by pat_completeness auto
termination
  by (relation "measure length")
     (auto simp: less_Suc_eq_le length_unwrapEnvCommand length_unwrapCommandBuiltin
        length_trimLeadingOptions)

declare commandFieldsHighRisk.simps(2) [simp del]

definition packageCommandSafe :: "gostr \<Rightarrow> gostr list \<Rightarrow> bool option" where
  "packageCommandSafe base args =
     (if base = ''npm'' then
        Some (containsAny args [''install'', ''add'', ''remove'', ''uninstall'', ''update'', ''dedupe'']
              \<and> \<not> hasGlobalFlag args)
      else if base = ''pnpm'' then
        Some (containsAny args [''install'', ''add'', ''remove'', ''update'', ''dedupe'', ''import'']
              \<and> \<not> hasGlobalFlag args)
      else if base = ''yarn'' then
        Some (containsAny args [''install'', ''add'', ''remove'', ''up'', ''upgrade'', ''dedupe'']
              \<and> \<not> hasGlobalFlag args \<and> \<not> containsAny args [''global''])
      else if base = ''go'' then
        Some (containsAny args [''get'', ''mod'', ''work'', ''fmt'', ''build'', ''test'']
              \<and> \<not> containsAny args [''install'', ''clean''])
      else if base = ''cargo'' then
        Some (containsAny args [''add'', ''remove'', ''update'', ''build'', ''check'', ''test'', ''fmt'',
                                ''fix'', ''clippy''])
      else if base = ''composer'' then
        Some (containsAny args [''require'', ''remove'', ''update'', ''install'', ''dump-autoload'']
              \<and> \<not> hasGlobalFlag args \<and> \<not> containsAny args [''global''])
      else if base = ''poetry'' then
        Some (containsAny args [''add'', ''remove'', ''install'', ''update'', ''lock'', ''sync''])
      else if base = ''uv'' then Some (containsAny args [''add'', ''remove'', ''sync'', ''lock''])
      else if base = ''dotnet'' then
        Some (containsAny args [''add'', ''remove'', ''restore'', ''build'', ''test'', ''format'']
              \<and> \<not> hasGlobalFlag args)
      else None)"

definition editingBases :: "gostr list" where
  "editingBases =
     [''sed'', ''gofmt'', ''goimports'', ''rustfmt'', ''prettier'', ''biome'', ''eslint'', ''black'',
      ''ruff'', ''cp'', ''mv'', ''mkdir'', ''touch'', ''ln'']"

definition plainCommandKnownSafe :: "shell_lib \<Rightarrow> gostr \<Rightarrow> gostr \<Rightarrow> gostr list \<Rightarrow> bool" where
  "plainCommandKnownSafe sh base f rawArgs =
     (let args = lowerFields rawArgs in
      if base = ''git'' then gitCommandKnownSafe args
      else if base = ''curl'' then \<not> curlCommandHighRisk rawArgs
      else if base = ''wget'' then \<not> wgetCommandHighRisk args
      else if base = ''gh'' then \<not> ghCommandHighRisk args
      else if oneOf base [''http'', ''https'', ''xh''] then \<not> httpCommandHighRisk args
      else if oneOf base editingBases then True
      else
        (case packageCommandSafe base args of
           Some safe \<Rightarrow> safe
         | None \<Rightarrow> CommandIsReadOnly sh (Join (f # rawArgs) '' '') \<noteq> None))"

function commandFieldsKnownSafeMutation :: "shell_lib \<Rightarrow> gostr list \<Rightarrow> bool" where
  "commandFieldsKnownSafeMutation sh [] = False"
| "commandFieldsKnownSafeMutation sh (f # rawArgs) =
     (if commandFieldsHighRisk (f # rawArgs) then False
      else
        (let base = ToLower (FilepathBase f) in
         if base = ''env'' then
           (case unwrapEnvCommand rawArgs of
              None \<Rightarrow> False | Some wrapped \<Rightarrow> commandFieldsKnownSafeMutation sh wrapped)
         else if base = ''command'' then
           (case unwrapCommandBuiltin rawArgs of
              None \<Rightarrow> False
            | Some wrapped \<Rightarrow>
                if wrapped = [] then True else commandFieldsKnownSafeMutation sh wrapped)
         else if base = ''nohup'' then
           (if trimLeadingOptions rawArgs \<noteq> []
            then commandFieldsKnownSafeMutation sh (trimLeadingOptions rawArgs) else False)
         else plainCommandKnownSafe sh base f rawArgs))"
  by pat_completeness auto
termination
  by (relation "measure (length o snd)")
     (auto simp: less_Suc_eq_le length_unwrapEnvCommand length_unwrapCommandBuiltin
        length_trimLeadingOptions)

declare commandFieldsKnownSafeMutation.simps(2) [simp del]

subsection \<open>Task grants\<close>

record taskGrantBoundary =
  tg_key :: gostr
  tg_display :: gostr

definition noGrant :: taskGrantBoundary where
  "noGrant = \<lparr>tg_key = [], tg_display = []\<rparr>"

fun pushPositionals :: "gostr list \<Rightarrow> gostr list option" where
  "pushPositionals [] = Some []"
| "pushPositionals (a # rest) =
     (let arg = ToLower (TrimSpace a) in
      if oneOf arg [''-u'', ''--set-upstream'', ''-q'', ''--quiet'', ''-v'', ''--verbose'',
                    ''--progress'', ''--no-progress''] then pushPositionals rest
      else if HasPrefix arg ''-'' then None
      else map_option (\<lambda>ps. TrimSpace a # ps) (pushPositionals rest))"

text \<open>The refspec's target, \<open>None\<close> where it is not a single explicit ref.\<close>

definition pushTarget :: "gostr \<Rightarrow> gostr option" where
  "pushTarget refspec =
     (case Cut refspec (CHR '':'') of
        None \<Rightarrow> if refspec = ''HEAD'' \<or> refspec = ''@'' then None else Some refspec
      | Some (before, after) \<Rightarrow>
          if TrimSpace before = [] \<or> TrimSpace after = [] then None
          else if TrimSpace after = ''HEAD'' \<or> TrimSpace after = ''@'' then None
          else Some (TrimSpace after))"

definition arrow :: gostr where
  "arrow = [CHR 0xE2, CHR 0x86, CHR 0x92]"

definition gitPushTaskGrantBoundary :: "digest_lib \<Rightarrow> gostr list \<Rightarrow> taskGrantBoundary" where
  "gitPushTaskGrantBoundary dl args =
     (let lower = lowerFields args in
      if gitSubcommand lower \<noteq> ''push''
         \<or> containsAny lower [''-f'', ''--force'', ''--mirror'', ''--delete'', ''--prune'', ''--all'',
                              ''--tags'', ''--follow-tags''] then noGrant
      else if list_ex (\<lambda>arg. HasPrefix arg ''--force'' \<or> HasPrefix arg '':'' \<or> HasPrefix arg ''+'') lower
      then noGrant
      else if lower = [] \<or> hd lower \<noteq> ''push'' then noGrant
      else
        (case pushPositionals (tl args) of
           Some [remote, refspec] \<Rightarrow>
             if remote = [] \<or> refspec = [] \<or> Contains refspec ''*'' then noGrant
             else
               (case pushTarget refspec of
                  None \<Rightarrow> noGrant
                | Some target \<Rightarrow>
                    \<lparr>tg_key = ''bash:git.push:'' @ CallFingerprint dl ''git.push'' remote target RawEmpty,
                     tg_display = ''git push '' @ remote @ '' '' @ arrow @ '' '' @ target\<rparr>)
         | _ \<Rightarrow> noGrant))"

fun ghRepo :: "gostr list \<Rightarrow> gostr \<Rightarrow> gostr" where
  "ghRepo [] repo = repo"
| "ghRepo (a # rest) repo =
     (let arg = ToLower (TrimSpace a) in
      if (arg = ''--repo'' \<or> arg = ''-r'') \<and> rest \<noteq> [] then ghRepo rest (hd rest)
      else if HasPrefix arg ''--repo='' then ghRepo rest (TrimSpace (drop (length ''--repo='') a))
      else if HasPrefix arg ''-r'' \<and> 2 < length arg then ghRepo rest (TrimSpace (drop 2 a))
      else ghRepo rest repo)"

definition ghTaskGrantBoundary :: "digest_lib \<Rightarrow> gostr list \<Rightarrow> taskGrantBoundary" where
  "ghTaskGrantBoundary dl args =
     (let lower = lowerFields args; (group, rest) = ghCommandGroup lower in
      if rest = [] then noGrant
      else if group \<noteq> ''pr'' \<and> group \<noteq> ''issue'' \<or> hd rest \<noteq> ''comment'' then noGrant
      else if containsAny lower [''--edit-last'', ''--delete-last''] then noGrant
      else
        (case tl rest of
           [] \<Rightarrow> noGrant
         | target0 # _ \<Rightarrow>
             if HasPrefix target0 ''-'' then noGrant
             else if target0 = ''current'' then noGrant
             else
               (let repo = TrimSpace (ghRepo args ''current''); target = TrimSpace target0;
                    display = ''gh '' @ group @ '' comment '' @ target
                in \<lparr>tg_key = ''bash:gh.'' @ group @ ''.comment:''
                      @ CallFingerprint dl (''gh.'' @ group @ ''.comment'') repo target RawEmpty,
                    tg_display =
                      (if repo \<noteq> ''current'' then display @ '' --repo '' @ repo else display)\<rparr>)))"

function commandFieldsTaskGrantBoundary :: "digest_lib \<Rightarrow> gostr list \<Rightarrow> taskGrantBoundary" where
  "commandFieldsTaskGrantBoundary dl [] = noGrant"
| "commandFieldsTaskGrantBoundary dl (f # rawArgs) =
     (let base = ToLower (FilepathBase f) in
      if base = ''env'' then
        (case unwrapEnvCommand rawArgs of
           None \<Rightarrow> noGrant | Some wrapped \<Rightarrow> commandFieldsTaskGrantBoundary dl wrapped)
      else if base = ''command'' then
        (case unwrapCommandBuiltin rawArgs of
           None \<Rightarrow> noGrant | Some wrapped \<Rightarrow> commandFieldsTaskGrantBoundary dl wrapped)
      else if base = ''git'' then gitPushTaskGrantBoundary dl rawArgs
      else if base = ''gh'' then ghTaskGrantBoundary dl rawArgs
      else noGrant)"
  by pat_completeness auto
termination
  by (relation "measure (length o snd)")
     (auto simp: less_Suc_eq_le length_unwrapEnvCommand length_unwrapCommandBuiltin)

declare commandFieldsTaskGrantBoundary.simps(2) [simp del]

subsection \<open>Proposals\<close>

record riskBoundary =
  rb_highRisk :: bool
  rb_taskGrantKey :: gostr
  rb_taskGrantDisplay :: gostr

definition noRisk :: riskBoundary where
  "noRisk = \<lparr>rb_highRisk = False, rb_taskGrantKey = [], rb_taskGrantDisplay = []\<rparr>"

definition onlyHighRisk :: riskBoundary where
  "onlyHighRisk = \<lparr>rb_highRisk = True, rb_taskGrantKey = [], rb_taskGrantDisplay = []\<rparr>"

definition riskMarkers :: "gostr list" where
  "riskMarkers =
     [''rm -'', ''rmdir'', ''unlink '', ''shred '', ''git reset --hard'', ''git clean'',
      ''chmod '', ''chown '', ''mkfs'', ''dd if='', ''> /'', ''>> /'']"

text \<open>\<open>single\<close> tells whether the command has exactly one segment.\<close>

fun boundaryLoop :: "shell_lib \<Rightarrow> digest_lib \<Rightarrow> bool \<Rightarrow> bool \<Rightarrow> gostr list \<Rightarrow> riskBoundary" where
  "boundaryLoop sh dl enforce single [] = noRisk"
| "boundaryLoop sh dl enforce single (segment # segs) =
     (let (fs, malformed) = StaticFields sh segment in
      if malformed \<noteq> [] \<or> fs = [] then onlyHighRisk
      else if commandFieldsHighRisk fs then
        (let grant = (if single then commandFieldsTaskGrantBoundary dl fs else noGrant)
         in \<lparr>rb_highRisk = True, rb_taskGrantKey = tg_key grant,
             rb_taskGrantDisplay = tg_display grant\<rparr>)
      else if enforce \<and> \<not> commandFieldsKnownSafeMutation sh fs then onlyHighRisk
      else boundaryLoop sh dl enforce single segs)"

definition bashRiskBoundary :: "shell_lib \<Rightarrow> digest_lib \<Rightarrow> gostr \<Rightarrow> bool \<Rightarrow> riskBoundary" where
  "bashRiskBoundary sh dl command0 enforce =
     (let command = TrimSpace command0 in
      if command = [] then onlyHighRisk
      else if list_ex (Contains (ToLower command)) riskMarkers then onlyHighRisk
      else
        (case SplitTopLevel sh command of
           None \<Rightarrow> onlyHighRisk
         | Some (segs, _) \<Rightarrow> boundaryLoop sh dl enforce (length segs = 1) segs))"

definition riskBoundaryForProposal :: "shell_lib \<Rightarrow> digest_lib \<Rightarrow> Proposal \<Rightarrow> riskBoundary" where
  "riskBoundaryForProposal sh dl proposal =
     (if pr_HighRisk proposal then onlyHighRisk
      else
        (let tool = TrimSpace (pr_Tool proposal) in
         if HasPrefix tool ''mcp__'' \<or> Contains tool ''mcp'' then noRisk
         else if tool = ''bash'' then
           bashRiskBoundary sh dl (commandFromArgs (pr_Args proposal))
             (pr_Mutates proposal \<and> \<not> pr_Verification proposal)
         else noRisk))"

definition IsHighRiskMutation :: "shell_lib \<Rightarrow> digest_lib \<Rightarrow> Proposal \<Rightarrow> bool" where
  "IsHighRiskMutation sh dl proposal = rb_highRisk (riskBoundaryForProposal sh dl proposal)"

definition TaskGrantKey :: "shell_lib \<Rightarrow> digest_lib \<Rightarrow> Proposal \<Rightarrow> gostr" where
  "TaskGrantKey sh dl proposal = rb_taskGrantKey (riskBoundaryForProposal sh dl proposal)"

end
