(* ===== verification/Recovery_Decide.thy ===== *)
theory Recovery_Decide imports Recovery_State begin

text \<open>
  The pure decision engine of Auto Guard (\<open>decision.go\<close>): from the facts the host observed
  about a proposal to a route. The second half states the engine as a table of guarded
  rules, read top down, and proves the code equal to it.
\<close>

datatype Route = RouteBypass | RouteAllow | RouteReview | RouteStop | RouteStopTurn

fun routeString :: "Route \<Rightarrow> gostr" where
  "routeString RouteBypass = ''bypass''"
| "routeString RouteAllow = ''allow''"
| "routeString RouteReview = ''review''"
| "routeString RouteStop = ''stop''"
| "routeString RouteStopTurn = ''stop_turn''"

record Facts =
  f_AutoMode :: bool
  f_ReadOnly :: bool
  f_Mutates :: bool
  f_Verification :: bool
  f_HighRisk :: bool
  f_PlanTransition :: bool
  f_HasActiveFailure :: bool
  f_SameFailedOperation :: bool
  f_ExpandedScope :: bool
  f_StrategyChanged :: bool
  f_SafeRetryAvailable :: bool
  f_FailureCount :: u8
  f_EpisodeFailureCount :: u8
  f_ReviewRejects :: u8
  f_OperationAlreadyStopped :: bool
  f_EpisodeStopped :: bool
  f_StopReason :: StopReason

record DecisionResult =
  dr_Route :: Route
  dr_ConsumeSafeRetry :: bool
  dr_StopReason :: StopReason

definition routed :: "Route \<Rightarrow> DecisionResult" where
  "routed r = \<lparr>dr_Route = r, dr_ConsumeSafeRetry = False, dr_StopReason = StopReasonNone\<rparr>"

definition Decide :: "Facts \<Rightarrow> DecisionResult" where
  "Decide f =
     (if \<not> f_AutoMode f then routed RouteBypass
      else if f_EpisodeStopped f then
        (if f_ReadOnly f \<and> \<not> f_Mutates f \<and> \<not> f_Verification f \<and> \<not> f_PlanTransition f
         then routed RouteAllow
         else
           (routed RouteStopTurn)\<lparr>dr_StopReason :=
              (if f_StopReason f = StopReasonNone then StopReasonEpisodeFailures
               else f_StopReason f)\<rparr>)
      else if f_PlanTransition f then routed RouteReview
      else if f_ReadOnly f \<and> \<not> f_Mutates f then routed RouteAllow
      else if \<not> f_Mutates f \<and> \<not> f_Verification f then routed RouteAllow
      else if \<not> f_HasActiveFailure f then routed RouteAllow
      else if f_SafeRetryAvailable f then (routed RouteAllow)\<lparr>dr_ConsumeSafeRetry := True\<rparr>
      else if \<not> f_SameFailedOperation f then routed RouteAllow
      else if f_OperationAlreadyStopped f \<and> f_SameFailedOperation f then
        (routed RouteStop)\<lparr>dr_StopReason := StopReasonOperationFailures\<rparr>
      else if MaxOperationFailures \<le> unat (f_FailureCount f) \<and> f_SameFailedOperation f then
        (routed RouteStop)\<lparr>dr_StopReason := StopReasonOperationFailures\<rparr>
      else routed RouteReview)"

subsection \<open>The policy\<close>

text \<open>
  What the product promises, without an order of tests: which proposals count as
  execution, when a repeat of the failed operation is spent, and the five outcomes.
\<close>

definition executes :: "Facts \<Rightarrow> bool" where
  "executes f \<longleftrightarrow> f_Mutates f \<or> f_Verification f \<and> \<not> f_ReadOnly f"

definition diagnosis_only :: "Facts \<Rightarrow> bool" where
  "diagnosis_only f \<longleftrightarrow> f_ReadOnly f \<and> \<not> f_Mutates f \<and> \<not> f_Verification f \<and> \<not> f_PlanTransition f"

definition repeats_failure :: "Facts \<Rightarrow> bool" where
  "repeats_failure f \<longleftrightarrow>
     executes f \<and> \<not> f_PlanTransition f \<and> f_HasActiveFailure f \<and> f_SameFailedOperation f
     \<and> \<not> f_SafeRetryAvailable f"

definition spent :: "Facts \<Rightarrow> bool" where
  "spent f \<longleftrightarrow> f_OperationAlreadyStopped f \<or> 3 \<le> unat (f_FailureCount f)"

definition policy_route :: "Facts \<Rightarrow> Route \<Rightarrow> bool" where
  "policy_route f r =
     (case r of
        RouteBypass \<Rightarrow> \<not> f_AutoMode f
      | RouteStopTurn \<Rightarrow> f_AutoMode f \<and> f_EpisodeStopped f \<and> \<not> diagnosis_only f
      | RouteStop \<Rightarrow> f_AutoMode f \<and> \<not> f_EpisodeStopped f \<and> repeats_failure f \<and> spent f
      | RouteReview \<Rightarrow>
          f_AutoMode f \<and> \<not> f_EpisodeStopped f
          \<and> (f_PlanTransition f \<or> repeats_failure f \<and> \<not> spent f)
      | RouteAllow \<Rightarrow>
          f_AutoMode f
          \<and> (if f_EpisodeStopped f then diagnosis_only f
             else \<not> f_PlanTransition f \<and> \<not> repeats_failure f))"

lemma Decide_policy: "dr_Route (Decide f) = r \<longleftrightarrow> policy_route f r"
  by (cases r)
     (auto simp: Decide_def routed_def policy_route_def executes_def diagnosis_only_def
        repeats_failure_def spent_def MaxOperationFailures_def)

lemma Decide_consumes:
  "dr_ConsumeSafeRetry (Decide f) \<longleftrightarrow>
     f_AutoMode f \<and> \<not> f_EpisodeStopped f \<and> \<not> f_PlanTransition f \<and> executes f
     \<and> f_HasActiveFailure f \<and> f_SafeRetryAvailable f"
  by (auto simp: Decide_def routed_def executes_def)

lemma Decide_bypass: "\<not> f_AutoMode f \<Longrightarrow> Decide f = routed RouteBypass"
  by (simp add: Decide_def)

lemma Decide_stop_reason:
  "dr_Route (Decide f) = RouteStop \<Longrightarrow> dr_StopReason (Decide f) = StopReasonOperationFailures"
  "dr_Route (Decide f) = RouteStopTurn \<Longrightarrow> dr_StopReason (Decide f) \<noteq> StopReasonNone"
  by (auto simp: Decide_def routed_def split: if_splits)

end
