(* ===== verification/Recovery_Persist.thy ===== *)
theory Recovery_Persist imports Recovery_Types begin

text \<open>
  The write-behind of Auto Guard's state (\<open>schedulePersist\<close> and \<open>FlushPersistence\<close> in
  \<open>gate.go\<close>): every scheduled snapshot gets a sequence number and is written at once or by
  a goroutine that runs later, in any order. \<open>ps_writes\<close> are the goroutines that have not
  run, \<open>ps_disk\<close> is what the \<open>Persist\<close> callback wrote last for each session key. The
  sequence number is a \<open>uint64\<close> in Go and a natural number here.
\<close>

record 's persister =
  ps_seq :: nat
  ps_pending :: "nat gomap"
  ps_done :: "nat gomap"
  ps_writes :: "(gostr \<times> nat \<times> 's) list"
  ps_disk :: "'s gomap"

definition newPersister :: "'s persister" where
  "newPersister = \<lparr>ps_seq = 0, ps_pending = [], ps_done = [], ps_writes = [], ps_disk = []\<rparr>"

definition counterAt :: "nat gomap \<Rightarrow> gostr \<Rightarrow> nat" where
  "counterAt m k = (case map_of m k of None \<Rightarrow> 0 | Some n \<Rightarrow> n)"

definition persistWrite :: "gostr \<Rightarrow> nat \<Rightarrow> 's \<Rightarrow> 's persister \<Rightarrow> 's persister" where
  "persistWrite key seq snap ps =
     (let ps1 =
        (if seq < counterAt (ps_done ps) key then ps
         else ps\<lparr>ps_disk := AList.update key snap (ps_disk ps),
                 ps_done := AList.update key seq (ps_done ps)\<rparr>);
          n = counterAt (ps_pending ps1) key - 1
      in if n = 0
         then ps1\<lparr>ps_pending := AList.delete key (ps_pending ps1),
                  ps_done := AList.delete key (ps_done ps1)\<rparr>
         else ps1\<lparr>ps_pending := AList.update key n (ps_pending ps1)\<rparr>)"

definition schedulePersist :: "gostr \<Rightarrow> 's \<Rightarrow> bool \<Rightarrow> 's persister \<Rightarrow> 's persister" where
  "schedulePersist key snap async ps =
     (let seq = ps_seq ps + 1;
          ps1 = ps\<lparr>ps_seq := seq,
                   ps_pending := AList.update key (counterAt (ps_pending ps) key + 1) (ps_pending ps)\<rparr>
      in if async then ps1\<lparr>ps_writes := ps_writes ps1 @ [(key, seq, snap)]\<rparr>
         else persistWrite key seq snap ps1)"

text \<open>The goroutine at a position of \<open>ps_writes\<close> runs.\<close>

definition runWrite :: "nat \<Rightarrow> 's persister \<Rightarrow> 's persister" where
  "runWrite i ps =
     (if i < length (ps_writes ps) then
        (case ps_writes ps ! i of
           (key, seq, snap) \<Rightarrow>
             persistWrite key seq snap
               (ps\<lparr>ps_writes := take i (ps_writes ps) @ drop (Suc i) (ps_writes ps)\<rparr>))
      else ps)"

text \<open>\<open>FlushPersistence\<close> waits on the condition variable until this holds.\<close>

definition FlushPersistence :: "gostr \<Rightarrow> 's persister \<Rightarrow> bool" where
  "FlushPersistence key ps \<longleftrightarrow> \<not> 0 < counterAt (ps_pending ps) key"

subsection \<open>Runs\<close>

datatype 's persist_event = Schedule gostr 's bool | RunWrite nat

fun persist_step :: "'s persist_event \<Rightarrow> 's persister \<Rightarrow> 's persister" where
  "persist_step (Schedule key snap async) ps = schedulePersist key snap async ps"
| "persist_step (RunWrite i) ps = runWrite i ps"

definition persist_run :: "'s persist_event list \<Rightarrow> 's persister" where
  "persist_run evs = fold persist_step evs newPersister"

fun last_scheduled :: "gostr \<Rightarrow> 's persist_event list \<Rightarrow> 's option" where
  "last_scheduled key [] = None"
| "last_scheduled key (e # evs) =
     (case last_scheduled key evs of
        Some s \<Rightarrow> Some s
      | None \<Rightarrow> (case e of Schedule k s _ \<Rightarrow> if k = key then Some s else None | _ \<Rightarrow> None))"

lemma last_scheduled_snoc:
  "last_scheduled key (evs @ [e]) =
     (case e of Schedule k s _ \<Rightarrow> if k = key then Some s else last_scheduled key evs
      | RunWrite i \<Rightarrow> last_scheduled key evs)"
  by (induction evs) (auto split: persist_event.splits option.splits)

lemma persist_run_snoc: "persist_run (evs @ [e]) = persist_step e (persist_run evs)"
  by (simp add: persist_run_def)

subsection \<open>The invariant of one key\<close>

definition outstanding :: "gostr \<Rightarrow> 's persister \<Rightarrow> (gostr \<times> nat \<times> 's) list" where
  "outstanding key ps = filter (\<lambda>w. fst w = key) (ps_writes ps)"

text \<open>
  \<open>(m, s)\<close> is the newest snapshot scheduled for the key: it is still to be written and
  newer than anything else, or it is on disk and protected from the older writes.
\<close>

definition newest_safe :: "gostr \<Rightarrow> nat \<Rightarrow> 's \<Rightarrow> 's persister \<Rightarrow> bool" where
  "newest_safe key m s ps \<longleftrightarrow>
     (\<forall>w \<in> set (outstanding key ps). fst (snd w) \<le> m)
     \<and> ((key, m, s) \<in> set (outstanding key ps) \<and> counterAt (ps_done ps) key < m
          \<and> (\<forall>w \<in> set (outstanding key ps). fst (snd w) = m \<longrightarrow> w = (key, m, s))
        \<or> map_of (ps_disk ps) key = Some s
          \<and> (\<forall>w \<in> set (outstanding key ps). fst (snd w) < m)
          \<and> (outstanding key ps = [] \<or> counterAt (ps_done ps) key = m))"

definition persist_inv :: "gostr \<Rightarrow> 's option \<Rightarrow> 's persister \<Rightarrow> bool" where
  "persist_inv key newest ps \<longleftrightarrow>
     counterAt (ps_pending ps) key = length (outstanding key ps)
     \<and> distinct (map (\<lambda>w. fst (snd w)) (ps_writes ps))
     \<and> (\<forall>w \<in> set (ps_writes ps). fst (snd w) \<le> ps_seq ps)
     \<and> counterAt (ps_done ps) key \<le> ps_seq ps
     \<and> (case newest of
          None \<Rightarrow> outstanding key ps = [] \<and> map_of (ps_disk ps) key = None
        | Some s \<Rightarrow> \<exists>m \<le> ps_seq ps. newest_safe key m s ps)"

lemma counterAt_simps [simp]:
  "counterAt (AList.update k v m) k = v"
  "counterAt (AList.delete k m) k = 0"
  "j \<noteq> k \<Longrightarrow> counterAt (AList.update k v m) j = counterAt m j"
  "j \<noteq> k \<Longrightarrow> counterAt (AList.delete k m) j = counterAt m j"
  by (simp_all add: counterAt_def AList.update_conv' AList.delete_conv')

lemma persistWrite_frame [simp, frame_simps]:
  "ps_writes (persistWrite k q s ps) = ps_writes ps"
  "ps_seq (persistWrite k q s ps) = ps_seq ps"
  "outstanding key (persistWrite k q s ps) = outstanding key ps"
  by (simp_all add: persistWrite_def Let_def outstanding_def)

lemma persistWrite_other:
  assumes "key \<noteq> k"
  shows "counterAt (ps_pending (persistWrite k q s ps)) key = counterAt (ps_pending ps) key"
    and "counterAt (ps_done (persistWrite k q s ps)) key = counterAt (ps_done ps) key"
    and "map_of (ps_disk (persistWrite k q s ps)) key = map_of (ps_disk ps) key"
  using assms by (simp_all add: persistWrite_def Let_def AList.update_conv')

lemma persistWrite_same:
  "counterAt (ps_pending (persistWrite k q s ps)) k = counterAt (ps_pending ps) k - 1"
  "map_of (ps_disk (persistWrite k q s ps)) k =
     (if q < counterAt (ps_done ps) k then map_of (ps_disk ps) k else Some s)"
  "counterAt (ps_done (persistWrite k q s ps)) k =
     (if counterAt (ps_pending ps) k - 1 = 0 then 0
      else if q < counterAt (ps_done ps) k then counterAt (ps_done ps) k else q)"
  by (simp_all add: persistWrite_def Let_def AList.update_conv')

lemma schedulePersist_sync:
  "schedulePersist key snap False ps = runWrite (length (ps_writes ps)) (schedulePersist key snap True ps)"
  by (simp add: schedulePersist_def runWrite_def Let_def)

lemma newest_safe_run:
  assumes inv: "newest_safe key m s ps0" and ps0: "ps0 = ps\<lparr>ps_writes := a @ (key, q, t) # b\<rparr>"
    and dist: "distinct (map (\<lambda>w. fst (snd w)) (ps_writes ps0))"
    and pend: "counterAt (ps_pending ps0) key = length (outstanding key ps0)"
  shows "newest_safe key m s (persistWrite key q t (ps\<lparr>ps_writes := a @ b\<rparr>))"
proof -
  let ?out = "outstanding key (ps\<lparr>ps_writes := a @ b\<rparr>)"
  have set0: "set (outstanding key ps0) = insert (key, q, t) (set ?out)"
    and len: "length (outstanding key ps0) = Suc (length ?out)"
    by (auto simp: ps0 outstanding_def)
  have other: "fst (snd w) \<noteq> q" if "w \<in> set ?out" for w
    using dist that by (auto simp: ps0 outstanding_def)
  have pend': "counterAt (ps_pending ps) key = Suc (length ?out)" using pend len by (simp add: ps0)
  consider (waiting) "(key, m, s) \<in> insert (key, q, t) (set ?out)" "counterAt (ps_done ps) key < m"
      "\<forall>w \<in> insert (key, q, t) (set ?out). fst (snd w) = m \<longrightarrow> w = (key, m, s)"
    | (written) "map_of (ps_disk ps) key = Some s" "\<forall>w \<in> insert (key, q, t) (set ?out). fst (snd w) < m"
      "counterAt (ps_done ps) key = m"
    using inv unfolding newest_safe_def set0 by (auto simp: ps0 outstanding_def)
  moreover have le: "\<forall>w \<in> insert (key, q, t) (set ?out). fst (snd w) \<le> m"
    using inv unfolding newest_safe_def set0 by blast
  ultimately show ?thesis
  proof cases
    case waiting
    show ?thesis
    proof (cases "q = m")
      case True
      then have "t = s" using waiting(3) by auto
      moreover have "\<forall>w \<in> set ?out. fst (snd w) < m" using le other True by (auto simp: order_less_le)
      ultimately show ?thesis using waiting(2) le True
        by (auto simp: newest_safe_def persistWrite_same pend')
    next
      case False
      then have mem: "(key, m, s) \<in> set ?out" using waiting(1) by auto
      then have "?out \<noteq> []" by auto
      moreover have "q < m" using le False by auto
      ultimately have "counterAt (ps_done (persistWrite key q t (ps\<lparr>ps_writes := a @ b\<rparr>))) key < m"
        using waiting(2) by (simp add: persistWrite_same pend')
      moreover have "\<forall>w \<in> set ?out. fst (snd w) \<le> m" using le by blast
      moreover have "\<forall>w \<in> set ?out. fst (snd w) = m \<longrightarrow> w = (key, m, s)" using waiting(3) by blast
      ultimately show ?thesis unfolding newest_safe_def persistWrite_frame using mem by blast
    qed
  next
    case written
    then show ?thesis using le
      by (auto simp: newest_safe_def persistWrite_same pend')
  qed
qed

lemma persist_inv_run:
  assumes inv: "persist_inv key newest ps"
  shows "persist_inv key newest (runWrite i ps)"
proof (cases "i < length (ps_writes ps)")
  case True
  obtain k q t where w: "ps_writes ps ! i = (k, q, t)" by (cases "ps_writes ps ! i") auto
  define a where "a = take i (ps_writes ps)"
  define b where "b = drop (Suc i) (ps_writes ps)"
  define ps1 where "ps1 = ps\<lparr>ps_writes := a @ b\<rparr>"
  have split: "ps_writes ps = a @ (k, q, t) # b"
    unfolding a_def b_def w [symmetric] by (rule id_take_nth_drop [OF True])
  have ps: "ps = ps1\<lparr>ps_writes := a @ (k, q, t) # b\<rparr>" unfolding ps1_def split [symmetric] by simp
  have run: "runWrite i ps = persistWrite k q t ps1"
    using True w by (simp add: runWrite_def ps1_def a_def b_def)
  have *: "distinct (map (\<lambda>w. fst (snd w)) (a @ b))" "\<forall>w \<in> set (a @ b). fst (snd w) \<le> ps_seq ps"
      "q \<le> ps_seq ps"
    using inv by (auto simp: persist_inv_def split)
  show ?thesis
  proof (cases "k = key")
    case False
    then have "outstanding key ps1 = outstanding key ps"
      by (simp add: ps1_def outstanding_def split)
    then show ?thesis using inv * False unfolding run
      by (auto simp: persist_inv_def newest_safe_def persistWrite_other ps1_def split: option.splits)
  next
    case same: True
    have out: "length (outstanding key ps) = Suc (length (outstanding key ps1))"
      by (simp add: ps1_def outstanding_def split same)
    then obtain s where new: "newest = Some s"
      using inv by (cases newest) (auto simp: persist_inv_def)
    then obtain m where m: "m \<le> ps_seq ps" "newest_safe key m s ps"
      using inv by (auto simp: persist_inv_def)
    have d: "distinct (map (\<lambda>w. fst (snd w)) (ps_writes ps))"
      and c: "counterAt (ps_pending ps) key = length (outstanding key ps)"
      using inv by (simp_all add: persist_inv_def)
    have eq: "ps1\<lparr>ps_writes := a @ b\<rparr> = ps1" by (simp add: ps1_def)
    have "newest_safe key m s (persistWrite key q t ps1)"
      using newest_safe_run [OF m(2) ps [unfolded same] d c] by (simp only: eq)
    moreover have "counterAt (ps_done (persistWrite key q t ps1)) key \<le> ps_seq ps"
      using inv *(3) by (simp add: persistWrite_same persist_inv_def ps1_def)
    moreover have "counterAt (ps_pending (persistWrite key q t ps1)) key = length (outstanding key ps1)"
      using inv out by (simp add: persistWrite_same persist_inv_def ps1_def)
    ultimately show ?thesis using * m(1) new same unfolding run
      by (auto simp: persist_inv_def ps1_def)
  qed
qed (simp add: runWrite_def inv)

lemma schedulePersist_async [simp]:
  "ps_seq (schedulePersist k snap True ps) = Suc (ps_seq ps)"
  "ps_done (schedulePersist k snap True ps) = ps_done ps"
  "ps_disk (schedulePersist k snap True ps) = ps_disk ps"
  "ps_writes (schedulePersist k snap True ps) = ps_writes ps @ [(k, Suc (ps_seq ps), snap)]"
  "counterAt (ps_pending (schedulePersist k snap True ps)) key =
     (if k = key then Suc (counterAt (ps_pending ps) key) else counterAt (ps_pending ps) key)"
  "outstanding key (schedulePersist k snap True ps) =
     (if k = key then outstanding key ps @ [(key, Suc (ps_seq ps), snap)] else outstanding key ps)"
  by (auto simp: schedulePersist_def Let_def outstanding_def)

lemma persist_inv_schedule:
  assumes inv: "persist_inv key newest ps"
  shows "persist_inv key (if k = key then Some snap else newest) (schedulePersist k snap True ps)"
proof -
  have writes: "\<forall>w \<in> set (ps_writes ps). fst (snd w) \<le> ps_seq ps"
    and ps_done: "counterAt (ps_done ps) key \<le> ps_seq ps"
    using inv by (auto simp: persist_inv_def)
  then have out: "\<forall>w \<in> set (outstanding key ps). fst (snd w) < Suc (ps_seq ps)"
    and fresh: "Suc (ps_seq ps) \<notin> (\<lambda>w. fst (snd w)) ` set (ps_writes ps)"
    by (auto simp: outstanding_def less_Suc_eq_le)
  show ?thesis
  proof (cases "k = key")
    case True
    have "newest_safe key (Suc (ps_seq ps)) snap (schedulePersist key snap True ps)"
      using out ps_done by (fastforce simp: newest_safe_def)
    then show ?thesis using inv True writes fresh
      by (auto simp: persist_inv_def le_SucI)
  next
    case False
    then have "newest_safe key m s (schedulePersist k snap True ps) = newest_safe key m s ps" for m s
      by (simp add: newest_safe_def)
    then show ?thesis using inv False writes fresh
      by (auto simp: persist_inv_def le_SucI split: option.splits)
  qed
qed

lemma persist_inv_step:
  assumes "persist_inv key (last_scheduled key evs) (persist_run evs)"
  shows "persist_inv key (last_scheduled key (evs @ [e])) (persist_run (evs @ [e]))"
proof (cases e)
  case (Schedule k snap async)
  have sched: "persist_inv key (if k = key then Some snap else last_scheduled key evs)
      (schedulePersist k snap True (persist_run evs))"
    by (rule persist_inv_schedule [OF assms])
  show ?thesis
    using sched persist_inv_run [OF sched] Schedule
    by (cases async) (simp_all add: last_scheduled_snoc persist_run_snoc schedulePersist_sync)
next
  case (RunWrite i)
  then show ?thesis
    using persist_inv_run [OF assms] by (simp add: last_scheduled_snoc persist_run_snoc)
qed

lemma persist_inv_run_all: "persist_inv key (last_scheduled key evs) (persist_run evs)"
proof (induction evs rule: rev_induct)
  case Nil
  show ?case
    by (simp add: persist_inv_def persist_run_def newPersister_def outstanding_def counterAt_def)
next
  case (snoc e evs)
  then show ?case by (rule persist_inv_step)
qed

end
