(* ===== verification/Recovery_Gate.thy ===== *)
theory Recovery_Gate imports Recovery_Risk Recovery_Decide Recovery_Persist begin

text \<open>
  The Auto Guard coordinator (\<open>gate.go\<close>): its state under the mutex, and one function per
  method. A channel of capacity one is a slot of \<open>g_chans\<close>, named by its position; the
  mode, the clock and the reviewer's latency are read by the caller and passed in. The
  callbacks of \<open>Options\<close> and the libraries are the record \<open>gate_env\<close>. A method that waits
  for a human ends in \<open>Parked\<close>; what happens when the prompt returns, is answered or is
  cancelled are functions of their own, so that other calls can come in between.
\<close>

subsection \<open>State\<close>

record Metrics =
  m_FailureEvents :: int
  m_RuleContinues :: int
  m_ReviewContinues :: int
  m_HumanPrompts :: int
  m_HumanContinues :: int
  m_TaskGrantContinues :: int
  m_TaskGrantUses :: int
  m_HumanRevises :: int
  m_ReviewErrors :: int
  m_ReviewLatencyMsSum :: int
  m_ReviewLatencyCount :: int
  m_RepeatPrompts :: int
  m_OperationStops :: int
  m_EpisodeFailureStops :: int
  m_ReviewStops :: int
  m_StoppedOpRetryStops :: int
  m_ModeResets :: int
  m_EpisodeRotations :: int
  m_StaleObservationsIgnored :: int

definition noMetrics :: Metrics where
  "noMetrics =
     \<lparr>m_FailureEvents = 0, m_RuleContinues = 0, m_ReviewContinues = 0, m_HumanPrompts = 0,
      m_HumanContinues = 0, m_TaskGrantContinues = 0, m_TaskGrantUses = 0, m_HumanRevises = 0,
      m_ReviewErrors = 0, m_ReviewLatencyMsSum = 0, m_ReviewLatencyCount = 0, m_RepeatPrompts = 0,
      m_OperationStops = 0, m_EpisodeFailureStops = 0, m_ReviewStops = 0,
      m_StoppedOpRetryStops = 0, m_ModeResets = 0, m_EpisodeRotations = 0,
      m_StaleObservationsIgnored = 0\<rparr>"

record resolvePayload =
  rp_action :: Action
  rp_feedback :: gostr

record dismissedWaiter =
  dw_id :: gostr
  dw_taskID :: gostr
  dw_reply :: nat
  dw_payload :: resolvePayload

record gate_env =
  ge_shell :: shell_lib
  ge_digest :: digest_lib
  ge_Reviewer :: "(FailureEvent option \<Rightarrow> gostr list \<Rightarrow> Proposal \<Rightarrow> gostr \<Rightarrow> gostr + ReviewVerdict) option"
  ge_TaskSummary :: "gostr option"
  ge_MaxReviewBlocks :: int
  ge_Headless :: bool
  ge_EmitPrompt :: bool
  ge_Persist :: bool

record Gate =
  g_tasks :: "taskRuntime gomap"
  g_metrics :: Metrics
  g_waiters :: "nat gomap"
  g_taskOf :: "gostr gomap"
  g_pending :: "PendingProposal gomap"
  g_awaiting :: "gostr set"
  g_episodeSeq :: u64
  g_episodeID :: gostr
  g_generation :: u64
  g_episode :: episodeBudget
  g_lastMode :: gostr
  g_haveMode :: bool
  g_chans :: "resolvePayload option list"
  g_key :: gostr
  g_pst :: "recovery_snapshot persister"

definition episodeName :: "u64 \<Rightarrow> gostr" where
  "episodeName n = ''ep:'' @ itoa (unat n)"

text \<open>\<open>NewGate\<close>: the options with their defaults, and the initial gate.\<close>

definition normalizeOptions :: "gate_env \<Rightarrow> gate_env" where
  "normalizeOptions env =
     (if ge_MaxReviewBlocks env \<le> 0 then env\<lparr>ge_MaxReviewBlocks := int MaxReviewRejects\<rparr> else env)"

definition NewGate :: Gate where
  "NewGate =
     \<lparr>g_tasks = [], g_metrics = noMetrics, g_waiters = [], g_taskOf = [], g_pending = [],
      g_awaiting = {}, g_episodeSeq = 1, g_episodeID = episodeName 1, g_generation = 1,
      g_episode = clearBudget, g_lastMode = [], g_haveMode = False, g_chans = [], g_key = [],
      g_pst = newPersister\<rparr>"

definition activeMode :: "gostr \<Rightarrow> bool" where
  "activeMode mode \<longleftrightarrow> ToLower (TrimSpace mode) = ''auto''"

subsection \<open>Snapshots and persistence\<close>

fun approvalsByTask :: "gostr gomap \<Rightarrow> gostr gomap \<Rightarrow> gostr gomap" where
  "approvalsByTask [] acc = acc"
| "approvalsByTask ((aid, tid) # rest) acc =
     approvalsByTask rest (if HasPrefix aid ''pending:'' then acc else AList.update tid aid acc)"

definition liveState :: "Gate \<Rightarrow> gostr gomap \<Rightarrow> gostr \<Rightarrow> taskRuntime \<Rightarrow> TaskState option" where
  "liveState g approvals tid st =
     map_option (\<lambda>cp.
        (let cp1 =
           (case map_of approvals tid of
              None \<Rightarrow> cp
            | Some aid \<Rightarrow>
                if aid \<noteq> [] then cp\<lparr>ts_ApprovalID := aid, ts_Phase := PhaseAwaitingDecision\<rparr> else cp);
             cp2 = cp1\<lparr>ts_ReviewBlocks := uint (eb_reviewRejects (g_episode g)),
                       ts_EpisodeStopped := eb_stopped (g_episode g),
                       ts_StopReason := stopReasonString (eb_stopReason (g_episode g))\<rparr>
         in if ts_EpisodeID cp2 = [] then cp2\<lparr>ts_EpisodeID := g_episodeID g\<rparr> else cp2))
       (toTaskState st (if tid \<in> g_awaiting g then PhaseAwaitingDecision else PhaseDiagnosing))"

text \<open>The tasks whose projection is not nil, each under its id.\<close>

definition projectTasks ::
  "(gostr \<Rightarrow> taskRuntime \<Rightarrow> TaskState option) \<Rightarrow> taskRuntime gomap \<Rightarrow> recovery_snapshot" where
  "projectTasks f tasks =
     List.map_filter (\<lambda>(tid, st). map_option (\<lambda>cp. (tid, Some cp)) (f tid st)) tasks"

definition snapshotLocked :: "Gate \<Rightarrow> bool \<Rightarrow> recovery_snapshot" where
  "snapshotLocked g persistence =
     (if persistence then projectTasks (\<lambda>tid st. toPersistenceState st) (g_tasks g)
      else projectTasks (liveState g (approvalsByTask (g_taskOf g) [])) (g_tasks g))"

definition Snapshot :: "Gate \<Rightarrow> recovery_snapshot" where
  "Snapshot g = snapshotLocked g False"

definition PersistenceSnapshot :: "Gate \<Rightarrow> recovery_snapshot" where
  "PersistenceSnapshot g = snapshotLocked g True"

definition persist :: "gate_env \<Rightarrow> Gate \<Rightarrow> Gate" where
  "persist env g =
     (if ge_Persist env
      then g\<lparr>g_pst := schedulePersist (g_key g) (PersistenceSnapshot g) False (g_pst g)\<rparr>
      else g)"

definition persistUnlocked :: "gate_env \<Rightarrow> Gate \<Rightarrow> Gate" where
  "persistUnlocked env g =
     (if ge_Persist env
      then g\<lparr>g_pst := schedulePersist (g_key g) (snapshotLocked g True) True (g_pst g)\<rparr>
      else g)"

subsection \<open>Episodes\<close>

text \<open>The fresh episode of \<open>beginEpisodeLockedCollect\<close> and \<open>Restore\<close>.\<close>

definition rotateEpisode :: "Gate \<Rightarrow> Gate" where
  "rotateEpisode g =
     (let seq = bump64 (g_episodeSeq g) in
      g\<lparr>g_episodeSeq := seq, g_episodeID := episodeName seq,
        g_generation := bump64 (g_generation g), g_episode := clearBudget,
        g_metrics := (g_metrics g)\<lparr>m_EpisodeRotations := m_EpisodeRotations (g_metrics g) + 1\<rparr>\<rparr>)"

text \<open>Counters and evidence go, task grants stay; a task with nothing left is deleted.\<close>

definition retireTasks :: "gostr \<Rightarrow> taskRuntime gomap \<Rightarrow> taskRuntime gomap" where
  "retireTasks eid tasks =
     List.map_filter (\<lambda>(tid, st).
        let st1 = (clearTaskRecoveryState st)\<lparr>tr_episodeID := eid\<rparr> in
        if \<not> hasTaskGrants st1 \<and> runtimeEmpty st1 then None else Some (tid, st1)) tasks"

fun collectLoop :: "resolvePayload \<Rightarrow> nat gomap \<Rightarrow> Gate \<Rightarrow> Gate \<times> dismissedWaiter list" where
  "collectLoop payload [] g = (g, [])"
| "collectLoop payload ((aid, ch) # ws) g =
     (let tid = (case map_of (g_taskOf g) aid of None \<Rightarrow> [] | Some t \<Rightarrow> t);
          g1 = g\<lparr>g_waiters := AList.delete aid (g_waiters g), g_taskOf := AList.delete aid (g_taskOf g),
                 g_pending := AList.delete aid (g_pending g), g_awaiting := g_awaiting g - {tid}\<rparr>;
          (g2, ds) = collectLoop payload ws g1
      in (g2, \<lparr>dw_id = aid, dw_taskID = tid, dw_reply = ch, dw_payload = payload\<rparr> # ds))"

definition collectWaitersLocked :: "resolvePayload \<Rightarrow> Gate \<Rightarrow> Gate \<times> dismissedWaiter list" where
  "collectWaitersLocked payload g = collectLoop payload (g_waiters g) g"

definition rotatePayload :: resolvePayload where
  "rotatePayload =
     \<lparr>rp_action = ActionRevise,
      rp_feedback = ''Tool approval mode or recovery episode changed. Re-evaluate under the new mode; the previous proposal was not approved.''\<rparr>"

definition beginEpisodeLockedCollect :: "Gate \<Rightarrow> Gate \<times> dismissedWaiter list" where
  "beginEpisodeLockedCollect g =
     (let g1 = rotateEpisode g;
          g2 = g1\<lparr>g_tasks := retireTasks (g_episodeID g1) (g_tasks g1)\<rparr>
      in collectWaitersLocked rotatePayload g2)"

text \<open>A send that gives up when the channel already holds a payload.\<close>

definition trySend :: "nat \<Rightarrow> resolvePayload \<Rightarrow> Gate \<Rightarrow> Gate" where
  "trySend ch p g =
     (if ch < length (g_chans g) \<and> g_chans g ! ch = None
      then g\<lparr>g_chans := (g_chans g)[ch := Some p]\<rparr> else g)"

fun finishDismissed :: "dismissedWaiter list \<Rightarrow> Gate \<Rightarrow> Gate" where
  "finishDismissed [] g = g"
| "finishDismissed (d # ds) g = finishDismissed ds (trySend (dw_reply d) (dw_payload d) g)"

definition BeginEpisode :: "gate_env \<Rightarrow> Gate \<Rightarrow> Gate" where
  "BeginEpisode env g =
     (let (g1, dismissed) = beginEpisodeLockedCollect g in
      persist env (finishDismissed dismissed g1))"

definition OnModeChange :: "gate_env \<Rightarrow> gostr \<Rightarrow> Gate \<Rightarrow> Gate \<times> gostr list" where
  "OnModeChange env mode0 g =
     (let mode = ToLower (TrimSpace mode0) in
      if mode = [] then (g, [])
      else if g_haveMode g \<and> g_lastMode g = mode then (g, [])
      else if \<not> g_haveMode g then (g\<lparr>g_lastMode := mode, g_haveMode := True\<rparr>, [])
      else
        (let g1 = g\<lparr>g_lastMode := mode,
                    g_metrics := (g_metrics g)\<lparr>m_ModeResets := m_ModeResets (g_metrics g) + 1\<rparr>\<rparr>;
             (g2, dismissed) = beginEpisodeLockedCollect g1;
             g3 = (if g_generation g2 = 0 then g2\<lparr>g_generation := 1\<rparr> else g2)
         in (persist env (finishDismissed dismissed g3), map dw_id dismissed)))"

definition DrainMetrics :: "Gate \<Rightarrow> Gate \<times> Metrics" where
  "DrainMetrics g = (g\<lparr>g_metrics := noMetrics\<rparr>, g_metrics g)"

definition HasApproval :: "gostr \<Rightarrow> Gate \<Rightarrow> bool" where
  "HasApproval aid0 g =
     (let aid = TrimSpace aid0 in
      if aid = [] \<or> HasPrefix aid ''pending:'' then False
      else map_of (g_waiters g) aid \<noteq> None \<or> map_of (g_taskOf g) aid \<noteq> None)"

fun restoreTasks :: "gostr \<Rightarrow> recovery_snapshot \<Rightarrow> taskRuntime gomap \<Rightarrow> taskRuntime gomap" where
  "restoreTasks eid [] tasks = tasks"
| "restoreTasks eid ((tid, ts) # rest) tasks =
     (case (case ts of None \<Rightarrow> None | Some t \<Rightarrow> taskRuntimeFromState t) of
        None \<Rightarrow> restoreTasks eid rest tasks
      | Some rt \<Rightarrow> restoreTasks eid rest (AList.update tid (rt\<lparr>tr_episodeID := eid\<rparr>) tasks))"

definition Restore :: "recovery_snapshot \<Rightarrow> Gate \<Rightarrow> Gate" where
  "Restore snap g =
     (let g1 = rotateEpisode (g\<lparr>g_tasks := [], g_waiters := [], g_taskOf := [], g_pending := [],
                               g_awaiting := {}\<rparr>)
      in g1\<lparr>g_tasks := restoreTasks (g_episodeID g1) snap []\<rparr>)"

end
