(* ===== verification/Recovery_Calls.thy ===== *)
theory Recovery_Calls imports Recovery_Gate begin

text \<open>
  The calls of Auto Guard (\<open>gate.go\<close>): observing a result, judging a proposal, asking the
  human and taking the answer. Together with the episode operations of \<open>Recovery_Gate\<close>
  these are all methods that change the gate.
\<close>

definition setTask :: "gostr \<Rightarrow> taskRuntime \<Rightarrow> Gate \<Rightarrow> Gate" where
  "setTask tid st g = g\<lparr>g_tasks := AList.update tid st (g_tasks g)\<rparr>"

definition deleteTask :: "gostr \<Rightarrow> Gate \<Rightarrow> Gate" where
  "deleteTask tid g = g\<lparr>g_tasks := AList.delete tid (g_tasks g)\<rparr>"

definition ensureTaskLocked :: "gostr \<Rightarrow> Gate \<Rightarrow> Gate \<times> taskRuntime" where
  "ensureTaskLocked tid g =
     (let st = (case map_of (g_tasks g) tid of None \<Rightarrow> newRuntime (g_episodeID g) | Some st \<Rightarrow> st);
          st1 = (if tr_episodeID st = [] then st\<lparr>tr_episodeID := g_episodeID g\<rparr> else st)
      in (setTask tid st1 g, st1))"

subsection \<open>Approvals\<close>

definition provisional :: "gostr \<Rightarrow> gostr" where
  "provisional tid = ''pending:'' @ tid"

definition BindApprovalID :: "gostr \<Rightarrow> gostr \<Rightarrow> Gate \<Rightarrow> Gate" where
  "BindApprovalID tid0 aid0 g =
     (let tid = normalizeTaskID tid0; aid = TrimSpace aid0 in
      if aid = [] then g
      else
        (let prov = provisional tid;
             g1 = (case map_of (g_waiters g) prov of
                     None \<Rightarrow> g
                   | Some ch \<Rightarrow>
                       g\<lparr>g_waiters := AList.update aid ch (AList.delete prov (g_waiters g)),
                         g_taskOf := AList.delete prov (g_taskOf g)\<rparr>);
             g2 = (case map_of (g_pending g1) prov of
                     None \<Rightarrow> g1
                   | Some p \<Rightarrow> g1\<lparr>g_pending := AList.update aid p (AList.delete prov (g_pending g1))\<rparr>)
         in g2\<lparr>g_taskOf := AList.update aid tid (g_taskOf g2),
               g_awaiting := insert tid (g_awaiting g2)\<rparr>))"

definition DefaultReviseFeedback :: gostr where
  "DefaultReviseFeedback = ''The pending mutation was rejected. Do not retry the same action. Summarize the failure cause, narrow the scope, and propose a safer alternative before attempting another mutation.''"

datatype resolve_error = UnknownApproval gostr | CannotGrant gostr | UnknownAction gostr

text \<open>Everything registered under an approval id, and the task's waiting mark, go.\<close>

definition dropApproval :: "gostr \<Rightarrow> gostr \<Rightarrow> Gate \<Rightarrow> Gate" where
  "dropApproval aid tid g =
     g\<lparr>g_waiters := AList.delete aid (g_waiters g), g_taskOf := AList.delete aid (g_taskOf g),
       g_pending := AList.delete aid (g_pending g), g_awaiting := g_awaiting g - {tid}\<rparr>"

definition sendTo :: "nat option \<Rightarrow> resolvePayload \<Rightarrow> Gate \<Rightarrow> Gate" where
  "sendTo ch p g = (case ch of None \<Rightarrow> g | Some c \<Rightarrow> trySend c p g)"

text \<open>The grant a \<open>continue_task\<close> records on the task.\<close>

definition grantTask :: "gostr \<Rightarrow> PendingProposal \<Rightarrow> Gate \<Rightarrow> Gate" where
  "grantTask tid pending g =
     (let st = (case map_of (g_tasks g) tid of None \<Rightarrow> newRuntime (g_episodeID g) | Some st \<Rightarrow> st);
          st1 = addTaskGrant (useTaskGrantScope st (pp_TaskGrantTaskScope pending)) (pp_TaskGrantKey pending)
      in (setTask tid st1 g)\<lparr>g_metrics :=
            (g_metrics g)\<lparr>m_TaskGrantContinues := m_TaskGrantContinues (g_metrics g) + 1\<rparr>\<rparr>)"

definition Resolve :: "gate_env \<Rightarrow> gostr \<Rightarrow> Action \<Rightarrow> gostr \<Rightarrow> Gate \<Rightarrow> Gate \<times> resolve_error option" where
  "Resolve env aid0 action feedback0 g =
     (let aid = TrimSpace aid0; ch = map_of (g_waiters g) aid;
          tid = (case map_of (g_taskOf g) aid of None \<Rightarrow> [] | Some t \<Rightarrow> t);
          pending = (case map_of (g_pending g) aid of None \<Rightarrow> noPending | Some p \<Rightarrow> p)
      in if tid = [] then (g, Some (UnknownApproval aid))
      else if action = ActionContinue \<or> action = ActionContinueTask then
        (if action = ActionContinueTask \<and> pp_TaskGrantKey pending = []
         then (g, Some (CannotGrant aid))
         else
           (let g1 = (if action = ActionContinueTask then grantTask tid pending g else g);
                g2 = dropApproval aid tid
                       (g1\<lparr>g_metrics :=
                          (g_metrics g1)\<lparr>m_HumanContinues := m_HumanContinues (g_metrics g1) + 1\<rparr>\<rparr>);
                g3 = (case map_of (g_tasks g2) tid of
                        None \<Rightarrow> deleteTask tid g2
                      | Some st \<Rightarrow>
                          if runtimeEmpty st \<and> \<not> hasTaskGrants st then deleteTask tid g2 else g2)
            in (persist env (sendTo ch \<lparr>rp_action = action, rp_feedback = feedback0\<rparr> g3), None)))
      else if action = ActionRevise then
        (let feedback = (if TrimSpace feedback0 = [] then DefaultReviseFeedback else feedback0);
             g1 = dropApproval aid tid
                    (g\<lparr>g_metrics := (g_metrics g)\<lparr>m_HumanRevises := m_HumanRevises (g_metrics g) + 1\<rparr>\<rparr>)
         in (BeginEpisode env (sendTo ch \<lparr>rp_action = action, rp_feedback = feedback\<rparr> g1), None))
      else (g, Some (UnknownAction action)))"

subsection \<open>Observations\<close>

definition clearNoProgressLocked :: "gostr \<Rightarrow> taskRuntime \<Rightarrow> Gate \<Rightarrow> Gate" where
  "clearNoProgressLocked tid st g =
     (let st1 = (clearTaskRecoveryState st)\<lparr>tr_episodeID := g_episodeID g\<rparr>;
          g1 = g\<lparr>g_episode := clearBudget\<rparr>
      in if hasTaskGrants st1 then setTask tid st1 g1 else deleteTask tid g1)"

definition transientGuidance :: gostr where
  "transientGuidance = ''The tool timed out or hit a transient execution limit. Inspect its current state and output before retrying so partial effects are not duplicated. Read-only diagnosis and unrelated work remain available without asking the user; retry the exact operation only after ruling out partial effects.''"

definition failureGuidance :: gostr where
  "failureGuidance = ''A tool failed. Use read-only diagnosis as needed, continue unrelated work automatically, and do not ask the user unless a genuine product or plan choice is required. Repeated retries of the exact failed operation remain bounded.''"

definition recoveryGuidanceLocked :: "taskRuntime \<Rightarrow> taskRuntime \<times> gostr" where
  "recoveryGuidanceLocked st =
     (if tr_guidanceSent st then (st, [])
      else
        (st\<lparr>tr_guidanceSent := True\<rparr>,
         case tr_lastFailure st of
           None \<Rightarrow> failureGuidance
         | Some af \<Rightarrow>
             if fe_Class (af_evidence af) = FailureClassTransient then transientGuidance
             else failureGuidance))"

definition diagnosticObservationNote :: "Observation \<Rightarrow> gostr" where
  "diagnosticObservationNote obs =
     (let tool0 = clip (TrimSpace (ob_Tool obs)) 120;
          tool = (if tool0 = [] then ''diagnostic'' else tool0);
          subject = clip (firstNonEmpty [ob_Subject obs, ArgsSummary (ob_Args obs) 160]) 160;
          header = (if subject \<noteq> [] \<and> subject \<noteq> tool then tool @ '' ('' @ subject @ '')'' else tool);
          output = TrimSpace (ob_Output obs)
      in if output = [] then clipDiagnosisNote (header @ '': completed successfully'')
         else clipDiagnosisNote (header @ '': '' @ output))"

definition observationFingerprint :: "digest_lib \<Rightarrow> Observation \<Rightarrow> gostr" where
  "observationFingerprint dl obs = CallFingerprint dl (ob_Tool obs) (ob_Subject obs) [] (ob_Args obs)"

definition persistentRecoveryScope :: "gostr \<Rightarrow> gostr" where
  "persistentRecoveryScope scope =
     (if HasPrefix (TrimSpace scope) ''goal:'' then TrimSpace scope else [])"

definition failureEvidence :: "digest_lib \<Rightarrow> int \<Rightarrow> gostr \<Rightarrow> Observation \<Rightarrow> activeFailure" where
  "failureEvidence dl now tid obs =
     \<lparr>af_evidence =
        noFailureEvent\<lparr>fe_Class := ClassifyFailure obs, fe_Tool := ob_Tool obs,
          fe_ArgsSummary := ArgsSummary (ob_Args obs) 200, fe_Subject := ob_Subject obs,
          fe_ErrSummary := ob_ErrSummary obs, fe_OutputExcerpt := clip (ob_Output obs) 1500,
          fe_SourceAgent := ob_AgentID obs, fe_TaskID := tid,
          fe_TaskScopeID := persistentRecoveryScope (ob_TaskScopeID obs),
          fe_ReadOnly := ob_ReadOnly obs, fe_Verification := ob_Verification obs,
          fe_Mutates := ob_Mutates obs, fe_CreatedAt := now, fe_Args := ob_Args obs,
          fe_Fingerprint := observationFingerprint dl obs\<rparr>,
      af_safeRetryUsed = False, af_diagnosis = []\<rparr>"

definition operationCount :: "taskRuntime \<Rightarrow> gostr \<Rightarrow> u8" where
  "operationCount st fp = (case map_of (tr_operationFailures st) fp of None \<Rightarrow> 0 | Some n \<Rightarrow> n)"

text \<open>The counters of a qualifying failure, on the task and on the episode.\<close>

definition countFailure :: "gostr \<Rightarrow> gostr \<Rightarrow> taskRuntime \<Rightarrow> taskRuntime" where
  "countFailure eid fp st =
     (let n = sat_inc8 (operationCount st fp);
          st1 = st\<lparr>tr_episodeID := eid,
                   tr_operationFailures := AList.update fp n (tr_operationFailures st)\<rparr>
      in if MaxOperationFailures \<le> unat n then markOperationStopped st1 fp else st1)"

definition countEpisodeFailure :: "episodeBudget \<Rightarrow> episodeBudget" where
  "countEpisodeFailure ep =
     (let ep1 = ep\<lparr>eb_totalFailures := sat_inc8 (eb_totalFailures ep)\<rparr> in
      if MaxEpisodeFailures \<le> unat (eb_totalFailures ep1)
      then ep1\<lparr>eb_stopped := True, eb_stopReason := StopReasonEpisodeFailures\<rparr> else ep1)"

definition failureMetrics :: "taskRuntime \<Rightarrow> gostr \<Rightarrow> episodeBudget \<Rightarrow> Metrics \<Rightarrow> Metrics" where
  "failureMetrics st fp ep m =
     m\<lparr>m_OperationStops := m_OperationStops m
         + (if MaxOperationFailures \<le> unat (operationCount st fp) then 1 else 0),
       m_EpisodeFailureStops := m_EpisodeFailureStops m
         + (if MaxEpisodeFailures \<le> unat (eb_totalFailures ep) then 1 else 0),
       m_FailureEvents := m_FailureEvents m + 1\<rparr>"

definition recordFailure ::
  "gate_env \<Rightarrow> int \<Rightarrow> gostr \<Rightarrow> Observation \<Rightarrow> taskRuntime \<Rightarrow> Gate \<Rightarrow> Gate \<times> gostr" where
  "recordFailure env now tid obs st g =
     (let fp = observationFingerprint (ge_digest env) obs;
          st1 = countFailure (g_episodeID g) fp st;
          ep = countEpisodeFailure (g_episode g);
          st2 = st1\<lparr>tr_lastFailure := Some (failureEvidence (ge_digest env) now tid obs)\<rparr>;
          (st3, guidance) = recoveryGuidanceLocked st2
      in (persistUnlocked env
            (setTask tid st3
               (g\<lparr>g_episode := ep, g_metrics := failureMetrics st1 fp ep (g_metrics g)\<rparr>)),
          guidance))"

definition ObserveResult ::
  "gate_env \<Rightarrow> gostr \<Rightarrow> int \<Rightarrow> Observation \<Rightarrow> Gate \<Rightarrow> Gate \<times> gostr" where
  "ObserveResult env mode now obs g =
     (if \<not> activeMode mode then (g, [])
      else
        (let tid = normalizeTaskID (ob_TaskID obs) in
         if ob_Generation obs \<noteq> 0 \<and> ob_Generation obs \<noteq> g_generation g then
           (g\<lparr>g_metrics := (g_metrics g)\<lparr>m_StaleObservationsIgnored :=
                m_StaleObservationsIgnored (g_metrics g) + 1\<rparr>\<rparr>, [])
         else
           (let (g1, st) = ensureTaskLocked tid g in
            if ob_Success obs \<and> ob_Verification obs then
              (persistUnlocked env (clearNoProgressLocked tid st g1), [])
            else if ob_Success obs \<and> ob_Mutates obs then
              (persistUnlocked env (clearNoProgressLocked tid st g1), [])
            else if ob_Success obs then
              (case tr_lastFailure st of
                 None \<Rightarrow> (g1, [])
               | Some af \<Rightarrow>
                   if IsDiagnosticSuccess (ge_shell env) obs then
                     (let (af1, changed) = appendDiagnosisNote af (diagnosticObservationNote obs) in
                      if changed
                      then (persistUnlocked env (setTask tid (st\<lparr>tr_lastFailure := Some af1\<rparr>) g1), [])
                      else (g1, []))
                   else (g1, []))
            else if \<not> QualifyingFailure obs then (g1, [])
            else recordFailure env now tid obs st g1)))"

definition RecordDiagnosis :: "gate_env \<Rightarrow> gostr \<Rightarrow> gostr \<Rightarrow> Gate \<Rightarrow> Gate" where
  "RecordDiagnosis env tid0 note g =
     (if TrimSpace note = [] then g
      else
        (let tid = normalizeTaskID tid0 in
         case map_of (g_tasks g) tid of
           None \<Rightarrow> g
         | Some st \<Rightarrow>
             (case tr_lastFailure st of
                None \<Rightarrow> g
              | Some af \<Rightarrow>
                  (let (af1, changed) = appendDiagnosisNote af note in
                   if changed
                   then persistUnlocked env (setTask tid (st\<lparr>tr_lastFailure := Some af1\<rparr>) g)
                   else g))))"

subsection \<open>Classification of a proposal\<close>

definition taskGrantScopeKey :: "digest_lib \<Rightarrow> Proposal \<Rightarrow> gostr" where
  "taskGrantScopeKey dl proposal =
     (let scope0 = TrimSpace (pr_TaskScopeID proposal);
          scope = (if scope0 = [] then TrimSpace (pr_TaskSummary proposal) else scope0)
      in CallFingerprint dl ''task-grant'' (normalizeTaskID (pr_TaskID proposal)) scope RawEmpty)"

definition taskGrantRuntimeKey :: "gostr \<Rightarrow> gostr \<Rightarrow> gostr" where
  "taskGrantRuntimeKey semanticKey scope =
     (if semanticKey = [] \<or> scope = [] then [] else semanticKey @ ''#'' @ scope)"

definition sameFailedOperation :: "digest_lib \<Rightarrow> FailureEvent option \<Rightarrow> Proposal \<Rightarrow> bool" where
  "sameFailedOperation dl failure proposal =
     (case failure of
        None \<Rightarrow> False
      | Some f \<Rightarrow>
          (let want0 = TrimSpace (fe_Fingerprint f);
               want = (if want0 = [] then CallFingerprint dl (fe_Tool f) (fe_Subject f) [] (fe_Args f)
                       else want0)
           in want = CallFingerprint dl (pr_Tool proposal) (pr_Subject proposal) [] (pr_Args proposal)))"

definition proposalFacts :: "bool \<Rightarrow> Proposal \<Rightarrow> bool \<Rightarrow> episodeBudget \<Rightarrow> Facts" where
  "proposalFacts auto proposal highRisk ep =
     \<lparr>f_AutoMode = auto, f_ReadOnly = pr_ReadOnly proposal, f_Mutates = pr_Mutates proposal,
      f_Verification = pr_Verification proposal, f_HighRisk = highRisk,
      f_PlanTransition = pr_PlanTransition proposal, f_HasActiveFailure = False,
      f_SameFailedOperation = False, f_ExpandedScope = False, f_StrategyChanged = False,
      f_SafeRetryAvailable = False, f_FailureCount = 0,
      f_EpisodeFailureCount = eb_totalFailures ep, f_ReviewRejects = eb_reviewRejects ep,
      f_OperationAlreadyStopped = False, f_EpisodeStopped = eb_stopped ep,
      f_StopReason = eb_stopReason ep\<rparr>"

text \<open>What the evidence of the task adds to the facts.\<close>

definition failureFacts :: "digest_lib \<Rightarrow> gostr \<Rightarrow> Proposal \<Rightarrow> taskRuntime \<Rightarrow> Facts \<Rightarrow> Facts" where
  "failureFacts dl fp proposal st facts =
     (let f1 = facts\<lparr>f_OperationAlreadyStopped := isOperationStopped st fp,
                     f_FailureCount := operationFailureCount st fp\<rparr>
      in case tr_lastFailure st of
           None \<Rightarrow> f1
         | Some af \<Rightarrow>
             (let same = sameFailedOperation dl (evidenceCopy st) proposal in
              f1\<lparr>f_HasActiveFailure := True, f_SameFailedOperation := same,
                 f_FailureCount := (if same \<and> f_FailureCount f1 = 0 then 1 else f_FailureCount f1),
                 f_SafeRetryAvailable :=
                   (IsSafeVerificationRetry dl (evidenceCopy st) proposal \<and> safeRetryAvailable st)\<rparr>))"

text \<open>Outside Auto the task's evidence and the episode budget are dropped.\<close>

definition retireOutsideAuto :: "bool \<Rightarrow> gostr \<Rightarrow> taskRuntime \<Rightarrow> Gate \<Rightarrow> Gate \<times> taskRuntime option \<times> bool" where
  "retireOutsideAuto auto tid st g =
     (if auto then (g, Some st, False)
      else
        (let ep = g_episode g;
             armed = (\<not> runtimeEmpty st \<or> 0 < eb_totalFailures ep \<or> 0 < eb_reviewRejects ep
                      \<or> eb_stopped ep);
             st1 = (if armed then clearTaskRecoveryState st else st);
             g1 = setTask tid st1 (if armed then g\<lparr>g_episode := clearBudget\<rparr> else g)
         in if \<not> hasTaskGrants st1 \<and> runtimeEmpty st1 then (deleteTask tid g1, None, armed)
            else (g1, Some st1, armed)))"

text \<open>A runtime left over from another episode is cleared, one without an episode joins it.\<close>

definition alignEpisode :: "gostr \<Rightarrow> taskRuntime \<Rightarrow> taskRuntime \<times> bool" where
  "alignEpisode eid st =
     (if tr_episodeID st \<noteq> [] \<and> tr_episodeID st \<noteq> eid
      then ((clearTaskRecoveryState st)\<lparr>tr_episodeID := eid\<rparr>, True)
      else if tr_episodeID st = [] then (st\<lparr>tr_episodeID := eid\<rparr>, False)
      else (st, False))"

record classified =
  cl_facts :: Facts
  cl_failure :: "FailureEvent option"
  cl_notes :: "gostr list"
  cl_taskID :: gostr
  cl_approvalFP :: gostr
  cl_generation :: u64

text \<open>
  The tail of \<open>classify\<close>, outside the lock: it works on a copy of the proposal, and only the
  facts it returns survive.
\<close>

definition scopeFacts :: "FailureEvent option \<Rightarrow> Proposal \<Rightarrow> Facts \<Rightarrow> Facts" where
  "scopeFacts failure proposal facts =
     (case failure of
        None \<Rightarrow> facts
      | Some f \<Rightarrow>
          (let expanded = (pr_ExpandedScope proposal \<or> ScopeExpanded failure proposal);
               strategy = (pr_StrategyChanged proposal \<or> StrategyChanged failure proposal);
               f1 = facts\<lparr>f_ExpandedScope := expanded, f_StrategyChanged := strategy\<rparr>
           in if f_SafeRetryAvailable f1 \<and> (expanded \<or> strategy \<or> f_HighRisk f1)
              then f1\<lparr>f_SafeRetryAvailable := False\<rparr> else f1))"

text \<open>The part of \<open>classify\<close> under the lock, for a task with a runtime.\<close>

record judged =
  ju_gate :: Gate
  ju_facts :: Facts
  ju_failure :: "FailureEvent option"
  ju_notes :: "gostr list"
  ju_changed :: bool

definition judgeTask ::
  "digest_lib \<Rightarrow> riskBoundary \<Rightarrow> Proposal \<Rightarrow> gostr \<Rightarrow> Facts \<Rightarrow> taskRuntime \<Rightarrow> Gate \<Rightarrow> judged" where
  "judgeTask dl boundary proposal tid facts0 st g =
     (let st2 = fst (alignEpisode (g_episodeID g) st);
          operationFP = CallFingerprint dl (pr_Tool proposal) (pr_Subject proposal) [] (pr_Args proposal);
          facts1 = failureFacts dl operationFP proposal st2 facts0;
          scope = taskGrantScopeKey dl proposal;
          st3 = useTaskGrantScope st2 scope;
          gone = (runtimeEmpty st3 \<and> \<not> hasTaskGrants st3);
          g1 = (if gone then deleteTask tid g else setTask tid st3 g);
          key = taskGrantRuntimeKey (rb_taskGrantKey boundary) scope;
          used = (f_HighRisk facts1 \<and> key \<noteq> [] \<and> \<not> gone \<and> hasTaskGrant st3 key)
      in \<lparr>ju_gate = (if used
                     then g1\<lparr>g_metrics := (g_metrics g1)\<lparr>m_TaskGrantUses := m_TaskGrantUses (g_metrics g1) + 1\<rparr>\<rparr>
                     else g1),
          ju_facts = (if used then facts1\<lparr>f_HighRisk := False\<rparr> else facts1),
          ju_failure = evidenceCopy st2, ju_notes = diagnosisNotes st2,
          ju_changed = snd (alignEpisode (g_episodeID g) st)\<rparr>)"

definition judge ::
  "digest_lib \<Rightarrow> riskBoundary \<Rightarrow> Proposal \<Rightarrow> gostr \<Rightarrow> Facts \<Rightarrow> Gate \<times> taskRuntime option \<times> bool \<Rightarrow> judged" where
  "judge dl boundary proposal tid facts0 r =
     (case r of
        (g, None, changed) \<Rightarrow>
          \<lparr>ju_gate = g, ju_facts = facts0, ju_failure = None, ju_notes = [], ju_changed = changed\<rparr>
      | (g, Some st, changed) \<Rightarrow>
          (let j = judgeTask dl boundary proposal tid facts0 st g in
           j\<lparr>ju_changed := changed \<or> ju_changed j\<rparr>))"

definition leaveAuto :: "bool \<Rightarrow> gostr \<Rightarrow> Gate \<Rightarrow> Gate \<times> taskRuntime option \<times> bool" where
  "leaveAuto auto tid g =
     (case map_of (g_tasks g) tid of
        None \<Rightarrow> (g, None, False) | Some st \<Rightarrow> retireOutsideAuto auto tid st g)"

definition classify :: "gate_env \<Rightarrow> gostr \<Rightarrow> Proposal \<Rightarrow> Gate \<Rightarrow> Gate \<times> classified" where
  "classify env mode proposal0 g =
     (let dl = ge_digest env; auto = activeMode mode;
          boundary = riskBoundaryForProposal (ge_shell env) dl proposal0;
          proposal = proposal0\<lparr>pr_HighRisk := rb_highRisk boundary\<rparr>;
          tid = normalizeTaskID (pr_TaskID proposal);
          approvalFP = CallFingerprint dl (pr_Tool proposal) (pr_Subject proposal) (pr_Preview proposal)
                         (pr_Args proposal);
          facts0 = proposalFacts auto proposal (rb_highRisk boundary) (g_episode g);
          j = judge dl boundary proposal tid facts0 (leaveAuto auto tid g)
      in (if ju_changed j then persist env (ju_gate j) else ju_gate j,
          \<lparr>cl_facts = scopeFacts (ju_failure j) proposal (ju_facts j), cl_failure = ju_failure j,
           cl_notes = ju_notes j, cl_taskID = tid, cl_approvalFP = approvalFP,
           cl_generation = g_generation g\<rparr>))"

subsection \<open>Messages\<close>

definition userFacingReason :: "ChangeKind \<Rightarrow> gostr" where
  "userFacingReason kind =
     (if kind = ChangeRisk then ''This proposal is a technical execution-risk blocker, not a user-owned plan choice.''
      else if kind = ChangeScope then ''This step would expand the change scope.''
      else if kind = ChangeStrategy then ''Auto is about to try a different approach.''
      else ''Auto cannot establish how this proposal relates to the active task and plan.'')"

definition headlessBlockerMessage :: "PendingProposal \<Rightarrow> FailureEvent option \<Rightarrow> gostr" where
  "headlessBlockerMessage pending failure =
     ''blocked: Auto Guard requires human confirmation, but this environment has no decision channel.'' @ [nl]
     @ (case failure of
          None \<Rightarrow> []
        | Some f \<Rightarrow> ''Failure: '' @ firstNonEmpty [fe_ErrSummary f, fe_Tool f] @ [nl])
     @ (if pp_Diagnosis pending \<noteq> [] then ''Diagnosis: '' @ pp_Diagnosis pending @ [nl] else [])
     @ ''Proposed: '' @ firstNonEmpty [pp_Proposed pending, pp_Subject pending, pp_Tool pending] @ [nl]
     @ (if pp_Rationale pending \<noteq> [] then ''Why confirm: '' @ pp_Rationale pending else [])"

definition reviewerBlockerMessage :: "ReviewVerdict \<Rightarrow> nat \<Rightarrow> int \<Rightarrow> gostr" where
  "reviewerBlockerMessage verdict attempt limit =
     ''blocked: Auto plan reviewer could not accept this transition (attempt '' @ itoa attempt @ ''/''
     @ itoa (nat limit) @ ''): ''
     @ firstNonEmpty [rv_Rationale verdict, ''the proposal could not be classified as a bounded plan continuation'']
     @ ''. Continue the current plan, propose a task-aligned plan, or ask the user about a genuine product choice.''"

definition operationLabel :: "Proposal \<Rightarrow> gostr" where
  "operationLabel proposal = clip (firstNonEmpty [pr_Subject proposal, pr_Tool proposal]) 240"

definition repeatedFailureStopMessage :: "nat \<Rightarrow> Proposal \<Rightarrow> gostr" where
  "repeatedFailureStopMessage failures proposal =
     ''blocked: Auto stopped repeating this operation after '' @ itoa failures @ '' consecutive failures: ''
     @ operationLabel proposal
     @ ''. Do not retry the same operation in this turn. Diagnose it with read-only tools, then use a different task-aligned edit or verification approach; other operations remain available. Ask the user only for a genuine product or plan choice.''"

definition episodeStopMessage :: "StopReason \<Rightarrow> Proposal \<Rightarrow> gostr" where
  "episodeStopMessage reason proposal =
     (case reason of
        StopReasonReviewRejects \<Rightarrow>
          ''blocked: Auto recovery paused this turn after '' @ itoa MaxReviewRejects
          @ '' reviewer rejections (last proposal: '' @ operationLabel proposal
          @ ''). Do not call more tools; summarize what was tried and what remains. The user can continue in the next message.''
      | StopReasonStoppedOpRetries \<Rightarrow>
          ''blocked: Auto recovery paused this turn after repeated attempts of already-stopped operations (last: ''
          @ operationLabel proposal
          @ ''). Do not call more tools; summarize completed work and blockers. The user can continue in the next message.''
      | _ \<Rightarrow>
          ''blocked: Auto recovery paused this turn after '' @ itoa MaxEpisodeFailures
          @ '' execution failures without progress (last: '' @ operationLabel proposal
          @ ''). Do not call more tools; summarize completed work and blockers. The user can continue in the next message.'')"

subsection \<open>Stopping\<close>

definition allowDecision :: "u64 \<Rightarrow> RecoveryDecision" where
  "allowDecision gen = noDecision\<lparr>rd_Allow := True, rd_Generation := gen\<rparr>"

definition blockDecision :: "gostr \<Rightarrow> u64 \<Rightarrow> RecoveryDecision" where
  "blockDecision msg gen = noDecision\<lparr>rd_Blocked := True, rd_Message := msg, rd_Generation := gen\<rparr>"

definition stopBudget :: "StopReason \<Rightarrow> episodeBudget \<Rightarrow> episodeBudget" where
  "stopBudget reason ep =
     ep\<lparr>eb_stopped := True,
        eb_stopReason := (if eb_stopReason ep = StopReasonNone then reason else eb_stopReason ep)\<rparr>"

definition stopTurnDecision ::
  "gate_env \<Rightarrow> gostr \<Rightarrow> u64 \<Rightarrow> StopReason \<Rightarrow> Proposal \<Rightarrow> Gate \<Rightarrow> Gate \<times> RecoveryDecision" where
  "stopTurnDecision env tid gen reason proposal g =
     (let (g1, _) = ensureTaskLocked tid g;
          ep = stopBudget reason (g_episode g1)
      in (persist env (g1\<lparr>g_episode := ep\<rparr>),
          (blockDecision (episodeStopMessage (eb_stopReason ep) proposal) gen)
             \<lparr>rd_StopTurn := True, rd_StopReason := stopReasonString (eb_stopReason ep)\<rparr>))"

definition noteStoppedOpRetry ::
  "gate_env \<Rightarrow> gostr \<Rightarrow> u64 \<Rightarrow> Proposal \<Rightarrow> Gate \<Rightarrow> Gate \<times> RecoveryDecision option" where
  "noteStoppedOpRetry env tid gen proposal g =
     (let (g1, _) = ensureTaskLocked tid g;
          ep = (g_episode g1)\<lparr>eb_stoppedOpRetries := sat_inc8 (eb_stoppedOpRetries (g_episode g1))\<rparr>
      in if MaxStoppedOperationRetries \<le> unat (eb_stoppedOpRetries ep) then
           (let g2 = persist env
                  (g1\<lparr>g_episode := stopBudget StopReasonStoppedOpRetries ep,
                      g_metrics := (g_metrics g1)\<lparr>m_StoppedOpRetryStops :=
                        m_StoppedOpRetryStops (g_metrics g1) + 1\<rparr>\<rparr>);
                (g3, dec) = stopTurnDecision env tid gen StopReasonStoppedOpRetries proposal g2
            in (g3, Some dec))
         else (persist env (g1\<lparr>g_episode := ep\<rparr>), None))"

definition MarkFinalizationOffered :: "Gate \<Rightarrow> Gate" where
  "MarkFinalizationOffered g =
     (if eb_stopped (g_episode g)
      then g\<lparr>g_episode := (g_episode g)\<lparr>eb_finalizationOffered := True\<rparr>\<rparr> else g)"

definition ConsumeFinalization :: "Gate \<Rightarrow> Gate \<times> bool \<times> bool" where
  "ConsumeFinalization g =
     (let ep = g_episode g in
      if \<not> eb_stopped ep then (g, False, False)
      else
        (if eb_finalizationOffered ep \<and> \<not> eb_finalizationConsumed ep
         then g\<lparr>g_episode := ep\<lparr>eb_finalizationConsumed := True\<rparr>\<rparr> else g,
         eb_finalizationOffered ep, eb_finalizationConsumed ep))"

definition EpisodeStopped :: "Gate \<Rightarrow> bool" where
  "EpisodeStopped g = eb_stopped (g_episode g)"

subsection \<open>Review\<close>

definition reviewerContinueKind :: "ChangeKind \<Rightarrow> bool" where
  "reviewerContinueKind kind \<longleftrightarrow>
     kind = ChangeSameStrategy \<or> kind = ChangeStrategy \<or> kind = ChangeScope"

definition reviewerPlanDecision :: "ReviewVerdict \<Rightarrow> bool" where
  "reviewerPlanDecision verdict \<longleftrightarrow>
     rv_Outcome verdict = ReviewConfirm
     \<and> (rv_ChangeKind verdict = ChangeStrategy \<or> rv_ChangeKind verdict = ChangeScope)"

definition known_kind :: "ChangeKind \<Rightarrow> bool" where
  "known_kind k \<longleftrightarrow>
     k = ChangeSameStrategy \<or> k = ChangeStrategy \<or> k = ChangeScope \<or> k = ChangeRisk \<or> k = ChangeUncertain"

definition normalizeOutcome :: "ReviewVerdict \<Rightarrow> ReviewVerdict" where
  "normalizeOutcome v =
     (let o1 = ToLower (TrimSpace (rv_Outcome v));
          v1 = (if o1 = ReviewContinue then v\<lparr>rv_Outcome := ReviewContinue\<rparr>
                else if o1 = ReviewConfirm then v\<lparr>rv_Outcome := ReviewConfirm\<rparr>
                else v\<lparr>rv_Outcome := ReviewConfirm,
                       rv_ChangeKind := (if rv_ChangeKind v = [] then ChangeUncertain else rv_ChangeKind v)\<rparr>);
          k1 = ToLower (TrimSpace (rv_ChangeKind v1));
          v2 = (if known_kind k1 then v1\<lparr>rv_ChangeKind := k1\<rparr>
                else v1\<lparr>rv_Outcome := (if rv_Outcome v1 = ReviewContinue then ReviewConfirm
                                      else rv_Outcome v1),
                        rv_ChangeKind := ChangeUncertain\<rparr>)
      in if rv_Outcome v2 = ReviewContinue \<and> \<not> reviewerContinueKind (rv_ChangeKind v2)
         then v2\<lparr>rv_Outcome := ReviewConfirm\<rparr> else v2)"

definition normalizeVerdict ::
  "ReviewVerdict \<Rightarrow> FailureEvent option \<Rightarrow> Proposal \<Rightarrow> gostr list \<Rightarrow> ReviewVerdict" where
  "normalizeVerdict v0 failure proposal diagNotes =
     (let v = normalizeOutcome v0 in
      v\<lparr>rv_FailureSummary :=
          (if TrimSpace (rv_FailureSummary v) = []
           then (case failure of None \<Rightarrow> rv_FailureSummary v | Some f \<Rightarrow> fe_ErrSummary f)
           else rv_FailureSummary v),
        rv_Diagnosis :=
          (if TrimSpace (rv_Diagnosis v) = [] then Join diagNotes [nl] else rv_Diagnosis v),
        rv_ProposedAction :=
          (if TrimSpace (rv_ProposedAction v) = []
           then firstNonEmpty [pr_Subject proposal, pr_Preview proposal, pr_Tool proposal]
           else rv_ProposedAction v),
        rv_Rationale :=
          (if TrimSpace (rv_Rationale v) = [] then userFacingReason (rv_ChangeKind v)
           else clip (rv_Rationale v) 500)\<rparr>)"

definition recordReviewBlock :: "gate_env \<Rightarrow> gostr \<Rightarrow> ReviewVerdict \<Rightarrow> Gate \<Rightarrow> Gate \<times> nat" where
  "recordReviewBlock env tid verdict g =
     (let (g1, st) = ensureTaskLocked tid g;
          ep = (g_episode g1)\<lparr>eb_reviewRejects := sat_inc8 (eb_reviewRejects (g_episode g1))\<rparr>;
          g2 = g1\<lparr>g_episode := ep\<rparr>;
          g3 = (case tr_lastFailure st of
                  None \<Rightarrow> g2
                | Some af \<Rightarrow>
                    setTask tid
                      (st\<lparr>tr_lastFailure := Some (fst (appendDiagnosisNote af
                         (''Auto Guard reviewer blocked the proposal: ''
                          @ firstNonEmpty [rv_Rationale verdict, rv_ChangeKind verdict])))\<rparr>) g2)
      in (persist env g3, unat (eb_reviewRejects ep)))"

subsection \<open>Asking the human\<close>

text \<open>A call that waits: where its answer arrives and what the prompt shows.\<close>

record parked =
  pk_task :: gostr
  pk_generation :: u64
  pk_proposal :: Proposal
  pk_failure :: "FailureEvent option"
  pk_pending :: PendingProposal
  pk_reply :: nat
  pk_approval :: gostr

datatype outcome = Decided RecoveryDecision | Failed RecoveryDecision gostr | Parked parked

definition pendingFor ::
  "gostr \<Rightarrow> Proposal \<Rightarrow> FailureEvent option \<Rightarrow> gostr list \<Rightarrow> ChangeKind \<Rightarrow> gostr \<Rightarrow> PendingProposal" where
  "pendingFor fp proposal failure diagNotes kind rationale =
     noPending\<lparr>pp_Tool := pr_Tool proposal, pp_Subject := pr_Subject proposal,
       pp_Preview := pr_Preview proposal, pp_Args := pr_Args proposal, pp_Fingerprint := fp,
       pp_SourceAgent := firstNonEmpty [pr_AgentID proposal,
         (case failure of None \<Rightarrow> [] | Some f \<Rightarrow> fe_SourceAgent f)],
       pp_ChangeKind := kind, pp_Rationale := firstNonEmpty [rationale, userFacingReason kind],
       pp_Diagnosis := Join diagNotes [nl],
       pp_Failure := (case failure of None \<Rightarrow> [] | Some f \<Rightarrow> fe_ErrSummary f),
       pp_Proposed := firstNonEmpty [pr_Subject proposal, pr_Preview proposal, pr_Tool proposal],
       pp_PlanBefore := pr_PlanBefore proposal, pp_PlanAfter := pr_PlanAfter proposal\<rparr>"

text \<open>\<open>askHuman\<close> up to the call of \<open>EmitPrompt\<close>.\<close>

definition askHuman ::
  "gate_env \<Rightarrow> gostr \<Rightarrow> gostr \<Rightarrow> u64 \<Rightarrow> Proposal \<Rightarrow> FailureEvent option \<Rightarrow> gostr list \<Rightarrow> ChangeKind
   \<Rightarrow> gostr \<Rightarrow> Gate \<Rightarrow> Gate \<times> outcome" where
  "askHuman env tid fp gen proposal failure diagNotes kind rationale g =
     (let pending = pendingFor fp proposal failure diagNotes kind rationale in
      if ge_Headless env \<or> \<not> ge_EmitPrompt env
      then (g, Decided (blockDecision (headlessBlockerMessage pending failure) gen))
      else
        (let reply = length (g_chans g);
             repeated = (case map_of (g_tasks g) tid of None \<Rightarrow> False | Some st \<Rightarrow> 1 < failureCount st);
             m = g_metrics g;
             g1 = g\<lparr>g_chans := g_chans g @ [None],
                    g_metrics := m\<lparr>m_HumanPrompts := m_HumanPrompts m + 1,
                      m_RepeatPrompts := m_RepeatPrompts m + (if repeated then 1 else 0)\<rparr>,
                    g_waiters := AList.update (provisional tid) reply (g_waiters g),
                    g_taskOf := AList.update (provisional tid) tid (g_taskOf g),
                    g_pending := AList.update (provisional tid) pending (g_pending g),
                    g_awaiting := insert tid (g_awaiting g)\<rparr>
         in (g1, Parked \<lparr>pk_task = tid, pk_generation = gen, pk_proposal = proposal,
                         pk_failure = failure, pk_pending = pending, pk_reply = reply,
                         pk_approval = []\<rparr>)))"

text \<open>\<open>EmitPrompt\<close> failed, or returned an empty id.\<close>

definition promptFailed :: "parked \<Rightarrow> gostr \<Rightarrow> Gate \<Rightarrow> Gate \<times> outcome" where
  "promptFailed pk err g =
     (dropApproval (provisional (pk_task pk)) (pk_task pk) g,
      Failed (blockDecision (''blocked: Auto Guard prompt failed: '' @ err) (pk_generation pk)) err)"

definition promptShown :: "gate_env \<Rightarrow> parked \<Rightarrow> gostr \<Rightarrow> Gate \<Rightarrow> Gate \<times> outcome" where
  "promptShown env pk aid0 g =
     (let aid = TrimSpace aid0; tid = pk_task pk; prov = provisional tid in
      if aid = [] then
        (dropApproval prov tid g,
         Failed (blockDecision ''blocked: Auto Guard prompt returned empty id'' (pk_generation pk))
           ''empty Auto Guard approval id'')
      else
        (let (g1, reply) =
           (case map_of (g_waiters g) prov of
              Some provReply \<Rightarrow>
                (let gA = g\<lparr>g_waiters := AList.delete prov (g_waiters g),
                            g_taskOf := AList.delete prov (g_taskOf g)\<rparr>;
                     gB = (case map_of (g_pending gA) prov of
                             None \<Rightarrow> gA
                           | Some p \<Rightarrow>
                               gA\<lparr>g_pending := AList.update aid p (AList.delete prov (g_pending gA))\<rparr>)
                 in case map_of (g_waiters gB) aid of
                      Some existing \<Rightarrow> (gB, existing)
                    | None \<Rightarrow>
                        (gB\<lparr>g_waiters := AList.update aid provReply (g_waiters gB),
                            g_taskOf := AList.update aid tid (g_taskOf gB)\<rparr>, provReply))
            | None \<Rightarrow>
                (case map_of (g_waiters g) aid of
                   Some existing \<Rightarrow> (g, existing)
                 | None \<Rightarrow> (g, pk_reply pk)))
         in (persist env (g1\<lparr>g_awaiting := insert tid (g_awaiting g1)\<rparr>),
             Parked (pk\<lparr>pk_reply := reply, pk_approval := aid\<rparr>))))"

definition decisionFromResolve :: "resolvePayload \<Rightarrow> RecoveryDecision" where
  "decisionFromResolve payload =
     (if rp_action payload = ActionContinue \<or> rp_action payload = ActionContinueTask
      then noDecision\<lparr>rd_Allow := True\<rparr>
      else if rp_action payload = ActionRevise then
        (let fb0 = TrimSpace (rp_feedback payload);
             fb = (if fb0 = [] then DefaultReviseFeedback else fb0)
         in noDecision\<lparr>rd_Blocked := True,
              rd_Message := ''blocked: user requested a revised Auto Guard action'' @ '': '' @ fb\<rparr>)
      else noDecision\<lparr>rd_Blocked := True, rd_Message := ''blocked: unknown Auto Guard action''\<rparr>)"

text \<open>The receive on the reply channel; it blocks (\<open>None\<close>) while the channel is empty.\<close>

definition promptAnswered :: "parked \<Rightarrow> Gate \<Rightarrow> (Gate \<times> outcome) option" where
  "promptAnswered pk g =
     (if pk_reply pk < length (g_chans g) then
        (case g_chans g ! pk_reply pk of
           None \<Rightarrow> None
         | Some payload \<Rightarrow>
             (let d0 = decisionFromResolve payload;
                  d1 = (if rd_Allow d0 \<and> pr_PlanTransition (pk_proposal pk)
                        then d0\<lparr>rd_AuthorizePlanReplacement := True\<rparr> else d0)
              in Some (g\<lparr>g_chans := (g_chans g)[pk_reply pk := None]\<rparr>,
                       Decided (d1\<lparr>rd_Generation := pk_generation pk\<rparr>))))
      else None)"

definition promptCancelled :: "gate_env \<Rightarrow> parked \<Rightarrow> gostr \<Rightarrow> Gate \<Rightarrow> Gate \<times> outcome" where
  "promptCancelled env pk err g =
     (persist env (dropApproval (pk_approval pk) (pk_task pk) g),
      Failed (blockDecision ''blocked: Auto Guard confirmation cancelled'' (pk_generation pk)) err)"

subsection \<open>Judging a proposal\<close>

definition addMetrics :: "(Metrics \<Rightarrow> Metrics) \<Rightarrow> Gate \<Rightarrow> Gate" where
  "addMetrics f g = g\<lparr>g_metrics := f (g_metrics g)\<rparr>"

text \<open>The stop of an exhausted review budget.\<close>

definition reviewStop ::
  "gate_env \<Rightarrow> gostr \<Rightarrow> u64 \<Rightarrow> Proposal \<Rightarrow> Gate \<Rightarrow> Gate \<times> outcome" where
  "reviewStop env tid gen proposal g =
     (let g1 = addMetrics (\<lambda>m. m\<lparr>m_ReviewStops := m_ReviewStops m + 1\<rparr>)
                 (g\<lparr>g_episode := stopBudget StopReasonReviewRejects (g_episode g)\<rparr>);
          (g2, dec) = stopTurnDecision env tid gen StopReasonReviewRejects proposal g1
      in (g2, Decided dec))"

text \<open>What follows a verdict the reviewer returned.\<close>

definition applyVerdict ::
  "gate_env \<Rightarrow> gostr \<Rightarrow> gostr \<Rightarrow> u64 \<Rightarrow> Proposal \<Rightarrow> FailureEvent option \<Rightarrow> gostr list
   \<Rightarrow> ReviewVerdict \<Rightarrow> Gate \<Rightarrow> Gate \<times> outcome" where
  "applyVerdict env tid fp gen proposal failure diagNotes verdict g =
     (if rv_Outcome verdict = ReviewContinue \<and> reviewerContinueKind (rv_ChangeKind verdict) then
        (addMetrics (\<lambda>m. m\<lparr>m_ReviewContinues := m_ReviewContinues m + 1\<rparr>) g,
         Decided ((allowDecision gen)\<lparr>rd_AuthorizePlanReplacement := pr_PlanTransition proposal\<rparr>))
      else if pr_PlanTransition proposal \<and> reviewerPlanDecision verdict then
        askHuman env tid fp gen proposal failure diagNotes (rv_ChangeKind verdict)
          (rv_Rationale verdict) g
      else
        (let (g1, blocks) = recordReviewBlock env tid verdict g in
         if int blocks < ge_MaxReviewBlocks env
         then (g1, Decided (blockDecision
                (reviewerBlockerMessage verdict blocks (ge_MaxReviewBlocks env)) gen))
         else reviewStop env tid gen proposal g1))"

definition ruleContinue :: "u64 \<Rightarrow> Gate \<Rightarrow> Gate \<times> outcome" where
  "ruleContinue gen g =
     (addMetrics (\<lambda>m. m\<lparr>m_RuleContinues := m_RuleContinues m + 1\<rparr>) g, Decided (allowDecision gen))"

definition reviewOrEscalate ::
  "gate_env \<Rightarrow> int \<Rightarrow> gostr \<Rightarrow> gostr \<Rightarrow> u64 \<Rightarrow> Proposal \<Rightarrow> FailureEvent option \<Rightarrow> gostr list
   \<Rightarrow> Gate \<Rightarrow> Gate \<times> outcome" where
  "reviewOrEscalate env latency tid fp gen proposal failure diagNotes g =
     (if (of_int (ge_MaxReviewBlocks env) :: u8) \<le> eb_reviewRejects (g_episode g)
      then reviewStop env tid gen proposal g
      else
        (case ge_Reviewer env of
           None \<Rightarrow>
             if pr_PlanTransition proposal then
               askHuman env tid fp gen proposal failure diagNotes ChangeScope
                 ''The active execution plan changed and needs your choice because no independent plan reviewer is configured.'' g
             else ruleContinue gen g
         | Some review \<Rightarrow>
             (let summary0 = TrimSpace (pr_TaskSummary proposal);
                  summary = (if summary0 = []
                             then (case ge_TaskSummary env of None \<Rightarrow> [] | Some t \<Rightarrow> t) else summary0);
                  result = review failure diagNotes proposal summary;
                  g1 = addMetrics (\<lambda>m. m\<lparr>m_ReviewLatencyMsSum := m_ReviewLatencyMsSum m + latency,
                                         m_ReviewLatencyCount := m_ReviewLatencyCount m + 1\<rparr>) g
              in case result of
                   Inl err \<Rightarrow>
                     (let g2 = addMetrics (\<lambda>m. m\<lparr>m_ReviewErrors := m_ReviewErrors m + 1\<rparr>) g1 in
                      if pr_PlanTransition proposal then
                        askHuman env tid fp gen proposal failure diagNotes ChangeScope
                          ''The active execution plan changed, but the independent plan reviewer is unavailable.'' g2
                      else ruleContinue gen g2)
                 | Inr v \<Rightarrow>
                     applyVerdict env tid fp gen proposal failure diagNotes
                       (normalizeVerdict v failure proposal diagNotes) g1)))"

definition spendSafeRetry :: "gate_env \<Rightarrow> gostr \<Rightarrow> Gate \<Rightarrow> Gate" where
  "spendSafeRetry env tid g =
     persist env
       (case map_of (g_tasks g) tid of
          None \<Rightarrow> g
        | Some st \<Rightarrow>
            (case tr_lastFailure st of
               None \<Rightarrow> g
             | Some af \<Rightarrow>
                 if \<not> af_safeRetryUsed af then
                   addMetrics (\<lambda>m. m\<lparr>m_RuleContinues := m_RuleContinues m + 1\<rparr>)
                     (setTask tid (st\<lparr>tr_lastFailure := Some (af\<lparr>af_safeRetryUsed := True\<rparr>)\<rparr>) g)
                 else g))"

text \<open>The route of \<open>Decide\<close>, carried out.\<close>

definition followRoute ::
  "gate_env \<Rightarrow> int \<Rightarrow> classified \<Rightarrow> Proposal \<Rightarrow> DecisionResult \<Rightarrow> Gate \<Rightarrow> Gate \<times> outcome" where
  "followRoute env latency cl proposal route g =
     (let tid = cl_taskID cl; gen = cl_generation cl; facts = cl_facts cl in
      if f_AutoMode facts \<and> MaxEpisodeFailures \<le> unat (f_EpisodeFailureCount facts)
         \<and> (f_Mutates facts \<or> f_Verification facts)
      then (case stopTurnDecision env tid gen StopReasonEpisodeFailures proposal g of
              (g1, dec) \<Rightarrow> (g1, Decided dec))
      else
        (case dr_Route route of
           RouteBypass \<Rightarrow> (if dr_ConsumeSafeRetry route then spendSafeRetry env tid g else g,
                           Decided (allowDecision gen))
         | RouteAllow \<Rightarrow> (if dr_ConsumeSafeRetry route then spendSafeRetry env tid g else g,
                          Decided (allowDecision gen))
         | RouteReview \<Rightarrow>
             reviewOrEscalate env latency tid (cl_approvalFP cl) gen proposal (cl_failure cl)
               (cl_notes cl) g
         | RouteStop \<Rightarrow>
             (g, Decided ((blockDecision
                   (repeatedFailureStopMessage (unat (f_FailureCount facts)) proposal) gen)
                     \<lparr>rd_StopReason := stopReasonString StopReasonOperationFailures\<rparr>))
         | RouteStopTurn \<Rightarrow>
             (case stopTurnDecision env tid gen (dr_StopReason route) proposal g of
                (g1, dec) \<Rightarrow> (g1, Decided dec))))"

definition BeforeMutation ::
  "gate_env \<Rightarrow> gostr \<Rightarrow> int \<Rightarrow> Proposal \<Rightarrow> Gate \<Rightarrow> Gate \<times> outcome" where
  "BeforeMutation env mode latency proposal g =
     (let (g1, cl) = classify env mode proposal g; facts = cl_facts cl in
      if f_AutoMode facts \<and> f_OperationAlreadyStopped facts \<and> f_SameFailedOperation facts then
        (case noteStoppedOpRetry env (cl_taskID cl) (cl_generation cl) proposal g1 of
           (g2, Some dec) \<Rightarrow> (g2, Decided dec)
         | (g2, None) \<Rightarrow>
             followRoute env latency cl proposal
               \<lparr>dr_Route = RouteStop, dr_ConsumeSafeRetry = False,
                dr_StopReason = StopReasonOperationFailures\<rparr> g2)
      else followRoute env latency cl proposal (Decide facts) g1)"

end
