(* ===== verification/Recovery_Inv.thy ===== *)
theory Recovery_Inv imports Recovery_Calls begin

text \<open>
  The type invariant of Auto Guard: what holds of the gate's ids, budgets, tasks and
  waiting approvals after any sequence of calls. It is stated per field, every helper
  has its frame, every method its preservation lemma, and \<open>gate_reachable\<close> is the state
  machine of all calls with the state changes of the environment.
\<close>

subsection \<open>Frames\<close>

lemma persist_frame [simp, frame_simps]:
  "g_tasks (persist env g) = g_tasks g" "g_metrics (persist env g) = g_metrics g"
  "g_waiters (persist env g) = g_waiters g" "g_taskOf (persist env g) = g_taskOf g"
  "g_pending (persist env g) = g_pending g" "g_awaiting (persist env g) = g_awaiting g"
  "g_episodeSeq (persist env g) = g_episodeSeq g" "g_episodeID (persist env g) = g_episodeID g"
  "g_generation (persist env g) = g_generation g" "g_episode (persist env g) = g_episode g"
  "g_chans (persist env g) = g_chans g" "g_key (persist env g) = g_key g"
  by (simp_all add: persist_def)

lemma persistUnlocked_frame [simp, frame_simps]:
  "g_tasks (persistUnlocked env g) = g_tasks g" "g_metrics (persistUnlocked env g) = g_metrics g"
  "g_waiters (persistUnlocked env g) = g_waiters g" "g_taskOf (persistUnlocked env g) = g_taskOf g"
  "g_pending (persistUnlocked env g) = g_pending g"
  "g_awaiting (persistUnlocked env g) = g_awaiting g"
  "g_episodeSeq (persistUnlocked env g) = g_episodeSeq g"
  "g_episodeID (persistUnlocked env g) = g_episodeID g"
  "g_generation (persistUnlocked env g) = g_generation g"
  "g_episode (persistUnlocked env g) = g_episode g" "g_chans (persistUnlocked env g) = g_chans g"
  by (simp_all add: persistUnlocked_def)

lemma setTask_frame [simp, frame_simps]:
  "g_tasks (setTask tid st g) = AList.update tid st (g_tasks g)"
  "g_metrics (setTask tid st g) = g_metrics g" "g_waiters (setTask tid st g) = g_waiters g"
  "g_taskOf (setTask tid st g) = g_taskOf g" "g_pending (setTask tid st g) = g_pending g"
  "g_episodeSeq (setTask tid st g) = g_episodeSeq g" "g_episodeID (setTask tid st g) = g_episodeID g"
  "g_generation (setTask tid st g) = g_generation g" "g_episode (setTask tid st g) = g_episode g"
  "g_chans (setTask tid st g) = g_chans g" "g_awaiting (setTask tid st g) = g_awaiting g"
  by (simp_all add: setTask_def)

lemma deleteTask_frame [simp, frame_simps]:
  "g_tasks (deleteTask tid g) = AList.delete tid (g_tasks g)"
  "g_metrics (deleteTask tid g) = g_metrics g" "g_waiters (deleteTask tid g) = g_waiters g"
  "g_taskOf (deleteTask tid g) = g_taskOf g" "g_pending (deleteTask tid g) = g_pending g"
  "g_episodeSeq (deleteTask tid g) = g_episodeSeq g" "g_episodeID (deleteTask tid g) = g_episodeID g"
  "g_generation (deleteTask tid g) = g_generation g" "g_episode (deleteTask tid g) = g_episode g"
  "g_chans (deleteTask tid g) = g_chans g" "g_awaiting (deleteTask tid g) = g_awaiting g"
  by (simp_all add: deleteTask_def)

lemma dropApproval_frame [simp, frame_simps]:
  "g_tasks (dropApproval aid tid g) = g_tasks g"
  "g_waiters (dropApproval aid tid g) = AList.delete aid (g_waiters g)"
  "g_taskOf (dropApproval aid tid g) = AList.delete aid (g_taskOf g)"
  "g_pending (dropApproval aid tid g) = AList.delete aid (g_pending g)"
  "g_awaiting (dropApproval aid tid g) = g_awaiting g - {tid}"
  "g_episodeSeq (dropApproval aid tid g) = g_episodeSeq g"
  "g_episodeID (dropApproval aid tid g) = g_episodeID g"
  "g_generation (dropApproval aid tid g) = g_generation g"
  "g_episode (dropApproval aid tid g) = g_episode g" "g_chans (dropApproval aid tid g) = g_chans g"
  by (simp_all add: dropApproval_def)

lemma trySend_frame [simp, frame_simps]:
  "g_tasks (trySend ch p g) = g_tasks g" "g_metrics (trySend ch p g) = g_metrics g"
  "g_waiters (trySend ch p g) = g_waiters g" "g_taskOf (trySend ch p g) = g_taskOf g"
  "g_pending (trySend ch p g) = g_pending g" "g_awaiting (trySend ch p g) = g_awaiting g"
  "g_episodeSeq (trySend ch p g) = g_episodeSeq g" "g_episodeID (trySend ch p g) = g_episodeID g"
  "g_generation (trySend ch p g) = g_generation g" "g_episode (trySend ch p g) = g_episode g"
  "length (g_chans (trySend ch p g)) = length (g_chans g)"
  by (simp_all add: trySend_def)

lemma sendTo_frame [simp, frame_simps]:
  "g_tasks (sendTo c p g) = g_tasks g" "g_waiters (sendTo c p g) = g_waiters g"
  "g_pending (sendTo c p g) = g_pending g" "g_episodeSeq (sendTo c p g) = g_episodeSeq g"
  "g_episodeID (sendTo c p g) = g_episodeID g" "g_generation (sendTo c p g) = g_generation g"
  "g_episode (sendTo c p g) = g_episode g" "g_taskOf (sendTo c p g) = g_taskOf g"
  "g_awaiting (sendTo c p g) = g_awaiting g"
  "length (g_chans (sendTo c p g)) = length (g_chans g)"
  by (simp_all add: sendTo_def split: option.splits)

lemma finishDismissed_frame [simp, frame_simps]:
  "g_tasks (finishDismissed ds g) = g_tasks g" "g_metrics (finishDismissed ds g) = g_metrics g"
  "g_waiters (finishDismissed ds g) = g_waiters g" "g_taskOf (finishDismissed ds g) = g_taskOf g"
  "g_pending (finishDismissed ds g) = g_pending g"
  "g_awaiting (finishDismissed ds g) = g_awaiting g"
  "g_episodeSeq (finishDismissed ds g) = g_episodeSeq g"
  "g_episodeID (finishDismissed ds g) = g_episodeID g"
  "g_generation (finishDismissed ds g) = g_generation g"
  "g_episode (finishDismissed ds g) = g_episode g"
  "length (g_chans (finishDismissed ds g)) = length (g_chans g)"
  by (induction ds arbitrary: g) simp_all

lemma addMetrics_frame [simp, frame_simps]:
  "g_tasks (addMetrics f g) = g_tasks g" "g_waiters (addMetrics f g) = g_waiters g"
  "g_taskOf (addMetrics f g) = g_taskOf g" "g_pending (addMetrics f g) = g_pending g"
  "g_awaiting (addMetrics f g) = g_awaiting g" "g_episodeSeq (addMetrics f g) = g_episodeSeq g"
  "g_episodeID (addMetrics f g) = g_episodeID g" "g_generation (addMetrics f g) = g_generation g"
  "g_episode (addMetrics f g) = g_episode g" "g_chans (addMetrics f g) = g_chans g"
  by (simp_all add: addMetrics_def)

lemma collectLoop_frame [simp, frame_simps]:
  "g_tasks (fst (collectLoop p ws g)) = g_tasks g"
  "g_metrics (fst (collectLoop p ws g)) = g_metrics g"
  "g_episodeSeq (fst (collectLoop p ws g)) = g_episodeSeq g"
  "g_episodeID (fst (collectLoop p ws g)) = g_episodeID g"
  "g_generation (fst (collectLoop p ws g)) = g_generation g"
  "g_episode (fst (collectLoop p ws g)) = g_episode g"
  "g_chans (fst (collectLoop p ws g)) = g_chans g"
  "g_key (fst (collectLoop p ws g)) = g_key g" "g_pst (fst (collectLoop p ws g)) = g_pst g"
  by (induction ws arbitrary: g) (auto simp: Let_def case_prod_beta)

lemma rotateEpisode_frame [simp, frame_simps]:
  "g_tasks (rotateEpisode g) = g_tasks g" "g_waiters (rotateEpisode g) = g_waiters g"
  "g_pending (rotateEpisode g) = g_pending g" "g_chans (rotateEpisode g) = g_chans g"
  "g_taskOf (rotateEpisode g) = g_taskOf g" "g_awaiting (rotateEpisode g) = g_awaiting g"
  "g_episodeSeq (rotateEpisode g) = bump64 (g_episodeSeq g)"
  "g_episodeID (rotateEpisode g) = episodeName (bump64 (g_episodeSeq g))"
  "g_generation (rotateEpisode g) = bump64 (g_generation g)"
  "g_episode (rotateEpisode g) = clearBudget"
  by (simp_all add: rotateEpisode_def Let_def)

subsection \<open>Association lists\<close>

lemma set_update_subset: "set (AList.update k v m) \<subseteq> insert (k, v) (set m)"
  by (induction m) auto

lemma set_delete_subset: "set (AList.delete k m) \<subseteq> set m"
  by (auto simp: AList.delete_eq)

lemma list_all_update [inv_intros]:
  "P (k, v) \<Longrightarrow> list_all P m \<Longrightarrow> list_all P (AList.update k v m)"
  using set_update_subset [of k v m] by (auto simp: list_all_iff)

lemma list_all_delete [inv_intros]: "list_all P m \<Longrightarrow> list_all P (AList.delete k m)"
  using set_delete_subset [of k m] by (auto simp: list_all_iff)

lemma list_all_map_of: "list_all P m \<Longrightarrow> map_of m k = Some v \<Longrightarrow> P (k, v)"
  by (auto simp: list_all_iff dest: map_of_SomeD)

lemma collectLoop_pending:
  "list_all P (g_pending g) \<Longrightarrow> list_all P (g_pending (fst (collectLoop p ws g)))"
  by (induction ws arbitrary: g) (auto simp: Let_def case_prod_beta list_all_delete)

lemma collectLoop_waiters:
  "list_all P (g_waiters g) \<Longrightarrow> list_all P (g_waiters (fst (collectLoop p ws g)))"
  by (induction ws arbitrary: g) (auto simp: Let_def case_prod_beta list_all_delete)

subsection \<open>The invariant\<close>

definition wf_ids :: "u64 \<Rightarrow> u64 \<Rightarrow> gostr \<Rightarrow> bool" where
  "wf_ids gen seq eid \<longleftrightarrow> gen \<noteq> 0 \<and> seq \<noteq> 0 \<and> eid = episodeName seq"

definition wf_budget :: "episodeBudget \<Rightarrow> bool" where
  "wf_budget ep \<longleftrightarrow>
     (eb_stopped ep = (eb_stopReason ep \<noteq> StopReasonNone))
     \<and> eb_stopReason ep \<noteq> StopReasonOperationFailures
     \<and> (eb_stopped ep \<or> unat (eb_totalFailures ep) < MaxEpisodeFailures)
     \<and> (eb_stopped ep \<or> unat (eb_stoppedOpRetries ep) < MaxStoppedOperationRetries)
     \<and> (eb_stopped ep \<or> \<not> eb_finalizationOffered ep \<and> \<not> eb_finalizationConsumed ep)"

definition wf_runtime :: "gostr \<Rightarrow> taskRuntime \<Rightarrow> bool" where
  "wf_runtime eid st \<longleftrightarrow>
     tr_episodeID st = eid
     \<and> distinct (map fst (tr_operationFailures st))
     \<and> tr_stoppedOps st = {fp. fp \<noteq> [] \<and> MaxOperationFailures \<le> unat (operationCount st fp)}
     \<and> tr_taskGrants st = {}
     \<and> (case tr_lastFailure st of
          None \<Rightarrow> tr_operationFailures st = []
        | Some af \<Rightarrow> notes_ok (af_diagnosis af))"

definition wf_tasks :: "gostr \<Rightarrow> taskRuntime gomap \<Rightarrow> bool" where
  "wf_tasks eid tasks \<longleftrightarrow> distinct (map fst tasks) \<and> list_all (\<lambda>(tid, st). wf_runtime eid st) tasks"

definition wf_waiters :: "nat \<Rightarrow> nat gomap \<Rightarrow> bool" where
  "wf_waiters n ws \<longleftrightarrow> list_all (\<lambda>(aid, ch). ch < n) ws"

definition wf_pending :: "PendingProposal gomap \<Rightarrow> bool" where
  "wf_pending ps \<longleftrightarrow> list_all (\<lambda>(aid, p). pp_TaskGrantKey p = []) ps"

definition wf_gate :: "Gate \<Rightarrow> bool" where
  "wf_gate g \<longleftrightarrow>
     wf_ids (g_generation g) (g_episodeSeq g) (g_episodeID g) \<and> wf_budget (g_episode g)
     \<and> wf_tasks (g_episodeID g) (g_tasks g) \<and> wf_waiters (length (g_chans g)) (g_waiters g)
     \<and> wf_pending (g_pending g)"

subsection \<open>Budgets\<close>

lemma wf_budget_clear [simp]: "wf_budget clearBudget"
  by (simp add: wf_budget_def clearBudget_def MaxEpisodeFailures_def MaxStoppedOperationRetries_def)

lemma wf_budget_stop [inv_intros]:
  "wf_budget ep \<Longrightarrow> r \<noteq> StopReasonNone \<Longrightarrow> r \<noteq> StopReasonOperationFailures \<Longrightarrow> wf_budget (stopBudget r ep)"
  by (cases "eb_stopped ep") (auto simp: wf_budget_def stopBudget_def)

lemma wf_budget_failure [inv_intros]: "wf_budget ep \<Longrightarrow> wf_budget (countEpisodeFailure ep)"
  by (cases "eb_stopped ep") (auto simp: wf_budget_def countEpisodeFailure_def Let_def)

lemma wf_budget_rejects [inv_intros]: "wf_budget ep \<Longrightarrow> wf_budget (ep\<lparr>eb_reviewRejects := n\<rparr>)"
  by (cases "eb_stopped ep") (auto simp: wf_budget_def)

subsection \<open>Runtimes and tasks\<close>

lemma wf_runtime_new [simp]: "wf_runtime eid (newRuntime eid)"
  by (simp add: wf_runtime_def operationCount_def MaxOperationFailures_def)

lemma wf_runtime_clear [inv_intros]:
  "wf_runtime eid st \<Longrightarrow> wf_runtime eid' ((clearTaskRecoveryState st)\<lparr>tr_episodeID := eid'\<rparr>)"
  by (simp add: wf_runtime_def operationCount_def MaxOperationFailures_def)

lemma wf_runtime_failure [inv_intros]:
  assumes "wf_runtime eid st" and "notes_ok (af_diagnosis af)"
  shows "wf_runtime eid ((countFailure eid fp st)\<lparr>tr_lastFailure := Some af\<rparr>)"
proof -
  define n where "n = sat_inc8 (operationCount st fp)"
  have mono: "unat (operationCount st fp) \<le> unat n"
    using sat_inc8_mono [of "operationCount st fp"] by (simp add: n_def word_le_nat_alt)
  let ?st = "countFailure eid fp st"
  have count: "operationCount (?st\<lparr>tr_lastFailure := Some af\<rparr>) q = (if q = fp then n else operationCount st q)" for q
    by (simp add: countFailure_def Let_def markOperationStopped_def operationCount_def
        AList.update_conv' n_def)
  have "tr_stoppedOps ?st = {q. q \<noteq> [] \<and> MaxOperationFailures \<le> unat (if q = fp then n else operationCount st q)}"
    using assms(1) mono
    by (auto simp: countFailure_def Let_def markOperationStopped_def wf_runtime_def n_def [symmetric])
  moreover have "tr_episodeID ?st = eid" "distinct (map fst (tr_operationFailures ?st))"
    "tr_taskGrants ?st = {}"
    using assms(1)
    by (auto simp: countFailure_def Let_def markOperationStopped_def wf_runtime_def
        intro: AList.distinct_update)
  ultimately show ?thesis using assms(2) unfolding wf_runtime_def count by simp
qed

lemma wf_runtime_guidance [inv_intros]:
  "wf_runtime eid st \<Longrightarrow> wf_runtime eid (fst (recoveryGuidanceLocked st))"
  by (simp add: recoveryGuidanceLocked_def wf_runtime_def operationCount_def split: option.splits)

lemma wf_runtime_scope [inv_intros]:
  "wf_runtime eid st \<Longrightarrow> wf_runtime eid (useTaskGrantScope st sc)"
proof -
  assume wf: "wf_runtime eid st"
  then have "tr_taskGrants (useTaskGrantScope st sc) = {}"
    by (simp add: useTaskGrantScope_def Let_def wf_runtime_def)
  then show ?thesis using wf
    by (simp add: wf_runtime_def operationCount_def split: option.splits)
qed

lemma wf_runtime_evidence [inv_intros]:
  "wf_runtime eid st \<Longrightarrow> tr_lastFailure st = Some af \<Longrightarrow> notes_ok (af_diagnosis af')
   \<Longrightarrow> wf_runtime eid (st\<lparr>tr_lastFailure := Some af'\<rparr>)"
  by (simp add: wf_runtime_def operationCount_def)

lemma wf_tasksD: "wf_tasks eid tasks \<Longrightarrow> map_of tasks tid = Some st \<Longrightarrow> wf_runtime eid st"
  unfolding wf_tasks_def using list_all_map_of by fastforce

lemma wf_tasks_update [inv_intros]:
  "wf_tasks eid tasks \<Longrightarrow> wf_runtime eid st \<Longrightarrow> wf_tasks eid (AList.update tid st tasks)"
  unfolding wf_tasks_def by (auto intro: AList.distinct_update list_all_update)

lemma wf_tasks_delete [inv_intros]: "wf_tasks eid tasks \<Longrightarrow> wf_tasks eid (AList.delete tid tasks)"
  unfolding wf_tasks_def by (auto intro: AList.distinct_delete list_all_delete)

lemma retireTasks_closed:
  "retireTasks eid tasks =
     map (\<lambda>(tid, st). (tid, (clearTaskRecoveryState st)\<lparr>tr_episodeID := eid\<rparr>))
       (filter (\<lambda>(tid, st). hasTaskGrants st) tasks)"
proof -
  have "hasTaskGrants ((clearTaskRecoveryState st)\<lparr>tr_episodeID := eid\<rparr>) = hasTaskGrants st"
    and "runtimeEmpty ((clearTaskRecoveryState st)\<lparr>tr_episodeID := eid\<rparr>)" for st
    by (simp_all add: hasTaskGrants_def runtimeEmpty_def)
  then show ?thesis
    by (induction tasks) (auto simp: retireTasks_def List.map_filter_simps Let_def)
qed

text \<open>Without grants an episode change leaves no task behind.\<close>

lemma wf_tasks_retire: "wf_tasks eid tasks \<Longrightarrow> retireTasks eid' tasks = []"
  by (auto simp: retireTasks_closed wf_tasks_def list_all_iff wf_runtime_def hasTaskGrants_def
      filter_empty_conv)

lemma wf_tasks_Nil [simp]: "wf_tasks eid []"
  by (simp add: wf_tasks_def)

lemma wf_tasks_restore: "wf_tasks eid tasks \<Longrightarrow> wf_tasks eid (restoreTasks eid snap tasks)"
proof (induction eid snap tasks rule: restoreTasks.induct)
  case (2 eid tid ts rest tasks)
  have "wf_runtime eid (rt\<lparr>tr_episodeID := eid\<rparr>)"
    if "ts = Some t" "taskRuntimeFromState t = Some rt" for t rt
    using that by (auto simp: taskRuntimeFromState_def Let_def wf_runtime_def operationCount_def
        MaxOperationFailures_def split: option.splits)
  with 2 show ?case by (auto simp: wf_tasks_update split: option.splits)
qed simp

subsection \<open>Episodes preserve the invariant\<close>

lemma wf_gateI:
  assumes "wf_ids (g_generation g) (g_episodeSeq g) (g_episodeID g)" "wf_budget (g_episode g)"
    "wf_tasks (g_episodeID g) (g_tasks g)" "wf_waiters (length (g_chans g)) (g_waiters g)"
    "wf_pending (g_pending g)"
  shows "wf_gate g"
  using assms by (simp add: wf_gate_def)

lemma wf_ids_bump [simp]: "wf_ids (bump64 n) (bump64 k) (episodeName (bump64 k))"
  by (simp add: wf_ids_def)

lemma wf_gate_persist [simp]:
  "wf_gate (persist env g) = wf_gate g" "wf_gate (persistUnlocked env g) = wf_gate g"
  by (simp_all add: wf_gate_def)

lemma wf_gate_metrics [simp]:
  "wf_gate (g\<lparr>g_metrics := m\<rparr>) = wf_gate g" "wf_gate (addMetrics f g) = wf_gate g"
  "wf_gate (g\<lparr>g_awaiting := w\<rparr>) = wf_gate g" "wf_gate (g\<lparr>g_taskOf := t\<rparr>) = wf_gate g"
  "wf_gate (g\<lparr>g_lastMode := l\<rparr>) = wf_gate g" "wf_gate (g\<lparr>g_haveMode := h\<rparr>) = wf_gate g"
  "wf_gate (g\<lparr>g_key := k\<rparr>) = wf_gate g" "wf_gate (g\<lparr>g_pst := s\<rparr>) = wf_gate g"
  by (simp_all add: wf_gate_def)

lemma wf_gate_send [simp]:
  "wf_gate (trySend c p g) = wf_gate g" "wf_gate (sendTo ch p g) = wf_gate g"
  "wf_gate (finishDismissed ds g) = wf_gate g"
  by (simp_all add: wf_gate_def)

lemma wf_gate_setTask [inv_intros]:
  "wf_gate g \<Longrightarrow> wf_runtime (g_episodeID g) st \<Longrightarrow> wf_gate (setTask tid st g)"
  by (simp add: wf_gate_def wf_tasks_update)

lemma wf_gate_deleteTask [inv_intros]: "wf_gate g \<Longrightarrow> wf_gate (deleteTask tid g)"
  by (simp add: wf_gate_def wf_tasks_delete)

lemma wf_gate_dropApproval [inv_intros]: "wf_gate g \<Longrightarrow> wf_gate (dropApproval aid tid g)"
  by (simp add: wf_gate_def wf_waiters_def wf_pending_def list_all_delete)

lemma wf_gate_episode [inv_intros]: "wf_gate g \<Longrightarrow> wf_budget ep \<Longrightarrow> wf_gate (g\<lparr>g_episode := ep\<rparr>)"
  by (simp add: wf_gate_def)

lemma wf_gate_runtime: "wf_gate g \<Longrightarrow> map_of (g_tasks g) tid = Some st \<Longrightarrow> wf_runtime (g_episodeID g) st"
  unfolding wf_gate_def using wf_tasksD by blast

lemma wf_gate_budget: "wf_gate g \<Longrightarrow> wf_budget (g_episode g)"
  by (simp add: wf_gate_def)

lemma wf_NewGate: "wf_gate NewGate"
  by (simp add: wf_gate_def NewGate_def wf_ids_def wf_waiters_def wf_pending_def)

lemma wf_beginEpisodeLockedCollect:
  assumes "wf_gate g"
  shows "wf_gate (fst (beginEpisodeLockedCollect g))"
proof -
  have "wf_tasks (g_episodeID g) (g_tasks g)" using assms by (simp add: wf_gate_def)
  then have "retireTasks eid (g_tasks g) = []" for eid by (rule wf_tasks_retire)
  then show ?thesis using assms
    by (simp add: beginEpisodeLockedCollect_def Let_def collectWaitersLocked_def wf_gate_def
        wf_waiters_def wf_pending_def collectLoop_pending collectLoop_waiters)
qed

lemma wf_BeginEpisode: "wf_gate g \<Longrightarrow> wf_gate (BeginEpisode env g)"
  using wf_beginEpisodeLockedCollect [of g] by (simp add: BeginEpisode_def case_prod_beta)

lemma wf_OnModeChange:
  assumes wf: "wf_gate g"
  shows "wf_gate (fst (OnModeChange env mode g))"
proof -
  let ?g1 = "g\<lparr>g_lastMode := ToLower (TrimSpace mode),
               g_metrics := (g_metrics g)\<lparr>m_ModeResets := m_ModeResets (g_metrics g) + 1\<rparr>\<rparr>"
  have "wf_gate ?g1" using wf by (simp add: wf_gate_def)
  then have collect: "wf_gate (fst (beginEpisodeLockedCollect ?g1))"
    by (rule wf_beginEpisodeLockedCollect)
  then have "g_generation (fst (beginEpisodeLockedCollect ?g1)) \<noteq> 0"
    by (simp add: wf_gate_def wf_ids_def)
  then show ?thesis using wf collect by (simp add: OnModeChange_def Let_def case_prod_beta)
qed

lemma wf_Restore: "wf_gate g \<Longrightarrow> wf_gate (Restore snap g)"
  by (rule wf_gateI)
     (simp_all add: Restore_def Let_def wf_tasks_restore wf_waiters_def wf_pending_def)

subsection \<open>Approvals preserve the invariant\<close>

lemma wf_BindApprovalID:
  assumes wf: "wf_gate g"
  shows "wf_gate (BindApprovalID tid aid g)"
proof (rule wf_gateI)
  let ?g = "BindApprovalID tid aid g"
  show "wf_waiters (length (g_chans ?g)) (g_waiters ?g)" "wf_pending (g_pending ?g)"
    using wf list_all_map_of [of "\<lambda>(aid, ch). ch < length (g_chans g)" "g_waiters g"]
      list_all_map_of [of "\<lambda>(aid, p). pp_TaskGrantKey p = []" "g_pending g"]
    by (auto simp: BindApprovalID_def Let_def wf_gate_def wf_waiters_def wf_pending_def
        list_all_update list_all_delete split: option.splits)
qed (use wf in \<open>auto simp: BindApprovalID_def Let_def wf_gate_def split: option.splits\<close>)

lemma wf_pendingD: "wf_gate g \<Longrightarrow> map_of (g_pending g) aid = Some p \<Longrightarrow> pp_TaskGrantKey p = []"
  unfolding wf_gate_def wf_pending_def using list_all_map_of by fastforce

text \<open>No reachable approval can grant a task: \<open>continue_task\<close> is always refused.\<close>

lemma Resolve_no_grant:
  assumes "wf_gate g"
  shows "snd (Resolve env aid ActionContinueTask fb g) \<noteq> None"
  using wf_pendingD [OF assms]
  by (auto simp: Resolve_def Let_def noPending_def action_defs split: option.splits)

lemma wf_Resolve:
  assumes wf: "wf_gate g"
  shows "wf_gate (fst (Resolve env aid action fb g))"
proof (cases "action = ActionContinueTask")
  case True
  then show ?thesis using wf wf_pendingD [OF wf]
    by (auto simp: Resolve_def Let_def noPending_def action_defs split: option.splits)
next
  case False
  then show ?thesis using wf
    by (auto simp: Resolve_def Let_def split: option.splits
        intro!: wf_gate_dropApproval wf_gate_deleteTask wf_BeginEpisode)
qed

subsection \<open>Observations preserve the invariant\<close>

lemma ensureTaskLocked_frame [simp, frame_simps]:
  "g_waiters (fst (ensureTaskLocked tid g)) = g_waiters g"
  "g_taskOf (fst (ensureTaskLocked tid g)) = g_taskOf g"
  "g_pending (fst (ensureTaskLocked tid g)) = g_pending g"
  "g_awaiting (fst (ensureTaskLocked tid g)) = g_awaiting g"
  "g_episodeSeq (fst (ensureTaskLocked tid g)) = g_episodeSeq g"
  "g_episodeID (fst (ensureTaskLocked tid g)) = g_episodeID g"
  "g_generation (fst (ensureTaskLocked tid g)) = g_generation g"
  "g_episode (fst (ensureTaskLocked tid g)) = g_episode g"
  "g_metrics (fst (ensureTaskLocked tid g)) = g_metrics g"
  "g_chans (fst (ensureTaskLocked tid g)) = g_chans g"
  "g_tasks (fst (ensureTaskLocked tid g)) =
     AList.update tid (snd (ensureTaskLocked tid g)) (g_tasks g)"
  by (simp_all add: ensureTaskLocked_def Let_def)

lemma wf_ensure_runtime:
  assumes "wf_gate g"
  shows "wf_runtime (g_episodeID g) (snd (ensureTaskLocked tid g))"
proof -
  have join: "wf_runtime eid st \<Longrightarrow> wf_runtime eid (st\<lparr>tr_episodeID := eid\<rparr>)" for eid st
    unfolding wf_runtime_def operationCount_def by (simp split: option.splits)
  show ?thesis
  proof (cases "map_of (g_tasks g) tid")
    case None
    then show ?thesis using join [OF wf_runtime_new] by (simp add: ensureTaskLocked_def Let_def)
  next
    case (Some st)
    then show ?thesis using wf_gate_runtime [OF assms Some] join
      by (simp add: ensureTaskLocked_def Let_def)
  qed
qed

lemma wf_ensure: "wf_gate g \<Longrightarrow> wf_gate (fst (ensureTaskLocked tid g))"
  using wf_ensure_runtime [of g tid] by (simp add: wf_gate_def wf_tasks_update)

lemma wf_clearNoProgress:
  "wf_gate g \<Longrightarrow> wf_runtime (g_episodeID g) st \<Longrightarrow> wf_gate (clearNoProgressLocked tid st g)"
  unfolding clearNoProgressLocked_def Let_def
  by (auto intro!: wf_gate_setTask wf_gate_deleteTask wf_gate_episode wf_runtime_clear)

lemma wf_recordFailure:
  assumes wf: "wf_gate g" and st: "wf_runtime (g_episodeID g) st"
  shows "wf_gate (fst (recordFailure env now tid obs st g))"
proof -
  have "wf_runtime (g_episodeID g)
      ((countFailure (g_episodeID g) fp st)\<lparr>tr_lastFailure := Some (failureEvidence dl now tid obs)\<rparr>)" for fp dl
    using st by (rule wf_runtime_failure) (simp add: failureEvidence_def)
  then show ?thesis using wf
    by (auto simp: recordFailure_def Let_def case_prod_beta
        intro!: wf_gate_setTask wf_runtime_guidance wf_gate_episode wf_budget_failure wf_gate_budget)
qed

lemma wf_runtime_notes:
  assumes "wf_runtime eid st" and "tr_lastFailure st = Some af"
  shows "wf_runtime eid (st\<lparr>tr_lastFailure := Some (fst (appendDiagnosisNote af n))\<rparr>)"
proof -
  have "notes_ok (af_diagnosis af)" using assms by (simp add: wf_runtime_def)
  then show ?thesis using assms by (intro wf_runtime_evidence appendDiagnosisNote_ok)
qed

lemma ObserveResult_gate:
  assumes "activeMode mode" and "ob_Generation obs = 0 \<or> ob_Generation obs = g_generation g"
    and "tid = normalizeTaskID (ob_TaskID obs)" and "ensureTaskLocked tid g = (g1, st)"
  shows "fst (ObserveResult env mode now obs g) =
     (if ob_Success obs \<and> (ob_Verification obs \<or> ob_Mutates obs)
      then persistUnlocked env (clearNoProgressLocked tid st g1)
      else if ob_Success obs then
        (case tr_lastFailure st of
           None \<Rightarrow> g1
         | Some af \<Rightarrow>
             (let r = appendDiagnosisNote af (diagnosticObservationNote obs) in
              if IsDiagnosticSuccess (ge_shell env) obs \<and> snd r
              then persistUnlocked env (setTask tid (st\<lparr>tr_lastFailure := Some (fst r)\<rparr>) g1)
              else g1))
      else if QualifyingFailure obs then fst (recordFailure env now tid obs st g1)
      else g1)"
  using assms by (auto simp: ObserveResult_def Let_def case_prod_beta split: option.splits)

lemma ObserveResult_ignored:
  "\<not> activeMode mode \<Longrightarrow> ObserveResult env mode now obs g = (g, [])"
  "activeMode mode \<Longrightarrow> ob_Generation obs \<noteq> 0 \<Longrightarrow> ob_Generation obs \<noteq> g_generation g
   \<Longrightarrow> ObserveResult env mode now obs g =
     (g\<lparr>g_metrics := (g_metrics g)\<lparr>m_StaleObservationsIgnored :=
          m_StaleObservationsIgnored (g_metrics g) + 1\<rparr>\<rparr>, [])"
  by (simp_all add: ObserveResult_def Let_def)

lemma wf_ObserveResult:
  assumes wf: "wf_gate g"
  shows "wf_gate (fst (ObserveResult env mode now obs g))"
proof (cases "activeMode mode \<and> (ob_Generation obs = 0 \<or> ob_Generation obs = g_generation g)")
  case True
  let ?tid = "normalizeTaskID (ob_TaskID obs)"
  let ?g1 = "fst (ensureTaskLocked ?tid g)" and ?st = "snd (ensureTaskLocked ?tid g)"
  have g1: "wf_gate ?g1" and st: "wf_runtime (g_episodeID ?g1) ?st"
    using wf_ensure [OF wf] wf_ensure_runtime [OF wf] by simp_all
  have eq: "ensureTaskLocked ?tid g = (?g1, ?st)" by simp
  have "wf_gate (setTask ?tid (?st\<lparr>tr_lastFailure := Some (fst (appendDiagnosisNote af n))\<rparr>) ?g1)"
    if "tr_lastFailure ?st = Some af" for af n
    by (rule wf_gate_setTask [OF g1 wf_runtime_notes [OF st that]])
  then show ?thesis
    using g1 wf_clearNoProgress [OF g1 st, of ?tid] wf_recordFailure [OF g1 st]
    unfolding ObserveResult_gate [OF _ _ refl eq, OF True [THEN conjunct1] True [THEN conjunct2]]
    by (simp add: Let_def split: option.splits)
next
  case False
  then show ?thesis using wf
    by (cases "activeMode mode") (simp_all add: ObserveResult_ignored)
qed

lemma wf_RecordDiagnosis: "wf_gate g \<Longrightarrow> wf_gate (RecordDiagnosis env tid note g)"
  by (auto simp: RecordDiagnosis_def Let_def case_prod_beta split: option.splits
      intro!: wf_gate_setTask wf_runtime_notes dest: wf_gate_runtime)

subsection \<open>Proposals preserve the invariant\<close>

lemma wf_align:
  assumes "wf_runtime eid st"
  shows "alignEpisode eid st = (st, False)"
proof -
  have eid: "tr_episodeID st = eid" using assms by (simp add: wf_runtime_def)
  then have "st\<lparr>tr_episodeID := eid\<rparr> = st" by (cases st) simp
  with eid show ?thesis by (auto simp: alignEpisode_def)
qed

lemma wf_retireOutsideAuto:
  assumes wf: "wf_gate g" and st: "wf_runtime (g_episodeID g) st"
    and "retireOutsideAuto auto tid st g = (g1, st1, changed)"
  shows "wf_gate g1 \<and> g_episodeID g1 = g_episodeID g
    \<and> (st1 \<noteq> None \<longrightarrow> wf_runtime (g_episodeID g) (the st1))"
proof -
  have eid: "tr_episodeID st = g_episodeID g" using st by (simp add: wf_runtime_def)
  then have "(clearTaskRecoveryState st)\<lparr>tr_episodeID := g_episodeID g\<rparr> = clearTaskRecoveryState st"
    by (cases st) (simp add: clearTaskRecoveryState_def)
  then have clear: "wf_runtime (g_episodeID g) (clearTaskRecoveryState st)"
    using wf_runtime_clear [OF st, of "g_episodeID g"] by simp
  have episode: "wf_gate (g\<lparr>g_episode := clearBudget\<rparr>)" using wf by (rule wf_gate_episode) simp
  show ?thesis
    using assms clear wf_gate_setTask [OF wf st] wf_gate_setTask [OF wf clear]
      wf_gate_setTask [OF episode, of "clearTaskRecoveryState st"]
    by (auto simp: retireOutsideAuto_def Let_def split: if_splits intro!: wf_gate_deleteTask)
qed

lemma wf_leaveAuto:
  assumes "wf_gate g" and "leaveAuto auto tid g = (g1, st1, changed)"
  shows "wf_gate g1 \<and> (\<forall>st. st1 = Some st \<longrightarrow> wf_runtime (g_episodeID g1) st)"
proof (cases "map_of (g_tasks g) tid")
  case None
  then show ?thesis using assms by (auto simp: leaveAuto_def)
next
  case (Some st)
  then show ?thesis
    using assms wf_retireOutsideAuto [OF assms(1) wf_gate_runtime [OF assms(1) Some], of auto tid g1 st1 changed]
    by (auto simp: leaveAuto_def)
qed

lemma wf_judgeTask:
  assumes wf: "wf_gate g" and st: "wf_runtime (g_episodeID g) st"
  shows "wf_gate (ju_gate (judgeTask dl boundary p tid facts0 st g))"
  using wf_gate_setTask [OF wf wf_runtime_scope [OF st]] wf_gate_deleteTask [OF wf, of tid]
  by (simp add: judgeTask_def Let_def wf_align [OF st])

lemma wf_classify:
  assumes wf: "wf_gate g"
  shows "wf_gate (fst (classify env mode proposal g))"
proof -
  have "wf_gate (ju_gate (judge dl boundary p tid facts0 (leaveAuto auto tid g)))"
    for dl boundary p tid facts0 auto
  proof -
    obtain g1 st1 changed where r: "leaveAuto auto tid g = (g1, st1, changed)" by (rule prod_cases3)
    show ?thesis using wf_leaveAuto [OF wf r] wf_judgeTask
      by (cases st1) (simp_all add: judge_def Let_def r)
  qed
  then show ?thesis by (simp add: classify_def Let_def)
qed

lemma wf_stopTurnDecision:
  "wf_gate g \<Longrightarrow> r \<noteq> StopReasonNone \<Longrightarrow> r \<noteq> StopReasonOperationFailures
   \<Longrightarrow> wf_gate (fst (stopTurnDecision env tid gen r p g))"
  by (auto simp: stopTurnDecision_def Let_def case_prod_beta
      intro!: wf_gate_episode wf_ensure wf_budget_stop wf_gate_budget)

lemma wf_noteStoppedOpRetry:
  assumes wf: "wf_gate g"
  shows "wf_gate (fst (noteStoppedOpRetry env tid gen p g))"
proof -
  let ?g1 = "fst (ensureTaskLocked tid g)"
  let ?ep = "(g_episode g)\<lparr>eb_stoppedOpRetries := sat_inc8 (eb_stoppedOpRetries (g_episode g))\<rparr>"
  have g1: "wf_gate ?g1" using wf by (rule wf_ensure)
  have "wf_budget (stopBudget StopReasonStoppedOpRetries ?ep)"
    using wf_gate_budget [OF wf]
    by (cases "eb_stopped (g_episode g)") (auto simp: wf_budget_def stopBudget_def)
  then have stop: "wf_gate (?g1\<lparr>g_episode := stopBudget StopReasonStoppedOpRetries ?ep\<rparr>)"
    by (rule wf_gate_episode [OF g1])
  moreover have "wf_gate (?g1\<lparr>g_episode := ?ep\<rparr>)"
    if "\<not> MaxStoppedOperationRetries \<le> unat (sat_inc8 (eb_stoppedOpRetries (g_episode g)))"
    using that wf_gate_budget [OF wf]
    by (intro wf_gate_episode [OF g1])
      (cases "eb_stopped (g_episode g)"; auto simp: wf_budget_def)
  ultimately show ?thesis
    by (auto simp: noteStoppedOpRetry_def Let_def case_prod_beta intro!: wf_stopTurnDecision)
qed

lemma wf_recordReviewBlock:
  assumes wf: "wf_gate g"
  shows "wf_gate (fst (recordReviewBlock env tid v g))"
proof -
  let ?g1 = "fst (ensureTaskLocked tid g)" and ?st = "snd (ensureTaskLocked tid g)"
  have g1: "wf_gate (?g1\<lparr>g_episode := (g_episode g)\<lparr>eb_reviewRejects := n\<rparr>\<rparr>)" for n
    using wf_ensure [OF wf] wf_gate_budget [OF wf] by (intro wf_gate_episode wf_budget_rejects)
  show ?thesis using g1 wf_ensure_runtime [OF wf, of tid]
    by (auto simp: recordReviewBlock_def Let_def case_prod_beta split: option.splits
        intro!: wf_gate_setTask wf_runtime_notes)
qed

subsection \<open>Prompts preserve the invariant\<close>

lemma wf_askHuman:
  assumes wf: "wf_gate g"
  shows "wf_gate (fst (askHuman env tid fp gen p failure notes kind why g))"
proof -
  have "wf_waiters (Suc n) ws" if "wf_waiters n ws" for n ws
    using that by (auto simp: wf_waiters_def list_all_iff)
  then show ?thesis using wf
    by (auto simp: askHuman_def Let_def wf_gate_def wf_waiters_def wf_pending_def pendingFor_def
        noPending_def list_all_update)
qed

lemma wf_promptFailed: "wf_gate g \<Longrightarrow> wf_gate (fst (promptFailed pk err g))"
  by (simp add: promptFailed_def wf_gate_dropApproval)

lemma wf_promptCancelled: "wf_gate g \<Longrightarrow> wf_gate (fst (promptCancelled env pk err g))"
  by (simp add: promptCancelled_def wf_gate_dropApproval)

lemma wf_promptAnswered: "wf_gate g \<Longrightarrow> promptAnswered pk g = Some (g', out) \<Longrightarrow> wf_gate g'"
  by (auto simp: promptAnswered_def Let_def wf_gate_def split: if_splits option.splits)

lemma wf_promptShown:
  assumes wf: "wf_gate g"
  shows "wf_gate (fst (promptShown env pk aid g))"
proof (cases "TrimSpace aid = []")
  case True
  then show ?thesis using wf by (simp add: promptShown_def Let_def wf_gate_dropApproval)
next
  case False
  let ?p = "provisional (pk_task pk)"
  have waiter: "ch < length (g_chans g)" if "map_of (g_waiters g) a = Some ch" for a ch
    using wf that list_all_map_of by (fastforce simp: wf_gate_def wf_waiters_def)
  have waiters: "wf_waiters (length (g_chans g)) (AList.delete ?p (g_waiters g))"
    and pending: "wf_pending (AList.delete ?p (g_pending g))"
    using wf by (simp_all add: wf_gate_def wf_waiters_def wf_pending_def list_all_delete)
  have "wf_waiters (length (g_chans g)) (AList.update a ch (AList.delete ?p (g_waiters g)))"
    if "ch < length (g_chans g)" for a ch
    using that waiters by (simp add: wf_waiters_def list_all_update)
  moreover have "wf_pending (AList.update a q (AList.delete ?p (g_pending g)))"
    if "map_of (g_pending g) b = Some q" for a b q
    using pending wf_pendingD [OF wf that] by (simp add: wf_pending_def list_all_update)
  ultimately show ?thesis using wf False waiter waiters
    by (auto simp: promptShown_def Let_def wf_gate_def case_prod_beta split: option.splits)
qed

subsection \<open>Judging preserves the invariant\<close>

lemma wf_reviewStop: "wf_gate g \<Longrightarrow> wf_gate (fst (reviewStop env tid gen p g))"
  by (auto simp: reviewStop_def Let_def case_prod_beta
      intro!: wf_stopTurnDecision wf_gate_episode wf_budget_stop wf_gate_budget)

lemma wf_applyVerdict: "wf_gate g \<Longrightarrow> wf_gate (fst (applyVerdict env tid fp gen p failure notes v g))"
  by (auto simp: applyVerdict_def case_prod_beta wf_askHuman wf_recordReviewBlock
      intro!: wf_reviewStop)

lemma wf_reviewOrEscalate:
  "wf_gate g \<Longrightarrow> wf_gate (fst (reviewOrEscalate env lat tid fp gen p failure notes g))"
  by (auto simp: reviewOrEscalate_def Let_def ruleContinue_def wf_reviewStop wf_askHuman
      wf_applyVerdict split: option.splits sum.splits)

lemma wf_spendSafeRetry:
  assumes wf: "wf_gate g"
  shows "wf_gate (spendSafeRetry env tid g)"
proof -
  have "wf_gate (setTask tid (st\<lparr>tr_lastFailure := Some (af\<lparr>af_safeRetryUsed := True\<rparr>)\<rparr>) g)"
    if "map_of (g_tasks g) tid = Some st" "tr_lastFailure st = Some af" for st af
  proof -
    have st: "wf_runtime (g_episodeID g) st" using wf that(1) by (rule wf_gate_runtime)
    then have "notes_ok (af_diagnosis af)" using that(2) by (simp add: wf_runtime_def)
    then show ?thesis using st that(2) by (intro wf_gate_setTask [OF wf] wf_runtime_evidence) simp_all
  qed
  then show ?thesis using wf by (simp add: spendSafeRetry_def split: option.splits)
qed

lemma wf_followRoute:
  assumes wf: "wf_gate g"
    and r: "dr_Route route = RouteStopTurn \<longrightarrow> dr_StopReason route \<noteq> StopReasonNone
              \<and> dr_StopReason route \<noteq> StopReasonOperationFailures"
  shows "wf_gate (fst (followRoute env lat cl p route g))"
  using wf r wf_spendSafeRetry [OF wf] wf_reviewOrEscalate [OF wf] wf_stopTurnDecision [OF wf]
  by (auto simp: followRoute_def Let_def case_prod_beta split: Route.splits)

text \<open>The reason of a stopped turn comes from the budget, never from one operation.\<close>

lemma judge_stopReason:
  "f_StopReason (ju_facts (judge dl b p tid f r)) = f_StopReason f"
proof -
  have "f_StopReason (failureFacts dl fp p st f) = f_StopReason f" for fp st
    by (simp add: failureFacts_def Let_def split: option.splits)
  then show ?thesis by (simp add: judge_def judgeTask_def Let_def split: prod.splits option.splits)
qed

lemma classify_stopReason:
  "f_StopReason (cl_facts (snd (classify env mode p g))) = eb_stopReason (g_episode g)"
proof -
  have "f_StopReason (scopeFacts fl p f) = f_StopReason f" for fl p f
    by (simp add: scopeFacts_def Let_def split: option.splits)
  then show ?thesis by (simp add: classify_def Let_def judge_stopReason proposalFacts_def)
qed

lemma wf_BeforeMutation:
  assumes wf: "wf_gate g"
  shows "wf_gate (fst (BeforeMutation env mode lat p g))"
proof -
  obtain g1 cl where c: "classify env mode p g = (g1, cl)" by fastforce
  have g1: "wf_gate g1" using wf_classify [OF wf, of env mode p] by (simp add: c)
  have reason: "f_StopReason (cl_facts cl) \<noteq> StopReasonOperationFailures"
    using classify_stopReason [of env mode p g] wf_gate_budget [OF wf] by (simp add: c wf_budget_def)
  have route: "dr_Route (Decide (cl_facts cl)) = RouteStopTurn \<longrightarrow>
      dr_StopReason (Decide (cl_facts cl)) \<noteq> StopReasonNone
      \<and> dr_StopReason (Decide (cl_facts cl)) \<noteq> StopReasonOperationFailures"
    using reason by (simp add: Decide_def routed_def)
  obtain g2 dec where n: "noteStoppedOpRetry env (cl_taskID cl) (cl_generation cl) p g1 = (g2, dec)"
    by fastforce
  have g2: "wf_gate g2"
    using wf_noteStoppedOpRetry [OF g1, of env "cl_taskID cl" "cl_generation cl" p] by (simp add: n)
  show ?thesis using wf_followRoute [OF g1 route, of env lat cl p] wf_followRoute [OF g2]
    by (auto simp: BeforeMutation_def Let_def c n g2 split: option.splits)
qed

lemma wf_MarkFinalizationOffered: "wf_gate g \<Longrightarrow> wf_gate (MarkFinalizationOffered g)"
  by (cases "eb_stopped (g_episode g)") (auto simp: MarkFinalizationOffered_def wf_gate_def wf_budget_def)

lemma wf_ConsumeFinalization: "wf_gate g \<Longrightarrow> wf_gate (fst (ConsumeFinalization g))"
  by (cases "eb_stopped (g_episode g)")
     (auto simp: ConsumeFinalization_def Let_def wf_gate_def wf_budget_def)

subsection \<open>Reachable gates\<close>

text \<open>
  Every method is a step, in any order and with any argument; the environment switches
  the session key and runs background writes.
\<close>

inductive gate_reachable :: "gate_env \<Rightarrow> Gate \<Rightarrow> bool" for env where
  new: "gate_reachable env NewGate"
| observe: "gate_reachable env g \<Longrightarrow> gate_reachable env (fst (ObserveResult env mode now obs g))"
| propose: "gate_reachable env g \<Longrightarrow> gate_reachable env (fst (BeforeMutation env mode lat p g))"
| failed: "gate_reachable env g \<Longrightarrow> gate_reachable env (fst (promptFailed pk err g))"
| shown: "gate_reachable env g \<Longrightarrow> gate_reachable env (fst (promptShown env pk aid g))"
| answered: "gate_reachable env g \<Longrightarrow> promptAnswered pk g = Some (g', out) \<Longrightarrow> gate_reachable env g'"
| cancelled: "gate_reachable env g \<Longrightarrow> gate_reachable env (fst (promptCancelled env pk err g))"
| bind: "gate_reachable env g \<Longrightarrow> gate_reachable env (BindApprovalID tid aid g)"
| resolve: "gate_reachable env g \<Longrightarrow> gate_reachable env (fst (Resolve env aid action fb g))"
| diagnose: "gate_reachable env g \<Longrightarrow> gate_reachable env (RecordDiagnosis env tid note g)"
| episode: "gate_reachable env g \<Longrightarrow> gate_reachable env (BeginEpisode env g)"
| mode: "gate_reachable env g \<Longrightarrow> gate_reachable env (fst (OnModeChange env mode g))"
| restore: "gate_reachable env g \<Longrightarrow> gate_reachable env (Restore snap g)"
| offered: "gate_reachable env g \<Longrightarrow> gate_reachable env (MarkFinalizationOffered g)"
| consumed: "gate_reachable env g \<Longrightarrow> gate_reachable env (fst (ConsumeFinalization g))"
| drained: "gate_reachable env g \<Longrightarrow> gate_reachable env (fst (DrainMetrics g))"
| session: "gate_reachable env g \<Longrightarrow> gate_reachable env (g\<lparr>g_key := k\<rparr>)"
| background: "gate_reachable env g \<Longrightarrow> gate_reachable env (g\<lparr>g_pst := runWrite i (g_pst g)\<rparr>)"

lemmas wf_methods = wf_NewGate wf_ObserveResult wf_BeforeMutation wf_promptFailed wf_promptShown
  wf_promptAnswered wf_promptCancelled wf_BindApprovalID wf_Resolve wf_RecordDiagnosis
  wf_BeginEpisode wf_OnModeChange wf_Restore wf_MarkFinalizationOffered wf_ConsumeFinalization

lemma reachable_wf: "gate_reachable env g \<Longrightarrow> wf_gate g"
  by (induction rule: gate_reachable.induct) (auto intro: wf_methods simp: DrainMetrics_def)

end
