(* ===== verification/Recovery_Props.thy ===== *)
theory Recovery_Props imports Recovery_Inv begin

text \<open>
  What Auto Guard promises: a stopped episode runs nothing, retries without progress are
  bounded, the counters are the failure history, an episode change revokes what was in
  flight, a restart re-arms nothing, the newest snapshot is the one on disk.
\<close>

subsection \<open>What a proposal leaves alone\<close>

lemma failureFacts_fields [simp]:
  "f_AutoMode (failureFacts dl fp p st f) = f_AutoMode f"
  "f_ReadOnly (failureFacts dl fp p st f) = f_ReadOnly f"
  "f_Mutates (failureFacts dl fp p st f) = f_Mutates f"
  "f_Verification (failureFacts dl fp p st f) = f_Verification f"
  "f_PlanTransition (failureFacts dl fp p st f) = f_PlanTransition f"
  "f_EpisodeStopped (failureFacts dl fp p st f) = f_EpisodeStopped f"
  "f_EpisodeFailureCount (failureFacts dl fp p st f) = f_EpisodeFailureCount f"
  by (simp_all add: failureFacts_def Let_def split: option.splits)

lemma scopeFacts_fields [simp]:
  "f_AutoMode (scopeFacts fl p f) = f_AutoMode f"
  "f_ReadOnly (scopeFacts fl p f) = f_ReadOnly f" "f_Mutates (scopeFacts fl p f) = f_Mutates f"
  "f_Verification (scopeFacts fl p f) = f_Verification f"
  "f_PlanTransition (scopeFacts fl p f) = f_PlanTransition f"
  "f_EpisodeStopped (scopeFacts fl p f) = f_EpisodeStopped f"
  "f_EpisodeFailureCount (scopeFacts fl p f) = f_EpisodeFailureCount f"
  "f_HasActiveFailure (scopeFacts fl p f) = f_HasActiveFailure f"
  "f_SameFailedOperation (scopeFacts fl p f) = f_SameFailedOperation f"
  "f_OperationAlreadyStopped (scopeFacts fl p f) = f_OperationAlreadyStopped f"
  "f_FailureCount (scopeFacts fl p f) = f_FailureCount f"
  by (simp_all add: scopeFacts_def Let_def split: option.splits)

lemma judge_fields [simp]:
  "f_AutoMode (ju_facts (judge dl b p tid f r)) = f_AutoMode f"
  "f_ReadOnly (ju_facts (judge dl b p tid f r)) = f_ReadOnly f"
  "f_Mutates (ju_facts (judge dl b p tid f r)) = f_Mutates f"
  "f_Verification (ju_facts (judge dl b p tid f r)) = f_Verification f"
  "f_PlanTransition (ju_facts (judge dl b p tid f r)) = f_PlanTransition f"
  "f_EpisodeStopped (ju_facts (judge dl b p tid f r)) = f_EpisodeStopped f"
  "f_EpisodeFailureCount (ju_facts (judge dl b p tid f r)) = f_EpisodeFailureCount f"
  by (simp_all add: judge_def judgeTask_def Let_def split: prod.splits option.splits)

lemma classify_fields [simp]:
  "f_AutoMode (cl_facts (snd (classify env mode p g))) = activeMode mode"
  "f_ReadOnly (cl_facts (snd (classify env mode p g))) = pr_ReadOnly p"
  "f_Mutates (cl_facts (snd (classify env mode p g))) = pr_Mutates p"
  "f_Verification (cl_facts (snd (classify env mode p g))) = pr_Verification p"
  "f_PlanTransition (cl_facts (snd (classify env mode p g))) = pr_PlanTransition p"
  "f_EpisodeStopped (cl_facts (snd (classify env mode p g))) = eb_stopped (g_episode g)"
  "f_EpisodeFailureCount (cl_facts (snd (classify env mode p g))) = eb_totalFailures (g_episode g)"
  "cl_generation (snd (classify env mode p g)) = g_generation g"
  "cl_taskID (snd (classify env mode p g)) = normalizeTaskID (pr_TaskID p)"
  by (simp_all add: classify_def Let_def proposalFacts_def)

text \<open>In Auto a classification changes neither the budget nor the generation.\<close>

lemma classify_auto:
  assumes "activeMode mode"
  shows "g_episode (fst (classify env mode p g)) = g_episode g"
    and "g_generation (fst (classify env mode p g)) = g_generation g"
proof -
  have "g_episode (ju_gate (judge dl b q tid f (leaveAuto True tid g))) = g_episode g
      \<and> g_generation (ju_gate (judge dl b q tid f (leaveAuto True tid g))) = g_generation g"
    for dl b q tid f
    by (simp add: judge_def judgeTask_def leaveAuto_def retireOutsideAuto_def Let_def
        split: option.splits)
  then show "g_episode (fst (classify env mode p g)) = g_episode g"
    and "g_generation (fst (classify env mode p g)) = g_generation g"
    using assms by (simp_all add: classify_def Let_def)
qed

lemma stopBudget_fields [simp]:
  "eb_totalFailures (stopBudget r ep) = eb_totalFailures ep"
  "eb_stopped (stopBudget r ep)" "eb_reviewRejects (stopBudget r ep) = eb_reviewRejects ep"
  by (simp_all add: stopBudget_def)

lemma stopTurnDecision_effect [simp]:
  "g_episode (fst (stopTurnDecision env tid gen r p g)) = stopBudget r (g_episode g)"
  "g_generation (fst (stopTurnDecision env tid gen r p g)) = g_generation g"
  "\<not> rd_Allow (snd (stopTurnDecision env tid gen r p g))"
  "rd_Blocked (snd (stopTurnDecision env tid gen r p g))"
  "rd_StopTurn (snd (stopTurnDecision env tid gen r p g))"
  by (simp_all add: stopTurnDecision_def Let_def case_prod_beta blockDecision_def noDecision_def)

lemma noteStoppedOpRetry_effect [simp]:
  "eb_totalFailures (g_episode (fst (noteStoppedOpRetry env tid gen p g))) = eb_totalFailures (g_episode g)"
  "g_generation (fst (noteStoppedOpRetry env tid gen p g)) = g_generation g"
  "eb_stopped (g_episode g) \<Longrightarrow> eb_stopped (g_episode (fst (noteStoppedOpRetry env tid gen p g)))"
  by (simp_all add: noteStoppedOpRetry_def Let_def case_prod_beta)

lemma noteStoppedOpRetry_refuses:
  "snd (noteStoppedOpRetry env tid gen p g) = Some d \<Longrightarrow> \<not> rd_Allow d \<and> rd_Blocked d"
  by (auto simp: noteStoppedOpRetry_def Let_def case_prod_beta split: if_splits)

subsection \<open>A stopped episode\<close>

definition refuses :: "outcome \<Rightarrow> bool" where
  "refuses out \<longleftrightarrow> (\<exists>d. out = Decided d \<and> \<not> rd_Allow d \<and> rd_Blocked d)"

lemma refuses_Decided [simp]: "refuses (Decided d) \<longleftrightarrow> \<not> rd_Allow d \<and> rd_Blocked d"
  by (simp add: refuses_def)

lemma followRoute_refuses:
  assumes "dr_Route route = RouteStop \<or> dr_Route route = RouteStopTurn"
  shows "refuses (snd (followRoute env lat cl p route g))"
    and "eb_stopped (g_episode g) \<Longrightarrow> eb_stopped (g_episode (fst (followRoute env lat cl p route g)))"
  using assms
  by (auto simp: followRoute_def Let_def case_prod_beta blockDecision_def noDecision_def)

lemma stopped_refuses:
  assumes "activeMode mode" and "EpisodeStopped g"
    and "\<not> (pr_ReadOnly p \<and> \<not> pr_Mutates p \<and> \<not> pr_Verification p \<and> \<not> pr_PlanTransition p)"
  shows "refuses (snd (BeforeMutation env mode lat p g))
    \<and> EpisodeStopped (fst (BeforeMutation env mode lat p g))"
proof -
  let ?g1 = "fst (classify env mode p g)" and ?cl = "snd (classify env mode p g)"
  have "policy_route (cl_facts ?cl) RouteStopTurn"
    using assms by (simp add: policy_route_def diagnosis_only_def EpisodeStopped_def)
  then have "dr_Route (Decide (cl_facts ?cl)) = RouteStopTurn" by (simp add: Decide_policy)
  then have direct: "refuses (snd (followRoute env lat ?cl p (Decide (cl_facts ?cl)) ?g1))"
    "eb_stopped (g_episode (fst (followRoute env lat ?cl p (Decide (cl_facts ?cl)) ?g1)))"
    using assms(2) by (simp_all add: followRoute_refuses classify_auto [OF assms(1)] EpisodeStopped_def)
  let ?n = "noteStoppedOpRetry env (cl_taskID ?cl) (cl_generation ?cl) p ?g1"
  have "eb_stopped (g_episode (fst ?n))"
    using assms(2) by (simp add: classify_auto [OF assms(1)] EpisodeStopped_def del: classify_fields)
  then show ?thesis
    using direct noteStoppedOpRetry_refuses [of env "cl_taskID ?cl" "cl_generation ?cl" p ?g1]
    by (auto simp: BeforeMutation_def Let_def case_prod_beta EpisodeStopped_def followRoute_refuses
        split: option.splits simp del: classify_fields)
qed

subsection \<open>Counters\<close>

text \<open>The exact-operation counters of a task, empty for a task without a runtime.\<close>

definition task_ops :: "Gate \<Rightarrow> gostr \<Rightarrow> u8 gomap" where
  "task_ops g tid = (case map_of (g_tasks g) tid of None \<Rightarrow> [] | Some st \<Rightarrow> tr_operationFailures st)"

definition count_of :: "Gate \<Rightarrow> gostr \<Rightarrow> gostr \<Rightarrow> u8" where
  "count_of g tid fp = (case map_of (task_ops g tid) fp of None \<Rightarrow> 0 | Some n \<Rightarrow> n)"

lemma task_ops_simps [simp]:
  "task_ops (setTask t st g) tid = (if tid = t then tr_operationFailures st else task_ops g tid)"
  "task_ops (deleteTask t g) tid = (if tid = t then [] else task_ops g tid)"
  by (simp_all add: task_ops_def gomap_simps)

lemma task_ops_cong: "g_tasks g = g_tasks g' \<Longrightarrow> task_ops g = task_ops g'"
  by (simp add: task_ops_def fun_eq_iff)

lemma task_ops_persist [simp]:
  "task_ops (persist env g) = task_ops g" "task_ops (persistUnlocked env g) = task_ops g"
  "task_ops (addMetrics f g) = task_ops g" "task_ops (g\<lparr>g_episode := ep\<rparr>) = task_ops g"
  "task_ops (g\<lparr>g_metrics := m\<rparr>) = task_ops g"
  by (rule task_ops_cong, simp)+

lemma ensure_ops [simp]:
  "tr_operationFailures (snd (ensureTaskLocked t g)) = task_ops g t"
  "task_ops (fst (ensureTaskLocked t g)) = task_ops g"
  by (auto simp: ensureTaskLocked_def Let_def task_ops_def gomap_simps fun_eq_iff split: option.splits)

text \<open>What a proposal must not touch: the failure total, the generation, the counters.\<close>

definition same_counts :: "Gate \<Rightarrow> Gate \<Rightarrow> bool" where
  "same_counts g g' \<longleftrightarrow>
     eb_totalFailures (g_episode g') = eb_totalFailures (g_episode g)
     \<and> g_generation g' = g_generation g \<and> task_ops g' = task_ops g"

lemma same_counts_refl [simp]: "same_counts g g"
  by (simp add: same_counts_def)

lemma same_counts_trans: "same_counts g g' \<Longrightarrow> same_counts g' g'' \<Longrightarrow> same_counts g g''"
  by (simp add: same_counts_def)

lemma same_counts_simps [simp]:
  "same_counts g (persist env g') = same_counts g g'"
  "same_counts g (addMetrics f g') = same_counts g g'"
  by (simp_all add: same_counts_def)

lemma same_counts_stop:
  "same_counts g g' \<Longrightarrow> same_counts g (fst (stopTurnDecision env tid gen r p g'))"
  by (simp add: same_counts_def stopTurnDecision_def Let_def case_prod_beta)

lemma same_counts_note: "same_counts g (fst (noteStoppedOpRetry env tid gen p g))"
proof -
  have *: "task_ops (fst (stopTurnDecision env tid gen r p g')) = task_ops g'" for r g'
    by (simp add: stopTurnDecision_def Let_def case_prod_beta)
  have "task_ops (fst (noteStoppedOpRetry env tid gen p g)) = task_ops g"
    by (simp add: noteStoppedOpRetry_def Let_def case_prod_beta *)
  then show ?thesis by (simp add: same_counts_def)
qed

lemma same_counts_ask: "same_counts g (fst (askHuman env tid fp gen p fl notes kind why g))"
  by (simp add: same_counts_def askHuman_def Let_def task_ops_def fun_eq_iff)

lemma same_counts_reviewStop:
  "same_counts g g' \<Longrightarrow> same_counts g (fst (reviewStop env tid gen p g'))"
  unfolding reviewStop_def Let_def case_prod_beta fst_conv
  by (rule same_counts_stop) (simp add: same_counts_def)

lemma same_counts_block: "same_counts g (fst (recordReviewBlock env tid v g))"
proof -
  let ?st = "snd (ensureTaskLocked tid g)"
  have "task_ops (setTask tid (?st\<lparr>tr_lastFailure := x\<rparr>)
      ((fst (ensureTaskLocked tid g))\<lparr>g_episode := ep\<rparr>)) = task_ops g" for x ep
    by (simp add: fun_eq_iff)
  then show ?thesis
    by (simp add: same_counts_def recordReviewBlock_def Let_def case_prod_beta split: option.splits)
qed

lemma same_counts_verdict:
  "same_counts g g' \<Longrightarrow> same_counts g (fst (applyVerdict env tid fp gen p fl notes v g'))"
  by (auto simp: applyVerdict_def case_prod_beta
      intro: same_counts_trans [OF _ same_counts_ask] same_counts_reviewStop
        same_counts_trans [OF _ same_counts_block])

lemma same_counts_review:
  "same_counts g g' \<Longrightarrow> same_counts g (fst (reviewOrEscalate env lat tid fp gen p fl notes g'))"
  by (auto simp: reviewOrEscalate_def Let_def ruleContinue_def split: option.splits sum.splits
      intro: same_counts_reviewStop same_counts_trans [OF _ same_counts_ask] same_counts_verdict)

lemma same_counts_spend: "same_counts g (spendSafeRetry env tid g)"
proof -
  have "task_ops (setTask tid (st\<lparr>tr_lastFailure := x\<rparr>) g) = task_ops g"
    if "map_of (g_tasks g) tid = Some st" for st x
    using that by (auto simp: task_ops_def gomap_simps fun_eq_iff)
  then show ?thesis by (simp add: same_counts_def spendSafeRetry_def split: option.splits)
qed

lemma same_counts_follow: "same_counts g (fst (followRoute env lat cl p route g))"
  by (auto simp: followRoute_def Let_def case_prod_beta same_counts_spend same_counts_review
      same_counts_stop split: Route.splits)

lemma same_counts_classify:
  assumes wf: "wf_gate g" and auto: "activeMode mode"
  shows "same_counts g (fst (classify env mode p g))"
proof -
  have "task_ops (ju_gate (judge dl b q tid f (leaveAuto True tid g))) = task_ops g" for dl b q tid f
  proof (cases "map_of (g_tasks g) tid")
    case (Some st)
    then have align: "alignEpisode (g_episodeID g) st = (st, False)"
      using wf_gate_runtime [OF wf] wf_align by blast
    have "runtimeEmpty st \<Longrightarrow> tr_operationFailures st = []" by (simp add: runtimeEmpty_def)
    then show ?thesis using Some align
      by (auto simp: judge_def judgeTask_def leaveAuto_def retireOutsideAuto_def Let_def fun_eq_iff
          task_ops_def gomap_simps)
  qed (simp add: judge_def leaveAuto_def)
  then have "task_ops (fst (classify env mode p g)) = task_ops g"
    using auto by (simp add: classify_def Let_def)
  then show ?thesis by (simp add: same_counts_def classify_auto [OF auto])
qed

lemma same_counts_BeforeMutation:
  assumes "wf_gate g" and "activeMode mode"
  shows "same_counts g (fst (BeforeMutation env mode lat p g))"
proof -
  let ?g1 = "fst (classify env mode p g)" and ?cl = "snd (classify env mode p g)"
  let ?n = "noteStoppedOpRetry env (cl_taskID ?cl) (cl_generation ?cl) p ?g1"
  have g1: "same_counts g ?g1" by (rule same_counts_classify [OF assms])
  then have n: "same_counts g (fst ?n)" by (rule same_counts_trans) (rule same_counts_note)
  show ?thesis
    using same_counts_trans [OF g1 same_counts_follow] same_counts_trans [OF n same_counts_follow] n
    by (simp add: BeforeMutation_def Let_def case_prod_beta split: option.splits del: classify_fields)
qed

subsection \<open>What an observation counts\<close>

definition current :: "gostr \<Rightarrow> Observation \<Rightarrow> Gate \<Rightarrow> bool" where
  "current mode obs g \<longleftrightarrow>
     activeMode mode \<and> (ob_Generation obs = 0 \<or> ob_Generation obs = g_generation g)"

definition progress :: "Observation \<Rightarrow> bool" where
  "progress obs \<longleftrightarrow> ob_Success obs \<and> (ob_Verification obs \<or> ob_Mutates obs)"

lemma observe_current:
  assumes "current mode obs g"
  shows "fst (ObserveResult env mode now obs g) =
     (let tid = normalizeTaskID (ob_TaskID obs); g1 = fst (ensureTaskLocked tid g);
          st = snd (ensureTaskLocked tid g) in
      if progress obs then persistUnlocked env (clearNoProgressLocked tid st g1)
      else if ob_Success obs then
        (case tr_lastFailure st of
           None \<Rightarrow> g1
         | Some af \<Rightarrow>
             (let r = appendDiagnosisNote af (diagnosticObservationNote obs) in
              if IsDiagnosticSuccess (ge_shell env) obs \<and> snd r
              then persistUnlocked env (setTask tid (st\<lparr>tr_lastFailure := Some (fst r)\<rparr>) g1)
              else g1))
      else if QualifyingFailure obs then fst (recordFailure env now tid obs st g1)
      else g1)"
  using assms ObserveResult_gate [of mode obs g "normalizeTaskID (ob_TaskID obs)"]
  by (simp add: current_def progress_def Let_def)

lemma observe_progress:
  assumes "current mode obs g" and "progress obs"
  shows "eb_totalFailures (g_episode (fst (ObserveResult env mode now obs g))) = 0"
    and "g_generation (fst (ObserveResult env mode now obs g)) = g_generation g"
    and "task_ops (fst (ObserveResult env mode now obs g)) =
      (task_ops g)(normalizeTaskID (ob_TaskID obs) := [])"
  using assms(2)
  by (simp_all add: observe_current [OF assms(1)] Let_def clearNoProgressLocked_def clearBudget_def
      fun_eq_iff)

lemma observe_neutral:
  assumes "current mode obs g" and "\<not> progress obs" and "\<not> QualifyingFailure obs"
  shows "same_counts g (fst (ObserveResult env mode now obs g))"
proof -
  let ?tid = "normalizeTaskID (ob_TaskID obs)"
  have "task_ops (setTask ?tid ((snd (ensureTaskLocked ?tid g))\<lparr>tr_lastFailure := x\<rparr>)
      (fst (ensureTaskLocked ?tid g))) = task_ops g" for x
    by (simp add: fun_eq_iff)
  then show ?thesis using assms(2,3)
    by (simp add: observe_current [OF assms(1)] Let_def same_counts_def split: option.splits)
qed

lemma recordFailure_effect:
  "g_episode (fst (recordFailure env now tid obs st g)) = countEpisodeFailure (g_episode g)"
  "g_generation (fst (recordFailure env now tid obs st g)) = g_generation g"
  "task_ops (fst (recordFailure env now tid obs st g)) =
     (task_ops g)(tid := AList.update (observationFingerprint (ge_digest env) obs)
        (sat_inc8 (operationCount st (observationFingerprint (ge_digest env) obs)))
        (tr_operationFailures st))"
  by (simp_all add: recordFailure_def Let_def case_prod_beta recoveryGuidanceLocked_def
      countFailure_def markOperationStopped_def fun_eq_iff)

lemma countEpisodeFailure_total [simp]:
  "eb_totalFailures (countEpisodeFailure ep) = sat_inc8 (eb_totalFailures ep)"
  by (simp add: countEpisodeFailure_def Let_def)

lemma observe_failure:
  assumes "current mode obs g" and "QualifyingFailure obs"
    and tid_def: "tid = normalizeTaskID (ob_TaskID obs)"
    and fp_def: "fp = observationFingerprint (ge_digest env) obs"
  shows "g_episode (fst (ObserveResult env mode now obs g)) = countEpisodeFailure (g_episode g)"
    and "g_generation (fst (ObserveResult env mode now obs g)) = g_generation g"
    and "count_of (fst (ObserveResult env mode now obs g)) t q =
      (if t = tid \<and> q = fp then sat_inc8 (count_of g t q) else count_of g t q)"
proof -
  have no: "\<not> progress obs" "\<not> ob_Success obs"
    using qualifying_not_success [OF assms(2)] by (simp_all add: progress_def)
  let ?g1 = "fst (ensureTaskLocked tid g)" and ?st = "snd (ensureTaskLocked tid g)"
  have eq: "fst (ObserveResult env mode now obs g) = fst (recordFailure env now tid obs ?st ?g1)"
    using no assms(2) by (simp add: observe_current [OF assms(1)] Let_def tid_def)
  show "g_episode (fst (ObserveResult env mode now obs g)) = countEpisodeFailure (g_episode g)"
    and "g_generation (fst (ObserveResult env mode now obs g)) = g_generation g"
    unfolding eq by (simp_all add: recordFailure_effect)
  have "operationCount ?st q = count_of g tid q" for q
    by (simp add: operationCount_def count_of_def)
  then show "count_of (fst (ObserveResult env mode now obs g)) t q =
      (if t = tid \<and> q = fp then sat_inc8 (count_of g t q) else count_of g t q)"
    unfolding eq by (simp add: count_of_def recordFailure_effect gomap_simps fp_def)
qed

subsection \<open>Retries without progress\<close>

definition admits :: "outcome \<Rightarrow> bool" where
  "admits out \<longleftrightarrow> (case out of Decided d \<Rightarrow> rd_Allow d | Parked pk \<Rightarrow> True | Failed d err \<Rightarrow> False)"

text \<open>The observation of a call carries the host's classification of its proposal.\<close>

definition result_of :: "Proposal \<Rightarrow> Observation \<Rightarrow> bool" where
  "result_of p obs \<longleftrightarrow>
     ob_Mutates obs = pr_Mutates p \<and> ob_Verification obs = pr_Verification p
     \<and> ob_ReadOnly obs = pr_ReadOnly p"

text \<open>
  A stretch of one episode in Auto without progress: \<open>failing_run env mode g n g'\<close> says that
  \<open>n\<close> admitted calls failed between \<open>g\<close> and \<open>g'\<close>, whatever else was proposed, refused or
  diagnosed in between, by whichever task.
\<close>

inductive failing_run :: "gate_env \<Rightarrow> gostr \<Rightarrow> Gate \<Rightarrow> nat \<Rightarrow> Gate \<Rightarrow> bool" for env mode g0 where
  start: "failing_run env mode g0 0 g0"
| attempt: "failing_run env mode g0 n g \<Longrightarrow> BeforeMutation env mode lat p g = (g1, out) \<Longrightarrow> admits out
    \<Longrightarrow> result_of p obs \<Longrightarrow> current mode obs g1 \<Longrightarrow> QualifyingFailure obs
    \<Longrightarrow> failing_run env mode g0 (Suc n) (fst (ObserveResult env mode now obs g1))"
| propose: "failing_run env mode g0 n g
    \<Longrightarrow> failing_run env mode g0 n (fst (BeforeMutation env mode lat p g))"
| diagnose: "failing_run env mode g0 n g \<Longrightarrow> \<not> progress obs \<Longrightarrow> \<not> QualifyingFailure obs
    \<Longrightarrow> failing_run env mode g0 n (fst (ObserveResult env mode now obs g))"
| noted: "failing_run env mode g0 n g \<Longrightarrow> failing_run env mode g0 n (RecordDiagnosis env tid why g)"

lemma same_counts_diagnose: "same_counts g (RecordDiagnosis env tid why g)"
proof -
  have "task_ops (setTask t (st\<lparr>tr_lastFailure := x\<rparr>) g) = task_ops g"
    if "map_of (g_tasks g) t = Some st" for t st x
    using that by (auto simp: task_ops_def gomap_simps fun_eq_iff)
  then show ?thesis
    by (simp add: same_counts_def RecordDiagnosis_def Let_def case_prod_beta split: option.splits)
qed

lemma same_counts_observe:
  assumes "\<not> progress obs" and "\<not> QualifyingFailure obs"
  shows "same_counts g (fst (ObserveResult env mode now obs g))"
proof (cases "current mode obs g")
  case True
  then show ?thesis using assms by (rule observe_neutral)
next
  case False
  then show ?thesis
    by (cases "activeMode mode") (auto simp: current_def ObserveResult_ignored same_counts_def task_ops_def)
qed

lemma admitted_failure_not_stopped:
  assumes "activeMode mode" and "BeforeMutation env mode lat p g = (g1, out)" and "admits out"
    and "result_of p obs" and "QualifyingFailure obs"
  shows "\<not> eb_stopped (g_episode g)"
proof
  assume "eb_stopped (g_episode g)"
  moreover have "\<not> (pr_ReadOnly p \<and> \<not> pr_Mutates p \<and> \<not> pr_Verification p \<and> \<not> pr_PlanTransition p)"
    using assms(4,5) by (auto simp: result_of_def QualifyingFailure_def split: if_splits)
  ultimately have "refuses out"
    using stopped_refuses [OF assms(1), of g p env lat] assms(2) by (simp add: EpisodeStopped_def)
  with assms(3) show False by (auto simp: refuses_def admits_def)
qed

lemma failing_run_bound:
  assumes "failing_run env mode g0 n g" and auto: "activeMode mode" and "wf_gate g0"
  shows "wf_gate g \<and>
    (n = 0 \<and> eb_totalFailures (g_episode g) = eb_totalFailures (g_episode g0)
     \<or> n + unat (eb_totalFailures (g_episode g0)) = unat (eb_totalFailures (g_episode g))
       \<and> unat (eb_totalFailures (g_episode g)) \<le> MaxEpisodeFailures)"
  using assms(1)
proof induction
  case start
  then show ?case using assms(3) by simp
next
  case (attempt n g lat p g1 out obs now)
  then have wf: "wf_gate g" by simp
  have "\<not> eb_stopped (g_episode g)"
    using auto attempt.hyps(2-4,6) by (rule admitted_failure_not_stopped)
  then have less: "unat (eb_totalFailures (g_episode g)) < MaxEpisodeFailures"
    using wf_gate_budget [OF wf] by (auto simp: wf_budget_def)
  have "same_counts g g1"
    using same_counts_BeforeMutation [OF wf auto, of env lat p] attempt.hyps(2) by simp
  then have "eb_totalFailures (g_episode (fst (ObserveResult env mode now obs g1)))
      = sat_inc8 (eb_totalFailures (g_episode g))"
    using observe_failure(1) [OF attempt.hyps(5,6) refl refl, of env now] by (simp add: same_counts_def)
  then have "unat (eb_totalFailures (g_episode (fst (ObserveResult env mode now obs g1))))
      = Suc (unat (eb_totalFailures (g_episode g)))"
    using less by (simp add: unat_sat_inc8 MaxEpisodeFailures_def)
  moreover have "wf_gate (fst (ObserveResult env mode now obs g1))"
    using wf_ObserveResult wf_BeforeMutation [OF wf, of env mode lat p] attempt.hyps(2) by simp
  ultimately show ?case using attempt.IH less by auto
next
  case (propose n g lat p)
  then show ?case
    using same_counts_BeforeMutation [OF _ auto, of g env lat p] wf_BeforeMutation [of g env mode lat p]
    by (auto simp: same_counts_def)
next
  case (diagnose n g obs now)
  then show ?case
    using same_counts_observe [OF diagnose.hyps(2,3), of g env mode now] wf_ObserveResult [of g env mode now obs]
    by (auto simp: same_counts_def)
next
  case (noted n g tid why)
  then show ?case
    using same_counts_diagnose [of g env tid why] wf_RecordDiagnosis [of g env tid why]
    by (auto simp: same_counts_def)
qed

subsection \<open>The failure history\<close>

text \<open>
  The abstract specification of the budgets: how many failures each operation of each
  task, and the episode as a whole, had since the last progress or the last fresh
  episode. It knows neither words nor maps nor runtimes.
\<close>

record history =
  h_generation :: u64
  h_total :: nat
  h_ops :: "gostr \<Rightarrow> gostr \<Rightarrow> nat"

datatype budget_event =
    Observed int Observation
  | Proposed int Proposal
  | Rotated
  | Restored recovery_snapshot

definition freshHistory :: "u64 \<Rightarrow> history" where
  "freshHistory gen = \<lparr>h_generation = gen, h_total = 0, h_ops = (\<lambda>t q. 0)\<rparr>"

fun hist_step :: "gate_env \<Rightarrow> budget_event \<Rightarrow> history \<Rightarrow> history" where
  "hist_step env (Observed now obs) h =
     (let tid = normalizeTaskID (ob_TaskID obs); fp = observationFingerprint (ge_digest env) obs in
      if ob_Generation obs \<noteq> 0 \<and> ob_Generation obs \<noteq> h_generation h then h
      else if progress obs then h\<lparr>h_total := 0, h_ops := (h_ops h)(tid := (\<lambda>q. 0))\<rparr>
      else if QualifyingFailure obs then
        h\<lparr>h_total := Suc (h_total h),
          h_ops := (h_ops h)(tid := (h_ops h tid)(fp := Suc (h_ops h tid fp)))\<rparr>
      else h)"
| "hist_step env (Proposed lat p) h = h"
| "hist_step env Rotated h = freshHistory (bump64 (h_generation h))"
| "hist_step env (Restored snap) h = freshHistory (bump64 (h_generation h))"

fun gate_step :: "gate_env \<Rightarrow> gostr \<Rightarrow> budget_event \<Rightarrow> Gate \<Rightarrow> Gate" where
  "gate_step env mode (Observed now obs) g = fst (ObserveResult env mode now obs g)"
| "gate_step env mode (Proposed lat p) g = fst (BeforeMutation env mode lat p g)"
| "gate_step env mode Rotated g = BeginEpisode env g"
| "gate_step env mode (Restored snap) g = Restore snap g"

definition refines :: "Gate \<Rightarrow> history \<Rightarrow> bool" where
  "refines g h \<longleftrightarrow>
     wf_gate g \<and> g_generation g = h_generation h
     \<and> unat (eb_totalFailures (g_episode g)) = min 255 (h_total h)
     \<and> (\<forall>t q. unat (count_of g t q) = min 255 (h_ops h t q))"

lemma refines_same_counts:
  "refines g h \<Longrightarrow> same_counts g g' \<Longrightarrow> wf_gate g' \<Longrightarrow> refines g' h"
  by (simp add: refines_def same_counts_def count_of_def)

lemma sat_inc8_refines: "unat n = min 255 k \<Longrightarrow> unat (sat_inc8 n) = min 255 (Suc k)"
  by (simp add: unat_sat_inc8)

lemma refines_fresh:
  assumes "wf_gate g" and "g_generation g = gen" and "eb_totalFailures (g_episode g) = 0"
    and "\<And>t. task_ops g t = []"
  shows "refines g (freshHistory gen)"
  using assms by (simp add: refines_def freshHistory_def count_of_def)

lemma refines_Rotated:
  assumes "refines g h"
  shows "refines (BeginEpisode env g) (freshHistory (bump64 (h_generation h)))"
proof (rule refines_fresh)
  have wf: "wf_gate g" and gen: "g_generation g = h_generation h" using assms by (simp_all add: refines_def)
  show "wf_gate (BeginEpisode env g)" using wf by (rule wf_BeginEpisode)
  have eq: "g_episode (BeginEpisode env g) = clearBudget"
    "g_generation (BeginEpisode env g) = bump64 (g_generation g)"
    "g_tasks (BeginEpisode env g) = retireTasks (episodeName (bump64 (g_episodeSeq g))) (g_tasks g)"
    by (simp_all add: BeginEpisode_def beginEpisodeLockedCollect_def collectWaitersLocked_def
        case_prod_beta Let_def)
  have "wf_tasks (g_episodeID g) (g_tasks g)" using wf by (simp add: wf_gate_def)
  then have "g_tasks (BeginEpisode env g) = []" unfolding eq by (rule wf_tasks_retire)
  then show "task_ops (BeginEpisode env g) t = []" for t by (simp add: task_ops_def)
  show "g_generation (BeginEpisode env g) = bump64 (h_generation h)"
    "eb_totalFailures (g_episode (BeginEpisode env g)) = 0"
    by (simp_all add: eq gen clearBudget_def)
qed

lemma restoreTasks_ops:
  assumes "\<And>st. map_of tasks t = Some st \<Longrightarrow> tr_operationFailures st = []"
    and "map_of (restoreTasks eid snap tasks) t = Some st"
  shows "tr_operationFailures st = []"
  using assms
proof (induction eid snap tasks rule: restoreTasks.induct)
  case (2 eid tid ts rest tasks)
  have "tr_operationFailures rt = []" if "taskRuntimeFromState s = Some rt" for s rt
    using that by (auto simp: taskRuntimeFromState_def Let_def split: option.splits)
  then have upd: "map_of (AList.update tid (rt\<lparr>tr_episodeID := eid\<rparr>) tasks) t = Some st'
      \<Longrightarrow> tr_operationFailures st' = []" if "taskRuntimeFromState s = Some rt" for s rt st'
    using that 2(3) by (auto simp: gomap_simps split: if_splits)
  show ?case using 2 upd by (force split: option.splits)
qed simp

lemma refines_Restored:
  assumes "refines g h"
  shows "refines (Restore snap g) (freshHistory (bump64 (h_generation h)))"
proof (rule refines_fresh)
  show "wf_gate (Restore snap g)" using assms by (simp add: refines_def wf_Restore)
  show "g_generation (Restore snap g) = bump64 (h_generation h)"
    "eb_totalFailures (g_episode (Restore snap g)) = 0"
    using assms by (simp_all add: refines_def Restore_def Let_def clearBudget_def)
  show "task_ops (Restore snap g) t = []" for t
    using restoreTasks_ops [of "[]" t]
    by (auto simp: task_ops_def Restore_def Let_def split: option.splits)
qed

lemma refines_Observed:
  assumes ref: "refines g h" and auto: "activeMode mode"
  shows "refines (fst (ObserveResult env mode now obs g)) (hist_step env (Observed now obs) h)"
proof (cases "current mode obs g")
  case False
  then have "ob_Generation obs \<noteq> 0 \<and> ob_Generation obs \<noteq> g_generation g"
    using auto by (simp add: current_def)
  then show ?thesis using ref auto
    by (simp add: ObserveResult_ignored refines_def count_of_def)
next
  case True
  have wf: "wf_gate (fst (ObserveResult env mode now obs g))"
    using ref by (simp add: refines_def wf_ObserveResult)
  have fresh: "\<not> (ob_Generation obs \<noteq> 0 \<and> ob_Generation obs \<noteq> h_generation h)"
    using True ref by (auto simp: current_def refines_def)
  consider (progress) "progress obs" | (failure) "\<not> progress obs" "QualifyingFailure obs"
    | (neutral) "\<not> progress obs" "\<not> QualifyingFailure obs" by blast
  then show ?thesis
  proof cases
    case progress
    then show ?thesis using ref wf observe_progress [OF True progress, of env now]
      by (simp add: refines_def count_of_def Let_def if_not_P [OF fresh])
  next
    case failure
    then show ?thesis using ref wf observe_failure [OF True failure(2) refl refl, of env now]
      by (simp add: refines_def Let_def sat_inc8_refines if_not_P [OF fresh] del: min_Suc_Suc)
  next
    case neutral
    then show ?thesis using refines_same_counts [OF ref observe_neutral [OF True neutral] wf]
      by (simp add: Let_def if_not_P [OF fresh])
  qed
qed

lemma refines_step:
  assumes "refines g h" and "activeMode mode"
  shows "refines (gate_step env mode e g) (hist_step env e h)"
proof (cases e)
  case (Proposed lat p)
  have wf: "wf_gate g" using assms(1) by (simp add: refines_def)
  show ?thesis
    using refines_same_counts [OF assms(1) same_counts_BeforeMutation [OF wf assms(2)] wf_BeforeMutation [OF wf]]
    by (simp add: Proposed)
qed (use assms refines_Observed refines_Rotated refines_Restored in simp_all)

lemma refines_run:
  "activeMode mode \<Longrightarrow> refines g h \<Longrightarrow> refines (fold (gate_step env mode) evs g) (fold (hist_step env) evs h)"
  by (induction evs arbitrary: g h) (simp_all add: refines_step)

lemma refines_NewGate: "refines NewGate (freshHistory 1)"
  by (rule refines_fresh [OF wf_NewGate]) (simp_all add: NewGate_def clearBudget_def task_ops_def)

definition operation_stopped :: "Gate \<Rightarrow> gostr \<Rightarrow> gostr \<Rightarrow> bool" where
  "operation_stopped g t q =
     (case map_of (g_tasks g) t of None \<Rightarrow> False | Some st \<Rightarrow> isOperationStopped st q)"

lemma refines_stops:
  assumes ref: "refines g h"
  shows "MaxEpisodeFailures \<le> h_total h \<Longrightarrow> EpisodeStopped g"
    and "q \<noteq> [] \<Longrightarrow> operation_stopped g t q \<longleftrightarrow> MaxOperationFailures \<le> h_ops h t q"
proof -
  have wf: "wf_gate g" and n: "unat (eb_totalFailures (g_episode g)) = min 255 (h_total h)"
    and c: "unat (count_of g t q) = min 255 (h_ops h t q)"
    using ref by (simp_all add: refines_def)
  show "MaxEpisodeFailures \<le> h_total h \<Longrightarrow> EpisodeStopped g"
    using wf_gate_budget [OF wf] n by (simp add: wf_budget_def EpisodeStopped_def MaxEpisodeFailures_def) linarith
  assume "q \<noteq> []"
  show "operation_stopped g t q \<longleftrightarrow> MaxOperationFailures \<le> h_ops h t q"
  proof (cases "map_of (g_tasks g) t")
    case None
    then show ?thesis using c
      by (simp add: operation_stopped_def count_of_def task_ops_def MaxOperationFailures_def)
  next
    case (Some st)
    then have "wf_runtime (g_episodeID g) st" by (rule wf_gate_runtime [OF wf])
    then have "isOperationStopped st q \<longleftrightarrow> MaxOperationFailures \<le> unat (operationCount st q)"
      using \<open>q \<noteq> []\<close>
      by (auto simp: wf_runtime_def isOperationStopped_def operationFailureCount_def operationCount_def)
    moreover have "operationCount st q = count_of g t q"
      using Some by (simp add: operationCount_def count_of_def task_ops_def)
    ultimately show ?thesis using Some c by (simp add: operation_stopped_def MaxOperationFailures_def)
  qed
qed

subsection \<open>Episode changes\<close>

lemma collectLoop_dismissed:
  "map (\<lambda>d. (dw_id d, dw_reply d)) (snd (collectLoop p ws g)) = ws"
  "list_all (\<lambda>d. dw_payload d = p) (snd (collectLoop p ws g))"
  by (induction ws arbitrary: g) (auto simp: Let_def case_prod_beta)

lemma collectLoop_gone:
  "g_waiters (fst (collectLoop p ws g)) = fold (\<lambda>w. AList.delete (fst w)) ws (g_waiters g)"
  by (induction ws arbitrary: g) (auto simp: Let_def case_prod_beta)

lemma delete_all: "fst ` set m \<subseteq> fst ` set ws \<Longrightarrow> fold (\<lambda>w. AList.delete (fst w)) ws m = []"
proof (induction ws arbitrary: m)
  case (Cons w ws)
  have "fst ` set (AList.delete (fst w) m) \<subseteq> fst ` set ws"
    using Cons.prems by (auto simp: AList.delete_eq)
  then show ?case using Cons.IH by simp
qed simp

text \<open>Every dismissed channel holds an answer afterwards: the one it had, or the refusal.\<close>

lemma finishDismissed_chans:
  assumes "c < length (g_chans g)" and "list_all (\<lambda>d. dw_payload d = p) ds"
  shows "g_chans (finishDismissed ds g) ! c =
    (if c \<in> dw_reply ` set ds then Some (case g_chans g ! c of None \<Rightarrow> p | Some q \<Rightarrow> q)
     else g_chans g ! c)"
  using assms
proof (induction ds arbitrary: g)
  case (Cons d ds)
  have step: "g_chans (trySend (dw_reply d) p g) ! c =
      (if c = dw_reply d then Some (case g_chans g ! c of None \<Rightarrow> p | Some q \<Rightarrow> q) else g_chans g ! c)"
    using Cons.prems(1) by (auto simp: trySend_def nth_list_update split: option.splits)
  have "dw_payload d = p" using Cons.prems(2) by simp
  then show ?case
    using Cons.IH [of "trySend (dw_reply d) p g"] Cons.prems step by (auto split: option.splits)
qed simp

lemma BeginEpisode_waiters:
  "g_waiters (BeginEpisode env g) = []"
  "c < length (g_chans g) \<Longrightarrow> map_of (g_waiters g) aid = Some c \<Longrightarrow>
     c < length (g_chans (BeginEpisode env g)) \<and>
     g_chans (BeginEpisode env g) ! c =
       Some (case g_chans g ! c of None \<Rightarrow> rotatePayload | Some q \<Rightarrow> q)"
proof -
  let ?g1 = "(rotateEpisode g)\<lparr>g_tasks := retireTasks (g_episodeID (rotateEpisode g)) (g_tasks (rotateEpisode g))\<rparr>"
  let ?ds = "snd (collectLoop rotatePayload (g_waiters g) ?g1)"
    and ?g2 = "fst (collectLoop rotatePayload (g_waiters g) ?g1)"
  have eq: "BeginEpisode env g = persist env (finishDismissed ?ds ?g2)"
    by (simp add: BeginEpisode_def beginEpisodeLockedCollect_def collectWaitersLocked_def
        case_prod_beta Let_def)
  show "g_waiters (BeginEpisode env g) = []"
    unfolding eq by (simp add: collectLoop_gone delete_all)
  assume c: "c < length (g_chans g)" and w: "map_of (g_waiters g) aid = Some c"
  have "(aid, c) \<in> set (map (\<lambda>d. (dw_id d, dw_reply d)) ?ds)"
    using map_of_SomeD [OF w] by (simp only: collectLoop_dismissed)
  then have "c \<in> dw_reply ` set ?ds" by auto
  then show "c < length (g_chans (BeginEpisode env g)) \<and>
      g_chans (BeginEpisode env g) ! c =
        Some (case g_chans g ! c of None \<Rightarrow> rotatePayload | Some q \<Rightarrow> q)"
    using c finishDismissed_chans [of c ?g2 rotatePayload ?ds] collectLoop_dismissed(2)
    unfolding eq by simp
qed

lemma BeginEpisode_generation: "g_generation (BeginEpisode env g) = bump64 (g_generation g)"
  by (simp add: BeginEpisode_def beginEpisodeLockedCollect_def collectWaitersLocked_def
      case_prod_beta Let_def)

lemma decision_rotatePayload:
  "\<not> rd_Allow (decisionFromResolve rotatePayload)" "rd_Blocked (decisionFromResolve rotatePayload)"
  by (simp_all add: decisionFromResolve_def rotatePayload_def action_defs Let_def noDecision_def)

subsection \<open>Restarts\<close>

lemma restoreTasks_map_of:
  "distinct (map fst snap) \<Longrightarrow> map_of (restoreTasks eid snap tasks) tid =
     (case map_of snap tid of
        Some (Some ts) \<Rightarrow>
          (case taskRuntimeFromState ts of
             Some rt \<Rightarrow> Some (rt\<lparr>tr_episodeID := eid\<rparr>) | None \<Rightarrow> map_of tasks tid)
      | _ \<Rightarrow> map_of tasks tid)"
proof (induction eid snap tasks rule: restoreTasks.induct)
  case (2 eid t ts rest tasks)
  have "t \<notin> fst ` set rest" using "2.prems" by auto
  then have "map_of rest t = None" by (simp add: map_of_eq_None_iff)
  with 2 show ?case by (auto simp: gomap_simps split: option.splits)
qed simp

lemma projectTasks_map_of:
  "distinct (map fst tasks) \<Longrightarrow>
     map_of (projectTasks f tasks) tid =
       (case map_of tasks tid of None \<Rightarrow> None | Some st \<Rightarrow> map_option Some (f tid st))"
proof (induction tasks)
  case (Cons t tasks)
  obtain k st where t: "t = (k, st)" by (cases t)
  have "k \<notin> fst ` set tasks" using Cons.prems t by auto
  then have "map_of tasks k = None" by (simp add: map_of_eq_None_iff)
  with Cons t show ?case
    by (auto simp: projectTasks_def List.map_filter_simps split: option.splits)
qed (simp add: projectTasks_def List.map_filter_simps)

lemma projectTasks_keys: "set (map fst (projectTasks f tasks)) \<subseteq> set (map fst tasks)"
  by (induction tasks) (auto simp: projectTasks_def List.map_filter_simps split: option.splits)

lemma projectTasks_distinct: "distinct (map fst tasks) \<Longrightarrow> distinct (map fst (projectTasks f tasks))"
proof (induction tasks)
  case (Cons t tasks)
  obtain k st where t: "t = (k, st)" by (cases t)
  have step: "projectTasks f (t # tasks) =
      (case f k st of None \<Rightarrow> projectTasks f tasks | Some ts \<Rightarrow> (k, Some ts) # projectTasks f tasks)"
    by (simp add: projectTasks_def List.map_filter_simps t split: option.splits)
  have "k \<notin> set (map fst (projectTasks f tasks))"
    using projectTasks_keys [of f tasks] Cons.prems t by auto
  with Cons step show ?case by (simp split: option.splits)
qed (simp add: projectTasks_def List.map_filter_simps)

text \<open>What survives of a failure: the evidence, without class, counts and safe retry.\<close>

definition historical :: "activeFailure \<Rightarrow> activeFailure" where
  "historical af =
     \<lparr>af_evidence = (af_evidence af)\<lparr>fe_Class := FailureClassUnset, fe_RepeatCount := 0,
        fe_SafeRetryLeft := 0, fe_DiagnosisNotes := af_diagnosis af\<rparr>,
      af_safeRetryUsed = True, af_diagnosis = af_diagnosis af\<rparr>"

lemma taskRuntimeFromState_persisted:
  assumes "tr_lastFailure st = Some af" and "notes_ok (af_diagnosis af)"
  shows "toPersistenceState st = Some ts \<Longrightarrow>
    taskRuntimeFromState ts = Some (newRuntime []\<lparr>tr_lastFailure := Some (historical af)\<rparr>)"
  using assms(1) trimmedNotes_id [OF assms(2)]
  by (auto simp: toPersistenceState_def taskRuntimeFromState_def cloneFailureEvent_def Let_def
      noTaskState_def noFailureEvent_def trimDiagnosis_def historical_def)

lemma persisted_runtime:
  assumes "notes_ok (af_diagnosis af)" and "tr_lastFailure st = Some af"
  shows "(case toPersistenceState st of None \<Rightarrow> None | Some ts \<Rightarrow> taskRuntimeFromState ts)
    = Some (newRuntime []\<lparr>tr_lastFailure := Some (historical af)\<rparr>)"
proof -
  obtain ts where "toPersistenceState st = Some ts" using assms(2) by (simp add: toPersistenceState_def)
  then show ?thesis using taskRuntimeFromState_persisted [OF assms(2,1)] by simp
qed

lemma Restore_PersistenceSnapshot:
  assumes wf: "wf_gate g" and g': "g' = Restore (PersistenceSnapshot g) g0"
  shows "map_of (g_tasks g') tid =
    (case map_of (g_tasks g) tid of
       None \<Rightarrow> None
     | Some st \<Rightarrow> map_option (\<lambda>af. (newRuntime (g_episodeID g'))\<lparr>tr_lastFailure := Some (historical af)\<rparr>)
                   (tr_lastFailure st))"
proof -
  have dist: "distinct (map fst (g_tasks g))" using wf by (simp add: wf_gate_def wf_tasks_def)
  have snap: "PersistenceSnapshot g = projectTasks (\<lambda>tid st. toPersistenceState st) (g_tasks g)"
    by (simp add: PersistenceSnapshot_def snapshotLocked_def)
  have tasks: "g_tasks g' = restoreTasks (g_episodeID g') (PersistenceSnapshot g) []"
    by (simp add: g' Restore_def Let_def)
  show ?thesis
  proof (cases "map_of (g_tasks g) tid")
    case None
    then show ?thesis unfolding tasks snap
      by (simp add: restoreTasks_map_of [OF projectTasks_distinct [OF dist]] projectTasks_map_of [OF dist])
  next
    case (Some st)
    then have "wf_runtime (g_episodeID g) st" by (rule wf_gate_runtime [OF wf])
    then have ok: "notes_ok (af_diagnosis af)" if "tr_lastFailure st = Some af" for af
      using that by (simp add: wf_runtime_def)
    show ?thesis unfolding tasks snap
      using Some persisted_runtime [OF ok]
      by (cases "tr_lastFailure st")
         (auto simp: restoreTasks_map_of [OF projectTasks_distinct [OF dist]] projectTasks_map_of [OF dist]
           toPersistenceState_def newRuntime_def split: option.splits)
  qed
qed

text \<open>A gate without counters never routes a proposal to a stop.\<close>

lemma failureFacts_uncounted:
  assumes "tr_operationFailures st = []" and "tr_stoppedOps st = {}"
  shows "\<not> f_OperationAlreadyStopped (failureFacts dl fp p st f)"
    and "unat (f_FailureCount (failureFacts dl fp p st f)) \<le> 1"
  using assms
  by (auto simp: failureFacts_def Let_def isOperationStopped_def operationFailureCount_def
      MaxOperationFailures_def split: option.splits)

lemma alignEpisode_uncounted:
  assumes "tr_operationFailures st = []" and "tr_stoppedOps st = {}"
  shows "tr_operationFailures (fst (alignEpisode eid st)) = []"
    and "tr_stoppedOps (fst (alignEpisode eid st)) = {}"
  using assms by (simp_all add: alignEpisode_def)

lemma uncounted_not_spent:
  assumes "\<And>tid st. map_of (g_tasks g) tid = Some st \<Longrightarrow>
      tr_operationFailures st = [] \<and> tr_stoppedOps st = {}" and "activeMode mode"
  shows "\<not> spent (cl_facts (snd (classify env mode p g)))"
proof -
  have "\<not> f_OperationAlreadyStopped (ju_facts (judge dl b q tid (proposalFacts a q r ep) (leaveAuto True tid g)))
      \<and> unat (f_FailureCount (ju_facts (judge dl b q tid (proposalFacts a q r ep) (leaveAuto True tid g)))) \<le> 1"
    for dl b q tid a r ep
  proof (cases "map_of (g_tasks g) tid")
    case None
    then show ?thesis by (simp add: judge_def leaveAuto_def proposalFacts_def)
  next
    case (Some st)
    then show ?thesis
      using failureFacts_uncounted [OF alignEpisode_uncounted [of st]] assms(1) [OF Some]
      by (simp add: judge_def judgeTask_def leaveAuto_def retireOutsideAuto_def Let_def)
  qed
  then have "\<not> f_OperationAlreadyStopped (cl_facts (snd (classify env mode p g)))
      \<and> unat (f_FailureCount (cl_facts (snd (classify env mode p g)))) \<le> 1"
    using assms(2) by (simp add: classify_def Let_def)
  then show ?thesis by (auto simp: spent_def)
qed

end
