(* ===== verification/Recovery_Guarantees.thy ===== *)
theory Recovery_Guarantees imports Recovery_Props Demo_Shell begin

text \<open>
  The guarantees of Auto Guard as theorems over the whole gate, each with an instance on a
  concrete gate: the demo shell library, a digest that is the text itself, a prompt callback
  and no reviewer.
\<close>

definition demo_digest :: digest_lib where
  "demo_digest = \<lparr>dl_sha256hex = (\<lambda>s. s), dl_marshal = (\<lambda>j. [])\<rparr>"

definition demo_env :: gate_env where
  "demo_env =
     \<lparr>ge_shell = demo_lib, ge_digest = demo_digest, ge_Reviewer = None, ge_TaskSummary = None,
      ge_MaxReviewBlocks = 3, ge_Headless = False, ge_EmitPrompt = True, ge_Persist = True\<rparr>"

definition demo_proposal :: Proposal where
  "demo_proposal =
     \<lparr>pr_AgentID = [], pr_TaskID = ''t'', pr_TaskScopeID = [], pr_EpisodeID = [],
      pr_TaskSummary = [], pr_Tool = ''edit'', pr_Args = RawEmpty, pr_Subject = ''a.go'',
      pr_Preview = [], pr_ReadOnly = False, pr_Mutates = True, pr_Verification = False,
      pr_PlanTransition = False, pr_PlanBefore = [], pr_PlanAfter = [], pr_SafeRetry = False,
      pr_HighRisk = False, pr_ExpandedScope = False, pr_StrategyChanged = False\<rparr>"

definition demo_failure :: Observation where
  "demo_failure =
     \<lparr>ob_AgentID = [], ob_TaskID = ''t'', ob_TaskScopeID = [], ob_EpisodeID = [],
      ob_Generation = 0, ob_Tool = ''edit'', ob_Args = RawEmpty, ob_Subject = ''a.go'',
      ob_ReadOnly = False, ob_Mutates = True, ob_Verification = False, ob_Success = False,
      ob_Blocked = False, ob_UserRejected = False, ob_ProviderError = False,
      ob_Cancelled = False, ob_EmptySearch = False, ob_ErrSummary = ''no match'', ob_Output = []\<rparr>"

lemma demo_proposal_flags [simp]:
  "pr_Mutates demo_proposal" "\<not> pr_PlanTransition demo_proposal"
  "\<not> pr_ReadOnly demo_proposal" "\<not> pr_Verification demo_proposal"
  by (simp_all add: demo_proposal_def)

lemma demo_auto: "activeMode ''auto''"
  by code_simp

lemma demo_qualifies: "QualifyingFailure demo_failure" "\<not> progress demo_failure"
  "result_of demo_proposal demo_failure" "current ''auto'' demo_failure g"
  by (simp_all add: QualifyingFailure_def progress_def result_of_def current_def demo_auto
      demo_failure_def demo_proposal_def)

abbreviation failures :: "nat \<Rightarrow> budget_event list" where
  "failures n \<equiv> replicate n (Observed 0 demo_failure)"

text \<open>The gate after a number of failures of the demo task.\<close>

definition demo_gate :: "nat \<Rightarrow> Gate" where
  "demo_gate n = fold (gate_step demo_env ''auto'') (failures n) NewGate"

lemma demo_reachable: "gate_reachable demo_env (demo_gate n)"
proof -
  have "gate_reachable demo_env g \<Longrightarrow> gate_reachable demo_env (fold (gate_step demo_env ''auto'') (failures n) g)"
    for g by (induction n arbitrary: g) (auto intro: gate_reachable.observe)
  then show ?thesis unfolding demo_gate_def using gate_reachable.new by blast
qed

lemma demo_history:
  "h_total (fold (hist_step demo_env) (failures n) h) = h_total h + n"
  "h_generation (fold (hist_step demo_env) (failures n) h) = h_generation h"
  by (induction n arbitrary: h)
     (simp_all add: Let_def demo_qualifies [simplified demo_failure_def] demo_failure_def)

lemma demo_refines: "refines (demo_gate n) (fold (hist_step demo_env) (failures n) (freshHistory 1))"
  unfolding demo_gate_def by (rule refines_run [OF demo_auto refines_NewGate])

lemma demo_stopped: "EpisodeStopped (demo_gate 6)"
  by (rule refines_stops(1) [OF demo_refines])
     (simp only: demo_history, simp add: MaxEpisodeFailures_def freshHistory_def)

subsection \<open>The state\<close>

text \<open>
  C27. The gate's state stays well formed whatever is called, in any order and from any task:
  generation and episode numbers are never zero, the budget is stopped exactly when it has a
  reason and always once its limit is reached, every task's runtime belongs to the current
  episode, its stopped operations are those that failed three times, its diagnosis notes are
  within their bounds, every waiting prompt has a channel, and no prompt offers a task grant.
\<close>

theorem gate_well_formed:
  assumes "gate_reachable env g"
  shows "wf_gate g"
  using assms by (rule reachable_wf)

lemma gate_well_formed_witness:
  "gate_reachable demo_env (demo_gate 6) \<and> EpisodeStopped (demo_gate 6) \<and> wf_gate (demo_gate 6)"
  by (intro conjI demo_reachable demo_stopped gate_well_formed [OF demo_reachable])

subsection \<open>Decisions\<close>


text \<open>
  C28. A stopped episode executes nothing: once the episode is stopped, Auto refuses every
  proposal except pure diagnosis, whichever task or tool it comes from and whatever the
  reviewer would say, and the episode stays stopped.
\<close>

theorem stopped_episode_executes_nothing:
  assumes "activeMode mode" and "EpisodeStopped g"
    and "pr_Mutates p \<or> pr_Verification p \<or> pr_PlanTransition p \<or> \<not> pr_ReadOnly p"
    and "BeforeMutation env mode lat p g = (g', out)"
  shows "EpisodeStopped g' \<and> (\<exists>d. out = Decided d \<and> \<not> rd_Allow d \<and> rd_Blocked d)"
  using stopped_refuses [OF assms(1,2), of p env lat] assms(3,4) by (auto simp: refuses_def)

lemma stopped_episode_executes_nothing_witness:
  "\<exists>g' out. BeforeMutation demo_env ''auto'' 0 demo_proposal (demo_gate 6) = (g', out)
     \<and> EpisodeStopped g' \<and> (\<exists>d. out = Decided d \<and> \<not> rd_Allow d \<and> rd_Blocked d)"
proof -
  obtain g' out where call: "BeforeMutation demo_env ''auto'' 0 demo_proposal (demo_gate 6) = (g', out)"
    by (cases "BeforeMutation demo_env ''auto'' 0 demo_proposal (demo_gate 6)")
  show ?thesis
    using call stopped_episode_executes_nothing [OF demo_auto demo_stopped _ call] demo_proposal_flags(1)
    by blast
qed

subsection \<open>Budgets\<close>


lemma demo_run_start:
  "failing_run demo_env ''auto'' NewGate 1
     (fst (ObserveResult demo_env ''auto'' 0 demo_failure
       (fst (BeforeMutation demo_env ''auto'' 0 demo_proposal NewGate))))"
proof -
  obtain g1 out where call: "BeforeMutation demo_env ''auto'' 0 demo_proposal NewGate = (g1, out)"
    by (cases "BeforeMutation demo_env ''auto'' 0 demo_proposal NewGate")
  have "admits (snd (BeforeMutation demo_env ''auto'' 0 demo_proposal NewGate))"
    by (simp add: BeforeMutation_def classify_def Let_def demo_auto leaveAuto_def judge_def NewGate_def
        scopeFacts_def proposalFacts_def clearBudget_def followRoute_def Decide_def routed_def admits_def
        allowDecision_def MaxEpisodeFailures_def)
  then show ?thesis
    using failing_run.attempt [OF failing_run.start call _ demo_qualifies(3,4,1)] call by simp
qed


text \<open>
  C26. The counters are the failure history: after any sequence of results, proposals, fresh
  episodes and restarts, the saturating counters of the episode and of every operation hold
  the number of failures since the last progress or fresh episode, the episode is stopped
  when six have accumulated, and an operation is stopped exactly when it failed three times.
\<close>

theorem counters_refine_history:
  assumes auto: "activeMode mode"
    and g: "g = fold (gate_step env mode) evs NewGate"
    and h: "h = fold (hist_step env) evs (freshHistory 1)"
  shows "unat (eb_totalFailures (g_episode g)) = min 255 (h_total h)
    \<and> (\<forall>t q. unat (count_of g t q) = min 255 (h_ops h t q))
    \<and> (MaxEpisodeFailures \<le> h_total h \<longrightarrow> EpisodeStopped g)
    \<and> (\<forall>t q. q \<noteq> [] \<longrightarrow> operation_stopped g t q = (MaxOperationFailures \<le> h_ops h t q))"
proof -
  have ref: "refines g h" unfolding g h by (rule refines_run [OF auto refines_NewGate])
  then show ?thesis using refines_stops [OF ref] by (simp add: refines_def)
qed

lemma counters_refine_history_witness:
  "unat (eb_totalFailures (g_episode (demo_gate 6))) = 6 \<and> EpisodeStopped (demo_gate 6)"
proof -
  have "h_total (fold (hist_step demo_env) (failures 6) (freshHistory 1)) = 6"
    by (simp only: demo_history) (simp add: freshHistory_def)
  then show ?thesis
    using counters_refine_history [OF demo_auto demo_gate_def refl, of 6]
    by (simp only: MaxEpisodeFailures_def) simp
qed

subsection \<open>Episode changes and restarts\<close>

lemma bump64_neq: "bump64 n \<noteq> n"
  by (auto simp: bump64_def)

lemma reachable_waiter:
  "gate_reachable env g \<Longrightarrow> map_of (g_waiters g) aid = Some c \<Longrightarrow> c < length (g_chans g)"
  using reachable_wf [of env g] list_all_map_of [of _ "g_waiters g" aid c]
  by (auto simp: wf_gate_def wf_waiters_def)

text \<open>
  C29. A fresh episode revokes what is in flight: every prompt that was still waiting is
  answered with a refusal, never an approval, no approval id stays registered, and a result
  that arrives from a call admitted before the change is only counted as stale.
\<close>

theorem rotation_revokes:
  assumes reach: "gate_reachable env g" and waiting: "map_of (g_waiters g) aid = Some c"
    and empty: "g_chans g ! c = None" and pk: "pk_reply pk = c"
    and auto: "activeMode mode" and stale: "ob_Generation obs = g_generation g"
  shows "g_waiters (BeginEpisode env g) = []
    \<and> (\<exists>d. map_option snd (promptAnswered pk (BeginEpisode env g)) = Some (Decided d)
          \<and> \<not> rd_Allow d \<and> rd_Blocked d)
    \<and> (\<exists>m. ObserveResult env mode now obs (BeginEpisode env g) = ((BeginEpisode env g)\<lparr>g_metrics := m\<rparr>, []))"
proof (intro conjI BeginEpisode_waiters(1))
  let ?g = "BeginEpisode env g"
  have len: "c < length (g_chans g)" by (rule reachable_waiter [OF reach waiting])
  have "c < length (g_chans ?g) \<and> g_chans ?g ! c = Some rotatePayload"
    using BeginEpisode_waiters(2) [OF len waiting, of env] empty by simp
  then show "\<exists>d. map_option snd (promptAnswered pk ?g) = Some (Decided d) \<and> \<not> rd_Allow d \<and> rd_Blocked d"
    using decision_rotatePayload by (simp add: promptAnswered_def pk Let_def)
  have "ob_Generation obs \<noteq> 0"
    using reachable_wf [OF reach] by (simp add: stale wf_gate_def wf_ids_def)
  moreover have "ob_Generation obs \<noteq> g_generation ?g"
    using bump64_neq [of "g_generation g"] by (simp add: stale BeginEpisode_generation)
  ultimately show "\<exists>m. ObserveResult env mode now obs ?g = (?g\<lparr>g_metrics := m\<rparr>, [])"
    using auto by (auto simp: ObserveResult_def)
qed

definition demo_plan :: Proposal where
  "demo_plan = demo_proposal\<lparr>pr_PlanTransition := True\<rparr>"

text \<open>The gate while the user is asked about a plan change.\<close>

definition demo_waiting :: Gate where
  "demo_waiting = fst (BeforeMutation demo_env ''auto'' 0 demo_plan NewGate)"

lemma demo_waiting_prompt:
  "map_of (g_waiters demo_waiting) ''pending:t'' = Some 0" "g_chans demo_waiting ! 0 = None"
  "case snd (BeforeMutation demo_env ''auto'' 0 demo_plan NewGate) of Parked pk \<Rightarrow> pk_reply pk = 0 | _ \<Rightarrow> False"
  by code_simp+

lemma rotation_revokes_witness:
  "\<exists>pk. snd (BeforeMutation demo_env ''auto'' 0 demo_plan NewGate) = Parked pk
     \<and> (\<exists>d. map_option snd (promptAnswered pk (BeginEpisode demo_env demo_waiting)) = Some (Decided d)
           \<and> \<not> rd_Allow d \<and> rd_Blocked d)"
proof -
  obtain pk where pk: "snd (BeforeMutation demo_env ''auto'' 0 demo_plan NewGate) = Parked pk" "pk_reply pk = 0"
    using demo_waiting_prompt(3) by (cases "snd (BeforeMutation demo_env ''auto'' 0 demo_plan NewGate)") auto
  have reach: "gate_reachable demo_env demo_waiting"
    unfolding demo_waiting_def by (rule gate_reachable.propose [OF gate_reachable.new])
  show ?thesis
    using rotation_revokes [OF reach demo_waiting_prompt(1,2) pk(2) demo_auto,
        of "demo_failure\<lparr>ob_Generation := g_generation demo_waiting\<rparr>"] pk(1) by auto
qed

text \<open>
  A restart keeps the evidence and re-arms nothing: restoring what was persisted brings
  back, for every task that had failed, its evidence and diagnosis notes as history, with no
  class, no counts and no free retry left; the episode runs, and the first proposal of every
  task after the restart is routed past both stops.
\<close>

theorem restart_never_rearms:
  assumes reach: "gate_reachable env g" "gate_reachable env g0"
    and g': "g' = Restore (PersistenceSnapshot g) g0"
  shows "\<not> EpisodeStopped g'
    \<and> map_of (g_tasks g') tid =
        (case map_of (g_tasks g) tid of
           None \<Rightarrow> None
         | Some st \<Rightarrow>
             map_option (\<lambda>af. (newRuntime (g_episodeID g'))\<lparr>tr_lastFailure := Some (historical af)\<rparr>)
               (tr_lastFailure st))
    \<and> dr_Route (Decide (cl_facts (snd (classify env mode p g')))) \<noteq> RouteStop
    \<and> dr_Route (Decide (cl_facts (snd (classify env mode p g')))) \<noteq> RouteStopTurn"
proof -
  have running: "\<not> EpisodeStopped g'"
    by (simp add: g' EpisodeStopped_def Restore_def Let_def clearBudget_def)
  have tasks: "map_of (g_tasks g') t =
      (case map_of (g_tasks g) t of None \<Rightarrow> None
       | Some st \<Rightarrow> map_option (\<lambda>af. (newRuntime (g_episodeID g'))\<lparr>tr_lastFailure := Some (historical af)\<rparr>)
                     (tr_lastFailure st))" for t
    by (rule Restore_PersistenceSnapshot [OF reachable_wf [OF reach(1)] g'])
  have "tr_operationFailures st = [] \<and> tr_stoppedOps st = {}" if "map_of (g_tasks g') t = Some st" for t st
    using that unfolding tasks by (auto split: option.splits)
  then have "activeMode mode \<Longrightarrow> \<not> spent (cl_facts (snd (classify env mode p g')))"
    by (rule uncounted_not_spent)
  then have "\<not> policy_route (cl_facts (snd (classify env mode p g'))) RouteStop
      \<and> \<not> policy_route (cl_facts (snd (classify env mode p g'))) RouteStopTurn"
    using running by (auto simp: policy_route_def EpisodeStopped_def)
  then show ?thesis using running tasks by (simp add: Decide_policy)
qed

lemma restart_never_rearms_witness:
  "EpisodeStopped (demo_gate 6)
   \<and> \<not> EpisodeStopped (Restore (PersistenceSnapshot (demo_gate 6)) NewGate)"
  using demo_stopped restart_never_rearms [OF demo_reachable gate_reachable.new refl] by blast

subsection \<open>Persistence\<close>

text \<open>
  C30. The newest snapshot is the one on disk: however the background writers are scheduled,
  once FlushPersistence returns for a session, the last snapshot scheduled for it is what the
  Persist callback wrote last, and older snapshots can no longer overwrite it.
\<close>

theorem newest_snapshot_wins:
  assumes "FlushPersistence key (persist_run evs)"
  shows "map_of (ps_disk (persist_run evs)) key = last_scheduled key evs"
proof -
  have inv: "persist_inv key (last_scheduled key evs) (persist_run evs)" by (rule persist_inv_run_all)
  then have "outstanding key (persist_run evs) = []"
    using assms by (simp add: persist_inv_def FlushPersistence_def)
  then show ?thesis using inv
    by (auto simp: persist_inv_def newest_safe_def split: option.splits)
qed

lemma newest_snapshot_wins_witness:
  "map_of (ps_disk (persist_run [Schedule ''s'' (1::nat) True, Schedule ''s'' 2 True, RunWrite 1, RunWrite 0])) ''s''
     = Some 2"
proof -
  have "FlushPersistence ''s'' (persist_run [Schedule ''s'' (1::nat) True, Schedule ''s'' 2 True, RunWrite 1, RunWrite 0])"
    by code_simp
  from newest_snapshot_wins [OF this] show ?thesis by simp
qed

subsection \<open>Risk\<close>

lemma boundaryLoop_low_risk:
  "\<not> rb_highRisk (boundaryLoop sh dl enforce single segs) \<longleftrightarrow>
     (\<forall>seg \<in> set segs. \<exists>fs. StaticFields sh seg = (fs, []) \<and> fs \<noteq> [] \<and> \<not> commandFieldsHighRisk fs
        \<and> (enforce \<longrightarrow> commandFieldsKnownSafeMutation sh fs))"
proof (induction segs)
  case (Cons seg segs)
  obtain fs bad where "StaticFields sh seg = (fs, bad)" by (cases "StaticFields sh seg")
  with Cons show ?case by (auto simp: Let_def onlyHighRisk_def)
qed (simp add: noRisk_def)

text \<open>
  The shell risk boundary fails closed: a command is let through as low risk exactly when
  it is not blank, names no destructive marker, splits at its top-level operators, and every
  piece is a static non-empty command that is not high risk and, for a mutation, is known to
  be safe.
\<close>

theorem bash_low_risk_exact:
  "\<not> rb_highRisk (bashRiskBoundary sh dl command enforce) \<longleftrightarrow>
     TrimSpace command \<noteq> [] \<and> \<not> list_ex (Contains (ToLower (TrimSpace command))) riskMarkers
     \<and> (\<exists>segs ops. SplitTopLevel sh (TrimSpace command) = Some (segs, ops)
          \<and> (\<forall>seg \<in> set segs. \<exists>fs. StaticFields sh seg = (fs, []) \<and> fs \<noteq> [] \<and> \<not> commandFieldsHighRisk fs
               \<and> (enforce \<longrightarrow> commandFieldsKnownSafeMutation sh fs)))"
proof -
  have "rb_highRisk onlyHighRisk" by (simp add: onlyHighRisk_def)
  then show ?thesis
    by (auto simp: bashRiskBoundary_def Let_def boundaryLoop_low_risk split: option.splits)
qed

lemma bash_low_risk_exact_witness:
  "\<exists>fs. StaticFields demo_lib ''go test'' = (fs, []) \<and> \<not> commandFieldsHighRisk fs
     \<and> commandFieldsKnownSafeMutation demo_lib fs"
proof -
  have low: "\<not> rb_highRisk (bashRiskBoundary demo_lib demo_digest ''go test'' True)" by code_simp
  have split: "map_option fst (SplitTopLevel demo_lib (TrimSpace ''go test'')) = Some [''go test'']" by code_simp
  show ?thesis using iffD1 [OF bash_low_risk_exact low] split by auto
qed

text \<open>
  A command under any stack of wrappers: \<open>nohup\<close>, \<open>command\<close>, or \<open>env\<close> with assignments. The
  wrapped command's first word is neither an option nor an assignment, which the wrappers
  would take for themselves.
\<close>

definition plain_word :: "gostr \<Rightarrow> bool" where
  "plain_word w \<longleftrightarrow> \<not> HasPrefix w ''-'' \<and> \<not> Contains w ''=''"

definition assigns :: "gostr \<Rightarrow> bool" where
  "assigns w \<longleftrightarrow> \<not> HasPrefix w ''-'' \<and> Contains w ''=''"

inductive wraps :: "gostr list \<Rightarrow> gostr list \<Rightarrow> bool" for fs where
  bare: "wraps fs fs"
| nohup: "wraps fs outer \<Longrightarrow> plain_word w \<Longrightarrow> ToLower (FilepathBase w) = ''nohup'' \<Longrightarrow> wraps fs (w # outer)"
| builtin: "wraps fs outer \<Longrightarrow> plain_word w \<Longrightarrow> ToLower (FilepathBase w) = ''command'' \<Longrightarrow> wraps fs (w # outer)"
| env: "wraps fs outer \<Longrightarrow> plain_word w \<Longrightarrow> ToLower (FilepathBase w) = ''env'' \<Longrightarrow> list_all assigns as
    \<Longrightarrow> wraps fs (w # as @ outer)"

lemma lower_dash: "lower_char c = CHR ''-'' \<longleftrightarrow> c = CHR ''-''"
proof (cases "is_upper c")
  case True
  then have "(of_char (lower_char c) :: nat) = of_char c + 32"
    by (simp add: lower_char_def is_upper_def)
  then have "lower_char c \<noteq> CHR ''-''" using True by (auto simp: is_upper_def)
  moreover have "c \<noteq> CHR ''-''" using True by (auto simp: is_upper_def)
  ultimately show ?thesis by simp
qed (simp add: lower_char_def)

lemma lower_option: "HasPrefix (ToLower w) ''-'' \<longleftrightarrow> HasPrefix w ''-''"
  by (cases w) (simp_all add: ToLower_def lower_dash)

lemma not_option:
  assumes "\<not> HasPrefix w ''-''"
  shows "\<not> oneOf (ToLower w) [''-i'', ''--ignore-environment'', ''-0'', ''--null'']"
    and "\<not> oneOf (ToLower w) [''-u'', ''--unset'', ''-c'', ''--chdir'']"
    and "\<not> HasPrefix (ToLower w) ''--unset=''" and "\<not> HasPrefix (ToLower w) ''--chdir=''"
    and "ToLower w \<noteq> ''-p''" and "ToLower w \<noteq> ''-v''"
  using assms unfolding lower_option [of w, symmetric]
  by (cases "ToLower w"; auto simp: oneOf_def)+

lemma unwrapEnv_assigns:
  "list_all assigns as \<Longrightarrow> unwrapEnvCommand (as @ outer) = unwrapEnvCommand outer"
  by (induction as) (simp_all add: assigns_def not_option Let_def)

lemma unwrap_plain:
  "plain_word w \<Longrightarrow> unwrapEnvCommand (w # rest) = Some (w # rest)"
  "plain_word w \<Longrightarrow> unwrapCommandBuiltin (w # rest) = Some (w # rest)"
  "plain_word w \<Longrightarrow> trimLeadingOptions (w # rest) = w # rest"
  by (simp_all add: plain_word_def not_option Let_def trimLeadingOptions_def)

lemma wraps_head:
  "wraps (f # fs) outer \<Longrightarrow> plain_word f \<Longrightarrow> \<exists>w rest. outer = w # rest \<and> plain_word w"
  by (induction rule: wraps.induct) auto

text \<open>
  Wrapping does not launder risk: a command that is high risk stays high risk under any
  stack of nohup, command and env wrappers, however deep.
\<close>

theorem wrappers_keep_risk:
  assumes "wraps (f # fs) outer" and "plain_word f" and "commandFieldsHighRisk (f # fs)"
  shows "commandFieldsHighRisk outer"
  using assms(1)
proof induction
  case (nohup outer w)
  then show ?case using wraps_head [OF nohup.hyps(1) assms(2)]
    by (auto simp: commandFieldsHighRisk.simps(2) [of w] oneOf_def unwrap_plain)
next
  case (builtin outer w)
  then show ?case using wraps_head [OF builtin.hyps(1) assms(2)]
    by (auto simp: commandFieldsHighRisk.simps(2) [of w] oneOf_def unwrap_plain
        simp del: unwrapCommandBuiltin.simps)
next
  case (env outer w as)
  then show ?case using wraps_head [OF env.hyps(1) assms(2)]
    by (auto simp: commandFieldsHighRisk.simps(2) [of w] oneOf_def unwrap_plain unwrapEnv_assigns
        simp del: unwrapEnvCommand.simps)
qed (rule assms(3))

lemma wrappers_keep_risk_witness:
  "commandFieldsHighRisk [''env'', ''A=1'', ''nohup'', ''rm'', ''x'']"
proof -
  have "wraps [''rm'', ''x''] [''nohup'', ''rm'', ''x'']"
    by (rule wraps.nohup [OF wraps.bare]) code_simp+
  then have "wraps [''rm'', ''x''] (''env'' # [''A=1''] @ [''nohup'', ''rm'', ''x''])"
    by (rule wraps.env) code_simp+
  then have "wraps [''rm'', ''x''] [''env'', ''A=1'', ''nohup'', ''rm'', ''x'']" by simp
  moreover have "plain_word ''rm''" "commandFieldsHighRisk [''rm'', ''x'']" by code_simp+
  ultimately show ?thesis by (rule wrappers_keep_risk)
qed

end
