(* ===== verification/Evidence_Todos.thy ===== *)
theory Evidence_Todos imports Go_Strings begin

text \<open>
  The serial task list of \<open>internal/evidence\<close> (\<open>ValidateSerialTodos\<close>,
  \<open>NormalizeSerialTodos\<close>, \<open>AdvanceSerialTodo\<close>): a flat list of items in which a level-0
  phase owns the level-1 sub-steps after it. Positions are 0-based as in Go; an error names
  the 1-based position of its message.
\<close>

record TodoItem =
  td_Content :: gostr
  td_Status :: gostr
  td_ActiveForm :: gostr
  td_Level :: int

definition todoStatus :: "gostr \<Rightarrow> gostr" where
  "todoStatus status = (if TrimSpace status = [] then ''pending'' else TrimSpace status)"

abbreviation stat :: "TodoItem \<Rightarrow> gostr" where
  "stat t \<equiv> todoStatus (td_Status t)"

definition setStatus :: "gostr \<Rightarrow> TodoItem \<Rightarrow> TodoItem" where
  "setStatus s t = t\<lparr>td_Status := s\<rparr>"

subsection \<open>Segments\<close>

record todoSegment =
  seg_head :: nat
  seg_end :: nat

text \<open>The number of sub-steps directly after a level-0 item.\<close>

definition subCount :: "TodoItem \<Rightarrow> TodoItem list \<Rightarrow> nat" where
  "subCount t ts = (if td_Level t = 0 then length (takeWhile (\<lambda>u. td_Level u = 1) ts) else 0)"

fun segmentsFrom :: "nat \<Rightarrow> TodoItem list \<Rightarrow> todoSegment list" where
  "segmentsFrom i [] = []"
| "segmentsFrom i (t # ts) =
     (let e = i + 1 + subCount t ts in
      \<lparr>seg_head = i, seg_end = e\<rparr> # segmentsFrom e (drop (subCount t ts) ts))"

definition serialTodoSegments :: "TodoItem list \<Rightarrow> todoSegment list" where
  "serialTodoSegments todos = segmentsFrom 0 todos"

definition segItems :: "TodoItem list \<Rightarrow> todoSegment \<Rightarrow> TodoItem list" where
  "segItems todos seg = take (seg_end seg - seg_head seg) (drop (seg_head seg) todos)"

subsection \<open>Validation\<close>

datatype todo_error =
    SecondInProgress nat gostr
  | InvalidStatus nat gostr gostr
  | OrphanSubStep gostr
  | CompletedAfterUnfinished nat gostr
  | InProgressAfterPending nat gostr
  | PhaseCompletedEarly nat gostr nat gostr
  | PhaseStartedEarly nat gostr nat gostr
  | NoCurrentItem

fun statusLoop :: "nat \<Rightarrow> bool \<Rightarrow> TodoItem list \<Rightarrow> todo_error option" where
  "statusLoop i ipSeen [] = None"
| "statusLoop i ipSeen (t # ts) =
     (if stat t = ''completed'' \<or> stat t = ''pending'' then statusLoop (Suc i) ipSeen ts
      else if stat t = ''in_progress'' then
        (if ipSeen then Some (SecondInProgress (Suc i) (td_Content t))
         else statusLoop (Suc i) True ts)
      else Some (InvalidStatus (Suc i) (td_Content t) (td_Status t)))"

text \<open>What the loop over the sub-steps of a phase has seen.\<close>

record subScan =
  ss_current :: bool
  ss_pending :: bool
  ss_completed :: nat
  ss_unfinished :: "(nat \<times> gostr) option"

definition noScan :: subScan where
  "noScan = \<lparr>ss_current = False, ss_pending = False, ss_completed = 0, ss_unfinished = None\<rparr>"

definition markUnfinished :: "nat \<Rightarrow> TodoItem \<Rightarrow> subScan \<Rightarrow> subScan" where
  "markUnfinished i t sc =
     (if ss_unfinished sc = None then sc\<lparr>ss_unfinished := Some (i, td_Content t)\<rparr> else sc)"

fun subLoop :: "nat \<Rightarrow> TodoItem list \<Rightarrow> subScan \<Rightarrow> todo_error + subScan" where
  "subLoop i [] sc = Inr sc"
| "subLoop i (t # ts) sc =
     (if stat t = ''completed'' then
        (if ss_current sc \<or> ss_pending sc then Inl (CompletedAfterUnfinished (Suc i) (td_Content t))
         else subLoop (Suc i) ts (sc\<lparr>ss_completed := Suc (ss_completed sc)\<rparr>))
      else if stat t = ''in_progress'' then
        (if ss_pending sc then Inl (InProgressAfterPending (Suc i) (td_Content t))
         else subLoop (Suc i) ts (markUnfinished i t (sc\<lparr>ss_current := True\<rparr>)))
      else subLoop (Suc i) ts (markUnfinished i t (sc\<lparr>ss_pending := True\<rparr>)))"

definition validateSerialSegment :: "TodoItem list \<Rightarrow> todoSegment \<Rightarrow> todo_error + gostr" where
  "validateSerialSegment todos seg =
     (let head = todos ! seg_head seg; h = seg_head seg in
      if seg_end seg = h + 1 then Inr (stat head)
      else
        (case subLoop (h + 1) (tl (segItems todos seg)) noScan of
           Inl e \<Rightarrow> Inl e
         | Inr sc \<Rightarrow>
             if stat head = ''completed'' then
               (case ss_unfinished sc of
                  Some (u, c) \<Rightarrow> Inl (PhaseCompletedEarly (h + 1) (td_Content head) (u + 1) c)
                | None \<Rightarrow> Inr ''completed'')
             else if stat head = ''in_progress'' then
               (case ss_unfinished sc of
                  Some (u, c) \<Rightarrow> Inl (PhaseStartedEarly (h + 1) (td_Content head) (u + 1) c)
                | None \<Rightarrow> Inr ''in_progress'')
             else if ss_current sc then Inr ''in_progress''
             else if ss_completed sc = 0 then Inr ''pending''
             else Inr ''stale''))"

text \<open>The first item of the segment with a status, or the segment's head.\<close>

definition firstWith :: "gostr \<Rightarrow> TodoItem list \<Rightarrow> todoSegment \<Rightarrow> nat" where
  "firstWith s todos seg =
     (case filter (\<lambda>i. stat (todos ! i) = s) [seg_head seg..<seg_end seg] of
        [] \<Rightarrow> seg_head seg | i # _ \<Rightarrow> i)"

fun segmentLoop :: "TodoItem list \<Rightarrow> todoSegment list \<Rightarrow> bool \<Rightarrow> bool \<Rightarrow> todo_error option" where
  "segmentLoop todos [] seenCurrent seenPending =
     (if todos \<noteq> [] \<and> seenPending \<and> \<not> seenCurrent then Some NoCurrentItem else None)"
| "segmentLoop todos (seg # segs) seenCurrent seenPending =
     (case validateSerialSegment todos seg of
        Inl e \<Rightarrow> Some e
      | Inr state \<Rightarrow>
          if state = ''completed'' then
            (if seenCurrent \<or> seenPending
             then Some (CompletedAfterUnfinished (seg_head seg + 1) (td_Content (todos ! seg_head seg)))
             else segmentLoop todos segs seenCurrent seenPending)
          else if state = ''in_progress'' then
            (if seenPending
             then (let ip = firstWith ''in_progress'' todos seg in
                   Some (InProgressAfterPending (ip + 1) (td_Content (todos ! ip))))
             else segmentLoop todos segs True seenPending)
          else if state = ''pending'' then segmentLoop todos segs seenCurrent True
          else
            (if seenCurrent
             then (let first = firstWith ''completed'' todos seg in
                   Some (CompletedAfterUnfinished (first + 1) (td_Content (todos ! first))))
             else segmentLoop todos segs seenCurrent True))"

definition ValidateSerialTodos :: "TodoItem list \<Rightarrow> todo_error option" where
  "ValidateSerialTodos todos =
     (case statusLoop 0 False todos of
        Some e \<Rightarrow> Some e
      | None \<Rightarrow>
          if todos \<noteq> [] \<and> td_Level (todos ! 0) = 1 then Some (OrphanSubStep (td_Content (todos ! 0)))
          else segmentLoop todos (serialTodoSegments todos) False False)"

subsection \<open>Repair\<close>

definition setSlice :: "nat \<Rightarrow> TodoItem list \<Rightarrow> TodoItem list \<Rightarrow> TodoItem list" where
  "setSlice i items todos = take i todos @ items @ drop (i + length items) todos"

definition serialSegmentCompleted :: "TodoItem list \<Rightarrow> todoSegment \<Rightarrow> bool" where
  "serialSegmentCompleted todos seg \<longleftrightarrow> list_all (\<lambda>t. stat t = ''completed'') (segItems todos seg)"

text \<open>The sub-steps of the first unfinished phase, and whether one of them was unfinished.\<close>

fun normalizeSubs :: "bool \<Rightarrow> TodoItem list \<Rightarrow> TodoItem list \<times> bool" where
  "normalizeSubs subUnfinished [] = ([], subUnfinished)"
| "normalizeSubs subUnfinished (t # ts) =
     (if \<not> subUnfinished \<and> stat t = ''completed'' then
        (case normalizeSubs subUnfinished ts of (us, b) \<Rightarrow> (t # us, b))
      else if \<not> subUnfinished then
        (case normalizeSubs True ts of (us, b) \<Rightarrow> (setStatus ''in_progress'' t # us, b))
      else (case normalizeSubs subUnfinished ts of (us, b) \<Rightarrow> (setStatus ''pending'' t # us, b)))"

fun normalizeLoop :: "TodoItem list \<Rightarrow> todoSegment list \<Rightarrow> bool \<Rightarrow> TodoItem list" where
  "normalizeLoop out [] unfinished = out"
| "normalizeLoop out (seg # segs) unfinished =
     (if \<not> unfinished \<and> serialSegmentCompleted out seg then normalizeLoop out segs unfinished
      else if unfinished then
        normalizeLoop
          (setSlice (seg_head seg) (map (setStatus ''pending'') (segItems out seg)) out) segs unfinished
      else if seg_end seg = seg_head seg + 1 then
        normalizeLoop (out[seg_head seg := setStatus ''in_progress'' (out ! seg_head seg)]) segs True
      else
        (case normalizeSubs False (tl (segItems out seg)) of
           (subs, subUnfinished) \<Rightarrow>
             let out1 = setSlice (seg_head seg + 1) subs out in
             normalizeLoop
               (out1[seg_head seg :=
                  setStatus (if subUnfinished then ''pending'' else ''in_progress'') (out1 ! seg_head seg)])
               segs True))"

definition NormalizeSerialTodos :: "TodoItem list \<Rightarrow> TodoItem list" where
  "NormalizeSerialTodos todos = normalizeLoop todos (serialTodoSegments todos) False"

subsection \<open>Advancing\<close>

text \<open>Indices are Go integers: callers pass a match's index minus one.\<close>

function unfinishedFrom :: "TodoItem list \<Rightarrow> nat \<Rightarrow> int" where
  "unfinishedFrom todos i =
     (if i < length todos \<and> td_Level (todos ! i) = 1 then
        (if stat (todos ! i) \<noteq> ''completed'' then int i else unfinishedFrom todos (Suc i))
      else -1)"
  by pat_completeness auto
termination by (relation "measure (\<lambda>(todos, i). length todos - i)") auto

declare unfinishedFrom.simps [simp del]

definition FirstUnfinishedSubStep :: "TodoItem list \<Rightarrow> int \<Rightarrow> int \<times> bool" where
  "FirstUnfinishedSubStep todos index =
     (if index < 0 \<or> int (length todos) \<le> index \<or> td_Level (todos ! nat index) \<noteq> 0 then (-1, False)
      else if int (length todos) \<le> index + 1 \<or> td_Level (todos ! nat (index + 1)) \<noteq> 1 then (-1, False)
      else (unfinishedFrom todos (nat (index + 1)), True))"

text \<open>The next pending sibling of a sub-step, and the item above its siblings.\<close>

function pendingSibling :: "TodoItem list \<Rightarrow> nat \<Rightarrow> nat option" where
  "pendingSibling todos i =
     (if i < length todos \<and> td_Level (todos ! i) = 1 then
        (if stat (todos ! i) = ''pending'' then Some i else pendingSibling todos (Suc i))
      else None)"
  by pat_completeness auto
termination by (relation "measure (\<lambda>(todos, i). length todos - i)") auto

declare pendingSibling.simps [simp del]

fun itemAbove :: "TodoItem list \<Rightarrow> nat \<Rightarrow> nat option" where
  "itemAbove todos 0 = None"
| "itemAbove todos (Suc i) = (if td_Level (todos ! i) = 1 then itemAbove todos i else Some i)"

function promoteNext :: "TodoItem list \<Rightarrow> nat \<Rightarrow> TodoItem list" where
  "promoteNext todos i =
     (if i < length todos then
        (if stat (todos ! i) \<noteq> ''pending'' then promoteNext todos (Suc i)
         else
           (case FirstUnfinishedSubStep todos (int i) of
              (sub, ok) \<Rightarrow>
                if ok \<and> 0 \<le> sub then
                  (if stat (todos ! nat sub) = ''pending''
                   then todos[nat sub := setStatus ''in_progress'' (todos ! nat sub)] else todos)
                else todos[i := setStatus ''in_progress'' (todos ! i)]))
      else todos)"
  by pat_completeness auto
termination by (relation "measure (\<lambda>(todos, i). length todos - i)") auto

declare promoteNext.simps [simp del]

text \<open>Promotion after a plain step or a phase: nothing while another item is current.\<close>

definition promoteUnit :: "TodoItem list \<Rightarrow> TodoItem list" where
  "promoteUnit todos =
     (if list_ex (\<lambda>t. stat t = ''in_progress'') todos then todos else promoteNext todos 0)"

definition AdvanceSerialTodo :: "TodoItem list \<Rightarrow> int \<Rightarrow> TodoItem list \<times> bool" where
  "AdvanceSerialTodo todos index =
     (if index < 0 \<or> int (length todos) \<le> index then (todos, False)
      else if stat (todos ! nat index) \<noteq> ''in_progress'' then (todos, False)
      else if snd (FirstUnfinishedSubStep todos index) \<and> 0 \<le> fst (FirstUnfinishedSubStep todos index)
      then (todos, False)
      else
        (let i = nat index; out = todos[i := setStatus ''completed'' (todos ! i)] in
         if td_Level (out ! i) = 1 then
           (case pendingSibling out (Suc i) of
              Some j \<Rightarrow> (out[j := setStatus ''in_progress'' (out ! j)], True)
            | None \<Rightarrow>
                (case itemAbove out i of
                   Some head \<Rightarrow>
                     (if stat (out ! head) \<noteq> ''completed''
                      then out[head := setStatus ''in_progress'' (out ! head)] else out, True)
                 | None \<Rightarrow> (promoteUnit out, True)))
         else (promoteUnit out, True)))"

end
