(* ===== verification/Evidence_Steps.thy ===== *)
theory Evidence_Steps imports Evidence_Todos Text_Encoding begin

text \<open>
  How \<open>complete_step\<close> citations are matched with task-list items: a 1-based number, the
  item's text up to width, space and case, or containment of substantial texts. Case folding
  is that of ASCII letters, as everywhere in the development; width folding and white space
  follow Unicode.
\<close>

subsection \<open>Numbers\<close>

text \<open>\<open>strconv.Atoi\<close>: an optional sign and digits, within 64 bits.\<close>

definition digitsValue :: "gostr \<Rightarrow> int" where
  "digitsValue ds = foldl (\<lambda>n c. 10 * n + (int (of_char c) - 48)) 0 ds"

definition Atoi :: "gostr \<Rightarrow> int option" where
  "Atoi s =
     (let (neg, ds) =
        (case s of
           [] \<Rightarrow> (False, [])
         | c # r \<Rightarrow> if c = CHR ''-'' then (True, r) else if c = CHR ''+'' then (False, r) else (False, s));
          n = (if neg then - digitsValue ds else digitsValue ds)
      in if ds = [] \<or> \<not> list_all is_digit ds then None
         else if n < - (2 ^ 63) \<or> 2 ^ 63 \<le> n then None
         else Some n)"

definition parseStepIndex :: "gostr \<Rightarrow> int option" where
  "parseStepIndex step = Atoi (TrimSpace (TrimSuffix (TrimSpace step) ''.''))"

subsection \<open>Texts\<close>

definition foldWidth :: "rune \<Rightarrow> rune" where
  "foldWidth r = (if 0xFF01 \<le> r \<and> r \<le> 0xFF5E then r - 0xFEE0 else r)"

definition isSpaceRune :: "rune \<Rightarrow> bool" where
  "isSpaceRune r \<longleftrightarrow>
     9 \<le> r \<and> r \<le> 13 \<or> r = 0x20 \<or> r = 0x85 \<or> r = 0xA0 \<or> r = 0x1680
     \<or> 0x2000 \<le> r \<and> r \<le> 0x200A \<or> r = 0x2028 \<or> r = 0x2029 \<or> r = 0x202F \<or> r = 0x205F \<or> r = 0x3000"

definition lowerRune :: "rune \<Rightarrow> rune" where
  "lowerRune r = (if 65 \<le> r \<and> r \<le> 90 then r + 32 else r)"

definition normalizeStepText :: "gostr \<Rightarrow> gostr" where
  "normalizeStepText s =
     runesString (map lowerRune (filter (\<lambda>r. \<not> isSpaceRune r) (map foldWidth (runes s))))"

definition sameStepText :: "gostr \<Rightarrow> gostr \<Rightarrow> bool" where
  "sameStepText a b \<longleftrightarrow> normalizeStepText a \<noteq> [] \<and> normalizeStepText a = normalizeStepText b"

definition stepTextContains :: "gostr \<Rightarrow> gostr \<Rightarrow> bool" where
  "stepTextContains a b =
     (if a = [] \<or> b = [] then False
      else
        (let short = (if length (runes b) < length (runes a) then b else a) in
         if length (runes short) < 6 then False else Contains a b \<or> Contains b a))"

definition textOverlaps :: "gostr \<Rightarrow> gostr \<Rightarrow> bool" where
  "textOverlaps a b = stepTextContains (normalizeStepText a) (normalizeStepText b)"

subsection \<open>Matching\<close>

record TodoStepMatch =
  tm_Found :: bool
  tm_Index :: int
  tm_Content :: gostr
  tm_Status :: gostr
  tm_ActiveForm :: gostr

definition noMatch :: TodoStepMatch where
  "noMatch = \<lparr>tm_Found = False, tm_Index = 0, tm_Content = [], tm_Status = [], tm_ActiveForm = []\<rparr>"

definition matchAt :: "TodoItem list \<Rightarrow> nat \<Rightarrow> TodoStepMatch" where
  "matchAt todos i =
     \<lparr>tm_Found = True, tm_Index = int i + 1, tm_Content = td_Content (todos ! i),
      tm_Status = td_Status (todos ! i), tm_ActiveForm = td_ActiveForm (todos ! i)\<rparr>"

definition sameTodoIdentity :: "TodoItem \<Rightarrow> TodoItem \<Rightarrow> bool" where
  "sameTodoIdentity a b \<longleftrightarrow>
     sameStepText (td_Content a) (td_Content b) \<or> sameStepText (td_ActiveForm a) (td_ActiveForm b)"

definition sameTodoMatch :: "TodoItem \<Rightarrow> TodoStepMatch \<Rightarrow> bool" where
  "sameTodoMatch todo m \<longleftrightarrow>
     sameStepText (td_Content todo) (tm_Content m) \<or> sameStepText (td_ActiveForm todo) (tm_ActiveForm m)"

definition todoContentRelates :: "TodoItem \<Rightarrow> TodoStepMatch \<Rightarrow> bool" where
  "todoContentRelates todo m \<longleftrightarrow>
     textOverlaps (td_Content todo) (tm_Content m) \<or> textOverlaps (td_ActiveForm todo) (tm_ActiveForm m)"

text \<open>The indices at which a test holds: the first, or the only one.\<close>

definition indicesWhere :: "('a \<Rightarrow> bool) \<Rightarrow> 'a list \<Rightarrow> nat list" where
  "indicesWhere p xs = filter (\<lambda>i. p (xs ! i)) [0..<length xs]"

definition firstIndex :: "('a \<Rightarrow> bool) \<Rightarrow> 'a list \<Rightarrow> nat option" where
  "firstIndex p xs = (case indicesWhere p xs of [] \<Rightarrow> None | i # _ \<Rightarrow> Some i)"

definition onlyIndex :: "('a \<Rightarrow> bool) \<Rightarrow> 'a list \<Rightarrow> nat option" where
  "onlyIndex p xs = (case indicesWhere p xs of [i] \<Rightarrow> Some i | _ \<Rightarrow> None)"

definition matchTodoStep :: "gostr \<Rightarrow> TodoItem list \<Rightarrow> TodoStepMatch" where
  "matchTodoStep step todos =
     (let byNumber =
        (case parseStepIndex (normalizeStepText step) of
           Some n \<Rightarrow> if 1 \<le> n \<and> n \<le> int (length todos) then Some (nat (n - 1)) else None
         | None \<Rightarrow> None);
          norm = normalizeStepText step
      in
      case byNumber of
        Some i \<Rightarrow> matchAt todos i
      | None \<Rightarrow>
          (case firstIndex (\<lambda>t. sameStepText step (td_Content t) \<or> sameStepText step (td_ActiveForm t)) todos of
             Some i \<Rightarrow> matchAt todos i
           | None \<Rightarrow>
               (case onlyIndex (\<lambda>t. stepTextContains norm (normalizeStepText (td_Content t))
                                  \<or> stepTextContains norm (normalizeStepText (td_ActiveForm t))) todos of
                  Some i \<Rightarrow> matchAt todos i
                | None \<Rightarrow> noMatch)))"

definition MatchStep :: "gostr \<Rightarrow> TodoItem list \<Rightarrow> TodoStepMatch \<times> bool" where
  "MatchStep step todos = (let m = matchTodoStep step todos in (m, tm_Found m))"

definition MatchTodoIdentity :: "TodoItem \<Rightarrow> TodoItem list \<Rightarrow> TodoStepMatch \<times> bool" where
  "MatchTodoIdentity todo todos =
     (case firstIndex (sameTodoIdentity todo) todos of
        Some i \<Rightarrow> (matchAt todos i, True)
      | None \<Rightarrow>
          (case onlyIndex (\<lambda>c. todoContentRelates todo
                  (noMatch\<lparr>tm_Content := td_Content c, tm_ActiveForm := td_ActiveForm c\<rparr>)) todos of
             Some i \<Rightarrow> (matchAt todos i, True)
           | None \<Rightarrow> (noMatch, False)))"

definition completedKept :: "TodoItem list \<Rightarrow> nat \<Rightarrow> TodoItem \<Rightarrow> bool" where
  "completedKept next i todo =
     (if stat todo \<noteq> ''completed'' then True
      else if length next \<le> i \<or> stat (next ! i) \<noteq> ''completed'' then False
      else
        (case MatchTodoIdentity todo next of (m, found) \<Rightarrow> found \<and> tm_Index m = int i + 1))"

definition PreservesCompletedTodoPositions :: "TodoItem list \<Rightarrow> TodoItem list \<Rightarrow> bool" where
  "PreservesCompletedTodoPositions previous next =
     list_all (\<lambda>i. completedKept next i (previous ! i)) [0..<length previous]"

definition previousTodoCompleted :: "nat \<Rightarrow> TodoItem \<Rightarrow> TodoItem list \<Rightarrow> bool" where
  "previousTodoCompleted index current previous =
     (if 1 \<le> index \<and> index \<le> length previous
         \<and> stat (previous ! (index - 1)) = ''completed'' \<and> sameTodoIdentity current (previous ! (index - 1))
      then True
      else list_ex (\<lambda>p. stat p = ''completed'' \<and> sameTodoIdentity current p) previous)"

definition incompleteMatch :: "TodoItem list \<Rightarrow> nat \<Rightarrow> TodoStepMatch" where
  "incompleteMatch todos j = (matchAt todos j)\<lparr>tm_Status := stat (todos ! j)\<rparr>"

definition IncompleteTodos :: "TodoItem list \<Rightarrow> TodoStepMatch list" where
  "IncompleteTodos todos =
     map (incompleteMatch todos) (indicesWhere (\<lambda>t. stat t \<noteq> ''completed'') todos)"

definition normalizeTodo :: "TodoItem \<Rightarrow> TodoItem" where
  "normalizeTodo t =
     t\<lparr>td_Content := TrimSpace (td_Content t), td_Status := TrimSpace (td_Status t),
       td_ActiveForm := TrimSpace (td_ActiveForm t)\<rparr>"

definition normalizeTodos :: "TodoItem list \<Rightarrow> TodoItem list" where
  "normalizeTodos todos = map normalizeTodo todos"

end
