(* ===== verification/Evidence_Commands.thy ===== *)
theory Evidence_Commands imports Shell_Safe File_Paths Json begin

text \<open>
  The command classifiers of \<open>internal/evidence\<close>: which shell commands are verification,
  which may change the workspace, which quoted command a command that run covers, and which
  commands show the content of a file.
\<close>

subsection \<open>Arguments and flags\<close>

definition oneOfWords :: "gostr \<Rightarrow> gostr list \<Rightarrow> bool" where
  "oneOfWords s ws \<longleftrightarrow> s \<in> set ws"

definition hasCommandArg :: "gostr list \<Rightarrow> gostr list \<Rightarrow> bool" where
  "hasCommandArg args candidates \<longleftrightarrow> list_ex (\<lambda>a. list_ex (EqualFold a) candidates) args"

text \<open>A name up to its first equals sign, and without its leading dashes.\<close>

definition beforeEquals :: "gostr \<Rightarrow> gostr" where
  "beforeEquals name = (case IndexByte name (CHR ''='') of None \<Rightarrow> name | Some i \<Rightarrow> take i name)"

definition TrimLeftDash :: "gostr \<Rightarrow> gostr" where
  "TrimLeftDash s = dropWhile (\<lambda>c. c = CHR ''-'') s"

definition writeOutputFlags :: "gostr list" where
  "writeOutputFlags =
     [''snapshot-update'', ''updatesnapshot'', ''junitxml'', ''junit-xml'', ''junitfile'',
      ''jsonfile'', ''coverprofile'', ''cpuprofile'', ''memprofile'', ''blockprofile'',
      ''mutexprofile'', ''testlogfile'', ''gocoverdir'', ''outputfile'', ''report-log'']"

definition argWritesOutput :: "gostr \<Rightarrow> bool" where
  "argWritesOutput arg =
     (let name = TrimLeftDash arg in
      if length name = length arg \<or> name = [] then False
      else
        (let name1 = TrimPrefix (ToLower (beforeEquals name)) ''test.'' in
         name1 \<in> set writeOutputFlags
         \<or> (case IndexByte name1 (CHR ''.'') of
              None \<Rightarrow> False
            | Some i \<Rightarrow> 0 < i \<and> take i name1 \<in> set writeOutputFlags)))"

definition hasWriteOutputFlag :: "gostr list \<Rightarrow> bool" where
  "hasWriteOutputFlag args \<longleftrightarrow> list_ex argWritesOutput args"

definition mypyFlagWritesReport :: "gostr \<Rightarrow> bool" where
  "mypyFlagWritesReport arg =
     (let name = beforeEquals (ToLower arg) in HasPrefix name ''--'' \<and> HasSuffix name ''-report'')"

definition goTestFlagWritesFile :: "gostr \<Rightarrow> bool" where
  "goTestFlagWritesFile arg =
     (let name = beforeEquals (ToLower arg); trimmed = TrimLeftDash name in
      if length trimmed = length name \<or> trimmed = [] then False
      else
        oneOfWords (TrimPrefix trimmed ''test.'')
          [''c'', ''o'', ''trace'', ''artifacts'', ''testlogfile'', ''gocoverdir'',
           ''coverprofile'', ''cpuprofile'', ''memprofile'', ''blockprofile'', ''mutexprofile''])"

subsection \<open>Verification commands\<close>

definition tscFlagDisqualifiesVerification :: "gostr \<Rightarrow> bool" where
  "tscFlagDisqualifiesVerification arg =
     oneOfWords (beforeEquals (ToLower arg))
       [''--tsbuildinfofile'', ''--generatetrace'', ''--generatecpuprofile'',
        ''--init'', ''--help'', ''-h'', ''-?'', ''--all'', ''--version'', ''-v'',
        ''--showconfig'', ''--listfilesonly'', ''--nocheck'', ''--watch'', ''-w'',
        ''--build'', ''-b'', ''--clean'']"

fun tscLoop :: "gostr list \<Rightarrow> bool \<Rightarrow> bool" where
  "tscLoop [] noEmit = noEmit"
| "tscLoop (arg # rest) noEmit =
     (if tscFlagDisqualifiesVerification arg then False
      else if ToLower arg = ''--noemit'' then
        (case rest of
           v # _ \<Rightarrow> if EqualFold v ''false'' then False else tscLoop rest True
         | [] \<Rightarrow> tscLoop rest True)
      else if ToLower arg = ''--noemit=true'' then tscLoop rest True
      else if ToLower arg = ''--noemit=false'' then False
      else tscLoop rest noEmit)"

definition tscSegmentIsVerification :: "gostr list \<Rightarrow> bool" where
  "tscSegmentIsVerification args = tscLoop args False"

definition plainNpxVersion :: "gostr \<Rightarrow> bool" where
  "plainNpxVersion version \<longleftrightarrow>
     version \<noteq> [] \<and>
     list_all (\<lambda>r. is_lower r \<or> is_digit r \<or> r \<in> set ''.-+_~^*'') version"

definition npxRunnerName :: "gostr \<Rightarrow> gostr option" where
  "npxRunnerName spec =
     (if spec = [] \<or> ContainsAny spec [CHR ''/'', backslash] then None
      else
        (let name = ToLower spec in
         if HasPrefix name ''@'' then None
         else
           (case LastIndexAny name ''@'' of
              None \<Rightarrow> Some name
            | Some i \<Rightarrow>
                if i = 0 \<or> \<not> plainNpxVersion (drop (Suc i) name) then None else Some (take i name))))"

definition npxFlagWrites :: "gostr \<Rightarrow> bool" where
  "npxFlagWrites arg =
     (let name = beforeEquals (ToLower arg) in
      oneOfWords name
        [''--update'', ''-u'', ''--updatesnapshot'', ''--update-snapshots'',
         ''--output-file'', ''-o'', ''--cache-location'']
      \<or> name = ''--coverage'' \<or> HasPrefix name ''--coverage.'')"

definition npxSegmentIsVerification :: "gostr list \<Rightarrow> bool" where
  "npxSegmentIsVerification args =
     (case args of
        [] \<Rightarrow> False
      | spec # runnerArgs \<Rightarrow>
          if HasPrefix spec ''-'' then False
          else
            (case npxRunnerName spec of
               None \<Rightarrow> False
             | Some runner \<Rightarrow>
                 if oneOfWords runner [''vitest'', ''jest'', ''mocha'', ''ava'', ''eslint'']
                 then \<not> list_ex npxFlagWrites runnerArgs
                 else if runner = ''prettier'' then
                   hasCommandArg runnerArgs [''--check'', ''-c'', ''--list-different'']
                   \<and> \<not> list_ex npxFlagWrites runnerArgs
                 else if runner = ''tsc'' then tscSegmentIsVerification runnerArgs
                 else False))"

definition nodeTestFlagWritesFile :: "gostr \<Rightarrow> bool" where
  "nodeTestFlagWritesFile arg =
     oneOfWords (beforeEquals (ToLower arg))
       [''--cpu-prof'', ''--heap-prof'', ''--heapsnapshot-near-heap-limit'', ''--heapsnapshot-signal'',
        ''--localstorage-file'', ''--perf-basic-prof'', ''--perf-basic-prof-only-functions'', ''--perf-prof'',
        ''--prof'', ''--redirect-warnings'', ''--report-on-fatalerror'', ''--report-on-signal'',
        ''--report-uncaught-exception'', ''--test-reporter-destination'', ''--test-rerun-failures'',
        ''--test-update-snapshots'', ''--tls-keylog'', ''--trace-events-enabled'']"

definition nodeSegmentIsVerification :: "gostr list \<Rightarrow> bool" where
  "nodeSegmentIsVerification args =
     (case args of
        [] \<Rightarrow> False
      | flag # rest \<Rightarrow>
          if flag = ''--check'' \<or> flag = ''-c''
          then \<not> list_ex (\<lambda>arg. arg \<noteq> ''-'' \<and> HasPrefix arg ''-'') rest
          else if flag = ''--test'' then \<not> list_ex nodeTestFlagWritesFile rest
          else False)"

definition packageSegmentIsVerification :: "gostr list \<Rightarrow> bool" where
  "packageSegmentIsVerification args =
     (args \<noteq> [] \<and> hasCommandArg (take 1 args) [''test'', ''check'', ''lint'', ''clippy'']
      \<or> 1 < length args \<and> hd args = ''run''
        \<and> hasCommandArg (take 1 (drop 1 args)) [''test'', ''check'', ''lint'', ''typecheck''])"

definition runnerIsVerification :: "gostr \<Rightarrow> gostr list \<Rightarrow> bool" where
  "runnerIsVerification base args =
     (if base = ''go'' then
        (case args of
           [] \<Rightarrow> False
         | a # rest \<Rightarrow>
             if a = ''vet'' then True
             else if a = ''test'' then \<not> list_ex goTestFlagWritesFile rest
             else False)
      else if base = ''git'' then
        1 < length args \<and> hd args = ''diff'' \<and> hasCommandArg (tl args) [''--check'']
      else if oneOfWords base [''pytest'', ''py.test'', ''gotestsum'', ''staticcheck'', ''golangci-lint'']
      then True
      else if base = ''tsc'' then tscSegmentIsVerification args
      else if base = ''mypy'' then \<not> list_ex mypyFlagWritesReport args
      else if oneOfWords base [''npm'', ''pnpm'', ''yarn'', ''bun'', ''cargo'']
      then packageSegmentIsVerification args
      else if base = ''npx'' then npxSegmentIsVerification args
      else if base = ''node'' then nodeSegmentIsVerification args
      else if oneOfWords base [''make'', ''just''] then
        args \<noteq> [] \<and> hasCommandArg (take 1 args) [''test'', ''check'', ''lint'', ''verify'', ''ci'']
      else if oneOfWords base [''python'', ''python3''] then
        1 < length args \<and> hd args = ''-m'' \<and> hasCommandArg (take 1 (drop 1 args)) [''pytest'', ''unittest'']
      else if base = ''dotnet'' then args \<noteq> [] \<and> hd args = ''test''
      else if oneOfWords base [''mvn'', ''mvnw'', ''gradle'', ''gradlew''] then
        args \<noteq> [] \<and> hasCommandArg args [''test'', ''check'', ''verify'']
      else False)"

definition bashSegmentIsVerification :: "gostr list \<Rightarrow> bool" where
  "bashSegmentIsVerification flds =
     (case flds of
        [] \<Rightarrow> False
      | f # args \<Rightarrow>
          if hasCommandArg args [''--fix'', ''--write'', ''-w'', ''--update'', ''-u''] then False
          else if hasWriteOutputFlag args then False
          else runnerIsVerification (ToLower (FilepathBase f)) args)"

subsection \<open>Classification of a command line\<close>

text \<open>The first result of \<open>NormalizeBashSafeRedirectsForMatch\<close>, empty when it fails.\<close>

definition normalizedText :: "shell_lib \<Rightarrow> gostr \<Rightarrow> gostr" where
  "normalizedText lib segment =
     (case NormalizeBashSafeRedirectsForMatch lib segment of None \<Rightarrow> [] | Some t \<Rightarrow> t)"

definition segmentVerifies :: "shell_lib \<Rightarrow> gostr \<Rightarrow> bool" where
  "segmentVerifies lib segment =
     (case StaticFields lib (normalizedText lib segment) of
        (flds, malformed) \<Rightarrow> malformed = [] \<and> bashSegmentIsVerification flds)"

definition bashContainsVerificationSegment :: "shell_lib \<Rightarrow> gostr \<Rightarrow> bool" where
  "bashContainsVerificationSegment lib command0 =
     (let command = TrimSpace command0 in
      if command = [] then False
      else
        (case SplitTopLevel lib command of
           None \<Rightarrow> False
         | Some (segments, _) \<Rightarrow> list_ex (segmentVerifies lib) segments))"

definition bashReadOnlyCommandWrites :: "gostr \<Rightarrow> gostr \<Rightarrow> gostr list \<Rightarrow> bool" where
  "bashReadOnlyCommandWrites base sub flds =
     (let args0 = drop 1 flds; args = (if sub \<noteq> [] \<and> args0 \<noteq> [] then drop 1 args0 else args0) in
      if base = ''find'' then
        hasCommandArg args
          [''-exec'', ''-execdir'', ''-delete'', ''-ok'', ''-okdir'', ''-fls'', ''-fprint'', ''-fprint0'', ''-fprintf'']
      else if base = ''sort'' then
        list_ex (\<lambda>arg. arg = ''-o'' \<or> arg = ''--output'' \<or> HasPrefix arg ''--output='' \<or> HasPrefix arg ''-o'') args
      else if base = ''git'' then
        oneOfWords sub [''diff'', ''show'', ''log'']
        \<and> list_ex (\<lambda>arg. arg = ''--output'' \<or> HasPrefix arg ''--output='') args
      else if base = ''go'' then sub = ''env'' \<and> hasCommandArg args [''-w'', ''-u'']
      else False)"

definition segmentMayMutate :: "shell_lib \<Rightarrow> gostr \<Rightarrow> bool" where
  "segmentMayMutate lib segment =
     (case NormalizeBashSafeRedirectsForMatch lib segment of
        None \<Rightarrow> True
      | Some normalized \<Rightarrow>
          if ContainsShellSyntax lib normalized then True
          else
            (let (flds, malformed) = StaticFields lib normalized in
             if malformed \<noteq> [] \<or> flds = [] then True
             else if bashSegmentIsVerification flds then False
             else
               (case CommandIsWorkspaceNonMutating lib normalized of
                  None \<Rightarrow> True
                | Some (base, sub) \<Rightarrow> bashReadOnlyCommandWrites base sub flds)))"

definition bashMayMutate :: "shell_lib \<Rightarrow> gostr \<Rightarrow> bool" where
  "bashMayMutate lib command0 =
     (let command = TrimSpace command0 in
      if command = [] then True
      else
        (case SplitTopLevel lib command of
           None \<Rightarrow> True
         | Some (segments, _) \<Rightarrow>
             if segments = [] then True else list_ex (segmentMayMutate lib) segments))"

fun verificationLoop :: "shell_lib \<Rightarrow> gostr list \<Rightarrow> bool \<Rightarrow> bool" where
  "verificationLoop lib [] found = found"
| "verificationLoop lib (segment # segments) found =
     (case NormalizeBashSafeRedirectsForMatch lib segment of
        None \<Rightarrow> False
      | Some normalized \<Rightarrow>
          (let (flds, malformed) = StaticFields lib normalized in
           if malformed \<noteq> [] \<or> flds = [] then False
           else if bashSegmentIsVerification flds then verificationLoop lib segments True
           else if CommandIsReadOnly lib normalized = None then False
           else verificationLoop lib segments found))"

definition bashCommandIsVerification :: "shell_lib \<Rightarrow> gostr \<Rightarrow> bool" where
  "bashCommandIsVerification lib command0 =
     (let command = TrimSpace command0 in
      if command = [] then False
      else
        (case SplitTopLevel lib command of
           None \<Rightarrow> False
         | Some (segments, _) \<Rightarrow>
             if segments = [] then False else verificationLoop lib segments False))"

definition IsDeliveryVerificationCommand :: "shell_lib \<Rightarrow> gostr \<Rightarrow> bool" where
  "IsDeliveryVerificationCommand lib command = bashCommandIsVerification lib command"

subsection \<open>Tool calls\<close>

definition fieldString :: "(gostr \<times> json) list \<Rightarrow> gostr \<Rightarrow> gostr" where
  "fieldString flds key = (case objGet flds key of Some (JStr s) \<Rightarrow> TrimSpace s | _ \<Rightarrow> [])"

definition nonMutationMetaTools :: "gostr list" where
  "nonMutationMetaTools =
     [''run_skill'', ''read_skill'', ''read_only_skill'', ''task'', ''read_only_task'',
      ''parallel_tasks'', ''explore'', ''research'', ''review'', ''security_review'',
      ''use_capability'', ''connect_tool_source'', ''review_report'']"

definition IsNonMutationMetaTool :: "gostr \<Rightarrow> bool" where
  "IsNonMutationMetaTool toolName \<longleftrightarrow> TrimSpace toolName \<in> set nonMutationMetaTools"

definition IsReviewSkillTool :: "gostr \<Rightarrow> bool" where
  "IsReviewSkillTool toolName = oneOfWords (TrimSpace toolName) [''review'', ''security_review'']"

definition ToolCallMutates :: "shell_lib \<Rightarrow> gostr \<Rightarrow> raw_json \<Rightarrow> bool \<Rightarrow> bool" where
  "ToolCallMutates lib toolName args readOnly =
     (if readOnly then False
      else if IsNonMutationMetaTool toolName then False
      else if oneOfWords toolName [''ask'', ''todo_write'', ''complete_step'', ''bash_output'', ''wait''] then False
      else if toolName = ''bash'' then
        (case unmarshalMap args of
           None \<Rightarrow> True
         | Some flds \<Rightarrow> bashMayMutate lib (fieldString flds ''command''))
      else True)"

definition ToolCallRequiresDeliveryCriteria :: "shell_lib \<Rightarrow> gostr \<Rightarrow> raw_json \<Rightarrow> bool \<Rightarrow> bool" where
  "ToolCallRequiresDeliveryCriteria lib toolName args readOnly =
     (if ToolCallMutates lib toolName args readOnly then True
      else if toolName \<noteq> ''bash'' then False
      else
        (case unmarshalMap args of
           None \<Rightarrow> True
         | Some flds \<Rightarrow> bashCommandIsVerification lib (fieldString flds ''command'')))"

definition BashToolCallMixesMutationAndVerification :: "shell_lib \<Rightarrow> raw_json \<Rightarrow> bool" where
  "BashToolCallMixesMutationAndVerification lib args =
     (case unmarshalMap args of
        None \<Rightarrow> False
      | Some flds \<Rightarrow>
          (let command = fieldString flds ''command'' in
           bashContainsVerificationSegment lib command \<and> bashMayMutate lib command))"

fun masksLoop :: "shell_lib \<Rightarrow> gostr list \<Rightarrow> bool \<Rightarrow> bool" where
  "masksLoop lib [] seenVerifier = False"
| "masksLoop lib (segment # segments) seenVerifier =
     (if segmentVerifies lib segment then masksLoop lib segments True
      else if \<not> seenVerifier \<or> \<not> Contains segment ''$?'' then masksLoop lib segments seenVerifier
      else
        (let lower = ToLower (TrimSpace segment) in
         if HasPrefix lower ''echo '' \<or> HasPrefix lower ''printf '' then True
         else masksLoop lib segments seenVerifier))"

definition BashToolCallMasksVerificationExit :: "shell_lib \<Rightarrow> raw_json \<Rightarrow> bool" where
  "BashToolCallMasksVerificationExit lib args =
     (case unmarshalMap args of
        None \<Rightarrow> False
      | Some flds \<Rightarrow>
          (let command = TrimSpace (fieldString flds ''command'') in
           if command = [] \<or> \<not> bashContainsVerificationSegment lib command then False
           else
             (case SplitTopLevel lib command of
                None \<Rightarrow> False
              | Some (segments, _) \<Rightarrow> masksLoop lib segments False)))"

definition inlineInterpreter :: "gostr \<Rightarrow> gostr list \<Rightarrow> bool" where
  "inlineInterpreter base args =
     (if oneOfWords base [''node'', ''bun''] then hasCommandArg args [''-e'', ''--eval'', ''-p'', ''--print'']
      else if oneOfWords base [''python'', ''python3'', ''ruby'', ''perl''] then hasCommandArg args [''-c'', ''-e'']
      else if base = ''php'' then hasCommandArg args [''-r'']
      else if base = ''deno'' then args \<noteq> [] \<and> EqualFold (hd args) ''eval''
      else False)"

definition segmentIsInlineSource :: "shell_lib \<Rightarrow> gostr \<Rightarrow> bool" where
  "segmentIsInlineSource lib segment =
     (case StaticFields lib (normalizedText lib segment) of
        (argv, malformed) \<Rightarrow>
          if malformed \<noteq> [] then False
          else
            (case argv of
               [] \<Rightarrow> False
             | f # args \<Rightarrow> inlineInterpreter (ToLower (FilepathBase f)) args))"

definition BashToolCallUsesOpaqueInlineInterpreter :: "shell_lib \<Rightarrow> raw_json \<Rightarrow> bool" where
  "BashToolCallUsesOpaqueInlineInterpreter lib args =
     (case unmarshalMap args of
        None \<Rightarrow> False
      | Some flds \<Rightarrow>
          (let command = TrimSpace (fieldString flds ''command'') in
           if command = [] then False
           else
             (case SplitTopLevel lib command of
                None \<Rightarrow> False
              | Some (segments, _) \<Rightarrow> list_ex (segmentIsInlineSource lib) segments)))"

subsection \<open>Quoted commands\<close>

text \<open>\<open>strings.Split\<close> at a non-empty separator and \<open>strings.ReplaceAll\<close> of one byte by nothing.\<close>

function SplitSep :: "gostr \<Rightarrow> gostr \<Rightarrow> gostr list" where
  "SplitSep [] sep = [[]]"
| "SplitSep (c # s) sep =
     (if HasPrefix (c # s) sep then [] # SplitSep (drop (length sep - 1) s) sep
      else (case SplitSep s sep of [] \<Rightarrow> [[c]] | p # ps \<Rightarrow> (c # p) # ps))"
  by pat_completeness auto
termination by (relation "measure (\<lambda>(s, sep). length s)") auto

definition dropByte :: "char \<Rightarrow> gostr \<Rightarrow> gostr" where
  "dropByte c s = filter (\<lambda>x. x \<noteq> c) s"

definition segmentSeparators :: "gostr list" where
  "segmentSeparators = [''&&'', ''||'', '';'', ''|'', [nl]]"

definition splitParts :: "gostr \<Rightarrow> gostr list" where
  "splitParts s = fold (\<lambda>sep parts. concat (map (\<lambda>p. SplitSep p sep) parts)) segmentSeparators [s]"

definition commandSegments :: "shell_lib \<Rightarrow> gostr \<Rightarrow> gostr list" where
  "commandSegments lib s =
     (case SplitTopLevel lib s of
        Some (segs, _) \<Rightarrow> segs
      | None \<Rightarrow>
          filter (\<lambda>p. p \<noteq> [] \<and> \<not> HasPrefix p ''#'') (map TrimSpace (splitParts s)))"

definition segmentTokens :: "shell_lib \<Rightarrow> gostr \<Rightarrow> gostr list" where
  "segmentTokens lib s =
     (case StaticFields lib s of
        (flds, malformed) \<Rightarrow>
          if malformed = [] then flds
          else filter (\<lambda>f. f \<noteq> []) (map (\<lambda>f. dropByte (CHR 0x27) (dropByte dquote f)) (Fields s)))"

definition segmentMatches :: "shell_lib \<Rightarrow> gostr \<Rightarrow> gostr \<Rightarrow> bool" where
  "segmentMatches lib cited run =
     (let ct = segmentTokens lib cited; rt = segmentTokens lib run in
      if ct = [] \<or> rt = [] then False
      else if Join ct '' '' = Join rt '' '' then True
      else if length ct < 2 \<or> hd ct \<noteq> hd rt then False
      else list_all (\<lambda>t. t \<in> set rt) ct)"

definition segmentCovered :: "shell_lib \<Rightarrow> gostr \<Rightarrow> gostr list \<Rightarrow> bool" where
  "segmentCovered lib cited ranSegs \<longleftrightarrow> list_ex (segmentMatches lib cited) ranSegs"

definition CommandMatches :: "shell_lib \<Rightarrow> gostr \<Rightarrow> gostr \<Rightarrow> bool" where
  "CommandMatches lib cited run =
     (let citedSegs = commandSegments lib cited in
      if citedSegs = [] then False
      else list_all (\<lambda>c. segmentCovered lib c (commandSegments lib run)) citedSegs)"

subsection \<open>Paths and content\<close>

definition slashes :: "gostr \<Rightarrow> gostr" where
  "slashes s = map (\<lambda>c. if c = backslash then CHR ''/'' else c) s"

definition normalizePath :: "gostr \<Rightarrow> gostr" where
  "normalizePath p = (if TrimSpace p = [] then [] else Clean (slashes (TrimSpace p)))"

definition normalizePaths :: "gostr list \<Rightarrow> gostr list" where
  "normalizePaths paths = filter (\<lambda>p. p \<noteq> []) (map normalizePath paths)"

definition namedBy :: "gostr \<Rightarrow> gostr \<Rightarrow> bool" where
  "namedBy needle path \<longleftrightarrow> path = needle \<or> HasSuffix path (''/'' @ needle)"

definition argNamesPath :: "gostr \<Rightarrow> gostr \<Rightarrow> bool" where
  "argNamesPath arg needle =
     (let tok = ToLower (normalizePath arg) in
      if tok = [] \<or> HasPrefix tok ''-'' then False
      else if namedBy needle tok then True
      else (case IndexByte tok (CHR '':'') of None \<Rightarrow> False | Some i \<Rightarrow> namedBy needle (drop (Suc i) tok)))"

definition argNamesGitRevisionPath :: "gostr \<Rightarrow> gostr \<Rightarrow> bool" where
  "argNamesGitRevisionPath arg needle =
     (let tok = ToLower (normalizePath arg) in
      if tok = [] \<or> HasPrefix tok ''-'' then False
      else
        (case IndexByte tok (CHR '':'') of
           None \<Rightarrow> False
         | Some i \<Rightarrow> if i = 0 \<or> i = length tok - 1 then False else namedBy needle (drop (Suc i) tok)))"

definition contentSuppressingFlags :: "gostr list" where
  "contentSuppressingFlags =
     [''-q'', ''--quiet'', ''-s'', ''--silent'', ''--brief'', ''--no-patch'', ''--name-only'',
      ''--name-status'', ''--numstat'', ''--shortstat'', ''--summary'', ''--check'']"

definition suppressesContent :: "gostr \<Rightarrow> bool" where
  "suppressesContent a =
     (let lower = ToLower a in
      lower \<in> set contentSuppressingFlags \<or> HasPrefix lower ''--stat'' \<or> HasPrefix lower ''--dirstat'')"

definition namesContent :: "bool \<Rightarrow> gostr list \<Rightarrow> gostr \<Rightarrow> bool" where
  "namesContent gitShow rest needle =
     (if list_ex suppressesContent rest then False
      else list_ex (\<lambda>a. if gitShow then argNamesGitRevisionPath a needle else argNamesPath a needle) rest)"

definition contentArgvShowsPath :: "gostr list \<Rightarrow> gostr \<Rightarrow> bool" where
  "contentArgvShowsPath argv needle =
     (case argv of
        [] \<Rightarrow> False
      | f # rest \<Rightarrow>
          (let base = ToLower (FilepathBase f) in
           if oneOfWords base [''cat'', ''head'', ''tail'', ''diff'', ''cmp''] then namesContent False rest needle
           else if base = ''git'' then
             (case rest of
                [] \<Rightarrow> False
              | g # args \<Rightarrow>
                  (let sub = ToLower g in
                   if sub \<noteq> ''diff'' \<and> sub \<noteq> ''show'' then False
                   else namesContent (sub = ''show'') args needle))
           else False))"

fun contentStatementShowsPath :: "sh_stmt \<Rightarrow> gostr \<Rightarrow> bool" where
  "contentStatementShowsPath (Stmt i (CallExpr as args)) needle =
     (if st_negated i \<or> st_background i \<or> st_coprocess i then False
      else if st_redirs i \<noteq> [] then False
      else (case staticArgs args of None \<Rightarrow> False | Some argv \<Rightarrow> contentArgvShowsPath argv needle))"
| "contentStatementShowsPath _ needle = False"

definition commandShowsContentForPath :: "shell_lib \<Rightarrow> gostr \<Rightarrow> gostr \<Rightarrow> bool" where
  "commandShowsContentForPath lib command needle =
     (case sh_parse lib command of
        Inl _ \<Rightarrow> False
      | Inr file \<Rightarrow>
          if HasHereDoc lib (Some file) then False
          else (case file of [stmt] \<Rightarrow> contentStatementShowsPath stmt needle | _ \<Rightarrow> False))"

definition fieldsReviewChanges :: "gostr list \<Rightarrow> bool" where
  "fieldsReviewChanges flds =
     (case flds of
        [] \<Rightarrow> False
      | f # rest \<Rightarrow>
          (let base = ToLower (FilepathBase f) in
           if base = ''diff'' \<or> base = ''cmp'' then True
           else if base = ''git'' then
             (case rest of
                [] \<Rightarrow> False
              | g # _ \<Rightarrow> oneOfWords (ToLower g) [''diff'', ''status'', ''show''])
           else False))"

definition segmentReviewsChanges :: "shell_lib \<Rightarrow> gostr \<Rightarrow> bool" where
  "segmentReviewsChanges lib segment =
     (case NormalizeBashSafeRedirectsForMatch lib segment of
        None \<Rightarrow> False
      | Some normalized \<Rightarrow>
          (case StaticFields lib normalized of
             (flds, malformed) \<Rightarrow> malformed = [] \<and> fieldsReviewChanges flds))"

definition commandReviewsChanges :: "shell_lib \<Rightarrow> gostr \<Rightarrow> bool" where
  "commandReviewsChanges lib command =
     (case SplitTopLevel lib command of
        None \<Rightarrow> False
      | Some (segments, _) \<Rightarrow> list_ex (segmentReviewsChanges lib) segments)"

text \<open>The wanted set is a set of keys; Go ranges over it in any order.\<close>

definition commandMentionsPaths :: "gostr \<Rightarrow> gostr list \<Rightarrow> bool" where
  "commandMentionsPaths command wanted \<longleftrightarrow>
     list_ex (\<lambda>p. Contains (ToLower (slashes command)) (ToLower p)) wanted"

end
