(* ===== verification/Evidence_Receipts.thy ===== *)
theory Evidence_Receipts imports Evidence_Steps Evidence_Commands Recovery_Types begin

text \<open>
  Receipts: what the host records of one tool call, how its arguments are decoded, and how
  the transcript of a session proves paths when the ledger of the turn does not.
\<close>

subsection \<open>Receipts\<close>

record Receipt =
  rc_ToolName :: gostr
  rc_Args :: raw_json
  rc_Profile :: gostr
  rc_Success :: bool
  rc_Command :: gostr
  rc_Step :: gostr
  rc_StepProof :: bool
  rc_TodoStep :: "TodoStepMatch option"
  rc_Paths :: "gostr list"
  rc_Read :: bool
  rc_Write :: bool
  rc_Mutation :: bool
  rc_Todos :: "TodoItem list"
  rc_OutputBytes :: int

subsection \<open>Decoding arguments\<close>

text \<open>
  \<open>json.Unmarshal\<close> into a Go value: null leaves it as it was, any other mismatch fails
  (\<open>None\<close>); member names match struct fields without regard to case and the last one wins.
\<close>

fun decodeString :: "gostr \<Rightarrow> json \<Rightarrow> gostr option" where
  "decodeString old (JStr s) = Some s"
| "decodeString old JNull = Some old"
| "decodeString old _ = None"

fun decodeBool :: "bool \<Rightarrow> json \<Rightarrow> bool option" where
  "decodeBool old (JBool b) = Some b"
| "decodeBool old JNull = Some old"
| "decodeBool old _ = None"

fun decodeInt :: "int \<Rightarrow> json \<Rightarrow> int option" where
  "decodeInt old (JNum t) = Atoi t"
| "decodeInt old JNull = Some old"
| "decodeInt old _ = None"

fun decodeAll :: "('a \<Rightarrow> 'b option) \<Rightarrow> 'a list \<Rightarrow> 'b list option" where
  "decodeAll f [] = Some []"
| "decodeAll f (x # xs) =
     (case f x of None \<Rightarrow> None | Some y \<Rightarrow> map_option ((#) y) (decodeAll f xs))"

fun decodeArray :: "(json \<Rightarrow> 'b option) \<Rightarrow> json \<Rightarrow> 'b list option" where
  "decodeArray f (JArr vs) = decodeAll f vs"
| "decodeArray f JNull = Some []"
| "decodeArray f _ = None"

definition decodeStrings :: "json \<Rightarrow> gostr list option" where
  "decodeStrings v = decodeArray (decodeString []) v"

text \<open>A struct: its members are read one after the other into the zero value.\<close>

fun decodeMembers :: "(gostr \<Rightarrow> json \<Rightarrow> 's \<Rightarrow> 's option) \<Rightarrow> (gostr \<times> json) list \<Rightarrow> 's \<Rightarrow> 's option" where
  "decodeMembers f [] s = Some s"
| "decodeMembers f ((k, v) # kvs) s =
     (case f k v s of None \<Rightarrow> None | Some s1 \<Rightarrow> decodeMembers f kvs s1)"

fun decodeStruct :: "(gostr \<Rightarrow> json \<Rightarrow> 's \<Rightarrow> 's option) \<Rightarrow> 's \<Rightarrow> json \<Rightarrow> 's option" where
  "decodeStruct f s (JObj kvs) = decodeMembers f kvs s"
| "decodeStruct f s JNull = Some s"
| "decodeStruct f s _ = None"

fun rawValue :: "raw_json \<Rightarrow> json option" where
  "rawValue (RawJson t v) = Some v"
| "rawValue _ = None"

definition intField :: "(gostr \<times> json) list \<Rightarrow> gostr \<Rightarrow> int option" where
  "intField kvs key = (case objGet kvs key of None \<Rightarrow> None | Some v \<Rightarrow> decodeInt 0 v)"

definition stringSliceField :: "(gostr \<times> json) list \<Rightarrow> gostr \<Rightarrow> gostr list" where
  "stringSliceField kvs key =
     (case objGet kvs key of
        None \<Rightarrow> []
      | Some v \<Rightarrow> (case decodeStrings v of None \<Rightarrow> [] | Some ss \<Rightarrow> ss))"

definition todoMember :: "gostr \<Rightarrow> json \<Rightarrow> TodoItem \<Rightarrow> TodoItem option" where
  "todoMember k v t =
     (if EqualFold k ''content'' then map_option (\<lambda>s. t\<lparr>td_Content := s\<rparr>) (decodeString (td_Content t) v)
      else if EqualFold k ''status'' then map_option (\<lambda>s. t\<lparr>td_Status := s\<rparr>) (decodeString (td_Status t) v)
      else if EqualFold k ''activeForm'' then
        map_option (\<lambda>s. t\<lparr>td_ActiveForm := s\<rparr>) (decodeString (td_ActiveForm t) v)
      else if EqualFold k ''level'' then map_option (\<lambda>n. t\<lparr>td_Level := n\<rparr>) (decodeInt (td_Level t) v)
      else Some t)"

definition noTodo :: TodoItem where
  "noTodo = \<lparr>td_Content = [], td_Status = [], td_ActiveForm = [], td_Level = 0\<rparr>"

definition todoItemsField :: "(gostr \<times> json) list \<Rightarrow> gostr \<Rightarrow> TodoItem list" where
  "todoItemsField kvs key =
     (case objGet kvs key of
        None \<Rightarrow> []
      | Some v \<Rightarrow>
          (case decodeArray (decodeStruct todoMember noTodo) v of
             None \<Rightarrow> [] | Some todos \<Rightarrow> normalizeTodos todos))"

subsection \<open>Evidence items of complete_step\<close>

record evidence_item =
  ei_Kind :: gostr
  ei_Summary :: gostr
  ei_Command :: gostr
  ei_Paths :: "gostr list"

definition noItem :: evidence_item where
  "noItem = \<lparr>ei_Kind = [], ei_Summary = [], ei_Command = [], ei_Paths = []\<rparr>"

definition commandMember :: "gostr \<Rightarrow> json \<Rightarrow> evidence_item \<Rightarrow> evidence_item option" where
  "commandMember k v e =
     (if EqualFold k ''kind'' then map_option (\<lambda>s. e\<lparr>ei_Kind := s\<rparr>) (decodeString (ei_Kind e) v)
      else if EqualFold k ''command'' then map_option (\<lambda>s. e\<lparr>ei_Command := s\<rparr>) (decodeString (ei_Command e) v)
      else Some e)"

definition proofMember :: "gostr \<Rightarrow> json \<Rightarrow> evidence_item \<Rightarrow> evidence_item option" where
  "proofMember k v e =
     (if EqualFold k ''summary'' then map_option (\<lambda>s. e\<lparr>ei_Summary := s\<rparr>) (decodeString (ei_Summary e) v)
      else if EqualFold k ''paths'' then map_option (\<lambda>ps. e\<lparr>ei_Paths := ps\<rparr>) (decodeStrings v)
      else commandMember k v e)"

definition evidenceMember :: "gostr \<Rightarrow> json \<Rightarrow> evidence_item list \<Rightarrow> evidence_item list option" where
  "evidenceMember k v es =
     (if EqualFold k ''evidence'' then decodeArray (decodeStruct commandMember noItem) v else Some es)"

definition completeStepVerificationCommands :: "raw_json \<Rightarrow> gostr list" where
  "completeStepVerificationCommands args =
     (case rawValue args of
        None \<Rightarrow> []
      | Some v \<Rightarrow>
          (case decodeStruct evidenceMember [] v of
             None \<Rightarrow> []
           | Some items \<Rightarrow>
               map (\<lambda>e. TrimSpace (ei_Command e))
                 (filter (\<lambda>e. ei_Kind e = ''verification'' \<and> TrimSpace (ei_Command e) \<noteq> []) items)))"

definition itemHasProof :: "evidence_item \<Rightarrow> bool" where
  "itemHasProof e =
     (let kind = TrimSpace (ei_Kind e) in
      if kind = [] \<or> TrimSpace (ei_Summary e) = [] then False
      else if kind = ''verification'' then TrimSpace (ei_Command e) \<noteq> []
      else if kind = ''diff'' \<or> kind = ''files'' then normalizePaths (ei_Paths e) \<noteq> []
      else kind = ''manual'')"

definition completeStepHasProof :: "(gostr \<times> json) list \<Rightarrow> bool" where
  "completeStepHasProof kvs =
     (if TrimSpace (fieldString kvs ''result'') = [] then False
      else
        (case objGet kvs ''evidence'' of
           None \<Rightarrow> False
         | Some v \<Rightarrow>
             (case decodeArray (decodeStruct proofMember noItem) v of
                None \<Rightarrow> False
              | Some items \<Rightarrow> items \<noteq> [] \<and> list_all itemHasProof items)))"

definition itoaInt :: "int \<Rightarrow> gostr" where
  "itoaInt n = (if n < 0 then ''-'' @ itoa (nat (- n)) else itoa (nat n))"

definition completeStepIdentity :: "(gostr \<times> json) list \<Rightarrow> gostr" where
  "completeStepIdentity kvs =
     (case intField kvs ''step_index'' of
        Some n \<Rightarrow> if 0 < n then itoaInt n else fieldString kvs ''step''
      | None \<Rightarrow> fieldString kvs ''step'')"

subsection \<open>The receipt of a call\<close>

definition pathKeys :: "gostr list" where
  "pathKeys = [''path'', ''file_path'', ''notebook_path'', ''source_path'', ''destination_path'']"

definition extractPaths :: "(gostr \<times> json) list \<Rightarrow> gostr list" where
  "extractPaths kvs =
     filter (\<lambda>s. s \<noteq> []) (map (fieldString kvs) pathKeys)
     @ concat (map (stringSliceField kvs) [''paths'', ''file_paths''])"

definition isWriterTool :: "gostr \<Rightarrow> bool" where
  "isWriterTool name =
     oneOfWords name
       [''write_file'', ''edit_file'', ''multi_edit'', ''move_file'', ''notebook_edit'', ''delete_range'', ''delete_symbol'']"

definition isReaderTool :: "gostr \<Rightarrow> bool" where
  "isReaderTool name = oneOfWords name [''read_file'', ''ls'', ''grep'']"

definition isReadReceipt :: "gostr \<Rightarrow> bool \<Rightarrow> bool" where
  "isReadReceipt name readOnly =
     (if name = ''todo_write'' \<or> name = ''complete_step'' then False else isReaderTool name \<or> readOnly)"

definition bareReceipt :: "shell_lib \<Rightarrow> gostr \<Rightarrow> raw_json \<Rightarrow> bool \<Rightarrow> bool \<Rightarrow> Receipt" where
  "bareReceipt lib toolName args success readOnly =
     \<lparr>rc_ToolName = toolName, rc_Args = args, rc_Profile = [], rc_Success = success, rc_Command = [],
      rc_Step = [], rc_StepProof = False, rc_TodoStep = None, rc_Paths = [], rc_Read = False,
      rc_Write = False, rc_Mutation = ToolCallMutates lib toolName args readOnly, rc_Todos = [],
      rc_OutputBytes = 0\<rparr>"

definition withFields :: "gostr \<Rightarrow> (gostr \<times> json) list \<Rightarrow> Receipt \<Rightarrow> Receipt" where
  "withFields toolName kvs r =
     r\<lparr>rc_Command := (if toolName = ''bash'' then fieldString kvs ''command'' else rc_Command r),
       rc_Profile := (if toolName = ''task'' then fieldString kvs ''profile'' else rc_Profile r),
       rc_Step := (if toolName = ''complete_step'' then completeStepIdentity kvs else rc_Step r),
       rc_StepProof := (if toolName = ''complete_step'' then completeStepHasProof kvs else rc_StepProof r),
       rc_Todos := (if toolName = ''todo_write'' then todoItemsField kvs ''todos'' else rc_Todos r),
       rc_Paths := extractPaths kvs\<rparr>"

definition ReceiptFromToolCall :: "shell_lib \<Rightarrow> gostr \<Rightarrow> raw_json \<Rightarrow> bool \<Rightarrow> bool \<Rightarrow> Receipt" where
  "ReceiptFromToolCall lib toolName args success readOnly =
     (let r0 = bareReceipt lib toolName args success readOnly;
          r1 = (case unmarshalMap args of None \<Rightarrow> r0 | Some kvs \<Rightarrow> withFields toolName kvs r0)
      in if isWriterTool toolName then r1\<lparr>rc_Write := True\<rparr>
         else if isReadReceipt toolName readOnly then r1\<lparr>rc_Read := True\<rparr>
         else r1)"

subsection \<open>The transcript\<close>

record tool_call =
  tc_ID :: gostr
  tc_Name :: gostr
  tc_Arguments :: raw_json

record session_message =
  sm_Role :: gostr
  sm_Content :: gostr
  sm_ToolCalls :: "tool_call list"
  sm_ToolCallID :: gostr

definition failedSessionCallIDs :: "session_message list \<Rightarrow> gostr set" where
  "failedSessionCallIDs msgs =
     set (map sm_ToolCallID
       (filter (\<lambda>m. \<not> (sm_Role m \<noteq> ''tool'' \<or> sm_ToolCallID m = [])
                    \<and> (HasPrefix (sm_Content m) ''error:'' \<or> HasPrefix (sm_Content m) ''blocked:'')) msgs))"

definition PathsProvenInSession :: "shell_lib \<Rightarrow> session_message list \<Rightarrow> gostr list \<Rightarrow> bool \<Rightarrow> bool" where
  "PathsProvenInSession lib msgs paths wantWrite =
     (let wanted = set (normalizePaths paths);
          failed = failedSessionCallIDs msgs;
          receipts = map (\<lambda>tc. ReceiptFromToolCall lib (tc_Name tc) (tc_Arguments tc) True False)
            (filter (\<lambda>tc. tc_ID tc \<notin> failed) (concat (map sm_ToolCalls msgs)));
          accepted = filter (\<lambda>r. if wantWrite then rc_Write r else rc_Read r \<or> rc_Write r) receipts;
          found = {p \<in> wanted. p \<in> set (concat (map (\<lambda>r. normalizePaths (rc_Paths r)) accepted))}
      in wanted \<noteq> {} \<and> card found = card wanted)"

end
