(* ===== verification/Evidence_Ledger.thy ===== *)
theory Evidence_Ledger imports Evidence_Receipts begin

text \<open>
  The ledger of receipts of a turn (\<open>Ledger\<close>): recording, merging the receipts of
  sub-agents, background leases, and the queries the delivery gate asks. Every method of the
  code holds one mutex, so a method is one function of the state; a nil ledger behaves as the
  empty one and drops what is recorded.
\<close>

subsection \<open>State\<close>

record BackgroundLease =
  bl_Session :: gostr
  bl_JobID :: gostr

record Ledger =
  lg_receipts :: "Receipt list"
  lg_leases :: "BackgroundLease list"

definition NewLedger :: Ledger where
  "NewLedger = \<lparr>lg_receipts = [], lg_leases = []\<rparr>"

definition Reset :: "Ledger \<Rightarrow> Ledger" where
  "Reset l = l\<lparr>lg_receipts := [], lg_leases := []\<rparr>"

definition ResetBackgroundLeases :: "Ledger \<Rightarrow> Ledger" where
  "ResetBackgroundLeases l = l\<lparr>lg_leases := []\<rparr>"

definition NoteBackgroundLease :: "gostr \<Rightarrow> gostr \<Rightarrow> Ledger \<Rightarrow> Ledger \<times> bool" where
  "NoteBackgroundLease session jobID l =
     (if list_ex (\<lambda>b. bl_Session b = session \<and> bl_JobID b = jobID) (lg_leases l) then (l, False)
      else (l\<lparr>lg_leases := lg_leases l @ [\<lparr>bl_Session = session, bl_JobID = jobID\<rparr>]\<rparr>, True))"

definition BackgroundLeases :: "Ledger \<Rightarrow> BackgroundLease list" where
  "BackgroundLeases l = lg_leases l"

subsection \<open>Recording\<close>

definition isTodoWrite :: "Receipt \<Rightarrow> bool" where
  "isTodoWrite r \<longleftrightarrow> rc_Success r \<and> rc_ToolName r = ''todo_write''"

text \<open>The loops that walk the receipts from the latest one back.\<close>

definition latestTodoWrite :: "Receipt list \<Rightarrow> Receipt option" where
  "latestTodoWrite rs = find isTodoWrite (rev rs)"

definition latestTodoStep :: "gostr \<Rightarrow> Receipt list \<Rightarrow> TodoStepMatch" where
  "latestTodoStep step rs =
     (case latestTodoWrite rs of None \<Rightarrow> noMatch | Some r \<Rightarrow> matchTodoStep step (rc_Todos r))"

definition normalizeReceipt :: "Receipt \<Rightarrow> Receipt" where
  "normalizeReceipt r =
     r\<lparr>rc_Command := TrimSpace (rc_Command r), rc_Step := TrimSpace (rc_Step r),
       rc_Paths := normalizePaths (rc_Paths r), rc_Todos := normalizeTodos (rc_Todos r)\<rparr>"

definition resolveStep :: "Receipt list \<Rightarrow> Receipt \<Rightarrow> Receipt" where
  "resolveStep rs r =
     (if rc_ToolName r = ''complete_step'' \<and> rc_Step r \<noteq> [] \<and> rc_TodoStep r = None then
        (let m = latestTodoStep (rc_Step r) rs in
         if tm_Found m then r\<lparr>rc_TodoStep := Some m\<rparr> else r)
      else r)"

definition Record :: "Receipt \<Rightarrow> Ledger \<Rightarrow> Ledger" where
  "Record r l = l\<lparr>lg_receipts := lg_receipts l @ [resolveStep (lg_receipts l) (normalizeReceipt r)]\<rparr>"

definition childOwned :: "Receipt \<Rightarrow> bool" where
  "childOwned r \<longleftrightarrow> \<not> oneOfWords (rc_ToolName r) [''todo_write'', ''complete_step'', ''ask'']"

definition MergeChild :: "Receipt list \<Rightarrow> Ledger \<Rightarrow> Ledger" where
  "MergeChild summary l = fold Record (filter childOwned summary) l"

definition MergeChildren :: "Receipt list list \<Rightarrow> Ledger \<Rightarrow> Ledger" where
  "MergeChildren summaries l = fold MergeChild summaries l"

definition Summary :: "Ledger \<Rightarrow> Receipt list" where
  "Summary l = lg_receipts l"

definition HasMutation :: "Receipt list \<Rightarrow> bool" where
  "HasMutation summary \<longleftrightarrow> list_ex (\<lambda>r. rc_Success r \<and> rc_Mutation r) summary"

text \<open>The first occurrences of a list of paths, without those seen before.\<close>

fun keepNew :: "gostr list \<Rightarrow> gostr list \<Rightarrow> gostr list" where
  "keepNew seen [] = []"
| "keepNew seen (p # ps) = (if p \<in> set seen then keepNew seen ps else p # keepNew (p # seen) ps)"

definition pathsOf :: "Receipt list \<Rightarrow> gostr list" where
  "pathsOf rs = concat (map rc_Paths rs)"

definition MutationPaths :: "Receipt list \<Rightarrow> gostr list" where
  "MutationPaths summary =
     sort (keepNew [[]] (pathsOf (filter (\<lambda>r. rc_Success r \<and> rc_Mutation r) summary)))"

subsection \<open>Queries\<close>

definition Len :: "Ledger \<Rightarrow> int" where
  "Len l = int (length (lg_receipts l))"

text \<open>\<open>lastIndex\<close> is \<open>-1\<close> when no receipt qualifies; \<open>since\<close> drops the receipts before an index.\<close>

definition lastIndex :: "('a \<Rightarrow> bool) \<Rightarrow> 'a list \<Rightarrow> int" where
  "lastIndex p xs = (case rev (indicesWhere p xs) of [] \<Rightarrow> -1 | i # _ \<Rightarrow> int i)"

definition since :: "int \<Rightarrow> Receipt list \<Rightarrow> Receipt list" where
  "since index rs = drop (nat index) rs"

definition HasWriteOrCommandSince :: "int \<Rightarrow> Ledger \<Rightarrow> bool" where
  "HasWriteOrCommandSince index l =
     list_ex (\<lambda>r. rc_Success r \<and> (rc_Mutation r \<or> rc_Write r \<or> rc_Command r \<noteq> [])) (since index (lg_receipts l))"

definition progressReceiptSignature :: "digest_lib \<Rightarrow> Receipt \<Rightarrow> gostr option" where
  "progressReceiptSignature dl r =
     (if \<not> rc_Success r then None
      else
        (let kind =
           (if rc_Mutation r \<or> rc_Write r then ''mutation''
            else if rc_Command r \<noteq> [] then ''command''
            else if rc_Read r \<and> 0 < rc_OutputBytes r then ''read''
            else [])
         in if kind = [] then None
            else
              (let payload = (case rawValue (rc_Args r) of
                                None \<Rightarrow> TrimSpace (raw_text (rc_Args r)) | Some v \<Rightarrow> dl_marshal dl v)
               in Some (dl_sha256hex dl (kind @ [CHR 0x00] @ rc_ToolName r @ [CHR 0x00] @ payload)))))"

definition SuccessfulProgressSignaturesSince :: "digest_lib \<Rightarrow> int \<Rightarrow> Ledger \<Rightarrow> gostr list" where
  "SuccessfulProgressSignaturesSince dl index l =
     List.map_filter (progressReceiptSignature dl) (since index (lg_receipts l))"

definition commandReceipt :: "shell_lib \<Rightarrow> bool \<Rightarrow> gostr \<Rightarrow> Receipt \<Rightarrow> bool" where
  "commandReceipt lib success command r \<longleftrightarrow>
     rc_Success r = success \<and> rc_ToolName r = ''bash'' \<and> CommandMatches lib command (rc_Command r)"

definition HasSuccessfulCommand :: "shell_lib \<Rightarrow> gostr \<Rightarrow> Ledger \<Rightarrow> bool" where
  "HasSuccessfulCommand lib command0 l =
     (let command = TrimSpace command0 in
      if command = [] then False else list_ex (commandReceipt lib True command) (lg_receipts l))"

definition HasFailedCommand :: "shell_lib \<Rightarrow> gostr \<Rightarrow> Ledger \<Rightarrow> bool" where
  "HasFailedCommand lib command0 l =
     (let command = TrimSpace command0 in
      if command = [] then False else list_ex (commandReceipt lib False command) (lg_receipts l))"

definition HasSuccessfulCommandAfter :: "shell_lib \<Rightarrow> gostr \<Rightarrow> int \<Rightarrow> Ledger \<Rightarrow> bool" where
  "HasSuccessfulCommandAfter lib command0 after l =
     (let command = TrimSpace command0 in
      if command = [] then False
      else list_ex (commandReceipt lib True command) (since (after + 1) (lg_receipts l)))"

definition SuccessfulCommands :: "int \<Rightarrow> Ledger \<Rightarrow> gostr list" where
  "SuccessfulCommands limit l =
     take (nat limit)
       (map rc_Command
         (filter (\<lambda>r. rc_Success r \<and> rc_ToolName r = ''bash'' \<and> rc_Command r \<noteq> []) (rev (lg_receipts l))))"

definition TouchedPaths :: "int \<Rightarrow> bool \<Rightarrow> Ledger \<Rightarrow> gostr list" where
  "TouchedPaths limit writtenOnly l =
     take (nat limit)
       (keepNew []
         (pathsOf (filter (\<lambda>r. rc_Success r \<and> (if writtenOnly then rc_Write r else rc_Read r \<or> rc_Write r))
           (rev (lg_receipts l)))))"

definition HasSuccessfulBashMentioningPaths :: "gostr list \<Rightarrow> Ledger \<Rightarrow> bool" where
  "HasSuccessfulBashMentioningPaths paths l =
     (let wanted = normalizePaths paths in
      if wanted = [] then False
      else
        list_all (\<lambda>p. list_ex (\<lambda>r. rc_Success r \<and> rc_ToolName r = ''bash''
                                 \<and> Contains (ToLower (slashes (rc_Command r))) (ToLower p))
                       (lg_receipts l)) wanted)"

definition HasSuccessfulCompleteStepAfter :: "int \<Rightarrow> Ledger \<Rightarrow> bool" where
  "HasSuccessfulCompleteStepAfter after l =
     list_ex (\<lambda>r. rc_Success r \<and> rc_ToolName r = ''complete_step'') (since (after + 1) (lg_receipts l))"

subsection \<open>Review of a change\<close>

definition pathSet :: "gostr list \<Rightarrow> gostr list" where
  "pathSet paths = filter (\<lambda>p. p \<noteq> []) paths"

definition receiptReviews :: "shell_lib \<Rightarrow> gostr list \<Rightarrow> Receipt \<Rightarrow> bool" where
  "receiptReviews lib wanted r =
     (if \<not> rc_Success r then False
      else if rc_ToolName r = ''bash'' \<and> commandReviewsChanges lib (rc_Command r) then True
      else if rc_ToolName r = ''bash'' \<and> wanted \<noteq> [] \<and> \<not> bashMayMutate lib (rc_Command r)
              \<and> commandMentionsPaths (rc_Command r) wanted then True
      else if \<not> rc_Read r then False
      else if wanted = [] then True
      else list_ex (\<lambda>p. p \<in> set wanted) (rc_Paths r))"

definition receiptsReviewChanges :: "shell_lib \<Rightarrow> Receipt list \<Rightarrow> nat \<Rightarrow> nat \<Rightarrow> int \<Rightarrow> bool" where
  "receiptsReviewChanges lib rs start stop mutationIndex =
     (if int (length rs) \<le> mutationIndex then False
      else
        (let wanted = (if 0 \<le> mutationIndex then pathSet (rc_Paths (rs ! nat mutationIndex)) else [])
         in list_ex (receiptReviews lib wanted) (take (stop - start) (drop start rs))))"

definition HasSuccessfulReviewAfter :: "shell_lib \<Rightarrow> int \<Rightarrow> Ledger \<Rightarrow> bool" where
  "HasSuccessfulReviewAfter lib after l =
     (let rs = lg_receipts l in
      if int (length rs) \<le> after then False
      else receiptsReviewChanges lib rs (nat (after + 1)) (length rs) after)"

text \<open>A complete_step receipt whose cited verification ran and succeeded before it.\<close>

definition signsOffAt :: "shell_lib \<Rightarrow> Receipt list \<Rightarrow> int \<Rightarrow> nat \<Rightarrow> bool" where
  "signsOffAt lib rs after i =
     (let r = rs ! i; start = nat (after + 1) in
      if \<not> rc_Success r \<or> rc_ToolName r \<noteq> ''complete_step'' then False
      else if 0 \<le> after \<and> \<not> receiptsReviewChanges lib rs start i after then False
      else
        list_ex (\<lambda>command.
            bashCommandIsVerification lib command
            \<and> list_ex (\<lambda>j. commandReceipt lib True command (rs ! j)) [start..<i])
          (completeStepVerificationCommands (rc_Args r)))"

definition HasSuccessfulDeliverySignoffAfter :: "shell_lib \<Rightarrow> int \<Rightarrow> Ledger \<Rightarrow> bool" where
  "HasSuccessfulDeliverySignoffAfter lib after l =
     list_ex (signsOffAt lib (lg_receipts l) after) [nat (after + 1)..<length (lg_receipts l)]"

subsection \<open>Task lists and work\<close>

definition HasSuccessfulTodoWrite :: "Ledger \<Rightarrow> bool" where
  "HasSuccessfulTodoWrite l = list_ex isTodoWrite (lg_receipts l)"

definition HasSuccessfulAcceptanceCriteria :: "Ledger \<Rightarrow> bool" where
  "HasSuccessfulAcceptanceCriteria l = list_ex (\<lambda>r. isTodoWrite r \<and> rc_Todos r \<noteq> []) (lg_receipts l)"

definition HasSuccessfulTodoProgressReceipt :: "Ledger \<Rightarrow> bool" where
  "HasSuccessfulTodoProgressReceipt l =
     list_ex (\<lambda>r. \<not> (\<not> rc_Success r \<or> rc_ToolName r = ''todo_write'' \<or> rc_Read r)) (lg_receipts l)"

definition IncompleteLatestTodos :: "Ledger \<Rightarrow> TodoStepMatch list \<times> bool" where
  "IncompleteLatestTodos l =
     (case latestTodoWrite (lg_receipts l) of
        None \<Rightarrow> ([], False) | Some r \<Rightarrow> (IncompleteTodos (rc_Todos r), True))"

definition MatchLatestTodoStep :: "gostr \<Rightarrow> Ledger \<Rightarrow> TodoStepMatch \<times> bool" where
  "MatchLatestTodoStep step0 l =
     (let step = TrimSpace step0 in
      if step = [] then (noMatch, False)
      else
        (case latestTodoWrite (lg_receipts l) of
           None \<Rightarrow> (noMatch, False) | Some r \<Rightarrow> (matchTodoStep step (rc_Todos r), True)))"

definition LatestTodos :: "Ledger \<Rightarrow> TodoItem list \<times> bool" where
  "LatestTodos l =
     (case latestTodoWrite (lg_receipts l) of None \<Rightarrow> ([], False) | Some r \<Rightarrow> (rc_Todos r, True))"

definition HasAnySuccessfulReceipt :: "Ledger \<Rightarrow> bool" where
  "HasAnySuccessfulReceipt l = list_ex rc_Success (lg_receipts l)"

definition HasSuccessfulWorkReceipt :: "Ledger \<Rightarrow> bool" where
  "HasSuccessfulWorkReceipt l =
     list_ex (\<lambda>r. rc_Success r \<and> \<not> oneOfWords (rc_ToolName r) [''ask'', ''todo_write'', ''complete_step'']) (lg_receipts l)"

definition HasSuccessfulVerificationCommand :: "shell_lib \<Rightarrow> Ledger \<Rightarrow> bool" where
  "HasSuccessfulVerificationCommand lib l =
     list_ex (\<lambda>r. rc_Success r \<and> rc_ToolName r = ''bash'' \<and> bashCommandIsVerification lib (rc_Command r)) (lg_receipts l)"

subsection \<open>Paths\<close>

definition hasSuccessfulPaths :: "gostr list \<Rightarrow> (Receipt \<Rightarrow> bool) \<Rightarrow> Ledger \<Rightarrow> bool" where
  "hasSuccessfulPaths paths accept l =
     (let wanted = set (pathSet (normalizePaths paths));
          found = {p \<in> wanted. p \<in> set (pathsOf (filter (\<lambda>r. rc_Success r \<and> accept r) (lg_receipts l)))}
      in wanted \<noteq> {} \<and> card found = card wanted)"

definition HasSuccessfulWrite :: "gostr list \<Rightarrow> Ledger \<Rightarrow> bool" where
  "HasSuccessfulWrite paths l = hasSuccessfulPaths paths rc_Write l"

definition HasSuccessfulReadOrWrite :: "gostr list \<Rightarrow> Ledger \<Rightarrow> bool" where
  "HasSuccessfulReadOrWrite paths l = hasSuccessfulPaths paths (\<lambda>r. rc_Read r \<or> rc_Write r) l"

definition touches :: "gostr list \<Rightarrow> Receipt \<Rightarrow> bool" where
  "touches wanted r \<longleftrightarrow> list_ex (\<lambda>p. p \<in> set wanted) (rc_Paths r)"

text \<open>A Go result \<open>(index, ok)\<close>: \<open>ok\<close> is that the index is not negative.\<close>

definition LatestSuccessfulWriteIndex :: "gostr list \<Rightarrow> Ledger \<Rightarrow> int \<times> bool" where
  "LatestSuccessfulWriteIndex paths l =
     (let wanted = pathSet (normalizePaths paths) in
      if wanted = [] then (0, False)
      else
        (let latest = lastIndex (\<lambda>r. rc_Success r \<and> rc_Write r \<and> touches wanted r) (lg_receipts l)
         in (latest, 0 \<le> latest)))"

definition LatestSuccessfulWriterIndex :: "Ledger \<Rightarrow> int \<times> bool" where
  "LatestSuccessfulWriterIndex l =
     (let latest = lastIndex (\<lambda>r. rc_Success r \<and> rc_Write r) (lg_receipts l) in (latest, 0 \<le> latest))"

definition mutates :: "Receipt \<Rightarrow> bool" where
  "mutates r \<longleftrightarrow> rc_Success r \<and> rc_Mutation r"

definition LatestSuccessfulMutationIndex :: "Ledger \<Rightarrow> int \<times> bool" where
  "LatestSuccessfulMutationIndex l =
     (let latest = lastIndex mutates (lg_receipts l) in (latest, 0 \<le> latest))"

definition anchorRefreshRead :: "Receipt \<Rightarrow> bool" where
  "anchorRefreshRead r =
     (if rc_ToolName r \<noteq> ''read_file'' \<or> \<not> rc_Read r then False
      else
        (case unmarshalMap (rc_Args r) of
           None \<Rightarrow> False
         | Some kvs \<Rightarrow>
             (let positive = (\<lambda>key. case intField kvs key of Some n \<Rightarrow> 0 < n | None \<Rightarrow> False)
              in \<not> positive ''limit'' \<and> \<not> positive ''offset'')))"

definition HasSuccessfulAnchorRefreshReadAfter :: "gostr list \<Rightarrow> int \<Rightarrow> Ledger \<Rightarrow> bool" where
  "HasSuccessfulAnchorRefreshReadAfter paths after l =
     (let wanted = pathSet (normalizePaths paths) in
      if wanted = [] then False
      else
        list_ex (\<lambda>r. rc_Success r \<and> anchorRefreshRead r \<and> touches wanted r) (since (after + 1) (lg_receipts l)))"

subsection \<open>Completions without a sign-off\<close>

text \<open>Whether a complete_step receipt is about the item at a 1-based index of the list.\<close>

definition signsItem :: "nat \<Rightarrow> TodoItem list \<Rightarrow> Receipt \<Rightarrow> bool" where
  "signsItem index current r =
     (let byText = (let m = matchTodoStep (rc_Step r) current in tm_Found m \<and> tm_Index m = int index) in
      case rc_TodoStep r of
        Some m \<Rightarrow>
          if tm_Found m then
            (if index < 1 \<or> length current < index then False
             else if sameTodoMatch (current ! (index - 1)) m then True
             else if \<not> todoContentRelates (current ! (index - 1)) m then False
             else byText)
          else byText
      | None \<Rightarrow> byText)"

definition hasSuccessfulCompleteStepForTodo :: "Receipt list \<Rightarrow> nat \<Rightarrow> TodoItem list \<Rightarrow> bool" where
  "hasSuccessfulCompleteStepForTodo rs index current =
     list_ex (\<lambda>r. rc_Success r \<and> rc_ToolName r = ''complete_step'' \<and> TrimSpace (rc_Step r) \<noteq> []
                 \<and> signsItem index current r) rs"

definition hasSuccessfulProgressBeforeReceipt :: "Receipt list \<Rightarrow> nat \<Rightarrow> nat \<Rightarrow> bool" where
  "hasSuccessfulProgressBeforeReceipt rs baseline before =
     list_ex (\<lambda>r. \<not> (\<not> rc_Success r \<or> rc_ToolName r = ''todo_write'' \<or> rc_ToolName r = ''complete_step'' \<or> rc_Read r))
       (take (before - (baseline + 1)) (drop (baseline + 1) rs))"

definition hasFailedCompleteStepRecoveryForTodo :: "Receipt list \<Rightarrow> nat \<Rightarrow> nat \<Rightarrow> TodoItem list \<Rightarrow> bool" where
  "hasFailedCompleteStepRecoveryForTodo rs baseline index current =
     list_ex (\<lambda>i. let r = rs ! i in
         \<not> rc_Success r \<and> rc_ToolName r = ''complete_step'' \<and> TrimSpace (rc_Step r) \<noteq> [] \<and> rc_StepProof r
         \<and> hasSuccessfulProgressBeforeReceipt rs baseline i \<and> signsItem index current r)
       [baseline + 1..<length rs]"

definition unverifiedAt :: "Receipt list \<Rightarrow> nat \<Rightarrow> TodoItem list \<Rightarrow> nat \<Rightarrow> bool" where
  "unverifiedAt rs baseline current i =
     (let t = current ! i; index = i + 1 in
      if stat t \<noteq> ''completed'' then False
      else if previousTodoCompleted index t (rc_Todos (rs ! baseline)) then False
      else if hasSuccessfulCompleteStepForTodo rs index current then False
      else \<not> hasFailedCompleteStepRecoveryForTodo rs baseline index current)"

definition UnverifiedCompletedTodos :: "TodoItem list \<Rightarrow> Ledger \<Rightarrow> TodoStepMatch list \<times> bool" where
  "UnverifiedCompletedTodos current0 l =
     (let current = normalizeTodos current0; rs = lg_receipts l; baseline = lastIndex isTodoWrite rs in
      if baseline < 0 then ([], False)
      else
        (map (incompleteMatch current)
           (filter (unverifiedAt rs (nat baseline) current) [0..<length current]), True))"

end
