(* ===== verification/Evidence_Review.thy ===== *)
theory Evidence_Review imports Evidence_Ledger begin

text \<open>
  Structured review reports and the risk of a change set: \<open>review_report.go\<close> and
  \<open>risk.go\<close>, with the ledger queries over them.
\<close>

subsection \<open>Review reports\<close>

datatype ReviewKind = ReviewKindReview | ReviewKindSecurity

datatype ReviewVerdict = ReviewVerdictPass | ReviewVerdictWarn | ReviewVerdictBlock

record ReviewFinding =
  rf_Severity :: gostr
  rf_Summary :: gostr
  rf_Path :: gostr
  rf_Line :: int

record ReviewReport =
  rr_Kind :: ReviewKind
  rr_Verdict :: ReviewVerdict
  rr_ReviewedPaths :: "gostr list"
  rr_Findings :: "ReviewFinding list"

datatype report_error =
  BadReportJSON | BadReportKind | BadReportVerdict | NoReviewedPaths | FindingWithoutSummary

text \<open>The report as it is decoded, before its kind and verdict are checked.\<close>

record report_json =
  rj_kind :: gostr
  rj_verdict :: gostr
  rj_paths :: "gostr list"
  rj_findings :: "ReviewFinding list"

definition noFinding :: ReviewFinding where
  "noFinding = \<lparr>rf_Severity = [], rf_Summary = [], rf_Path = [], rf_Line = 0\<rparr>"

definition findingMember :: "gostr \<Rightarrow> json \<Rightarrow> ReviewFinding \<Rightarrow> ReviewFinding option" where
  "findingMember k v f =
     (if EqualFold k ''severity'' then map_option (\<lambda>s. f\<lparr>rf_Severity := s\<rparr>) (decodeString (rf_Severity f) v)
      else if EqualFold k ''summary'' then map_option (\<lambda>s. f\<lparr>rf_Summary := s\<rparr>) (decodeString (rf_Summary f) v)
      else if EqualFold k ''path'' then map_option (\<lambda>s. f\<lparr>rf_Path := s\<rparr>) (decodeString (rf_Path f) v)
      else if EqualFold k ''line'' then map_option (\<lambda>n. f\<lparr>rf_Line := n\<rparr>) (decodeInt (rf_Line f) v)
      else Some f)"

definition reportMember :: "gostr \<Rightarrow> json \<Rightarrow> report_json \<Rightarrow> report_json option" where
  "reportMember k v r =
     (if EqualFold k ''kind'' then map_option (\<lambda>s. r\<lparr>rj_kind := s\<rparr>) (decodeString (rj_kind r) v)
      else if EqualFold k ''verdict'' then map_option (\<lambda>s. r\<lparr>rj_verdict := s\<rparr>) (decodeString (rj_verdict r) v)
      else if EqualFold k ''reviewed_paths'' then map_option (\<lambda>ps. r\<lparr>rj_paths := ps\<rparr>) (decodeStrings v)
      else if EqualFold k ''findings'' then
        map_option (\<lambda>fs. r\<lparr>rj_findings := fs\<rparr>) (decodeArray (decodeStruct findingMember noFinding) v)
      else Some r)"

definition reviewKind :: "gostr \<Rightarrow> ReviewKind option" where
  "reviewKind s =
     (let k = ToLower (TrimSpace s) in
      if k = ''review'' then Some ReviewKindReview
      else if k = ''security'' then Some ReviewKindSecurity else None)"

definition reviewVerdict :: "gostr \<Rightarrow> ReviewVerdict option" where
  "reviewVerdict s =
     (let v = ToLower (TrimSpace s) in
      if v = ''pass'' then Some ReviewVerdictPass
      else if v = ''warn'' then Some ReviewVerdictWarn
      else if v = ''block'' then Some ReviewVerdictBlock else None)"

definition cleanFinding :: "ReviewFinding \<Rightarrow> ReviewFinding" where
  "cleanFinding f =
     (let severity = TrimSpace (rf_Severity f) in
      f\<lparr>rf_Severity := (if severity = [] then ''info'' else severity),
        rf_Summary := TrimSpace (rf_Summary f), rf_Path := TrimSpace (rf_Path f)\<rparr>)"

definition ParseReviewReport :: "raw_json \<Rightarrow> report_error + ReviewReport" where
  "ParseReviewReport raw =
     (case Option.bind (rawValue raw)
             (decodeStruct reportMember \<lparr>rj_kind = [], rj_verdict = [], rj_paths = [], rj_findings = []\<rparr>) of
        None \<Rightarrow> Inl BadReportJSON
      | Some r \<Rightarrow>
          (case reviewKind (rj_kind r) of
             None \<Rightarrow> Inl BadReportKind
           | Some kind \<Rightarrow>
               (case reviewVerdict (rj_verdict r) of
                  None \<Rightarrow> Inl BadReportVerdict
                | Some verdict \<Rightarrow>
                    if normalizePaths (rj_paths r) = [] then Inl NoReviewedPaths
                    else if list_ex (\<lambda>f. TrimSpace (rf_Summary f) = []) (rj_findings r)
                    then Inl FindingWithoutSummary
                    else Inr \<lparr>rr_Kind = kind, rr_Verdict = verdict,
                              rr_ReviewedPaths = normalizePaths (rj_paths r),
                              rr_Findings = map cleanFinding (rj_findings r)\<rparr>)))"

definition lastSegment :: "gostr \<Rightarrow> gostr" where
  "lastSegment p =
     (case LastIndexAny (slashes p) ''/'' of None \<Rightarrow> slashes p | Some i \<Rightarrow> drop (Suc i) (slashes p))"

definition CoversPaths :: "gostr list \<Rightarrow> ReviewReport \<Rightarrow> bool" where
  "CoversPaths required r =
     (if required = [] then rr_ReviewedPaths r \<noteq> []
      else
        (let have = pathSet (normalizePaths (rr_ReviewedPaths r)) in
         list_all (\<lambda>p. p \<in> set have \<or> list_ex (\<lambda>h. h = p \<or> lastSegment h = lastSegment p) have)
           (normalizePaths required)))"

definition HasBlockingFinding :: "ReviewReport \<Rightarrow> bool" where
  "HasBlockingFinding r \<longleftrightarrow>
     rr_Verdict r = ReviewVerdictBlock
     \<or> list_ex (\<lambda>f. oneOfWords (ToLower (rf_Severity f)) [''block'', ''blocking'', ''critical'', ''error'']) (rr_Findings r)"

definition WarningSummaries :: "ReviewReport \<Rightarrow> gostr list" where
  "WarningSummaries r =
     (if rr_Verdict r = ReviewVerdictWarn then [''review verdict=warn''] else [])
     @ map (\<lambda>f. if rf_Path f \<noteq> [] then rf_Path f @ '': '' @ rf_Summary f else rf_Summary f)
         (filter (\<lambda>f. oneOfWords (ToLower (rf_Severity f)) [''warn'', ''warning'', ''medium'']) (rr_Findings r))"

subsection \<open>Reviews in the ledger\<close>

definition reportOf :: "Receipt \<Rightarrow> ReviewReport option" where
  "reportOf r =
     (if \<not> rc_Success r \<or> rc_ToolName r \<noteq> ''review_report'' then None
      else (case ParseReviewReport (rc_Args r) of Inl _ \<Rightarrow> None | Inr report \<Rightarrow> Some report))"

definition coveringReport :: "ReviewKind \<Rightarrow> gostr list \<Rightarrow> Receipt \<Rightarrow> ReviewReport option" where
  "coveringReport kind requiredPaths r =
     (case reportOf r of
        None \<Rightarrow> None
      | Some report \<Rightarrow>
          if rr_Kind report \<noteq> kind then None
          else if \<not> CoversPaths requiredPaths report then None else Some report)"

text \<open>The result \<open>(ok, blocking, report)\<close>: nothing, or the first covering report.\<close>

definition HasStructuredReviewAfter :: "ReviewKind \<Rightarrow> int \<Rightarrow> gostr list \<Rightarrow> Ledger \<Rightarrow> bool \<times> bool \<times> ReviewReport option" where
  "HasStructuredReviewAfter kind after requiredPaths l =
     (case List.map_filter (coveringReport kind requiredPaths) (since (after + 1) (lg_receipts l)) of
        [] \<Rightarrow> (False, False, None)
      | report # _ \<Rightarrow> (True, HasBlockingFinding report, Some report))"

definition HasSuccessfulStructuredReviewAfter :: "ReviewKind \<Rightarrow> int \<Rightarrow> gostr list \<Rightarrow> Ledger \<Rightarrow> bool" where
  "HasSuccessfulStructuredReviewAfter kind after requiredPaths l =
     (case HasStructuredReviewAfter kind after requiredPaths l of (ok, blocking, _) \<Rightarrow> ok \<and> \<not> blocking)"

definition HasSuccessfulReviewReportOfKind :: "ReviewKind \<Rightarrow> Ledger \<Rightarrow> bool" where
  "HasSuccessfulReviewReportOfKind kind l =
     list_ex (\<lambda>r. case reportOf r of None \<Rightarrow> False | Some report \<Rightarrow> rr_Kind report = kind) (lg_receipts l)"

definition HasReadEvidenceForPath :: "shell_lib \<Rightarrow> gostr \<Rightarrow> Ledger \<Rightarrow> bool" where
  "HasReadEvidenceForPath lib path l =
     (let p = normalizePath path; needle = ToLower p in
      if p = [] then False
      else
        list_ex (\<lambda>r. rc_Success r \<and>
            (rc_Read r \<and> list_ex (\<lambda>rp. namedBy needle (ToLower (normalizePath rp))) (rc_Paths r)
             \<or> rc_ToolName r = ''bash'' \<and> 0 < rc_OutputBytes r
               \<and> commandShowsContentForPath lib (rc_Command r) needle)) (lg_receipts l))"

fun backgroundMember :: "gostr \<Rightarrow> json \<Rightarrow> bool \<Rightarrow> bool option" where
  "backgroundMember k v b = (if EqualFold k ''run_in_background'' then decodeBool b v else Some b)"

definition successfulForegroundReviewReceipt :: "Receipt \<Rightarrow> bool" where
  "successfulForegroundReviewReceipt r =
     (if \<not> rc_Success r then False
      else if rc_ToolName r = ''review'' then True
      else if rc_ToolName r \<noteq> ''task'' \<or> rc_Profile r \<noteq> ''review'' then False
      else
        (case Option.bind (rawValue (rc_Args r)) (decodeStruct backgroundMember False) of
           None \<Rightarrow> False | Some background \<Rightarrow> \<not> background))"

definition completedStructuredReviewReceipt :: "gostr list \<Rightarrow> Receipt \<Rightarrow> bool" where
  "completedStructuredReviewReceipt requiredPaths r =
     (case reportOf r of
        None \<Rightarrow> False
      | Some report \<Rightarrow> rr_Kind report = ReviewKindReview \<and> CoversPaths requiredPaths report)"

definition HasCompletedReview :: "shell_lib \<Rightarrow> Ledger \<Rightarrow> bool" where
  "HasCompletedReview lib l =
     (let rs = lg_receipts l; mutation = lastIndex mutates rs; start = nat (mutation + 1);
          requiredPaths = (if 0 \<le> mutation then rc_Paths (rs ! nat mutation) else [])
      in list_ex (\<lambda>i.
            completedStructuredReviewReceipt requiredPaths (rs ! i)
            \<or> successfulForegroundReviewReceipt (rs ! i)
              \<and> (mutation < 0 \<or> receiptsReviewChanges lib rs start i mutation))
          [start..<length rs])"

subsection \<open>Risk of a change set\<close>

datatype RiskLevel = RiskLow | RiskMedium | RiskHigh

definition highRiskPathHints :: "gostr list" where
  "highRiskPathHints =
     [''auth'', ''permission'', ''secret'', ''credential'', ''token'', ''password'', ''oauth'',
      ''crypto'', ''encrypt'', ''decrypt'', ''tls'', ''ssl'', ''keyring'',
      ''network'', ''proxy'', ''http'', ''websocket'', ''provider'',
      ''plugin'', ''mcp'', ''tool'', ''schema'', ''sandbox'',
      ''config'', ''migrate'', ''migration'', ''persist'', ''store'', ''database'', ''db'',
      ''concurrent'', ''mutex'', ''race'', ''lock'', ''atomic'']"

definition highRiskToolHints :: "gostr list" where
  "highRiskToolHints = [''mcp__'', ''install_source'', ''install_skill'', ''plugin'']"

definition pathLooksHighRisk :: "gostr \<Rightarrow> bool" where
  "pathLooksHighRisk path =
     list_ex (\<lambda>hint. Contains (ToLower path) hint \<or> Contains (ToLower (FilepathBase path)) hint) highRiskPathHints"

definition pathLooksLowRisk :: "gostr \<Rightarrow> bool" where
  "pathLooksLowRisk path =
     (let lower = ToLower path; base = FilepathBase lower in
      if list_ex (HasSuffix lower)
           [''_test.go'', ''_test.ts'', ''.test.ts'', ''.test.tsx'', ''_spec.ts'', ''.spec.ts''] then True
      else if list_ex (Contains lower) [''/testdata/'', ''/__tests__/'', ''/fixtures/''] then True
      else if list_ex (HasSuffix base) [''.md'', ''.mdx'', ''.txt'', ''.rst''] then True
      else if list_ex (Contains lower) [''/docs/'', ''/locales/'', ''/i18n/''] \<or> HasPrefix base ''readme'' then True
      else HasSuffix base ''.css'' \<and> \<not> Contains lower ''sandbox'')"

definition toolLooksHighRisk :: "gostr \<Rightarrow> bool" where
  "toolLooksHighRisk name = list_ex (Contains (ToLower (TrimSpace name))) highRiskToolHints"

text \<open>The successful mutations from the given index on, the mutation itself included.\<close>

definition changeSet :: "Receipt list \<Rightarrow> int \<Rightarrow> Receipt list" where
  "changeSet rs after =
     (if 0 \<le> after \<and> after < int (length rs) \<and> mutates (rs ! nat after) then [rs ! nat after] else [])
     @ filter mutates (since (after + 1) rs)"

definition ClassifyMutationRisk :: "Receipt list \<Rightarrow> int \<Rightarrow> RiskLevel" where
  "ClassifyMutationRisk rs after =
     (let changes = changeSet rs after; paths = keepNew [] (pathsOf changes) in
      if list_ex (\<lambda>r. toolLooksHighRisk (rc_ToolName r)) changes then RiskHigh
      else if list_ex (\<lambda>r. rc_Paths r = []) changes then RiskHigh
      else if paths = [] then RiskLow
      else if 10 \<le> length paths then RiskHigh
      else if list_ex pathLooksHighRisk paths then RiskHigh
      else if list_all pathLooksLowRisk paths then RiskLow
      else RiskMedium)"

definition MutationRiskAfter :: "int \<Rightarrow> Ledger \<Rightarrow> RiskLevel" where
  "MutationRiskAfter after l = ClassifyMutationRisk (lg_receipts l) after"

definition PathsSince :: "int \<Rightarrow> Ledger \<Rightarrow> gostr list" where
  "PathsSince after l =
     keepNew [[]] (pathsOf (filter (\<lambda>r. rc_Success r \<and> (rc_Mutation r \<or> rc_Write r)) (since after (lg_receipts l))))"

end
