(* ===== verification/Capability_Route.thy ===== *)
theory Capability_Route imports Text_Encoding begin

text \<open>
  Routing a user request to skills and MCP tools (\<open>internal/capability/capability.go\<close>):
  which entries match, with which policy, in which order, and how many suggestions are kept.
  Texts with Chinese words are given by their code points.
\<close>

subsection \<open>Entries\<close>

datatype Kind = KindSkill | KindMCPServer | KindMCPTool | KindTool | KindSource

fun kindString :: "Kind \<Rightarrow> gostr" where
  "kindString KindSkill = ''skill''"
| "kindString KindMCPServer = ''mcp-server''"
| "kindString KindMCPTool = ''mcp-tool''"
| "kindString KindTool = ''tool''"
| "kindString KindSource = ''source''"

datatype Status = StatusReady | StatusConfigured | StatusDisabled | StatusFailed | StatusStale

text \<open>\<open>AutoUseUnset\<close> is the empty string of the Go type.\<close>

datatype AutoUse = AutoUseUnset | AutoUseOff | AutoUseSuggest | AutoUsePrefer | AutoUseRequire

fun rank :: "AutoUse \<Rightarrow> nat" where
  "rank AutoUseRequire = 3"
| "rank AutoUsePrefer = 2"
| "rank AutoUseSuggest = 1"
| "rank _ = 0"

record Entry =
  en_ID :: gostr
  en_Kind :: Kind
  en_Name :: gostr
  en_Source :: gostr
  en_Status :: Status
  en_AutoUse :: AutoUse
  en_Triggers :: "gostr list"
  en_NegativeTriggers :: "gostr list"

record RouteCandidate =
  rt_Entry :: Entry
  rt_Policy :: AutoUse
  rt_Reason :: gostr

record RouteDecision =
  rd_Candidates :: "RouteCandidate list"
  rd_Delivery :: bool
  rd_CapabilityProxy :: bool

definition normalizeAutoUse :: "gostr \<Rightarrow> AutoUse" where
  "normalizeAutoUse raw =
     (let s = ToLower (TrimSpace raw) in
      if s = ''off'' then AutoUseOff
      else if s = ''suggest'' then AutoUseSuggest
      else if s = ''prefer'' then AutoUsePrefer
      else if s = ''require'' then AutoUseRequire
      else AutoUseUnset)"

text \<open>The auto-use policy a skill gets from its own setting and its triggers.\<close>

definition skillAutoUse :: "gostr \<Rightarrow> gostr list \<Rightarrow> AutoUse" where
  "skillAutoUse raw triggers =
     (let auto = normalizeAutoUse raw in
      if auto = AutoUseUnset \<and> triggers \<noteq> [] then AutoUsePrefer
      else if auto = AutoUseUnset then AutoUseSuggest
      else auto)"

fun cleanLoopList :: "gostr list \<Rightarrow> gostr list \<Rightarrow> gostr list" where
  "cleanLoopList seen [] = []"
| "cleanLoopList seen (v # vs) =
     (let t = TrimSpace v in
      if t = [] \<or> t \<in> set seen then cleanLoopList seen vs else t # cleanLoopList (t # seen) vs)"

definition cleanList :: "gostr list \<Rightarrow> gostr list" where
  "cleanList xs = cleanLoopList [] xs"

subsection \<open>Matching\<close>

definition normalize :: "gostr \<Rightarrow> gostr" where
  "normalize s = ToLower (TrimSpace s)"

definition triggerMatch :: "gostr \<Rightarrow> gostr list \<Rightarrow> bool" where
  "triggerMatch text triggers \<longleftrightarrow>
     list_ex (\<lambda>t. normalize t \<noteq> [] \<and> Contains text (normalize t)) triggers"

definition negativeMatch :: "gostr \<Rightarrow> gostr list \<Rightarrow> bool" where
  "negativeMatch text triggers = triggerMatch text triggers"

definition containsAny :: "gostr \<Rightarrow> gostr list \<Rightarrow> bool" where
  "containsAny s terms \<longleftrightarrow> list_ex (\<lambda>t. Contains s (normalize t)) terms"

text \<open>The two Chinese words for use, and the word for skill.\<close>

definition useWord :: gostr where "useWord = runesString [0x4F7F, 0x7528]"
definition useWordShort :: gostr where "useWordShort = runesString [0x7528]"
definition skillWord :: gostr where "skillWord = runesString [0x6280, 0x80FD]"

definition explicitSkill :: "gostr \<Rightarrow> gostr \<Rightarrow> bool" where
  "explicitSkill text name =
     (let n = normalize name in
      Contains text (''/'' @ n)
      \<or> Contains text (''use '' @ n @ '' skill'')
      \<or> Contains text (''using '' @ n @ '' skill'')
      \<or> Contains text (useWord @ '' '' @ n @ '' skill'')
      \<or> Contains text (useWordShort @ '' '' @ n @ '' skill'')
      \<or> Contains text (useWord @ n @ skillWord)
      \<or> Contains text (useWordShort @ n @ skillWord))"

definition explicitMCP :: "gostr \<Rightarrow> gostr \<Rightarrow> bool" where
  "explicitMCP text server =
     (let s = normalize server in
      Contains text (s @ '' mcp'') \<or> Contains text (''mcp '' @ s)
      \<or> Contains text (useWord @ '' '' @ s @ '' mcp'') \<or> Contains text (useWordShort @ '' '' @ s @ '' mcp''))"

definition looksLikeReview :: "gostr \<Rightarrow> bool" where
  "looksLikeReview text =
     containsAny text
       [''review'', ''code review'', ''security review'',
        runesString [0x5E2E, 0x6211, 0x770B, 0x770B],
        runesString [0x6709, 0x6CA1, 0x6709, 0x95EE, 0x9898],
        runesString [0x5BA1, 0x67E5],
        runesString [0x8BC4, 0x5BA1],
        runesString [0x68C0, 0x67E5, 0x8FD9, 0x6BB5, 0x4EE3, 0x7801],
        runesString [0x770B, 0x770B, 0x8FD9, 0x6BB5, 0x4EE3, 0x7801]]"

definition looksLikeGitHub :: "gostr \<Rightarrow> bool" where
  "looksLikeGitHub text =
     containsAny text
       [''github'', ''issue'', ''issues'', ''pull request'', '' pr '',
        runesString [0x8BA8, 0x8BBA, 0x533A],
        runesString [0x4ED3, 0x5E93] @ '' issue'',
        ''github '' @ runesString [0x4E0A]]"

definition looksFreshData :: "gostr \<Rightarrow> bool" where
  "looksFreshData text =
     containsAny text
       [''latest'', ''recent'', ''today'',
        runesString [0x73B0, 0x5728], runesString [0x6700, 0x65B0], runesString [0x6700, 0x8FD1],
        runesString [0x67E5, 0x4E00, 0x4E0B], runesString [0x641C, 0x7D22], ''github'']"

definition routeSkill :: "gostr \<Rightarrow> Entry \<Rightarrow> (AutoUse \<times> gostr) option" where
  "routeSkill text e =
     (if explicitSkill text (en_Name e)
      then Some (AutoUseRequire, ''the user explicitly referenced this skill'')
      else if en_AutoUse e = AutoUseOff then None
      else if triggerMatch text (en_Triggers e)
      then Some (en_AutoUse e, ''the skill trigger matches the user request'')
      else if en_Name e = ''review'' \<and> looksLikeReview text
      then Some (AutoUsePrefer, ''the user is asking for review or issue inspection'')
      else None)"

definition routeMCPTool :: "gostr \<Rightarrow> Entry \<Rightarrow> (AutoUse \<times> gostr) option" where
  "routeMCPTool text e =
     (if explicitMCP text (en_Source e) \<or> looksLikeGitHub text \<and> Contains (en_Source e) ''github''
      then Some (AutoUsePrefer, ''the task asks for external GitHub/MCP data'')
      else if looksFreshData text
              \<and> (Contains (en_Name e) ''search'' \<or> Contains (en_Name e) ''fetch'' \<or> Contains (en_Name e) ''read'')
      then Some (AutoUsePrefer, ''the task appears to need fresh external data'')
      else None)"

definition routeEntry :: "gostr \<Rightarrow> Entry \<Rightarrow> (AutoUse \<times> gostr) option" where
  "routeEntry text e =
     (if en_Kind e = KindSkill then routeSkill text e
      else if en_Kind e = KindMCPTool then routeMCPTool text e
      else None)"

subsection \<open>Ordering and budget\<close>

text \<open>The comparison of the stable sorts.\<close>

definition candidateLess :: "RouteCandidate \<Rightarrow> RouteCandidate \<Rightarrow> bool" where
  "candidateLess a b =
     (if rank (rt_Policy a) \<noteq> rank (rt_Policy b) then rank (rt_Policy b) < rank (rt_Policy a)
      else if en_Kind (rt_Entry a) \<noteq> en_Kind (rt_Entry b)
      then kindString (en_Kind (rt_Entry a)) < kindString (en_Kind (rt_Entry b))
      else en_ID (rt_Entry a) < en_ID (rt_Entry b))"

text \<open>A stable sort: insert from the right, before the first element that is not smaller.\<close>

fun insertCandidate :: "RouteCandidate \<Rightarrow> RouteCandidate list \<Rightarrow> RouteCandidate list" where
  "insertCandidate c [] = [c]"
| "insertCandidate c (d # ds) = (if candidateLess d c then d # insertCandidate c ds else c # d # ds)"

definition sortCandidates :: "RouteCandidate list \<Rightarrow> RouteCandidate list" where
  "sortCandidates cs = foldr insertCandidate cs []"

definition matchedCandidate :: "gostr \<Rightarrow> Entry \<Rightarrow> RouteCandidate option" where
  "matchedCandidate text e =
     (if en_Status e = StatusDisabled \<or> negativeMatch text (en_NegativeTriggers e) then None
      else
        (case routeEntry text e of
           None \<Rightarrow> None
         | Some (policy, reason) \<Rightarrow> Some \<lparr>rt_Entry = e, rt_Policy = policy, rt_Reason = reason\<rparr>))"

definition routeCandidates :: "gostr \<Rightarrow> Entry list \<Rightarrow> RouteCandidate list" where
  "routeCandidates input entries =
     (if normalize input = [] then []
      else sortCandidates (List.map_filter (matchedCandidate (normalize input)) entries))"

definition targetCandidates :: nat where "targetCandidates = 5"

definition limitRouteCandidates :: "RouteCandidate list \<Rightarrow> RouteCandidate list" where
  "limitRouteCandidates candidates =
     (let strong = filter (\<lambda>c. rt_Policy c = AutoUseRequire \<or> rt_Policy c = AutoUsePrefer) candidates;
          suggested = filter (\<lambda>c. rt_Policy c = AutoUseSuggest) candidates
      in strong @ take (targetCandidates - length strong) suggested)"

definition Route :: "gostr \<Rightarrow> Entry list \<Rightarrow> RouteDecision" where
  "Route input entries =
     \<lparr>rd_Candidates = limitRouteCandidates (routeCandidates input entries),
      rd_Delivery = False, rd_CapabilityProxy = False\<rparr>"

definition scopeBuiltin :: gostr where "scopeBuiltin = ''builtin''"

definition promote :: "RouteCandidate \<Rightarrow> RouteCandidate" where
  "promote c =
     (if rt_Policy c = AutoUseSuggest \<and> en_Kind (rt_Entry c) = KindSkill \<and> en_Source (rt_Entry c) = scopeBuiltin
      then c\<lparr>rt_Policy := AutoUsePrefer,
             rt_Reason := rt_Reason c @ ''; Delivery prefers matched built-in playbooks''\<rparr>
      else c)"

definition PromoteDelivery :: "RouteDecision \<Rightarrow> RouteDecision" where
  "PromoteDelivery d =
     \<lparr>rd_Candidates = limitRouteCandidates (sortCandidates (map promote (rd_Candidates d))),
      rd_Delivery = True, rd_CapabilityProxy = True\<rparr>"

definition RouteDelivery :: "gostr \<Rightarrow> Entry list \<Rightarrow> RouteDecision" where
  "RouteDelivery input entries =
     PromoteDelivery \<lparr>rd_Candidates = routeCandidates input entries, rd_Delivery = False, rd_CapabilityProxy = False\<rparr>"

end
