(* ===== verification/Capability_Ledger.thy ===== *)
theory Capability_Ledger imports Capability_Route begin

text \<open>
  The capability ledger of a turn (\<open>internal/capability/ledger.go\<close>): route candidates,
  host-proven outcomes, and the gate on the final answer. Every method holds one mutex; a nil
  ledger behaves as the empty one.
\<close>

datatype Outcome =
  OutcomePending | OutcomeInvoked | OutcomeSucceeded | OutcomeFailed | OutcomeUnavailable | OutcomeDeclined

record LedgerEntry =
  le_ID :: gostr
  le_Policy :: AutoUse
  le_Reason :: gostr
  le_Outcome :: Outcome
  le_FailureReason :: gostr
  le_DeclinedReason :: gostr
  le_InvokedAt :: "int option"
  le_Reminded :: bool

record CapLedger =
  cl_entries :: "gostr \<rightharpoonup> LedgerEntry"
  cl_order :: "gostr list"

definition NewCapLedger :: CapLedger where
  "NewCapLedger = \<lparr>cl_entries = Map.empty, cl_order = []\<rparr>"

definition newEntry :: "gostr \<Rightarrow> AutoUse \<Rightarrow> gostr \<Rightarrow> LedgerEntry" where
  "newEntry key policy reason =
     \<lparr>le_ID = key, le_Policy = policy, le_Reason = reason, le_Outcome = OutcomePending,
      le_FailureReason = [], le_DeclinedReason = [], le_InvokedAt = None, le_Reminded = False\<rparr>"

definition seedCandidate :: "RouteCandidate \<Rightarrow> CapLedger \<Rightarrow> CapLedger" where
  "seedCandidate c l =
     (let key = en_ID (rt_Entry c) in
      if key = [] then l
      else
        (case cl_entries l key of
           Some e \<Rightarrow>
             if rank (le_Policy e) < rank (rt_Policy c)
             then l\<lparr>cl_entries := (cl_entries l)(key \<mapsto> e\<lparr>le_Policy := rt_Policy c, le_Reason := rt_Reason c\<rparr>)\<rparr>
             else l
         | None \<Rightarrow>
             l\<lparr>cl_entries := (cl_entries l)(key \<mapsto> newEntry key (rt_Policy c) (rt_Reason c)),
               cl_order := cl_order l @ [key]\<rparr>))"

definition SeedCandidates :: "RouteDecision \<Rightarrow> CapLedger \<Rightarrow> CapLedger" where
  "SeedCandidates d l = fold seedCandidate (rd_Candidates d) l"

text \<open>Terminal outcomes stick, except that success and unavailability replace each other.\<close>

definition nextOutcome :: "Outcome \<Rightarrow> Outcome \<Rightarrow> Outcome" where
  "nextOutcome old outcome =
     (if old = OutcomeSucceeded \<or> old = OutcomeUnavailable \<or> old = OutcomeDeclined then
        (if outcome = OutcomeSucceeded \<or> outcome = OutcomeUnavailable then outcome else old)
      else outcome)"

definition settle :: "Outcome \<Rightarrow> gostr \<Rightarrow> gostr \<Rightarrow> int \<Rightarrow> LedgerEntry \<Rightarrow> LedgerEntry" where
  "settle outcome failReason declineReason now e =
     e\<lparr>le_Outcome := nextOutcome (le_Outcome e) outcome,
       le_FailureReason := (if failReason \<noteq> [] then failReason else le_FailureReason e),
       le_DeclinedReason := (if declineReason \<noteq> [] then declineReason else le_DeclinedReason e),
       le_InvokedAt :=
         (if outcome = OutcomeInvoked \<or> outcome = OutcomeSucceeded \<or> outcome = OutcomeFailed
          then Some now else le_InvokedAt e)\<rparr>"

definition setOutcome :: "gostr \<Rightarrow> Outcome \<Rightarrow> gostr \<Rightarrow> gostr \<Rightarrow> int \<Rightarrow> CapLedger \<Rightarrow> CapLedger" where
  "setOutcome key0 outcome failReason declineReason now l =
     (let key = TrimSpace key0 in
      if key = [] then l
      else
        (case cl_entries l key of
           Some e \<Rightarrow> l\<lparr>cl_entries := (cl_entries l)(key \<mapsto> settle outcome failReason declineReason now e)\<rparr>
         | None \<Rightarrow>
             l\<lparr>cl_entries := (cl_entries l)(key \<mapsto>
                 settle outcome failReason declineReason now (newEntry key AutoUseSuggest [])),
               cl_order := cl_order l @ [key]\<rparr>))"

definition MarkInvoked :: "gostr \<Rightarrow> int \<Rightarrow> CapLedger \<Rightarrow> CapLedger" where
  "MarkInvoked key now l = setOutcome key OutcomeInvoked [] [] now l"

definition MarkSucceeded :: "gostr \<Rightarrow> int \<Rightarrow> CapLedger \<Rightarrow> CapLedger" where
  "MarkSucceeded key now l = setOutcome key OutcomeSucceeded [] [] now l"

definition MarkFailed :: "gostr \<Rightarrow> gostr \<Rightarrow> int \<Rightarrow> CapLedger \<Rightarrow> CapLedger" where
  "MarkFailed key reason now l = setOutcome key OutcomeFailed reason [] now l"

definition MarkUnavailable :: "gostr \<Rightarrow> gostr \<Rightarrow> int \<Rightarrow> CapLedger \<Rightarrow> CapLedger" where
  "MarkUnavailable key reason now l = setOutcome key OutcomeUnavailable reason [] now l"

text \<open>\<open>None\<close> is the error that the reason is empty.\<close>

definition MarkDeclined :: "gostr \<Rightarrow> gostr \<Rightarrow> int \<Rightarrow> CapLedger \<Rightarrow> CapLedger option" where
  "MarkDeclined key reason now l =
     (if TrimSpace reason = [] then None
      else Some (setOutcome key OutcomeDeclined [] (TrimSpace reason) now l))"

definition MarkReminded :: "gostr \<Rightarrow> CapLedger \<Rightarrow> CapLedger" where
  "MarkReminded key l =
     (case cl_entries l key of
        None \<Rightarrow> l
      | Some e \<Rightarrow> l\<lparr>cl_entries := (cl_entries l)(key \<mapsto> e\<lparr>le_Reminded := True\<rparr>)\<rparr>)"

definition CapSnapshot :: "CapLedger \<Rightarrow> LedgerEntry list" where
  "CapSnapshot l = List.map_filter (cl_entries l) (cl_order l)"

definition GetEntry :: "gostr \<Rightarrow> CapLedger \<Rightarrow> LedgerEntry option" where
  "GetEntry key l = cl_entries l (TrimSpace key)"

subsection \<open>The gate\<close>

record GateFailure =
  gf_Reason :: gostr
  gf_PreferRemind :: bool
  gf_PreferIDs :: "gostr list"
  gf_RequireIDs :: "gostr list"
  gf_UnavailableOK :: bool

definition noGateFailure :: GateFailure where
  "noGateFailure =
     \<lparr>gf_Reason = [], gf_PreferRemind = False, gf_PreferIDs = [], gf_RequireIDs = [], gf_UnavailableOK = False\<rparr>"

datatype gate_class = GateOk | RequireMissing | RequireUnavailable gostr | PreferRemindable | PreferMissing

definition gateClass :: "LedgerEntry \<Rightarrow> gate_class" where
  "gateClass e =
     (case le_Policy e of
        AutoUseRequire \<Rightarrow>
          (case le_Outcome e of
             OutcomeSucceeded \<Rightarrow> GateOk
           | OutcomeUnavailable \<Rightarrow> RequireUnavailable (le_FailureReason e)
           | _ \<Rightarrow> RequireMissing)
      | AutoUsePrefer \<Rightarrow>
          (case le_Outcome e of
             OutcomeSucceeded \<Rightarrow> GateOk
           | OutcomeDeclined \<Rightarrow> GateOk
           | OutcomeUnavailable \<Rightarrow> GateOk
           | _ \<Rightarrow> if \<not> le_Reminded e then PreferRemindable else PreferMissing)
      | _ \<Rightarrow> GateOk)"

text \<open>The ids of one class, in seed order.\<close>

definition idsOf :: "gate_class \<Rightarrow> CapLedger \<Rightarrow> gostr list" where
  "idsOf cls l =
     filter (\<lambda>key. case cl_entries l key of None \<Rightarrow> False | Some e \<Rightarrow> gateClass e = cls) (cl_order l)"

definition unavailableTexts :: "CapLedger \<Rightarrow> gostr list" where
  "unavailableTexts l =
     List.map_filter
       (\<lambda>key. case cl_entries l key of
           None \<Rightarrow> None
         | Some e \<Rightarrow> (case gateClass e of RequireUnavailable r \<Rightarrow> Some (key @ '': '' @ r) | _ \<Rightarrow> None)) (cl_order l)"

definition CheckFinalGate :: "CapLedger \<Rightarrow> GateFailure" where
  "CheckFinalGate l =
     (let requireMissing = idsOf RequireMissing l; unavailable = unavailableTexts l;
          preferRemind = idsOf PreferRemindable l; preferMissing = idsOf PreferMissing l
      in
      if requireMissing \<noteq> [] then
        noGateFailure\<lparr>gf_Reason := ''required capabilities not successfully invoked: '' @ Join requireMissing '', '',
                      gf_RequireIDs := requireMissing\<rparr>
      else if unavailable \<noteq> [] then
        noGateFailure\<lparr>gf_Reason := ''required capabilities unavailable (host-proven): '' @ Join unavailable ''; '',
                      gf_UnavailableOK := True\<rparr>
      else if preferRemind \<noteq> [] then
        noGateFailure\<lparr>gf_Reason :=
            ''preferred capabilities not yet used; call them or use_capability(action='' @ [dquote] @ ''decline''
            @ [dquote] @ '', reason=...): '' @ Join preferRemind '', '',
          gf_PreferRemind := True, gf_PreferIDs := preferRemind\<rparr>
      else if preferMissing \<noteq> [] then
        noGateFailure\<lparr>gf_Reason :=
            ''preferred capabilities still unused after reminder; call them or decline with a non-empty reason: ''
            @ Join preferMissing '', '',
          gf_PreferIDs := preferMissing\<rparr>
      else noGateFailure)"

end
