(* ===== verification/Instructions.thy ===== *)
theory Instructions imports Text_Encoding begin

text \<open>
  Host checks of project instructions (\<open>internal/instruction/instruction.go\<close>): the bullets
  \<open>- verify: command\<close> of the sections headed \<open>Reasonix host checks\<close>, each command once, with
  the document and line it comes from.
\<close>

record VerifyCheck =
  vc_Command :: gostr
  vc_SourcePath :: gostr
  vc_Line :: int

record Document =
  do_Path :: gostr
  do_Body :: gostr

text \<open>\<open>strings.TrimRight\<close> with a one-character cutset.\<close>

definition trimRightChar :: "char \<Rightarrow> gostr \<Rightarrow> gostr" where
  "trimRightChar c s = rev (dropWhile (\<lambda>d. d = c) (rev s))"

text \<open>A Markdown heading: its text, and whether the line is a heading with a text.\<close>

definition markdownHeading :: "gostr \<Rightarrow> gostr \<times> bool" where
  "markdownHeading line0 =
     (let line = TrimSpace line0 in
      if \<not> HasPrefix line ''#'' then ([], False)
      else
        (let rest = dropWhile (\<lambda>c. c = CHR ''#'') line in
         case rest of
           [] \<Rightarrow> ([], False)
         | c # body \<Rightarrow>
             if c \<noteq> CHR '' '' then ([], False)
             else (let heading = TrimSpace (trimRightChar (CHR ''#'') (TrimSpace body)) in (heading, heading \<noteq> []))))"

definition verifyBullet :: "gostr \<Rightarrow> gostr \<times> bool" where
  "verifyBullet line0 =
     (let line = TrimSpace line0 in
      if length line < 2 \<or> (take 2 line \<noteq> ''- '' \<and> take 2 line \<noteq> ''* '') then ([], False)
      else
        (let body = TrimSpace (drop 2 line) in
         if length body < 7 \<or> \<not> EqualFold (take 7 body) ''verify:'' then ([], False)
         else (let command = TrimSpace (drop 7 body) in (command, command \<noteq> []))))"

text \<open>The lines of one document: the commands seen so far, and whether a section is open.\<close>

fun checkLines :: "gostr \<Rightarrow> int \<Rightarrow> gostr list \<Rightarrow> bool \<Rightarrow> gostr list \<Rightarrow> VerifyCheck list" where
  "checkLines path i [] inSection seen = []"
| "checkLines path i (raw # rest) inSection seen =
     (let line = trimRightChar (CHR 0x0D) raw in
      case markdownHeading line of
        (heading, True) \<Rightarrow> checkLines path (i + 1) rest (EqualFold heading ''Reasonix host checks'') seen
      | (_, False) \<Rightarrow>
          if \<not> inSection then checkLines path (i + 1) rest inSection seen
          else
            (case verifyBullet line of
               (command, ok) \<Rightarrow>
                 if \<not> ok \<or> command \<in> set seen then checkLines path (i + 1) rest inSection seen
                 else \<lparr>vc_Command = command, vc_SourcePath = path, vc_Line = i + 1\<rparr>
                        # checkLines path (i + 1) rest inSection (command # seen)))"

fun checkDocs :: "Document list \<Rightarrow> gostr list \<Rightarrow> VerifyCheck list" where
  "checkDocs [] seen = []"
| "checkDocs (doc # docs) seen =
     (let checks = checkLines (do_Path doc) 0 (Split (do_Body doc) nl) False seen
      in checks @ checkDocs docs (map vc_Command checks @ seen))"

definition ExtractHostChecks :: "Document list \<Rightarrow> VerifyCheck list" where
  "ExtractHostChecks docs = checkDocs docs []"

end
