(* ===== verification/Agent_Readiness.thy ===== *)
theory Agent_Readiness imports Evidence_Review Capability_Ledger Instructions begin

text \<open>
  The final-answer gate of the agent (\<open>internal/agent\<close>): whether a turn may end, given the
  evidence ledger, the canonical task list, the capability ledger and the delivery checkpoint.
  Metrics sinks and events are left out; a nil pointer of the code is \<open>None\<close>.
\<close>

subsection \<open>State\<close>

record DeliveryCheckpoint =
  dc_ScopeID :: gostr
  dc_CriteriaEstablished :: bool
  dc_WorkObserved :: bool
  dc_MutationObserved :: bool
  dc_PendingMutation :: bool

definition freshCheckpoint :: "gostr \<Rightarrow> DeliveryCheckpoint" where
  "freshCheckpoint scope =
     \<lparr>dc_ScopeID = scope, dc_CriteriaEstablished = False, dc_WorkObserved = False,
      dc_MutationObserved = False, dc_PendingMutation = False\<rparr>"

record Agent =
  ag_evidence :: "Ledger option"
  ag_planMode :: bool
  ag_deliveryProfile :: bool
  ag_subagentDepth :: int
  ag_tools :: "gostr list option"
  ag_projectChecks :: "VerifyCheck list"
  ag_todoState :: "TodoItem list"
  ag_deliveryCheckpoint :: DeliveryCheckpoint
  ag_deliveryScopeActive :: bool
  ag_deliveryScopeID :: gostr
  ag_deliveryTaskExpected :: bool
  ag_deliveryMutationExpected :: bool
  ag_deliveryCriteriaEstablished :: bool
  ag_loopGuardArmed :: bool
  ag_loopGuardReceiptMark :: int
  ag_capabilityLedger :: "CapLedger option"
  ag_capabilityPreferReminded :: bool
  ag_capabilityRequireMissSeen :: bool
  ag_capabilityPreferMissSeen :: bool
  ag_pendingReviewWarnings :: "gostr list"
  ag_deliveryRecoveryPending :: bool
  ag_preserveEvidenceOnce :: bool

subsection \<open>Loop guard\<close>

definition armLoopGuardPass :: "int \<Rightarrow> Agent \<Rightarrow> Agent" where
  "armLoopGuardPass receiptMark a = a\<lparr>ag_loopGuardArmed := True, ag_loopGuardReceiptMark := receiptMark\<rparr>"

definition loopGuardAllowsFinal :: "Agent \<Rightarrow> bool" where
  "loopGuardAllowsFinal a =
     (if \<not> ag_loopGuardArmed a then False
      else
        (case ag_evidence a of
           None \<Rightarrow> True | Some l \<Rightarrow> \<not> HasWriteOrCommandSince (ag_loopGuardReceiptMark a) l))"

subsection \<open>Capabilities\<close>

definition SeedCapabilityRoute :: "RouteDecision \<Rightarrow> Agent \<Rightarrow> Agent" where
  "SeedCapabilityRoute d a =
     a\<lparr>ag_capabilityLedger := Some (SeedCandidates d NewCapLedger),
       ag_capabilityPreferReminded := False, ag_capabilityRequireMissSeen := False,
       ag_capabilityPreferMissSeen := False\<rparr>"

text \<open>The reason to block, empty when there is none, and the state after the reminder.\<close>

definition capabilityGateFailure :: "Agent \<Rightarrow> gostr \<times> Agent" where
  "capabilityGateFailure a =
     (case ag_capabilityLedger a of
        None \<Rightarrow> ([], a)
      | Some cl \<Rightarrow>
          if \<not> ag_deliveryProfile a then ([], a)
          else
            (let gate = CheckFinalGate cl in
             if gf_Reason gate = [] then
               ([], a\<lparr>ag_capabilityRequireMissSeen := False, ag_capabilityPreferMissSeen := False\<rparr>)
             else if gf_PreferRemind gate \<and> \<not> ag_capabilityPreferReminded a then
               (gf_Reason gate,
                a\<lparr>ag_capabilityLedger := Some (fold MarkReminded (gf_PreferIDs gate) cl),
                  ag_capabilityPreferReminded := True, ag_capabilityPreferMissSeen := True\<rparr>)
             else if gf_UnavailableOK gate then
               (case ag_evidence a of
                  None \<Rightarrow> ([], a)
                | Some l \<Rightarrow>
                    if \<not> snd (LatestSuccessfulMutationIndex l) then ([], a) else (gf_Reason gate, a))
             else if gf_RequireIDs gate \<noteq> [] then
               (gf_Reason gate, a\<lparr>ag_capabilityRequireMissSeen := True\<rparr>)
             else if gf_PreferIDs gate \<noteq> [] then
               (gf_Reason gate, a\<lparr>ag_capabilityPreferMissSeen := True\<rparr>)
             else (gf_Reason gate, a)))"

subsection \<open>Review by risk\<close>

definition productionPaths :: "gostr list \<Rightarrow> gostr list" where
  "productionPaths paths =
     (let out = filter (\<lambda>p. p \<noteq> [] \<and> \<not> (HasSuffix (ToLower p) ''_test.go'' \<or> Contains (ToLower p) ''/docs/'')) paths
      in if out = [] then paths else out)"

definition reviewCoverageHint :: "gostr list \<Rightarrow> gostr" where
  "reviewCoverageHint paths =
     (if paths = [] then ''; the mutation did not report file paths, so first inspect `git status --short` and `git diff` to identify the changed files, then submit reviewed_paths for the files inspected''
      else '' covering: '' @ Join paths '', '')"

definition toolPresent :: "gostr list option \<Rightarrow> gostr \<Rightarrow> bool" where
  "toolPresent reg name = (case reg of None \<Rightarrow> False | Some names \<Rightarrow> name \<in> set names)"

definition reviewBlocked :: gostr where
  "reviewBlocked = ''structured review reported blocking findings; fix them and re-run review''"

definition addWarnings :: "ReviewReport option \<Rightarrow> Agent \<Rightarrow> Agent" where
  "addWarnings report a =
     (case report of
        None \<Rightarrow> a
      | Some r \<Rightarrow> a\<lparr>ag_pendingReviewWarnings := ag_pendingReviewWarnings a @ WarningSummaries r\<rparr>)"

definition mediumRiskGate :: "Ledger \<Rightarrow> int \<Rightarrow> gostr list \<Rightarrow> Agent \<Rightarrow> gostr \<times> Agent" where
  "mediumRiskGate l mutation paths a =
     (case HasStructuredReviewAfter ReviewKindReview mutation paths l of
        (ok, blocking, report) \<Rightarrow>
          if blocking then (reviewBlocked, a)
          else if \<not> ok then
            (''medium-risk changes require a successful review after the latest mutation (run the review skill; its subagent submits review_report)''
               @ reviewCoverageHint paths, a)
          else ([], addWarnings report a))"

definition highRiskGate :: "Ledger \<Rightarrow> int \<Rightarrow> gostr list \<Rightarrow> Agent \<Rightarrow> gostr \<times> Agent" where
  "highRiskGate l mutation paths a =
     (case HasStructuredReviewAfter ReviewKindReview mutation paths l of
        (okR, blockR, repR) \<Rightarrow>
          if blockR then (reviewBlocked, a)
          else if \<not> okR then
            (''high-risk changes require review with review_report after the latest mutation''
               @ reviewCoverageHint paths, a)
          else
            (case HasStructuredReviewAfter ReviewKindSecurity mutation paths l of
               (okS, blockS, repS) \<Rightarrow>
                 if blockS then
                   (''security_review reported blocking findings; fix them and re-run security_review'', a)
                 else if \<not> okS then
                   (''high-risk changes require security_review with review_report after the latest mutation''
                      @ reviewCoverageHint paths, a)
                 else ([], addWarnings repS (addWarnings repR a))))"

definition deliveryReviewGateFailure :: "Agent \<Rightarrow> gostr \<times> Agent" where
  "deliveryReviewGateFailure a =
     (case ag_evidence a of
        None \<Rightarrow> ([], a)
      | Some l \<Rightarrow>
          if \<not> ag_deliveryProfile a then ([], a)
          else if 0 < ag_subagentDepth a then ([], a)
          else
            (case LatestSuccessfulMutationIndex l of
               (mutation, ok) \<Rightarrow>
                 if \<not> ok then ([], a)
                 else
                   (let paths = productionPaths (PathsSince mutation l);
                        hasReviewTool = toolPresent (ag_tools a) ''review'' \<or> toolPresent (ag_tools a) ''run_skill'';
                        hasSecurityTool = toolPresent (ag_tools a) ''security_review'' \<or> toolPresent (ag_tools a) ''run_skill''
                    in
                    case MutationRiskAfter mutation l of
                      RiskLow \<Rightarrow> ([], a)
                    | RiskMedium \<Rightarrow> if \<not> hasReviewTool then ([], a) else mediumRiskGate l mutation paths a
                    | RiskHigh \<Rightarrow>
                        if \<not> hasReviewTool \<and> \<not> hasSecurityTool then
                          (''high-risk changes require review and security_review tools after the latest mutation'', a)
                        else highRiskGate l mutation paths a)))"

subsection \<open>Final readiness\<close>

text \<open>
  What is missing, in the order of the code: the counters of \<open>finalReadinessCheck\<close> count the
  gaps of each kind, and its reason joins their texts.
\<close>

datatype gap =
    GapTodos | GapAction | GapMutation | GapCapability | GapCriteria | GapSignoff | GapVerification
  | GapReview | GapProjectCheck

record finalReadinessCheck =
  fr_applies :: bool
  fr_reason :: gostr
  fr_incompleteTodos :: nat
  fr_missing :: "gap list"

definition noCheck :: finalReadinessCheck where
  "noCheck = \<lparr>fr_applies = False, fr_reason = [], fr_incompleteTodos = 0, fr_missing = []\<rparr>"

definition gapCount :: "gap \<Rightarrow> finalReadinessCheck \<Rightarrow> nat" where
  "gapCount g c = length (filter (\<lambda>h. h = g) (fr_missing c))"

definition canonicalTodoStatus :: "gostr \<Rightarrow> gostr" where
  "canonicalTodoStatus s = (if TrimSpace s = [] then ''pending'' else TrimSpace s)"

definition incompleteCanonicalTodos :: "Agent \<Rightarrow> TodoStepMatch list \<times> bool" where
  "incompleteCanonicalTodos a =
     (if ag_todoState a = [] then ([], False) else (IncompleteTodos (ag_todoState a), True))"

definition finalReadinessIncompleteTodos :: "TodoStepMatch list \<Rightarrow> gostr" where
  "finalReadinessIncompleteTodos items =
     ''latest successful todo_write still has incomplete items: ''
     @ Join (map (\<lambda>m. (if TrimSpace (tm_Content m) = [] then ''todo '' @ itoaInt (tm_Index m)
                         else TrimSpace (tm_Content m)) @ '': '' @ tm_Status m) items) '', ''"

definition finalReadinessCheckSource :: "VerifyCheck \<Rightarrow> gostr" where
  "finalReadinessCheckSource c =
     (let source0 = TrimSpace (vc_SourcePath c); source = (if source0 = [] then ''project memory'' else source0)
      in if 0 < vc_Line c then source @ '':'' @ itoaInt (vc_Line c) else source)"

definition todoGap :: "Agent \<Rightarrow> Ledger \<Rightarrow> TodoStepMatch list" where
  "todoGap a l =
     (let (incomplete, hasTodos) =
        (case IncompleteLatestTodos l of
           (inc, has) \<Rightarrow> if \<not> has \<and> HasAnySuccessfulReceipt l then incompleteCanonicalTodos a else (inc, has))
      in if hasTodos \<and> incomplete \<noteq> [] \<and> HasSuccessfulTodoProgressReceipt l then incomplete else [])"

definition checkpointApplies :: "Agent \<Rightarrow> bool" where
  "checkpointApplies a \<longleftrightarrow>
     ag_deliveryScopeActive a \<and> dc_ScopeID (ag_deliveryCheckpoint a) = ag_deliveryScopeID a"

text \<open>The index the evidence must be newer than, whether there is one, whether a change is known.\<close>

definition readinessBaseline :: "Agent \<Rightarrow> Ledger \<Rightarrow> int \<times> bool \<times> bool" where
  "readinessBaseline a l =
     (case LatestSuccessfulWriterIndex l of
        (writer, hasWriter) \<Rightarrow>
          if \<not> ag_deliveryProfile a then (writer, hasWriter, False)
          else
            (case LatestSuccessfulMutationIndex l of
               (mutation, ok) \<Rightarrow>
                 if ok then (mutation, True, True)
                 else if checkpointApplies a \<and> dc_PendingMutation (ag_deliveryCheckpoint a) then (-1, True, True)
                 else if checkpointApplies a \<and> dc_MutationObserved (ag_deliveryCheckpoint a)
                 then (writer, hasWriter, True)
                 else (writer, hasWriter, False)))"

definition expectationGaps :: "Agent \<Rightarrow> Ledger \<Rightarrow> bool \<Rightarrow> (gap \<times> gostr) list" where
  "expectationGaps a l deliveryMutation =
     (let workObserved = HasSuccessfulWorkReceipt l
            \<or> checkpointApplies a \<and> dc_WorkObserved (ag_deliveryCheckpoint a) in
      (if ag_deliveryTaskExpected a \<and> \<not> workObserved
       then [(GapAction, ''perform host-observable work for this technical task before answering'')] else [])
      @ (if ag_deliveryMutationExpected a \<and> \<not> deliveryMutation
         then [(GapMutation, ''the request requires a state change, but no successful mutation was observed'')]
         else []))"

definition deliveryGaps :: "shell_lib \<Rightarrow> Agent \<Rightarrow> Ledger \<Rightarrow> int \<Rightarrow> bool \<Rightarrow> gostr \<Rightarrow> (gap \<times> gostr) list" where
  "deliveryGaps lib a l writer deliveryMutation reviewMsg =
     (let criteria = ag_deliveryCriteriaEstablished a
            \<or> checkpointApplies a \<and> dc_CriteriaEstablished (ag_deliveryCheckpoint a) in
      (if \<not> criteria
       then [(GapCriteria, ''establish concrete acceptance criteria with todo_write before changing state'')] else [])
      @ (if \<not> HasSuccessfulCompleteStepAfter writer l
         then [(GapSignoff, ''call complete_step after the latest mutation'')] else [])
      @ (if \<not> HasSuccessfulDeliverySignoffAfter lib writer l
         then [(GapVerification, ''run relevant verification after the latest mutation and cite that successful command in complete_step'')]
         else [])
      @ (if deliveryMutation \<and> \<not> HasSuccessfulReviewAfter lib writer l
         then [(GapReview, ''inspect the changed result after the latest mutation (read the touched file or run git diff/status)'')]
         else [])
      @ (if reviewMsg \<noteq> [] then [(GapReview, reviewMsg)] else []))"

definition projectCheckGaps :: "shell_lib \<Rightarrow> Agent \<Rightarrow> Ledger \<Rightarrow> int \<Rightarrow> (gap \<times> gostr) list" where
  "projectCheckGaps lib a l writer =
     map (\<lambda>c. (GapProjectCheck,
           ''run '' @ [dquote] @ TrimSpace (vc_Command c) @ [dquote] @ '' from '' @ finalReadinessCheckSource c
           @ '' after the latest write''))
       (filter (\<lambda>c. TrimSpace (vc_Command c) \<noteq> []
                   \<and> \<not> HasSuccessfulCommandAfter lib (TrimSpace (vc_Command c)) writer l) (ag_projectChecks a))"

definition settledCheck :: "bool \<Rightarrow> nat \<Rightarrow> (gap \<times> gostr) list \<Rightarrow> Agent \<Rightarrow> finalReadinessCheck" where
  "settledCheck applies incompleteN missing a =
     \<lparr>fr_applies = applies,
      fr_reason = (if missing = [] \<or> loopGuardAllowsFinal a then [] else Join (map snd missing) ''; ''),
      fr_incompleteTodos = incompleteN, fr_missing = map fst missing\<rparr>"

definition finalReadinessCheckFor :: "shell_lib \<Rightarrow> Agent \<Rightarrow> bool \<Rightarrow> finalReadinessCheck \<times> Agent" where
  "finalReadinessCheckFor lib a finalizeTask =
     (case ag_evidence a of
        None \<Rightarrow> (noCheck, a)
      | Some l \<Rightarrow>
          if ag_planMode a then (noCheck, a)
          else
            (let incomplete = (if finalizeTask then todoGap a l else []);
                 n = length incomplete;
                 missing1 = (if incomplete \<noteq> [] then [(GapTodos, finalReadinessIncompleteTodos incomplete)] else []);
                 delivery = ag_deliveryProfile a;
                 (writer0, hasWriter0, deliveryMutation) = readinessBaseline a l;
                 missing2 = (if delivery \<and> finalizeTask then expectationGaps a l deliveryMutation else []);
                 verificationOnly = (delivery \<and> \<not> hasWriter0 \<and> HasSuccessfulVerificationCommand lib l);
                 (writer, hasWriter) = (if verificationOnly then (-1, True) else (writer0, hasWriter0));
                 (capMsg, a1) = (if delivery \<and> finalizeTask then capabilityGateFailure a else ([], a));
                 missing3 = missing1 @ missing2 @ (if capMsg \<noteq> [] then [(GapCapability, capMsg)] else [])
             in
             if \<not> hasWriter then (settledCheck (incomplete \<noteq> [] \<or> capMsg \<noteq> []) n missing3 a1, a1)
             else if \<not> delivery \<and> ag_projectChecks a = [] \<and> \<not> HasSuccessfulTodoWrite l \<and> missing3 = []
             then (noCheck, a1)
             else
               (let (reviewMsg, a2) = (if delivery then deliveryReviewGateFailure a1 else ([], a1));
                    missing =
                      missing3
                      @ (if delivery then deliveryGaps lib a2 l writer deliveryMutation reviewMsg else [])
                      @ (if verificationOnly then [] else projectCheckGaps lib a2 l writer)
                in (settledCheck True n missing a2, a2))))"

end
