(* ===== verification/Agent_Tasks.thy ===== *)
theory Agent_Tasks imports Agent_Readiness begin

text \<open>
  What the agent does to its canonical task list and delivery checkpoint: sign-offs that
  advance the list, synthetic todo_write receipts, rebuilding from a transcript, the evidence
  scope of a new turn, the commit of the checkpoint, and the retries of a final answer that
  is not ready.
\<close>

subsection \<open>The canonical task list\<close>

definition setTodoState :: "TodoItem list \<Rightarrow> Agent \<Rightarrow> Agent" where
  "setTodoState todos a = a\<lparr>ag_todoState := NormalizeSerialTodos todos\<rparr>"

definition SeedTodoState :: "TodoItem list \<Rightarrow> Agent \<Rightarrow> Agent" where
  "SeedTodoState todos a = (if todos = [] then a else setTodoState todos a)"

text \<open>\<open>json.Marshal\<close> of the task list: empty optional fields are omitted, a nil slice is null.\<close>

definition encodeTodo :: "TodoItem \<Rightarrow> json" where
  "encodeTodo t =
     JObj ([(''content'', JStr (td_Content t)), (''status'', JStr (td_Status t))]
       @ (if td_ActiveForm t \<noteq> [] then [(''activeForm'', JStr (td_ActiveForm t))] else [])
       @ (if td_Level t \<noteq> 0 then [(''level'', JNum (itoaInt (td_Level t)))] else []))"

definition encodeTodos :: "TodoItem list \<Rightarrow> json" where
  "encodeTodos todos =
     JObj [(''todos'', if todos = [] then JNull else JArr (map encodeTodo todos))]"

definition todoReceipt :: "shell_lib \<Rightarrow> digest_lib \<Rightarrow> TodoItem list \<Rightarrow> Receipt" where
  "todoReceipt lib dl todos =
     ReceiptFromToolCall lib ''todo_write'' (RawJson (dl_marshal dl (encodeTodos todos)) (encodeTodos todos)) True True"

definition recordTodoState :: "shell_lib \<Rightarrow> digest_lib \<Rightarrow> TodoItem list \<Rightarrow> Agent \<Rightarrow> Agent" where
  "recordTodoState lib dl todos a =
     (case ag_evidence a of
        None \<Rightarrow> a
      | Some l \<Rightarrow> a\<lparr>ag_evidence := Some (Record (todoReceipt lib dl todos) l)\<rparr>)"

definition ReplaceTodoState :: "shell_lib \<Rightarrow> digest_lib \<Rightarrow> TodoItem list \<Rightarrow> Agent \<Rightarrow> Agent" where
  "ReplaceTodoState lib dl todos a =
     (let a1 = setTodoState todos a in recordTodoState lib dl (ag_todoState a1) a1)"

definition hasIncompleteCanonicalCriteria :: "Agent \<Rightarrow> bool" where
  "hasIncompleteCanonicalCriteria a \<longleftrightarrow> ag_todoState a \<noteq> [] \<and> IncompleteTodos (ag_todoState a) \<noteq> []"

definition hasActiveCanonicalTodo :: "Agent \<Rightarrow> bool" where
  "hasActiveCanonicalTodo a \<longleftrightarrow>
     list_ex (\<lambda>t. canonicalTodoStatus (td_Status t) = ''in_progress'') (ag_todoState a)"

definition canonicalTodoProgress :: "Agent \<Rightarrow> nat \<times> bool" where
  "canonicalTodoProgress a =
     (length (filter (\<lambda>t. canonicalTodoStatus (td_Status t) = ''completed'') (ag_todoState a)),
      list_ex (\<lambda>t. canonicalTodoStatus (td_Status t) \<noteq> ''completed'') (ag_todoState a))"

text \<open>The step a sign-off names becomes completed and the next one current, if it was current.\<close>

definition advanceStep :: "gostr \<Rightarrow> TodoItem list \<Rightarrow> TodoItem list \<times> bool" where
  "advanceStep step todos =
     (case MatchStep step todos of
        (m, ok) \<Rightarrow> if \<not> ok then (todos, False) else AdvanceSerialTodo todos (tm_Index m - 1))"

definition advanceCanonicalTodo :: "shell_lib \<Rightarrow> digest_lib \<Rightarrow> gostr \<Rightarrow> Agent \<Rightarrow> Agent" where
  "advanceCanonicalTodo lib dl step a =
     (if ag_todoState a = [] then a
      else
        (case advanceStep step (ag_todoState a) of
           (todos, advanced) \<Rightarrow>
             if \<not> advanced then a\<lparr>ag_todoState := todos\<rparr>
             else recordTodoState lib dl todos (a\<lparr>ag_todoState := todos\<rparr>)))"

definition toolResultFailed :: "gostr \<Rightarrow> bool" where
  "toolResultFailed content =
     list_ex (HasPrefix (TrimSpace content)) [''error:'', ''blocked:'', ''Error:'', ''[error'']"

definition successfulToolCallIDs :: "session_message list \<Rightarrow> gostr list" where
  "successfulToolCallIDs msgs =
     map sm_ToolCallID
       (filter (\<lambda>m. \<not> (sm_Role m \<noteq> ''tool'' \<or> sm_ToolCallID m = []) \<and> \<not> toolResultFailed (sm_Content m)) msgs)"

definition callsNamed :: "gostr \<Rightarrow> gostr list \<Rightarrow> session_message \<Rightarrow> tool_call list" where
  "callsNamed name successful msg =
     filter (\<lambda>tc. tc_Name tc = name \<and> tc_ID tc \<in> set successful) (sm_ToolCalls msg)"

definition transcriptReceipt :: "shell_lib \<Rightarrow> tool_call \<Rightarrow> Receipt" where
  "transcriptReceipt lib tc = ReceiptFromToolCall lib (tc_Name tc) (tc_Arguments tc) True True"

definition baseIndex :: "gostr list \<Rightarrow> session_message list \<Rightarrow> int" where
  "baseIndex successful msgs = lastIndex (\<lambda>m. callsNamed ''todo_write'' successful m \<noteq> []) msgs"

definition baseTodos :: "shell_lib \<Rightarrow> gostr list \<Rightarrow> session_message \<Rightarrow> TodoItem list" where
  "baseTodos lib successful msg =
     NormalizeSerialTodos (rc_Todos (transcriptReceipt lib (last (callsNamed ''todo_write'' successful msg))))"

definition rebuiltTodos :: "shell_lib \<Rightarrow> session_message list \<Rightarrow> TodoItem list" where
  "rebuiltTodos lib msgs =
     (let successful = successfulToolCallIDs msgs; baseIdx = baseIndex successful msgs in
      if baseIdx < 0 then []
      else
        fold (\<lambda>tc todos. fst (advanceStep (rc_Step (transcriptReceipt lib tc)) todos))
          (concat (map (callsNamed ''complete_step'' successful) (drop (nat baseIdx) msgs)))
          (baseTodos lib successful (msgs ! nat baseIdx)))"

definition rebuildTodoState :: "shell_lib \<Rightarrow> session_message list \<Rightarrow> Agent \<Rightarrow> Agent" where
  "rebuildTodoState lib msgs a = setTodoState (rebuiltTodos lib msgs) a"

subsection \<open>Receipts of executed calls\<close>

text \<open>
  What \<open>executeOne\<close> records after a call ran: the call itself, and for a proxied call the
  target as well. A complete_step that succeeded advances the list, a todo_write that
  succeeded replaces it.
\<close>

record executed =
  ex_Name :: gostr
  ex_Args :: raw_json
  ex_ReadOnly :: bool
  ex_TargetName :: gostr
  ex_TargetArgs :: raw_json
  ex_TargetReadOnly :: bool
  ex_Ok :: bool
  ex_Output :: gostr

definition outputBytes :: "executed \<Rightarrow> int" where
  "outputBytes e = int (length (TrimSpace (ex_Output e)))"

definition recordReceipt :: "Receipt \<Rightarrow> Agent \<Rightarrow> Agent" where
  "recordReceipt r a =
     (case ag_evidence a of None \<Rightarrow> a | Some l \<Rightarrow> a\<lparr>ag_evidence := Some (Record r l)\<rparr>)"

definition recordExecuted :: "shell_lib \<Rightarrow> digest_lib \<Rightarrow> executed \<Rightarrow> Agent \<Rightarrow> Agent" where
  "recordExecuted lib dl e a =
     (if ag_evidence a = None then a
      else if ex_Name e = ''complete_step'' then
        (let rec0 = ReceiptFromToolCall lib (ex_Name e) (ex_Args e) (ex_Ok e) (ex_ReadOnly e);
             a1 = recordReceipt rec0 a
         in if ex_Ok e then advanceCanonicalTodo lib dl (rc_Step rec0) a1 else a1)
      else if ex_TargetName e \<noteq> ex_Name e then
        (let a1 = recordReceipt (ReceiptFromToolCall lib (ex_Name e) (ex_Args e) (ex_Ok e) True) a
         in recordReceipt
              ((ReceiptFromToolCall lib (ex_TargetName e) (ex_TargetArgs e) (ex_Ok e) (ex_TargetReadOnly e))
                 \<lparr>rc_OutputBytes := outputBytes e\<rparr>) a1)
      else
        (let rec0 = (ReceiptFromToolCall lib (ex_Name e) (ex_Args e) (ex_Ok e) (ex_ReadOnly e))
                      \<lparr>rc_OutputBytes := outputBytes e\<rparr>;
             a1 = recordReceipt rec0 a
         in if ex_Ok e \<and> ex_Name e = ''todo_write'' then
              (let a2 = setTodoState (rc_Todos rec0) a1
               in if rc_Todos rec0 \<noteq> [] then a2\<lparr>ag_deliveryCriteriaEstablished := True\<rparr> else a2)
            else a1))"

subsection \<open>Turns and the delivery checkpoint\<close>

text \<open>The evidence scope of a new turn: the same delivery scope keeps its receipts.\<close>

definition beginScope :: "gostr option \<Rightarrow> Agent \<Rightarrow> Agent" where
  "beginScope scope a =
     (let preserve = ag_preserveEvidenceOnce a;
          keep = (preserve \<or> scope = Some (ag_deliveryScopeID a));
          scopeID = (case scope of
                       Some s \<Rightarrow> s | None \<Rightarrow> if preserve then ag_deliveryScopeID a else [])
      in a\<lparr>ag_evidence := map_option (if keep then ResetBackgroundLeases else Reset) (ag_evidence a),
           ag_preserveEvidenceOnce := False,
           ag_deliveryRecoveryPending := (if preserve then ag_deliveryRecoveryPending a else False),
           ag_deliveryScopeID := scopeID,
           ag_deliveryScopeActive := (scope \<noteq> None),
           ag_deliveryCheckpoint :=
             (case scope of
                None \<Rightarrow> ag_deliveryCheckpoint a
              | Some s \<Rightarrow>
                  if dc_ScopeID (ag_deliveryCheckpoint a) \<noteq> s then freshCheckpoint s else ag_deliveryCheckpoint a)\<rparr>)"

text \<open>Background jobs whose evidence no turn has committed: \<open>None\<close> is a job that is not ready.\<close>

definition leaseJob :: "gostr \<Rightarrow> gostr \<times> Receipt list option \<Rightarrow> Ledger \<Rightarrow> Ledger" where
  "leaseJob session job l =
     (case snd job of
        None \<Rightarrow> l
      | Some summary \<Rightarrow>
          (case NoteBackgroundLease session (fst job) l of
             (l1, fresh) \<Rightarrow> if fresh then MergeChild summary l1 else l1))"

definition leaseJobs :: "gostr \<Rightarrow> (gostr \<times> Receipt list option) list \<Rightarrow> Agent \<Rightarrow> Agent" where
  "leaseJobs session pending a =
     (if ag_planMode a then a
      else a\<lparr>ag_evidence := map_option (fold (leaseJob session) pending) (ag_evidence a)\<rparr>)"

text \<open>
  The start of a turn, as far as evidence goes; \<open>needsEvidence\<close> and \<open>needsMutation\<close> are the
  classification of the task text.
\<close>

definition beginRunTurn ::
    "gostr option \<Rightarrow> gostr \<Rightarrow> (gostr \<times> Receipt list option) list \<Rightarrow> bool \<Rightarrow> bool \<Rightarrow> Agent \<Rightarrow> Agent" where
  "beginRunTurn scope session pending needsEvidence needsMutation a =
     (let a1 = leaseJobs session pending (beginScope scope a)
      in a1\<lparr>ag_deliveryCriteriaEstablished :=
              (hasIncompleteCanonicalCriteria a1
               \<or> (case ag_evidence a1 of None \<Rightarrow> False | Some l \<Rightarrow> HasSuccessfulTodoWrite l)
               \<or> scope \<noteq> None \<and> dc_CriteriaEstablished (ag_deliveryCheckpoint a1)),
            ag_deliveryTaskExpected := needsEvidence,
            ag_deliveryMutationExpected := needsMutation,
            ag_loopGuardArmed := False, ag_loopGuardReceiptMark := 0\<rparr>)"

definition RestoreDeliveryCheckpoint :: "DeliveryCheckpoint \<Rightarrow> Agent \<Rightarrow> Agent" where
  "RestoreDeliveryCheckpoint cp a =
     (let cp1 = cp\<lparr>dc_ScopeID := TrimSpace (dc_ScopeID cp)\<rparr> in
      if dc_ScopeID cp1 = [] then a
      else a\<lparr>ag_deliveryCheckpoint := cp1, ag_deliveryScopeID := dc_ScopeID cp1\<rparr>)"

definition PrepareDeliveryRecovery :: "Agent \<Rightarrow> Agent \<times> bool" where
  "PrepareDeliveryRecovery a =
     (if \<not> ag_deliveryProfile a \<or> \<not> ag_deliveryRecoveryPending a then (a, False)
      else (a\<lparr>ag_preserveEvidenceOnce := True, ag_deliveryRecoveryPending := False\<rparr>, True))"

definition deliveryMutationCheckpointReady :: "shell_lib \<Rightarrow> Agent \<Rightarrow> bool \<times> Agent" where
  "deliveryMutationCheckpointReady lib a =
     (case ag_evidence a of
        None \<Rightarrow> (False, a)
      | Some l \<Rightarrow>
          if \<not> ag_deliveryCriteriaEstablished a then (False, a)
          else
            (let mutation = (case LatestSuccessfulMutationIndex l of (m, ok) \<Rightarrow> if ok then m else -1) in
             if HasSuccessfulCompleteStepAfter mutation l
                \<and> HasSuccessfulDeliverySignoffAfter lib mutation l
                \<and> HasSuccessfulReviewAfter lib mutation l
             then (case deliveryReviewGateFailure a of (msg, a1) \<Rightarrow> (msg = [], a1))
             else (False, a)))"

definition updateDeliveryCheckpoint :: "shell_lib \<Rightarrow> bool \<Rightarrow> Agent \<Rightarrow> Agent" where
  "updateDeliveryCheckpoint lib runOk a =
     (case ag_evidence a of
        None \<Rightarrow> a
      | Some l \<Rightarrow>
          if \<not> ag_deliveryScopeActive a \<or> ag_deliveryScopeID a = [] then a
          else
            (let cp0 = ag_deliveryCheckpoint a;
                 cp1 = (if dc_ScopeID cp0 \<noteq> ag_deliveryScopeID a then freshCheckpoint (ag_deliveryScopeID a) else cp0);
                 cp2 = cp1\<lparr>dc_CriteriaEstablished :=
                             (dc_CriteriaEstablished cp1 \<or> ag_deliveryCriteriaEstablished a \<or> HasSuccessfulTodoWrite l),
                           dc_WorkObserved := (dc_WorkObserved cp1 \<or> HasSuccessfulWorkReceipt l)\<rparr>;
                 cp3 = (if snd (LatestSuccessfulMutationIndex l)
                        then cp2\<lparr>dc_MutationObserved := True, dc_PendingMutation := True\<rparr> else cp2);
                 (ready, a1) = (if runOk \<and> dc_PendingMutation cp3
                                then deliveryMutationCheckpointReady lib a else (False, a))
             in a1\<lparr>ag_deliveryCheckpoint := (if ready then cp3\<lparr>dc_PendingMutation := False\<rparr> else cp3)\<rparr>))"

subsection \<open>Retrying a final answer\<close>

datatype deliveryGoalDisposition = DeliveryGoalFinal | DeliveryGoalContinue | DeliveryGoalBlocked

fun dispositionLoop :: "gostr list \<Rightarrow> deliveryGoalDisposition" where
  "dispositionLoop [] = DeliveryGoalFinal"
| "dispositionLoop (raw # rest) =
     (let line = ToLower (TrimSpace raw) in
      if line = [] then dispositionLoop rest
      else if line = ''[goal:continue]'' then DeliveryGoalContinue
      else if HasPrefix line ''[goal:blocked:'' \<and> HasSuffix line '']'' then DeliveryGoalBlocked
      else DeliveryGoalFinal)"

definition deliveryDisposition :: "gostr \<Rightarrow> deliveryGoalDisposition" where
  "deliveryDisposition text = dispositionLoop (rev (Split text nl))"

definition maxFinalReadinessBlocks :: nat where "maxFinalReadinessBlocks = 3"
definition maxFinalReadinessBlocksWithProgress :: nat where "maxFinalReadinessBlocksWithProgress = 6"

definition progressSignature :: "finalReadinessCheck \<Rightarrow> gostr" where
  "progressSignature c =
     Join (map itoa
       [gapCount GapProjectCheck c, fr_incompleteTodos c, gapCount GapCriteria c, gapCount GapVerification c,
        gapCount GapReview c, gapCount GapSignoff c, gapCount GapAction c, gapCount GapMutation c,
        gapCount GapCapability c, if fr_applies c then 1 else 0]) ''/'' @ [CHR 0x00] @ fr_reason c"

record readiness_loop =
  rl_blocks :: nat
  rl_seen :: "gostr list"

datatype final_outcome = FinalAccepted | FinalRetried | FinalExhausted nat gostr

text \<open>The readiness part of \<open>handleFinalResponse\<close>.\<close>

definition readinessRound :: "finalReadinessCheck \<Rightarrow> readiness_loop \<Rightarrow> final_outcome \<times> readiness_loop" where
  "readinessRound c s =
     (if fr_reason c = [] then (FinalAccepted, s)
      else
        (let sig = progressSignature c; repeatedState = (sig \<in> set (rl_seen s));
             progressed = (0 < rl_blocks s \<and> \<not> repeatedState);
             s1 = \<lparr>rl_blocks = Suc (rl_blocks s), rl_seen = sig # rl_seen s\<rparr>;
             exhausted = (maxFinalReadinessBlocksWithProgress \<le> rl_blocks s1
                          \<or> maxFinalReadinessBlocks \<le> rl_blocks s1 \<and> \<not> progressed)
         in (if exhausted then FinalExhausted (rl_blocks s1) (fr_reason c) else FinalRetried, s1)))"

end
