(* ===== verification/Evidence_Log.thy ===== *)
theory Evidence_Log imports Evidence_Review begin

text \<open>
  The ledger as a log: what a query says after more receipts. A query that only counts
  successes ignores failed receipts and keeps its answer as the log grows; a query about what
  happened after an index says no when nothing did. Two locales state these contracts once,
  and the queries of the code are their interpretations.
\<close>

subsection \<open>Queries over a growing log\<close>

locale success_query =
  fixes query :: "Receipt list \<Rightarrow> bool"
  assumes failed_ignored: "\<not> rc_Success r \<Longrightarrow> query (rs @ [r]) = query rs"
    and grows: "query rs \<Longrightarrow> query (rs @ [r])"
begin

lemma failures_ignored: "list_all (\<lambda>r. \<not> rc_Success r) newer \<Longrightarrow> query (rs @ newer) = query rs"
proof (induction newer rule: rev_induct)
  case (snoc r newer)
  then show ?case using failed_ignored [of r "rs @ newer"] by simp
qed simp

lemma keeps: "query rs \<Longrightarrow> query (rs @ newer)"
proof (induction newer rule: rev_induct)
  case (snoc r newer)
  then show ?case using grows [of "rs @ newer" r] by simp
qed simp

end

text \<open>A query about the receipts after an index.\<close>

locale after_query =
  fixes query :: "int \<Rightarrow> Receipt list \<Rightarrow> bool"
  assumes failed_ignored: "\<not> rc_Success r \<Longrightarrow> query i (rs @ [r]) = query i rs"
    and grows: "query i rs \<Longrightarrow> query i (rs @ [r])"
    and stale: "int (length rs) \<le> i + 1 \<Longrightarrow> \<not> query i rs"

sublocale after_query < at: success_query "query i" for i
  by unfold_locales (simp_all add: failed_ignored grows)

context after_query
begin

lemma voided: "\<not> query (int (length rs)) (rs @ [r])"
  by (rule stale) simp

lemma needs_newer: "query (int (length rs)) (rs @ r # newer) \<Longrightarrow> newer \<noteq> []"
  using voided by auto

end

subsection \<open>What recording appends\<close>

lemma normalizeReceipt_fields [simp]:
  "rc_Success (normalizeReceipt r) = rc_Success r" "rc_ToolName (normalizeReceipt r) = rc_ToolName r"
  "rc_Mutation (normalizeReceipt r) = rc_Mutation r" "rc_Args (normalizeReceipt r) = rc_Args r"
  "rc_Read (normalizeReceipt r) = rc_Read r" "rc_Write (normalizeReceipt r) = rc_Write r"
  "rc_Todos (normalizeReceipt r) = normalizeTodos (rc_Todos r)"
  by (simp_all add: normalizeReceipt_def)

lemma resolveStep_fields [simp]:
  "rc_Success (resolveStep rs r) = rc_Success r" "rc_ToolName (resolveStep rs r) = rc_ToolName r"
  "rc_Mutation (resolveStep rs r) = rc_Mutation r" "rc_Args (resolveStep rs r) = rc_Args r"
  "rc_Read (resolveStep rs r) = rc_Read r" "rc_Write (resolveStep rs r) = rc_Write r"
  "rc_Todos (resolveStep rs r) = rc_Todos r" "rc_Paths (resolveStep rs r) = rc_Paths r"
  "rc_Command (resolveStep rs r) = rc_Command r"
  by (simp_all add: resolveStep_def Let_def)

lemma receipt_call_fields [simp]:
  "rc_Success (ReceiptFromToolCall lib name args ok ro) = ok"
  "rc_ToolName (ReceiptFromToolCall lib name args ok ro) = name"
  "rc_Mutation (ReceiptFromToolCall lib name args ok ro) = ToolCallMutates lib name args ro"
  by (auto simp: ReceiptFromToolCall_def bareReceipt_def withFields_def Let_def split: option.split)

definition recorded :: "Receipt \<Rightarrow> Ledger \<Rightarrow> Receipt" where
  "recorded r l = resolveStep (lg_receipts l) (normalizeReceipt r)"

lemma recorded_fields [simp]:
  "rc_Success (recorded r l) = rc_Success r" "rc_ToolName (recorded r l) = rc_ToolName r"
  "rc_Mutation (recorded r l) = rc_Mutation r" "rc_Args (recorded r l) = rc_Args r"
  "rc_Read (recorded r l) = rc_Read r" "rc_Write (recorded r l) = rc_Write r"
  "rc_Todos (recorded r l) = normalizeTodos (rc_Todos r)"
  "mutates (recorded r l) = mutates r" "isTodoWrite (recorded r l) = isTodoWrite r"
  by (simp_all add: recorded_def mutates_def isTodoWrite_def)

lemma receipts_Record [simp]: "lg_receipts (Record r l) = lg_receipts l @ [recorded r l]"
  by (simp add: Record_def recorded_def)

lemma leases_Record [simp]: "lg_leases (Record r l) = lg_leases l"
  by (simp add: Record_def)

lemma Len_Record [simp]: "Len (Record r l) = Len l + 1"
  by (simp add: Len_def)

lemma Len_nonneg [simp]: "0 \<le> Len l"
  by (simp add: Len_def)

lemma fold_Record_appends:
  "\<exists>newer. lg_receipts (fold Record rs l) = lg_receipts l @ newer
      \<and> map rc_Success newer = map rc_Success rs \<and> map rc_Mutation newer = map rc_Mutation rs
      \<and> map rc_ToolName newer = map rc_ToolName rs"
proof (induction rs arbitrary: l)
  case (Cons r rs)
  obtain newer where n: "lg_receipts (fold Record rs (Record r l)) = lg_receipts (Record r l) @ newer"
    "map rc_Success newer = map rc_Success rs" "map rc_Mutation newer = map rc_Mutation rs"
    "map rc_ToolName newer = map rc_ToolName rs"
    using Cons.IH [of "Record r l"] by blast
  then have "lg_receipts (fold Record (r # rs) l) = lg_receipts l @ (recorded r l # newer)" by simp
  with n show ?case by (intro exI [of _ "recorded r l # newer"]) simp
qed simp

lemma MergeChild_appends:
  "\<exists>newer. lg_receipts (MergeChild summary l) = lg_receipts l @ newer
      \<and> map rc_Success newer = map rc_Success (filter childOwned summary)
      \<and> map rc_Mutation newer = map rc_Mutation (filter childOwned summary)
      \<and> map rc_ToolName newer = map rc_ToolName (filter childOwned summary)"
  unfolding MergeChild_def by (rule fold_Record_appends)

subsection \<open>Last index\<close>

lemma indicesWhere_snoc:
  "indicesWhere p (xs @ [x]) = indicesWhere p xs @ (if p x then [length xs] else [])"
proof -
  have "filter (\<lambda>i. p ((xs @ [x]) ! i)) [0..<length xs] = filter (\<lambda>i. p (xs ! i)) [0..<length xs]"
    by (rule filter_cong) (auto simp: nth_append)
  then show ?thesis by (simp add: indicesWhere_def)
qed

lemma lastIndex_Nil [simp]: "lastIndex p [] = -1"
  by (simp add: lastIndex_def indicesWhere_def)

lemma lastIndex_snoc [simp]:
  "lastIndex p (xs @ [x]) = (if p x then int (length xs) else lastIndex p xs)"
  by (simp add: lastIndex_def indicesWhere_snoc)

lemma lastIndex_bounds: "-1 \<le> lastIndex p xs \<and> lastIndex p xs < int (length xs)"
  by (induction xs rule: rev_induct) auto

lemma lastIndex_holds: "0 \<le> lastIndex p xs \<Longrightarrow> p (xs ! nat (lastIndex p xs))"
proof (induction xs rule: rev_induct)
  case (snoc x xs)
  then show ?case using lastIndex_bounds [of p xs] by (auto simp: nth_append)
qed simp

lemma lastIndex_after: "lastIndex p xs < int i \<Longrightarrow> i < length xs \<Longrightarrow> \<not> p (xs ! i)"
  by (induction xs rule: rev_induct) (auto simp: nth_append split: if_splits)

subsection \<open>The queries of the code\<close>

lemma since_append: "since i (rs @ newer) = since i rs @ drop (nat i - length rs) newer"
  by (simp add: since_def)

lemma since_0 [simp]: "since 0 rs = rs"
  by (simp add: since_def)

lemma since_end: "int (length rs) \<le> i \<Longrightarrow> since i rs = []"
  by (simp add: since_def)

lemma drop_one: "drop n [x] = (if n = 0 then [x] else [])"
  by (cases n) simp_all

lemma map_filter_append: "List.map_filter f (xs @ ys) = List.map_filter f xs @ List.map_filter f ys"
  by (simp add: List.map_filter_def)

text \<open>A test of the receipts from an index on that holds for successes only.\<close>

lemma success_query_ex:
  assumes "\<And>r. p r \<Longrightarrow> rc_Success r"
  shows "success_query (\<lambda>rs. list_ex p (since i rs))"
  using assms by unfold_locales (auto simp: since_append drop_one)

lemma success_query_all: "(\<And>r. p r \<Longrightarrow> rc_Success r) \<Longrightarrow> success_query (list_ex p)"
  using success_query_ex [of p 0] by simp

lemma after_query_ex:
  assumes "\<And>r. p r \<Longrightarrow> rc_Success r"
  shows "after_query (\<lambda>i rs. list_ex p (since (i + 1) rs))"
  using assms by unfold_locales (auto simp: since_append drop_one since_end)

abbreviation onLog :: "(Ledger \<Rightarrow> 'a) \<Rightarrow> Receipt list \<Rightarrow> 'a" where
  "onLog f rs \<equiv> f \<lparr>lg_receipts = rs, lg_leases = []\<rparr>"

interpretation work: success_query "onLog HasSuccessfulWorkReceipt"
  by (auto simp: HasSuccessfulWorkReceipt_def intro: success_query_all)

interpretation criteria: success_query "onLog HasSuccessfulAcceptanceCriteria"
  by (auto simp: HasSuccessfulAcceptanceCriteria_def isTodoWrite_def intro: success_query_all)

interpretation todos: success_query "onLog HasSuccessfulTodoWrite"
  by (auto simp: HasSuccessfulTodoWrite_def isTodoWrite_def intro: success_query_all)

interpretation verified: success_query "onLog (HasSuccessfulVerificationCommand lib)" for lib
  by (auto simp: HasSuccessfulVerificationCommand_def intro: success_query_all)

interpretation progress: success_query "onLog (HasWriteOrCommandSince mark)" for mark
  by (auto simp: HasWriteOrCommandSince_def intro: success_query_ex)

interpretation command: after_query "\<lambda>i. onLog (HasSuccessfulCommandAfter lib cmd i)" for lib cmd
proof (cases "TrimSpace cmd = []")
  case True
  then show "after_query (\<lambda>i. onLog (HasSuccessfulCommandAfter lib cmd i))"
    by unfold_locales (simp_all add: HasSuccessfulCommandAfter_def)
next
  case False
  then show "after_query (\<lambda>i. onLog (HasSuccessfulCommandAfter lib cmd i))"
    using after_query_ex [of "commandReceipt lib True (TrimSpace cmd)"]
    by (simp add: HasSuccessfulCommandAfter_def commandReceipt_def)
qed

interpretation signed: after_query "\<lambda>i. onLog (HasSuccessfulCompleteStepAfter i)"
  unfolding HasSuccessfulCompleteStepAfter_def
  using after_query_ex [of "\<lambda>r. rc_Success r \<and> rc_ToolName r = ''complete_step''"] by simp

subsection \<open>Reviews and sign-offs after an index\<close>

lemma receiptReviews_succeeded: "receiptReviews lib wanted r \<Longrightarrow> rc_Success r"
  by (simp add: receiptReviews_def split: if_splits)

text \<open>What happened before a position does not depend on later receipts.\<close>

lemma reviewChanges_append:
  assumes "stop \<le> length rs" "after < int (length rs)"
  shows "receiptsReviewChanges lib (rs @ newer) start stop after = receiptsReviewChanges lib rs start stop after"
proof -
  have "take (stop - start) (drop start (rs @ newer)) = take (stop - start) (drop start rs)"
    using assms(1) by (cases "start \<le> length rs") simp_all
  moreover have "0 \<le> after \<Longrightarrow> (rs @ newer) ! nat after = rs ! nat after"
    using assms(2) by (simp add: nth_append nat_less_iff)
  ultimately show ?thesis using assms by (simp add: receiptsReviewChanges_def)
qed

lemma reviewChanges_snoc:
  assumes "after < int (length rs)"
  shows "receiptsReviewChanges lib (rs @ [r]) start (Suc (length rs)) after \<longleftrightarrow>
    receiptsReviewChanges lib rs start (length rs) after
    \<or> start \<le> length rs \<and> receiptReviews lib (if 0 \<le> after then pathSet (rc_Paths (rs ! nat after)) else []) r"
proof -
  have "0 \<le> after \<Longrightarrow> (rs @ [r]) ! nat after = rs ! nat after"
    using assms by (simp add: nth_append nat_less_iff)
  moreover have "take (Suc (length rs) - start) (drop start (rs @ [r]))
      = take (length rs - start) (drop start rs) @ (if start \<le> length rs then [r] else [])"
    by simp
  ultimately show ?thesis using assms by (auto simp: receiptsReviewChanges_def Let_def)
qed

lemma reviews_snoc:
  "onLog (HasSuccessfulReviewAfter lib i) (rs @ [r]) \<longleftrightarrow>
     onLog (HasSuccessfulReviewAfter lib i) rs
     \<or> i < int (length rs) \<and> receiptReviews lib (if 0 \<le> i then pathSet (rc_Paths (rs ! nat i)) else []) r"
proof (cases "i < int (length rs)")
  case True
  then have "nat (i + 1) \<le> length rs" by linarith
  with True show ?thesis by (simp add: HasSuccessfulReviewAfter_def Let_def reviewChanges_snoc)
next
  case False
  then show ?thesis by (auto simp: HasSuccessfulReviewAfter_def receiptsReviewChanges_def Let_def)
qed

interpretation reviewed: after_query "\<lambda>i. onLog (HasSuccessfulReviewAfter lib i)" for lib
proof (unfold_locales)
  fix i and rs :: "Receipt list" and r :: Receipt
  { assume "\<not> rc_Success r"
    then have "\<not> receiptReviews lib w r" for w using receiptReviews_succeeded by blast
    then show "onLog (HasSuccessfulReviewAfter lib i) (rs @ [r]) = onLog (HasSuccessfulReviewAfter lib i) rs"
      by (simp only: reviews_snoc simp_thms) }
  { assume "onLog (HasSuccessfulReviewAfter lib i) rs"
    then show "onLog (HasSuccessfulReviewAfter lib i) (rs @ [r])"
      by (simp only: reviews_snoc simp_thms) }
  { assume "int (length rs) \<le> i + 1"
    then show "\<not> onLog (HasSuccessfulReviewAfter lib i) rs"
      by (auto simp: HasSuccessfulReviewAfter_def receiptsReviewChanges_def Let_def) }
qed

lemma signsOffAt_append:
  assumes "i < length rs" "nat (after + 1) \<le> i"
  shows "signsOffAt lib (rs @ newer) after i = signsOffAt lib rs after i"
proof -
  have "(rs @ newer) ! i = rs ! i" using assms by (simp add: nth_append)
  moreover have "receiptsReviewChanges lib (rs @ newer) (nat (after + 1)) i after
      = receiptsReviewChanges lib rs (nat (after + 1)) i after"
    by (rule reviewChanges_append) (use assms in linarith)+
  moreover have "list_ex (\<lambda>j. commandReceipt lib True command ((rs @ newer) ! j)) [nat (after + 1)..<i]
      = list_ex (\<lambda>j. commandReceipt lib True command (rs ! j)) [nat (after + 1)..<i]" for command
    using assms(1) by (auto simp: list_ex_iff nth_append)
  ultimately show ?thesis by (simp add: signsOffAt_def Let_def)
qed

lemma signoffs_snoc:
  "onLog (HasSuccessfulDeliverySignoffAfter lib after) (rs @ [r]) \<longleftrightarrow>
     onLog (HasSuccessfulDeliverySignoffAfter lib after) rs
     \<or> nat (after + 1) \<le> length rs \<and> signsOffAt lib (rs @ [r]) after (length rs)"
  by (auto simp: HasSuccessfulDeliverySignoffAfter_def list_ex_iff signsOffAt_append)

lemma signsOffAt_succeeded: "signsOffAt lib rs after i \<Longrightarrow> rc_Success (rs ! i)"
  by (simp add: signsOffAt_def Let_def split: if_splits)

interpretation signoff: after_query "\<lambda>i. onLog (HasSuccessfulDeliverySignoffAfter lib i)" for lib
proof (unfold_locales)
  fix i and rs :: "Receipt list" and r :: Receipt
  { assume "\<not> rc_Success r"
    then have "\<not> signsOffAt lib (rs @ [r]) i (length rs)"
      using signsOffAt_succeeded [of lib "rs @ [r]" i "length rs"] by auto
    then show "onLog (HasSuccessfulDeliverySignoffAfter lib i) (rs @ [r])
        = onLog (HasSuccessfulDeliverySignoffAfter lib i) rs"
      by (simp only: signoffs_snoc simp_thms) }
  { assume "onLog (HasSuccessfulDeliverySignoffAfter lib i) rs"
    then show "onLog (HasSuccessfulDeliverySignoffAfter lib i) (rs @ [r])"
      by (simp only: signoffs_snoc simp_thms) }
  { assume "int (length rs) \<le> i + 1"
    then show "\<not> onLog (HasSuccessfulDeliverySignoffAfter lib i) rs"
      by (simp add: HasSuccessfulDeliverySignoffAfter_def) }
qed

interpretation structured: after_query "\<lambda>i. onLog (HasSuccessfulStructuredReviewAfter kind i paths)" for kind paths
proof (unfold_locales)
  fix i and rs :: "Receipt list" and r :: Receipt
  have failed: "\<not> rc_Success r \<Longrightarrow> coveringReport kind paths r = None"
    by (simp add: coveringReport_def reportOf_def)
  note defs = HasSuccessfulStructuredReviewAfter_def HasStructuredReviewAfter_def since_append
    map_filter_append drop_one map_filter_simps
  { assume "\<not> rc_Success r"
    then show "onLog (HasSuccessfulStructuredReviewAfter kind i paths) (rs @ [r])
        = onLog (HasSuccessfulStructuredReviewAfter kind i paths) rs"
      by (simp add: defs failed) }
  { assume "onLog (HasSuccessfulStructuredReviewAfter kind i paths) rs"
    then show "onLog (HasSuccessfulStructuredReviewAfter kind i paths) (rs @ [r])"
      by (simp add: defs split: list.splits) }
  { assume "int (length rs) \<le> i + 1"
    then show "\<not> onLog (HasSuccessfulStructuredReviewAfter kind i paths) rs"
      by (simp add: defs since_end) }
qed

end
