(* ===== verification/Todo_Codec.thy ===== *)
theory Todo_Codec imports Agent_Tasks Evidence_Log begin

text \<open>
  The task list through JSON: what \<open>recordTodoState\<close> marshals into a synthetic todo_write
  receipt is what \<open>ReceiptFromToolCall\<close> reads back.
\<close>

subsection \<open>Numbers\<close>

lemma itoa_last: "itoa n = (if n < 10 then [] else itoa (n div 10)) @ [char_of (48 + n mod 10)]"
  by (simp add: itoa.simps [of n])

lemma itoa_digits: "list_all is_digit (itoa n)"
proof (induction n rule: itoa.induct)
  case (1 n)
  have "is_digit (char_of (48 + n mod 10))"
    by (simp add: is_digit_def)
  then show ?case using 1 itoa_last [of n] by (simp split: if_splits)
qed

lemma digitsValue_snoc:
  "d < 10 \<Longrightarrow> digitsValue (s @ [char_of (48 + d)]) = 10 * digitsValue s + int d"
  by (simp add: digitsValue_def)

lemma digitsValue_itoa: "digitsValue (itoa n) = int n"
proof (induction n rule: itoa.induct)
  case (1 n)
  show ?case
  proof (cases "n < 10")
    case True
    then show ?thesis using digitsValue_snoc [of n "[]"] by (subst itoa_last) (simp add: digitsValue_def)
  next
    case False
    have "digitsValue (itoa n) = 10 * digitsValue (itoa (n div 10)) + int (n mod 10)"
      using False digitsValue_snoc [of "n mod 10" "itoa (n div 10)"] by (subst itoa_last) simp
    then show ?thesis using 1 [OF False] by (simp add: zdiv_int zmod_int)
  qed
qed

lemma itoa_Cons: "\<exists>c cs. itoa n = c # cs \<and> is_digit c"
proof -
  have "itoa n \<noteq> []" using itoa_last [of n] by simp
  then show ?thesis using itoa_digits [of n] by (cases "itoa n") auto
qed

lemma Atoi_itoaInt:
  assumes "- (2 ^ 63) \<le> n" "n < 2 ^ 63"
  shows "Atoi (itoaInt n) = Some n"
proof -
  obtain c cs where c: "itoa (nat (if n < 0 then - n else n)) = c # cs" "is_digit c" using itoa_Cons by blast
  have "c \<noteq> CHR ''-''" "c \<noteq> CHR ''+''" using c(2) by (auto simp: is_digit_def)
  moreover have "list_all is_digit (c # cs)" "digitsValue (c # cs) = (if n < 0 then - n else n)"
    using itoa_digits digitsValue_itoa c(1) by (metis, metis (full_types) int_nat_eq neg_0_le_iff_le linorder_not_less nless_le)
  ultimately show ?thesis using c(1) assms by (auto simp: Atoi_def itoaInt_def Let_def split: if_splits)
qed

subsection \<open>Items\<close>

definition int64_levels :: "TodoItem list \<Rightarrow> bool" where
  "int64_levels todos \<longleftrightarrow> list_all (\<lambda>t. - (2 ^ 63) \<le> td_Level t \<and> td_Level t < 2 ^ 63) todos"

lemma member_names [simp]:
  "EqualFold ''content'' ''content''" "\<not> EqualFold ''status'' ''content''" "EqualFold ''status'' ''status''"
  "\<not> EqualFold ''activeForm'' ''content''" "\<not> EqualFold ''activeForm'' ''status''"
  "\<not> EqualFold ''level'' ''content''" "\<not> EqualFold ''level'' ''status''" "\<not> EqualFold ''level'' ''activeForm''"
  by code_simp+

lemma decode_encodeTodo:
  assumes "- (2 ^ 63) \<le> td_Level t" "td_Level t < 2 ^ 63"
  shows "decodeStruct todoMember noTodo (encodeTodo t) = Some t"
  by (cases t) (use assms Atoi_itoaInt [of "td_Level t"] in
    \<open>simp add: encodeTodo_def todoMember_def noTodo_def\<close>)

lemma decodeAll_map: "\<forall>x \<in> set xs. f (g x) = Some x \<Longrightarrow> decodeAll f (map g xs) = Some xs"
  by (induction xs) simp_all

lemma decode_encodeTodos:
  "int64_levels todos \<Longrightarrow>
     decodeArray (decodeStruct todoMember noTodo) (if todos = [] then JNull else JArr (map encodeTodo todos)) = Some todos"
  by (simp add: decodeAll_map decode_encodeTodo int64_levels_def list_all_iff)

lemma todoReceipt_todos:
  assumes "int64_levels todos"
  shows "rc_Todos (todoReceipt lib dl todos) = normalizeTodos todos"
proof -
  have "todoItemsField [(''todos'', if todos = [] then JNull else JArr (map encodeTodo todos))] ''todos'' = normalizeTodos todos"
    by (simp add: todoItemsField_def objGet_def decode_encodeTodos [OF assms] del: decodeArray.simps)
  then show ?thesis
    by (simp add: todoReceipt_def ReceiptFromToolCall_def encodeTodos_def withFields_def bareReceipt_def Let_def
        del: decodeArray.simps)
qed

lemma normalizeTodos_idem [simp]: "normalizeTodos (normalizeTodos todos) = normalizeTodos todos"
  by (simp add: normalizeTodos_def normalizeTodo_def)

lemma latest_todos_Record:
  "LatestTodos (Record r l) = (if isTodoWrite r then (normalizeTodos (rc_Todos r), True) else LatestTodos l)"
  by (simp add: LatestTodos_def latestTodoWrite_def)

end
