(* ===== verification/Tool_Todo_Write.thy ===== *)
theory Tool_Todo_Write imports Evidence_Review begin

text \<open>
  The todo_write tool (\<open>internal/tool/builtin/todo.go\<close>): what a new task list must satisfy
  before the host accepts it. The context of a call carries the ledger of the turn (\<open>None\<close>
  without one) and the canonical task list (\<open>None\<close> in plan mode).
\<close>

record tool_ctx =
  tx_ledger :: "Ledger option"
  tx_todos :: "TodoItem list option"
  tx_planReplacement :: bool

datatype todo_write_error =
    BadTodoArgs
  | EmptyContent nat
  | BadLevel nat int
  | BadStatus nat gostr
  | NotSerial todo_error
  | CurrentRemoved nat gostr
  | CurrentBackToPending nat gostr
  | CompletedMoved nat gostr
  | HistoryChanged
  | CompletedUnsigned nat gostr
  | InitialCompleted nat gostr
  | NewlyCompleted "TodoStepMatch list"

definition todosMember :: "gostr \<Rightarrow> json \<Rightarrow> TodoItem list \<Rightarrow> TodoItem list option" where
  "todosMember k v ts =
     (if EqualFold k ''todos'' then decodeArray (decodeStruct todoMember noTodo) v else Some ts)"

definition decodeTodoArgs :: "raw_json \<Rightarrow> TodoItem list option" where
  "decodeTodoArgs args = Option.bind (rawValue args) (decodeStruct todosMember [])"

text \<open>The items of the list one by one: the counts of completed, current and pending ones.\<close>

fun shapeLoop :: "nat \<Rightarrow> TodoItem list \<Rightarrow> nat \<times> nat \<times> nat \<Rightarrow> todo_write_error + nat \<times> nat \<times> nat" where
  "shapeLoop i [] counts = Inr counts"
| "shapeLoop i (t # ts) (finished, active, pending) =
     (if td_Content t = [] then Inl (EmptyContent (Suc i))
      else if td_Level t < 0 \<or> 1 < td_Level t then Inl (BadLevel (Suc i) (td_Level t))
      else if td_Status t = ''completed'' then shapeLoop (Suc i) ts (Suc finished, active, pending)
      else if td_Status t = ''in_progress'' then shapeLoop (Suc i) ts (finished, Suc active, pending)
      else if td_Status t = ''pending'' \<or> td_Status t = [] then shapeLoop (Suc i) ts (finished, active, Suc pending)
      else Inl (BadStatus (Suc i) (td_Status t)))"

text \<open>The list the new one replaces: that of the ledger, or the canonical one.\<close>

definition todoBaseline :: "tool_ctx \<Rightarrow> TodoItem list" where
  "todoBaseline ctx =
     (let canonical = (case tx_todos ctx of None \<Rightarrow> [] | Some ts \<Rightarrow> ts) in
      case tx_ledger ctx of
        None \<Rightarrow> canonical
      | Some l \<Rightarrow> (case LatestTodos l of (ts, ok) \<Rightarrow> if ok \<and> ts \<noteq> [] then ts else canonical))"

text \<open>The first error of a loop over positions.\<close>

definition firstError :: "(nat \<Rightarrow> 'e option) \<Rightarrow> nat \<Rightarrow> 'e option" where
  "firstError f n = (case List.map_filter f [0..<n] of [] \<Rightarrow> None | e # _ \<Rightarrow> Some e)"

definition continuityError :: "TodoItem list \<Rightarrow> TodoItem list \<Rightarrow> nat \<Rightarrow> todo_write_error option" where
  "continuityError previous todos i =
     (let todo = previous ! i in
      if TrimSpace (td_Status todo) \<noteq> ''in_progress'' then None
      else
        (case MatchTodoIdentity todo todos of
           (m, found) \<Rightarrow>
             if \<not> found then Some (CurrentRemoved (Suc i) (td_Content todo))
             else if tm_Status m = ''pending'' \<or> tm_Status m = [] then Some (CurrentBackToPending (Suc i) (td_Content todo))
             else None))"

definition verifyTodoCurrentContinuity :: "tool_ctx \<Rightarrow> TodoItem list \<Rightarrow> todo_write_error option" where
  "verifyTodoCurrentContinuity ctx todos =
     (let previous = todoBaseline ctx in firstError (continuityError previous todos) (length previous))"

definition positionError :: "TodoItem list \<Rightarrow> TodoItem list \<Rightarrow> nat \<Rightarrow> todo_write_error option" where
  "positionError previous todos i =
     (let todo = todos ! i in
      if td_Status todo \<noteq> ''completed'' then None
      else
        (case MatchTodoIdentity todo previous of
           (m, found) \<Rightarrow>
             if \<not> found \<or> tm_Index m \<noteq> int (Suc i) then Some (CompletedMoved (Suc i) (td_Content todo)) else None))"

definition verifyCompletedTodoPositions :: "tool_ctx \<Rightarrow> TodoItem list \<Rightarrow> todo_write_error option" where
  "verifyCompletedTodoPositions ctx todos =
     (let previous = todoBaseline ctx in
      if previous = [] then None
      else
        (case firstError (positionError previous todos) (length todos) of
           Some e \<Rightarrow> Some e
         | None \<Rightarrow>
             if IncompleteTodos previous \<noteq> [] \<and> \<not> PreservesCompletedTodoPositions previous todos
             then Some HistoryChanged else None))"

definition unsignedError :: "TodoItem list \<Rightarrow> TodoItem list \<Rightarrow> nat \<Rightarrow> todo_write_error option" where
  "unsignedError previous todos i =
     (let todo = todos ! i in
      if td_Status todo \<noteq> ''completed'' then None
      else
        (case MatchTodoIdentity todo previous of
           (m, found) \<Rightarrow>
             if \<not> found \<or> tm_Status m \<noteq> ''completed'' then Some (CompletedUnsigned (Suc i) (td_Content todo)) else None))"

definition initialError :: "TodoItem list \<Rightarrow> nat \<Rightarrow> todo_write_error option" where
  "initialError todos i =
     (if td_Status (todos ! i) = ''completed'' then Some (InitialCompleted (Suc i) (td_Content (todos ! i))) else None)"

definition verifyTodoCompletionTransitions :: "tool_ctx \<Rightarrow> TodoItem list \<Rightarrow> todo_write_error option" where
  "verifyTodoCompletionTransitions ctx todos =
     (case tx_ledger ctx of
        None \<Rightarrow> None
      | Some l \<Rightarrow>
          (case UnverifiedCompletedTodos todos l of
             (missing, hasBaseline) \<Rightarrow>
               if \<not> hasBaseline then
                 (case tx_todos ctx of
                    Some previous \<Rightarrow>
                      if previous \<noteq> [] then firstError (unsignedError previous todos) (length todos)
                      else firstError (initialError todos) (length todos)
                  | None \<Rightarrow> firstError (initialError todos) (length todos))
               else if missing = [] then None
               else Some (NewlyCompleted missing)))"

text \<open>The result counts the list and its completed, current and pending items.\<close>

definition todoWriteExecute :: "tool_ctx \<Rightarrow> raw_json \<Rightarrow> todo_write_error + nat \<times> nat \<times> nat \<times> nat" where
  "todoWriteExecute ctx args =
     (case decodeTodoArgs args of
        None \<Rightarrow> Inl BadTodoArgs
      | Some todos \<Rightarrow>
          (case shapeLoop 0 todos (0, 0, 0) of
             Inl e \<Rightarrow> Inl e
           | Inr (finished, active, pending) \<Rightarrow>
               (case ValidateSerialTodos todos of
                  Some e \<Rightarrow> Inl (NotSerial e)
                | None \<Rightarrow>
                    (case (if tx_planReplacement ctx then None else verifyTodoCurrentContinuity ctx todos) of
                       Some e \<Rightarrow> Inl e
                     | None \<Rightarrow>
                         (case verifyCompletedTodoPositions ctx todos of
                            Some e \<Rightarrow> Inl e
                          | None \<Rightarrow>
                              (case verifyTodoCompletionTransitions ctx todos of
                                 Some e \<Rightarrow> Inl e
                               | None \<Rightarrow> Inr (length todos, finished, active, pending)))))))"

end
