(* ===== verification/Tool_Complete_Step.thy ===== *)
theory Tool_Complete_Step imports Tool_Todo_Write Instructions begin

text \<open>
  The complete_step tool (\<open>internal/tool/builtin/completestep.go\<close>): the sign-off of one step
  of a plan. The result says what was verified; the hints that error messages add (lists of
  commands and paths) are not part of the model.
\<close>

subsection \<open>Arguments\<close>

record step_args =
  sa_Step :: gostr
  sa_StepIndex :: int
  sa_Result :: gostr
  sa_Evidence :: "evidence_item list"
  sa_Notes :: gostr

definition noStepArgs :: step_args where
  "noStepArgs = \<lparr>sa_Step = [], sa_StepIndex = 0, sa_Result = [], sa_Evidence = [], sa_Notes = []\<rparr>"

definition stepMember :: "gostr \<Rightarrow> json \<Rightarrow> step_args \<Rightarrow> step_args option" where
  "stepMember k v a =
     (if EqualFold k ''step'' then map_option (\<lambda>s. a\<lparr>sa_Step := s\<rparr>) (decodeString (sa_Step a) v)
      else if EqualFold k ''step_index'' then map_option (\<lambda>n. a\<lparr>sa_StepIndex := n\<rparr>) (decodeInt (sa_StepIndex a) v)
      else if EqualFold k ''result'' then map_option (\<lambda>s. a\<lparr>sa_Result := s\<rparr>) (decodeString (sa_Result a) v)
      else if EqualFold k ''evidence'' then
        map_option (\<lambda>es. a\<lparr>sa_Evidence := es\<rparr>) (decodeArray (decodeStruct proofMember noItem) v)
      else if EqualFold k ''notes'' then map_option (\<lambda>s. a\<lparr>sa_Notes := s\<rparr>) (decodeString (sa_Notes a) v)
      else Some a)"

definition decodeStepArgs :: "raw_json \<Rightarrow> step_args option" where
  "decodeStepArgs args = Option.bind (rawValue args) (decodeStruct stepMember noStepArgs)"

definition stepIdentity :: "gostr \<Rightarrow> int \<Rightarrow> gostr" where
  "stepIdentity step stepIndex = (if 0 < stepIndex then itoaInt stepIndex else TrimSpace step)"

definition validEvidenceKinds :: "gostr list" where
  "validEvidenceKinds = [''verification'', ''review'', ''diff'', ''files'', ''manual'']"

subsection \<open>Context and errors\<close>

record step_ctx = tool_ctx +
  sx_session :: "session_message list option"
  sx_delivery :: bool
  sx_checks :: "VerifyCheck list"

datatype step_error =
    BadStepArgs
  | StepRequired
  | StepIndexNegative
  | ResultRequired
  | EvidenceRequired
  | BadKind nat gostr
  | SummaryRequired nat
  | StepUnknownAllCompleted gostr
  | StepUnknown gostr
  | SubStepsUnfinished int int
  | StepPending int
  | StepBadStatus int gostr
  | CommandRequired nat
  | CommandFailed nat gostr
  | CommandNotRun nat gostr
  | NotAVerification nat gostr
  | ReviewMissing nat
  | PathsRequired nat
  | DiffUnproven nat
  | FilesUnproven nat
  | StillInProgress step_error TodoStepMatch
  | ProjectCheckMissing gostr

subsection \<open>The transcript\<close>

definition ellipsis :: gostr where
  "ellipsis = [CHR 0xE2, CHR 0x80, CHR 0xA6]"

definition firstWord :: "gostr \<Rightarrow> gostr" where
  "firstWord s0 = takeWhile (\<lambda>c. \<not> (c = CHR '' '' \<or> c = CHR 0x09 \<or> c = CHR 0x0A)) (TrimSpace s0)"

fun textMember :: "gostr \<Rightarrow> gostr \<Rightarrow> json \<Rightarrow> gostr \<Rightarrow> gostr option" where
  "textMember key k v s = (if EqualFold k key then decodeString s v else Some s)"

definition extractCommandFromCall :: "gostr \<Rightarrow> raw_json \<Rightarrow> gostr" where
  "extractCommandFromCall name args =
     (let field = (\<lambda>key. Option.bind (rawValue args) (decodeStruct (textMember key) [])) in
      if name = ''bash'' then (case field ''command'' of None \<Rightarrow> [] | Some c \<Rightarrow> TrimSpace c)
      else (case field ''path'' of None \<Rightarrow> name | Some p \<Rightarrow> if p = [] then name else name @ '' '' @ p))"

definition verifyCommandFromSession :: "shell_lib \<Rightarrow> session_message list option \<Rightarrow> gostr \<Rightarrow> bool" where
  "verifyCommandFromSession lib session command =
     (case session of
        None \<Rightarrow> False
      | Some msgs \<Rightarrow>
          (let lookup = TrimSuffix (TrimSuffix (TrimSpace command) ''...'') ellipsis in
           if lookup = [] then False
           else
             (let toolName = firstWord lookup; failed = failedSessionCallIDs msgs in
              list_ex (\<lambda>tc.
                  let cmd = extractCommandFromCall (tc_Name tc) (tc_Arguments tc) in
                  cmd \<noteq> [] \<and>
                  (CommandMatches lib lookup cmd
                   \<or> toolName \<noteq> [] \<and> toolName \<noteq> ''bash'' \<and> tc_Name tc = toolName))
                (filter (\<lambda>tc. tc_ID tc \<notin> failed) (concat (map sm_ToolCalls msgs))))))"

definition verifyPathsFromSession :: "shell_lib \<Rightarrow> session_message list option \<Rightarrow> gostr list \<Rightarrow> bool \<Rightarrow> bool" where
  "verifyPathsFromSession lib session paths wantWrite =
     (case session of None \<Rightarrow> False | Some msgs \<Rightarrow> PathsProvenInSession lib msgs paths wantWrite)"

subsection \<open>The step\<close>

text \<open>The match of the step, and whether there is a task list at all.\<close>

definition stepTodos :: "step_ctx \<Rightarrow> TodoItem list" where
  "stepTodos ctx =
     (let own = (case tx_ledger ctx of None \<Rightarrow> [] | Some l \<Rightarrow> fst (LatestTodos l)) in
      if own \<noteq> [] then own else (case tx_todos ctx of None \<Rightarrow> [] | Some ts \<Rightarrow> ts))"

definition verifyTodoStep :: "step_ctx \<Rightarrow> gostr \<Rightarrow> step_error + TodoStepMatch \<times> bool" where
  "verifyTodoStep ctx step =
     (let todos = stepTodos ctx in
      if todos = [] then Inr (noMatch, False)
      else
        (case MatchStep step todos of
           (m, found) \<Rightarrow>
             if \<not> found then
               (if list_all (\<lambda>t. TrimSpace (td_Status t) = ''completed'') todos
                then Inl (StepUnknownAllCompleted step) else Inl (StepUnknown step))
             else if tm_Status m = ''in_progress'' then
               (case FirstUnfinishedSubStep todos (tm_Index m - 1) of
                  (unfinished, ok) \<Rightarrow>
                    if ok \<and> 0 \<le> unfinished then Inl (SubStepsUnfinished (tm_Index m) (unfinished + 1))
                    else Inr (m, True))
             else if tm_Status m = ''completed'' then Inr (m, True)
             else if tm_Status m = [] \<or> tm_Status m = ''pending'' then Inl (StepPending (tm_Index m))
             else Inl (StepBadStatus (tm_Index m) (tm_Status m))))"

subsection \<open>The evidence\<close>

text \<open>One evidence item: an error, or whether the host verified it.\<close>

definition verifyItem :: "shell_lib \<Rightarrow> step_ctx \<Rightarrow> Ledger \<Rightarrow> nat \<Rightarrow> evidence_item \<Rightarrow> step_error + bool" where
  "verifyItem lib ctx l i e =
     (if ei_Kind e = ''verification'' then
        (let command = TrimSpace (ei_Command e) in
         if command = [] then Inl (CommandRequired (Suc i))
         else if \<not> HasSuccessfulCommand lib command l \<and> \<not> verifyCommandFromSession lib (sx_session ctx) command then
           (if HasFailedCommand lib command l then Inl (CommandFailed (Suc i) command)
            else Inl (CommandNotRun (Suc i) command))
         else if sx_delivery ctx \<and> snd (LatestSuccessfulMutationIndex l) \<and> \<not> bashCommandIsVerification lib command
         then Inl (NotAVerification (Suc i) command)
         else Inr True)
      else if ei_Kind e = ''review'' then
        (if \<not> HasCompletedReview lib l then Inl (ReviewMissing (Suc i)) else Inr True)
      else if ei_Kind e = ''diff'' then
        (if ei_Paths e = [] then Inl (PathsRequired (Suc i))
         else if \<not> HasSuccessfulWrite (ei_Paths e) l \<and> \<not> verifyPathsFromSession lib (sx_session ctx) (ei_Paths e) True
         then Inl (DiffUnproven (Suc i)) else Inr True)
      else if ei_Kind e = ''files'' then
        (if ei_Paths e = [] then Inl (PathsRequired (Suc i))
         else if \<not> HasSuccessfulReadOrWrite (ei_Paths e) l \<and> \<not> HasSuccessfulBashMentioningPaths (ei_Paths e) l
                 \<and> \<not> verifyPathsFromSession lib (sx_session ctx) (ei_Paths e) False
         then Inl (FilesUnproven (Suc i)) else Inr True)
      else Inr False)"

fun verifyItems :: "shell_lib \<Rightarrow> step_ctx \<Rightarrow> Ledger \<Rightarrow> nat \<Rightarrow> evidence_item list \<Rightarrow> nat \<times> nat \<Rightarrow> step_error + nat \<times> nat" where
  "verifyItems lib ctx l i [] counts = Inr counts"
| "verifyItems lib ctx l i (e # es) (host, manual) =
     (case verifyItem lib ctx l i e of
        Inl err \<Rightarrow> Inl err
      | Inr True \<Rightarrow> verifyItems lib ctx l (Suc i) es (Suc host, manual)
      | Inr False \<Rightarrow> verifyItems lib ctx l (Suc i) es (host, if ei_Kind e = ''manual'' then Suc manual else manual))"

definition verifyStepEvidence :: "shell_lib \<Rightarrow> step_ctx \<Rightarrow> evidence_item list \<Rightarrow> step_error + nat \<times> nat" where
  "verifyStepEvidence lib ctx items =
     (case tx_ledger ctx of None \<Rightarrow> Inr (0, 0) | Some l \<Rightarrow> verifyItems lib ctx l 0 items (0, 0))"

subsection \<open>Project checks\<close>

definition latestWriteBackedEvidenceIndex :: "Ledger \<Rightarrow> evidence_item list \<Rightarrow> int \<times> bool" where
  "latestWriteBackedEvidenceIndex l items =
     (let latest = fold (\<lambda>item latest.
            if ei_Kind item = ''diff'' \<or> ei_Kind item = ''files'' then
              (case LatestSuccessfulWriteIndex (ei_Paths item) l of
                 (i, ok) \<Rightarrow> if ok \<and> latest < i then i else latest)
            else latest) items (-1)
      in (latest, 0 \<le> latest))"

definition verifyProjectChecks :: "shell_lib \<Rightarrow> step_ctx \<Rightarrow> evidence_item list \<Rightarrow> step_error + nat" where
  "verifyProjectChecks lib ctx items =
     (if sx_checks ctx = [] then Inr 0
      else
        (case tx_ledger ctx of
           None \<Rightarrow> Inr 0
         | Some l \<Rightarrow>
             (case latestWriteBackedEvidenceIndex l items of
                (after, ok) \<Rightarrow>
                  if \<not> ok then Inr 0
                  else
                    (case filter (\<lambda>c. TrimSpace (vc_Command c) \<noteq> []
                            \<and> \<not> HasSuccessfulCommandAfter lib (TrimSpace (vc_Command c)) after l) (sx_checks ctx) of
                       c # _ \<Rightarrow> Inl (ProjectCheckMissing (TrimSpace (vc_Command c)))
                     | [] \<Rightarrow> Inr (length (sx_checks ctx))))))"

subsection \<open>Execution\<close>

record signed_step =
  sg_Step :: gostr
  sg_Kinds :: "gostr list"
  sg_HostVerified :: nat
  sg_ManualUnverified :: nat
  sg_Todo :: "TodoStepMatch option"
  sg_ProjectVerified :: nat
  sg_AlreadyCompleted :: bool

fun kindLoop :: "nat \<Rightarrow> evidence_item list \<Rightarrow> step_error option" where
  "kindLoop i [] = None"
| "kindLoop i (e # es) =
     (if \<not> oneOfWords (ei_Kind e) validEvidenceKinds then Some (BadKind (Suc i) (ei_Kind e))
      else if TrimSpace (ei_Summary e) = [] then Some (SummaryRequired (Suc i))
      else kindLoop (Suc i) es)"

definition argsError :: "step_args \<Rightarrow> step_error option" where
  "argsError p =
     (if stepIdentity (sa_Step p) (sa_StepIndex p) = [] then Some StepRequired
      else if sa_StepIndex p < 0 then Some StepIndexNegative
      else if TrimSpace (sa_Result p) = [] then Some ResultRequired
      else if sa_Evidence p = [] then Some EvidenceRequired
      else kindLoop 0 (sa_Evidence p))"

definition completeStepExecute :: "shell_lib \<Rightarrow> step_ctx \<Rightarrow> raw_json \<Rightarrow> step_error + signed_step" where
  "completeStepExecute lib ctx args =
     (case decodeStepArgs args of
        None \<Rightarrow> Inl BadStepArgs
      | Some p \<Rightarrow>
          (case argsError p of
             Some e \<Rightarrow> Inl e
           | None \<Rightarrow>
               (let step = stepIdentity (sa_Step p) (sa_StepIndex p) in
                case verifyTodoStep ctx step of
                  Inl e \<Rightarrow> Inl e
                | Inr (m, hasTodo) \<Rightarrow>
                    (case verifyStepEvidence lib ctx (sa_Evidence p) of
                       Inl e \<Rightarrow> if hasTodo \<and> tm_Status m = ''in_progress'' then Inl (StillInProgress e m) else Inl e
                     | Inr (host, manual) \<Rightarrow>
                         (case verifyProjectChecks lib ctx (sa_Evidence p) of
                            Inl e \<Rightarrow> Inl e
                          | Inr checks \<Rightarrow>
                              Inr \<lparr>sg_Step = step, sg_Kinds = map ei_Kind (sa_Evidence p), sg_HostVerified = host,
                                   sg_ManualUnverified = manual, sg_Todo = (if hasTodo then Some m else None),
                                   sg_ProjectVerified = checks,
                                   sg_AlreadyCompleted = (hasTodo \<and> tm_Status m = ''completed'')\<rparr>)))))"

end
