(* ===== verification/Evidence_Todo_Order.thy ===== *)
theory Evidence_Todo_Order imports Evidence_Todos "HOL-Library.Multiset" begin

text \<open>
  The meaning of the serial task list: in sign-off order (the sub-steps of a phase before the
  phase itself) the statuses are completed items, then the single current item, then pending
  ones. The segment-aware validation, the repair and the advance are shown to be exactly
  this discipline.
\<close>

subsection \<open>Phases and the sign-off order\<close>

fun phases :: "TodoItem list \<Rightarrow> TodoItem list list" where
  "phases [] = []"
| "phases (t # ts) = (t # take (subCount t ts) ts) # phases (drop (subCount t ts) ts)"

definition signOff :: "TodoItem list \<Rightarrow> TodoItem list" where
  "signOff p = tl p @ [hd p]"

definition workOrder :: "TodoItem list \<Rightarrow> TodoItem list" where
  "workOrder todos = concat (map signOff (phases todos))"

definition all_done :: "gostr list \<Rightarrow> bool" where
  "all_done xs \<longleftrightarrow> list_all (\<lambda>s. s = ''completed'') xs"

definition all_pending :: "gostr list \<Rightarrow> bool" where
  "all_pending xs \<longleftrightarrow> list_all (\<lambda>s. s = ''pending'') xs"

text \<open>\<open>serial\<close>: completed, then current, then pending; \<open>ordered\<close>: without a current item, too.\<close>

definition serial :: "gostr list \<Rightarrow> bool" where
  "serial xs \<longleftrightarrow>
     (case dropWhile (\<lambda>s. s = ''completed'') xs of
        [] \<Rightarrow> True | s # ys \<Rightarrow> s = ''in_progress'' \<and> all_pending ys)"

definition ordered :: "gostr list \<Rightarrow> bool" where
  "ordered xs \<longleftrightarrow>
     (case dropWhile (\<lambda>s. s = ''completed'') xs of
        [] \<Rightarrow> True | s # ys \<Rightarrow> (s = ''in_progress'' \<or> s = ''pending'') \<and> all_pending ys)"

definition known :: "gostr \<Rightarrow> bool" where
  "known s \<longleftrightarrow> s = ''completed'' \<or> s = ''in_progress'' \<or> s = ''pending''"

definition currents :: "gostr list \<Rightarrow> nat" where
  "currents xs = length (filter (\<lambda>s. s = ''in_progress'') xs)"

definition serial_list :: "TodoItem list \<Rightarrow> bool" where
  "serial_list todos \<longleftrightarrow>
     (todos = [] \<or> td_Level (hd todos) \<noteq> 1) \<and> serial (map stat (workOrder todos))"

lemma all_done_simps [simp]:
  "all_done []" "all_done (s # xs) \<longleftrightarrow> s = ''completed'' \<and> all_done xs"
  "all_done (xs @ ys) \<longleftrightarrow> all_done xs \<and> all_done ys"
  by (simp_all add: all_done_def)

lemma all_pending_simps [simp]:
  "all_pending []" "all_pending (s # xs) \<longleftrightarrow> s = ''pending'' \<and> all_pending xs"
  "all_pending (xs @ ys) \<longleftrightarrow> all_pending xs \<and> all_pending ys"
  by (simp_all add: all_pending_def)

lemma currents_simps [simp]:
  "currents [] = 0" "currents (s # xs) = (if s = ''in_progress'' then Suc (currents xs) else currents xs)"
  "currents (xs @ ys) = currents xs + currents ys"
  by (simp_all add: currents_def)

lemma currents_zero: "currents xs = 0 \<longleftrightarrow> ''in_progress'' \<notin> set xs"
  by (induction xs) auto

lemma serial_Cons:
  "serial (s # xs) \<longleftrightarrow> (if s = ''completed'' then serial xs else s = ''in_progress'' \<and> all_pending xs)"
  by (simp add: serial_def)

lemma ordered_Cons:
  "ordered (s # xs) \<longleftrightarrow>
     (if s = ''completed'' then ordered xs else (s = ''in_progress'' \<or> s = ''pending'') \<and> all_pending xs)"
  by (simp add: ordered_def)

lemma serial_Nil [simp]: "serial []" and ordered_Nil [simp]: "ordered []"
  by (simp_all add: serial_def ordered_def)

lemma serial_ordered: "serial xs \<Longrightarrow> ordered xs"
  by (induction xs) (auto simp: serial_Cons ordered_Cons split: if_splits)

lemma pending_ordered: "all_pending xs \<Longrightarrow> ordered xs"
  by (cases xs) (auto simp: ordered_Cons)

lemma done_ordered: "all_done xs \<Longrightarrow> ordered xs"
  by (induction xs) (auto simp: ordered_Cons)

lemma done_or_pending: "all_done xs \<Longrightarrow> all_pending xs \<Longrightarrow> xs = []"
  by (cases xs) auto

lemma current_not_done: "''in_progress'' \<in> set xs \<Longrightarrow> \<not> all_done xs"
  by (induction xs) auto

lemma currents_count: "currents xs = count (mset xs) ''in_progress''"
  by (induction xs) auto

lemma ordered_snoc:
  "ordered (xs @ [s]) \<longleftrightarrow>
     (if s = ''completed'' then all_done xs
      else if s = ''in_progress'' then all_done xs
      else s = ''pending'' \<and> ordered xs)"
proof (induction xs)
  case (Cons x xs)
  then show ?case by (cases "x = ''completed''") (auto simp: ordered_Cons)
qed (simp add: ordered_Cons)

lemma pending_no_current: "all_pending xs \<Longrightarrow> ''in_progress'' \<notin> set xs"
  by (auto simp: all_pending_def list_all_iff)

lemma serial_append:
  "serial (xs @ ys) \<longleftrightarrow>
     (if all_done xs then serial ys else ordered xs \<and> ''in_progress'' \<in> set xs \<and> all_pending ys)"
proof (induction xs)
  case (Cons s xs)
  show ?case
  proof (cases "s = ''completed''")
    case True
    then show ?thesis using Cons by (simp add: serial_Cons ordered_Cons)
  next
    case False
    then show ?thesis using pending_no_current [of xs] by (auto simp: serial_Cons ordered_Cons)
  qed
qed simp

lemma known_simps [simp]: "known ''completed''" "known ''in_progress''" "known ''pending''"
  by (simp_all add: known_def)

lemma pending_known: "all_pending xs \<Longrightarrow> list_all known xs"
  unfolding all_pending_def list_all_iff known_def by blast

lemma serial_known: "serial xs \<Longrightarrow> list_all known xs"
proof (induction xs)
  case (Cons s xs)
  then show ?case using pending_known [of xs]
    by (cases "s = ''completed''") (auto simp: serial_Cons)
qed simp

lemma pending_currents: "all_pending xs \<Longrightarrow> currents xs = 0"
  by (simp add: currents_zero pending_no_current)

lemma serial_currents: "serial xs \<Longrightarrow> currents xs \<le> 1"
proof (induction xs)
  case (Cons s xs)
  then show ?case
    by (cases "s = ''completed''") (simp_all add: serial_Cons pending_currents)
qed simp

subsection \<open>Segments are phases\<close>

lemma concat_phases: "concat (phases todos) = todos"
  by (induction todos rule: phases.induct) simp_all

lemma phases_nonempty: "p \<in> set (phases todos) \<Longrightarrow> p \<noteq> []"
  by (induction todos rule: phases.induct) auto

lemma mset_workOrder: "set (workOrder todos) = set todos"
  and length_workOrder: "length (workOrder todos) = length todos"
proof -
  have "set (signOff p) = set p \<and> length (signOff p) = length p" if "p \<noteq> []" for p
    using that by (cases p) (auto simp: signOff_def)
  then have "set (concat (map signOff ps)) = set (concat ps)
      \<and> length (concat (map signOff ps)) = length (concat ps)" if "\<forall>p \<in> set ps. p \<noteq> []" for ps
    using that by (induction ps) auto
  then show "set (workOrder todos) = set todos" "length (workOrder todos) = length todos"
    unfolding workOrder_def using phases_nonempty [of _ todos] concat_phases [of todos] by metis+
qed

lemma subCount_le: "subCount t ts \<le> length ts"
  by (simp add: subCount_def length_takeWhile_le)

lemma segItems_at:
  "segItems (pre @ t # ts) \<lparr>seg_head = length pre, seg_end = length pre + 1 + subCount t ts\<rparr>
     = t # take (subCount t ts) ts"
  by (simp add: segItems_def)

subsection \<open>Validation\<close>

lemma statusLoop_None:
  "statusLoop i b ts = None \<longleftrightarrow>
     list_all known (map stat ts) \<and> currents (map stat ts) + (if b then 1 else 0) \<le> 1"
proof (induction ts arbitrary: i b)
  case (Cons t ts)
  consider "stat t = ''completed''" | "stat t = ''in_progress''" | "stat t = ''pending''" | "\<not> known (stat t)"
    by (auto simp: known_def)
  then show ?case
  proof cases
    case 4
    then show ?thesis by (simp add: known_def)
  qed (simp_all add: Cons.IH)
qed simp

lemma subLoop_settled:
  assumes "ss_pending sc \<or> ss_current sc" and "list_all known (map stat ts)"
    and "currents (map stat ts) = 0"
  shows "case subLoop i ts sc of
      Inl e \<Rightarrow> \<not> all_pending (map stat ts)
    | Inr sc' \<Rightarrow> all_pending (map stat ts) \<and> ss_current sc' = ss_current sc
        \<and> ss_completed sc' = ss_completed sc \<and> (ss_unfinished sc' = None \<longleftrightarrow> ss_unfinished sc = None \<and> ts = [])"
  using assms
proof (induction ts arbitrary: i sc)
  case (Cons t ts)
  show ?case
  proof (cases "stat t = ''completed''")
    case True
    then show ?thesis using Cons.prems(1) by auto
  next
    case False
    then have t: "stat t = ''pending''" using Cons.prems(2,3) by (simp add: known_def split: if_splits)
    let ?sc = "markUnfinished i t (sc\<lparr>ss_pending := True\<rparr>)"
    have sc: "ss_pending ?sc" "ss_current ?sc = ss_current sc" "ss_completed ?sc = ss_completed sc"
      "ss_unfinished ?sc \<noteq> None" by (simp_all add: markUnfinished_def)
    show ?thesis using Cons.IH [of ?sc "Suc i"] Cons.prems(2,3) t sc
      by (simp split: sum.splits)
  qed
qed simp

lemma subLoop_start:
  assumes "\<not> ss_pending sc" "\<not> ss_current sc" "ss_unfinished sc = None"
    and "list_all known (map stat ts)" and "currents (map stat ts) \<le> 1"
  shows "case subLoop i ts sc of
      Inl e \<Rightarrow> \<not> ordered (map stat ts)
    | Inr sc' \<Rightarrow> ordered (map stat ts) \<and> (ss_current sc' \<longleftrightarrow> ''in_progress'' \<in> stat ` set ts)
        \<and> (ss_completed sc' = 0 \<longleftrightarrow> ss_completed sc = 0 \<and> (ts = [] \<or> stat (hd ts) \<noteq> ''completed''))
        \<and> (ss_unfinished sc' = None \<longleftrightarrow> all_done (map stat ts))"
  using assms
proof (induction ts arbitrary: i sc)
  case (Cons t ts)
  consider (fin) "stat t = ''completed''" | (cur) "stat t = ''in_progress''" | (pend) "stat t = ''pending''"
    using Cons.prems(4) by (auto simp: known_def)
  then show ?case
  proof cases
    case fin
    then show ?thesis using Cons.IH [of "sc\<lparr>ss_completed := Suc (ss_completed sc)\<rparr>" "Suc i"] Cons.prems
      by (simp add: ordered_Cons split: sum.splits)
  next
    case cur
    let ?sc = "markUnfinished i t (sc\<lparr>ss_current := True\<rparr>)"
    have sc: "ss_current ?sc" "ss_completed ?sc = ss_completed sc" "ss_unfinished ?sc \<noteq> None"
      using Cons.prems by (simp_all add: markUnfinished_def)
    show ?thesis using subLoop_settled [of ?sc ts "Suc i"] Cons.prems cur sc
      by (simp add: ordered_Cons split: sum.splits)
  next
    case pend
    let ?sc = "markUnfinished i t (sc\<lparr>ss_pending := True\<rparr>)"
    have sc: "ss_pending ?sc" "ss_current ?sc = ss_current sc" "ss_completed ?sc = ss_completed sc"
      "ss_unfinished ?sc \<noteq> None"
      using Cons.prems by (simp_all add: markUnfinished_def)
    show ?thesis
    proof (cases "currents (map stat ts) = 0")
      case True
      then have "''in_progress'' \<notin> stat ` set ts" by (simp add: currents_zero)
      then show ?thesis using subLoop_settled [of ?sc ts "Suc i"] Cons.prems pend sc True
        by (auto simp: ordered_Cons split: sum.splits)
    next
      case False
      then have "\<not> all_pending (map stat ts)" using pending_currents by auto
      then have no: "\<not> ordered (map stat (t # ts))" using pend by (simp add: ordered_Cons)
      have "subLoop (Suc i) ts ?sc \<noteq> Inr sc'" for sc'
      proof -
        have "ss_pending s \<Longrightarrow> currents (map stat us) \<noteq> 0 \<Longrightarrow> list_all known (map stat us)
            \<Longrightarrow> subLoop j us s \<noteq> Inr sc'" for s us j
        proof (induction us arbitrary: s j)
          case (Cons u us)
          then show ?case by (auto simp: known_def markUnfinished_def split: if_splits)
        qed simp
        then show ?thesis using sc(1) False Cons.prems(4) by simp
      qed
      then show ?thesis using no pend by (auto split: sum.splits)
    qed
  qed
qed simp

lemma noScan_fields [simp]:
  "\<not> ss_current noScan" "\<not> ss_pending noScan" "ss_completed noScan = 0" "ss_unfinished noScan = None"
  by (simp_all add: noScan_def)

text \<open>The state of a segment, read off the statuses of its items in sign-off order.\<close>

lemma validateSerialSegment_state:
  assumes items: "segItems todos seg = p" and p: "p \<noteq> []" "todos ! seg_head seg = hd p"
    and len: "seg_end seg = seg_head seg + length p"
    and ok: "list_all known (map stat p)" "currents (map stat p) \<le> 1"
  shows "case validateSerialSegment todos seg of
      Inl e \<Rightarrow> \<not> ordered (map stat (signOff p))
    | Inr st \<Rightarrow> ordered (map stat (signOff p))
        \<and> (st = ''completed'' \<longleftrightarrow> all_done (map stat (signOff p)))
        \<and> (st = ''in_progress'' \<longleftrightarrow> ''in_progress'' \<in> stat ` set p)
        \<and> (st = ''pending'' \<longleftrightarrow> all_pending (map stat (signOff p)))"
proof (cases p)
  case (Cons h subs)
  show ?thesis
  proof (cases subs)
    case Nil
    then show ?thesis using Cons p len ok
      by (auto simp: validateSerialSegment_def signOff_def ordered_Cons known_def)
  next
    case sub: (Cons u us)
    have oks: "list_all known (map stat subs)" "currents (map stat subs) \<le> 1" "known (stat h)"
      using ok Cons by (auto split: if_splits)
    have scan: "case subLoop (seg_head seg + 1) subs noScan of
        Inl e \<Rightarrow> \<not> ordered (map stat subs)
      | Inr sc' \<Rightarrow> ordered (map stat subs) \<and> (ss_current sc' \<longleftrightarrow> ''in_progress'' \<in> stat ` set subs)
          \<and> (ss_completed sc' = 0 \<longleftrightarrow> (subs = [] \<or> stat (hd subs) \<noteq> ''completed''))
          \<and> (ss_unfinished sc' = None \<longleftrightarrow> all_done (map stat subs))"
      using subLoop_start [of noScan subs "seg_head seg + 1"] oks by (simp split: sum.splits)
    have first: "all_pending (map stat subs) \<longleftrightarrow>
        ordered (map stat subs) \<and> ''in_progress'' \<notin> stat ` set subs \<and> stat (hd subs) \<noteq> ''completed''"
    proof -
      have "known (stat u)" using oks(1) sub by simp
      then consider "stat u = ''completed''" | "stat u = ''in_progress''" | "stat u = ''pending''"
        by (auto simp: known_def)
      then show ?thesis
        by cases (use sub pending_no_current [of "map stat us"] in \<open>auto simp: ordered_Cons\<close>)
    qed
    have last: "''in_progress'' \<in> stat ` set subs \<Longrightarrow> \<not> all_done (map stat subs)"
      using current_not_done [of "map stat subs"] by simp
    have not_single: "seg_end seg \<noteq> Suc (seg_head seg)" using len Cons sub by simp
    have only: "stat h = ''in_progress'' \<Longrightarrow> ''in_progress'' \<notin> stat ` set subs"
      using ok(2) Cons currents_zero [of "map stat subs"] by auto
    consider (fin) "stat h = ''completed''" | (cur) "stat h = ''in_progress''" | (pend) "stat h = ''pending''"
      using oks(3) by (auto simp: known_def)
    then show ?thesis
    proof cases
      case fin
      then show ?thesis using scan last done_ordered not_single p(2) items Cons
        by (auto simp: validateSerialSegment_def signOff_def ordered_snoc Let_def split: sum.splits option.splits)
    next
      case cur
      then show ?thesis using scan last done_ordered not_single p(2) items Cons only
        by (auto simp: validateSerialSegment_def signOff_def ordered_snoc Let_def split: sum.splits option.splits)
    next
      case pend
      then show ?thesis using scan last done_ordered not_single p(2) items Cons first
        by (auto simp: validateSerialSegment_def signOff_def ordered_snoc Let_def split: sum.splits option.splits)
    qed
  qed
qed (use p in simp)

text \<open>One step of the segment loop, for a list split before a phase.\<close>

lemma segmentsFrom_step:
  assumes "p = t # take (subCount t ts) ts" and "rest = drop (subCount t ts) ts"
  shows "t # ts = p @ rest"
    and "segmentsFrom i (t # ts) = \<lparr>seg_head = i, seg_end = i + length p\<rparr> # segmentsFrom (i + length p) rest"
    and "phases (t # ts) = p # phases rest"
  using assms subCount_le [of t ts] by (simp_all add: Let_def)

lemma workOrder_Cons: "phases todos = p # phases rest \<Longrightarrow> workOrder todos = signOff p @ workOrder rest"
  by (simp add: workOrder_def)

lemma segmentLoop_stuck:
  assumes "list_all known (map stat ts)" and "currents (map stat ts) \<le> 1" and "pre @ ts \<noteq> []"
  shows "segmentLoop (pre @ ts) (segmentsFrom (length pre) ts) False True \<noteq> None"
  using assms
proof (induction ts arbitrary: pre rule: phases.induct)
  case (2 t ts)
  define p where "p = t # take (subCount t ts) ts"
  define rest where "rest = drop (subCount t ts) ts"
  note step = segmentsFrom_step [OF p_def rest_def]
  have ok: "list_all known (map stat p)" "currents (map stat p) \<le> 1"
    "list_all known (map stat rest)" "currents (map stat rest) \<le> 1"
    using "2.prems"(1,2) unfolding step(1) by (auto simp del: One_nat_def)
  have "segmentLoop ((pre @ p) @ rest) (segmentsFrom (length (pre @ p)) rest) False True \<noteq> None"
    using "2.IH" [of "pre @ p"] ok p_def by (simp add: rest_def)
  then show ?case unfolding step(2) [unfolded step(1)] step(1)
    by (auto split: sum.splits simp: Let_def)
qed simp

lemma segmentLoop_exact:
  assumes "list_all known (map stat ts)" and "currents (map stat ts) + (if c then 1 else 0) \<le> 1"
    and "b \<longrightarrow> c"
  shows "segmentLoop (pre @ ts) (segmentsFrom (length pre) ts) c b = None \<longleftrightarrow>
    (if c then all_pending (map stat (workOrder ts)) else serial (map stat (workOrder ts)))"
  using assms
proof (induction ts arbitrary: pre c b rule: phases.induct)
  case 1
  then show ?case by (simp add: workOrder_def)
next
  case (2 t ts)
  define p where "p = t # take (subCount t ts) ts"
  define rest where "rest = drop (subCount t ts) ts"
  define seg where "seg = \<lparr>seg_head = length pre, seg_end = length pre + length p\<rparr>"
  note step = segmentsFrom_step [OF p_def rest_def]
  have ok: "list_all known (map stat p)" "list_all known (map stat rest)"
    and cnt: "currents (map stat p) + currents (map stat rest) + (if c then 1 else 0) \<le> 1"
    using "2.prems"(1,2) unfolding step(1) by (auto simp del: One_nat_def)
  have IH: "currents (map stat rest) + (if c' then 1 else 0) \<le> 1 \<Longrightarrow> b' \<longrightarrow> c' \<Longrightarrow>
      segmentLoop (pre @ p @ rest) (segmentsFrom (length pre + length p) rest) c' b' = None \<longleftrightarrow>
      (if c' then all_pending (map stat (workOrder rest)) else serial (map stat (workOrder rest)))" for c' b'
    using "2.IH" [of c' b' "pre @ p"] ok(2) by (simp add: rest_def)
  have stuck: "segmentLoop (pre @ p @ rest) (segmentsFrom (length pre + length p) rest) False True \<noteq> None"
    using segmentLoop_stuck [of rest "pre @ p"] ok(2) cnt by (simp add: p_def)
  have seg: "case validateSerialSegment (pre @ p @ rest) seg of
      Inl e \<Rightarrow> \<not> ordered (map stat (signOff p))
    | Inr st \<Rightarrow> ordered (map stat (signOff p))
        \<and> (st = ''completed'' \<longleftrightarrow> all_done (map stat (signOff p)))
        \<and> (st = ''in_progress'' \<longleftrightarrow> ''in_progress'' \<in> stat ` set p)
        \<and> (st = ''pending'' \<longleftrightarrow> all_pending (map stat (signOff p)))"
  proof (rule validateSerialSegment_state)
    show "segItems (pre @ p @ rest) seg = p" "p \<noteq> []" "(pre @ p @ rest) ! seg_head seg = hd p"
      "seg_end seg = seg_head seg + length p"
      by (simp_all add: seg_def segItems_def p_def nth_append min_absorb2 subCount_le)
    show "list_all known (map stat p)" by (rule ok)
    show "currents (map stat p) \<le> 1" using cnt by simp
  qed
  have mem: "''in_progress'' \<in> stat ` set p \<longleftrightarrow> ''in_progress'' \<in> set (map stat (signOff p))"
    by (auto simp: signOff_def p_def)
  have ord: "signOff p \<noteq> []" by (simp add: signOff_def)
  have loop: "segmentLoop (pre @ t # ts) (segmentsFrom (length pre) (t # ts)) c b =
      segmentLoop (pre @ p @ rest) (seg # segmentsFrom (length pre + length p) rest) c b"
    unfolding step(2) [unfolded step(1)] step(1) seg_def by simp
  have order: "map stat (workOrder (t # ts)) = map stat (signOff p) @ map stat (workOrder rest)"
    using workOrder_Cons [OF step(3)] by simp
  let ?S = "map stat (signOff p)" and ?R = "map stat (workOrder rest)"
  show ?case
  proof (cases "validateSerialSegment (pre @ p @ rest) seg")
    case (Inl e)
    then have "\<not> ordered ?S" using seg by simp
    then show ?thesis using Inl done_ordered [of ?S] pending_ordered [of ?S]
      unfolding loop order by (auto simp: serial_append)
  next
    case (Inr st)
    then have st: "ordered ?S" "st = ''completed'' \<longleftrightarrow> all_done ?S"
      "st = ''in_progress'' \<longleftrightarrow> ''in_progress'' \<in> set ?S" "st = ''pending'' \<longleftrightarrow> all_pending ?S"
      using seg mem by simp_all
    consider (fin) "st = ''completed''" | (cur) "st = ''in_progress''" | (pend) "st = ''pending''"
      | (stale) "st \<noteq> ''completed''" "st \<noteq> ''in_progress''" "st \<noteq> ''pending''" by blast
    then show ?thesis
    proof cases
      case fin
      then have "all_done ?S" "\<not> all_pending ?S" using st done_or_pending ord by auto
      then show ?thesis using Inr fin IH [of False False] cnt "2.prems"(3)
        unfolding loop order by (simp add: serial_append)
    next
      case cur
      then have I: "''in_progress'' \<in> set ?S" using st(3) by simp
      then have "''in_progress'' \<in> stat ` set p" unfolding mem .
      then have "currents (map stat p) \<noteq> 0" by (simp add: currents_zero)
      then have c: "\<not> c" "\<not> b" "currents (map stat rest) = 0"
        using cnt "2.prems"(3) by (cases c; simp)+
      have "\<not> all_done ?S" using I by (rule current_not_done)
      then show ?thesis using Inr cur IH [of True False] c st(1) I
        unfolding loop order by (simp add: serial_append)
    next
      case pend
      then have "all_pending ?S" "\<not> all_done ?S" "''in_progress'' \<notin> set ?S" using st by auto
      then show ?thesis using Inr pend IH [of True True] cnt stuck
        unfolding loop order by (cases c) (simp_all add: serial_append)
    next
      case stale
      then have "\<not> all_pending ?S" "\<not> all_done ?S" "''in_progress'' \<notin> set ?S" using st by auto
      then show ?thesis using Inr stale stuck
        unfolding loop order by (cases c) (simp_all add: serial_append Let_def)
    qed
  qed
qed

text \<open>Validation accepts exactly the serial lists.\<close>

lemma validate_serial: "ValidateSerialTodos todos = None \<longleftrightarrow> serial_list todos"
proof -
  have perm: "mset (map stat (workOrder todos)) = mset (map stat todos)"
  proof -
    have "mset (concat (map signOff ps)) = mset (concat ps)" if "\<forall>p \<in> set ps. p \<noteq> []" for ps
      using that by (induction ps) (auto simp: signOff_def neq_Nil_conv)
    then have "mset (workOrder todos) = mset todos"
      unfolding workOrder_def using phases_nonempty concat_phases by metis
    then show ?thesis by (simp only: mset_map)
  qed
  have same: "list_all known (map stat (workOrder todos)) = list_all known (map stat todos)"
    "currents (map stat (workOrder todos)) = currents (map stat todos)"
    unfolding list_all_iff mset_eq_setD [OF perm] currents_count perm by (rule refl)+
  have hd: "todos \<noteq> [] \<Longrightarrow> todos ! 0 = hd todos" by (simp add: hd_conv_nth)
  show ?thesis
  proof (cases "list_all known (map stat todos) \<and> currents (map stat todos) \<le> 1")
    case True
    then have "statusLoop 0 False todos = None" by (simp add: statusLoop_None)
    then show ?thesis
      using segmentLoop_exact [of todos False False "[]"] True hd
      by (auto simp: ValidateSerialTodos_def serial_list_def serialTodoSegments_def)
  next
    case False
    then have "\<not> serial (map stat (workOrder todos))" using serial_known serial_currents same by metis
    moreover have "statusLoop 0 False todos \<noteq> None" using False by (simp add: statusLoop_None)
    ultimately show ?thesis by (auto simp: ValidateSerialTodos_def serial_list_def split: option.splits)
  qed
qed

end
