(* ===== verification/Evidence_Todo_Steps.thy ===== *)
theory Evidence_Todo_Steps imports Evidence_Todo_Order begin

text \<open>
  Repairing a serial task list, as an operation on its sign-off order.
\<close>

subsection \<open>Lists with the same levels have the same phases\<close>

lemma subCount_levels:
  "map td_Level (t # ts) = map td_Level (u # us) \<Longrightarrow> subCount t ts = subCount u us"
proof -
  have "map td_Level ts = map td_Level us \<Longrightarrow>
      length (takeWhile (\<lambda>u. td_Level u = 1) ts) = length (takeWhile (\<lambda>u. td_Level u = 1) us)"
  proof (induction ts arbitrary: us)
    case (Cons x xs)
    then show ?case by (cases us) simp_all
  qed simp
  then show "map td_Level (t # ts) = map td_Level (u # us) \<Longrightarrow> subCount t ts = subCount u us"
    by (simp add: subCount_def)
qed

lemma phases_lengths: "map td_Level xs = map td_Level ys \<Longrightarrow> map length (phases xs) = map length (phases ys)"
proof (induction xs arbitrary: ys rule: phases.induct)
  case (2 t ts)
  then obtain u us where ys: "ys = u # us" by (cases ys) auto
  then have n: "subCount t ts = subCount u us" and len: "length ts = length us"
    using "2.prems" subCount_levels [of t ts u us] by (auto dest: map_eq_imp_length_eq)
  have "map td_Level (drop (subCount t ts) ts) = map td_Level (drop (subCount t ts) us)"
    using "2.prems" ys by (simp flip: drop_map)
  then show ?case using "2.IH" [of "drop (subCount t ts) us"] n ys len by simp
qed simp

lemma concat_inj:
  "concat ps = concat qs \<Longrightarrow> map length ps = map length qs \<Longrightarrow> ps = qs"
proof (induction ps arbitrary: qs)
  case (Cons p ps)
  then obtain q qs' where "qs = q # qs'" by (cases qs) auto
  with Cons show ?case by auto
qed simp

lemma phases_same:
  assumes "map td_Level xs = map td_Level (concat qs)" and "map length qs = map length (phases xs)"
  shows "phases (concat qs) = qs"
  using concat_inj [of "phases (concat qs)" qs] concat_phases [of "concat qs"]
    phases_lengths [OF assms(1)] assms(2) by simp

lemma setStatus_fields [simp]:
  "td_Level (setStatus s t) = td_Level t" "td_Content (setStatus s t) = td_Content t"
  "td_ActiveForm (setStatus s t) = td_ActiveForm t" "td_Status (setStatus s t) = s"
  "setStatus s (setStatus r t) = setStatus s t"
  by (simp_all add: setStatus_def)

lemma todoStatus_simps [simp]:
  "todoStatus ''completed'' = ''completed''" "todoStatus ''in_progress'' = ''in_progress''"
  "todoStatus ''pending'' = ''pending''"
  by code_simp+

lemma todoStatus_idem [simp]: "todoStatus (todoStatus s) = todoStatus s"
  using todoStatus_simps(3) by (auto simp: todoStatus_def split: if_splits)

subsection \<open>Repair\<close>

fun repair :: "bool \<Rightarrow> TodoItem list \<Rightarrow> TodoItem list" where
  "repair u [] = []"
| "repair u (t # ts) =
     (if u then setStatus ''pending'' t # repair True ts
      else if stat t = ''completed'' then t # repair False ts
      else setStatus ''in_progress'' t # repair True ts)"

lemma repair_True: "repair True ts = map (setStatus ''pending'') ts"
  by (induction ts) simp_all

lemma repair_append:
  "repair u (xs @ ys) = repair u xs @ repair (u \<or> \<not> all_done (map stat xs)) ys"
  by (induction xs arbitrary: u) auto

lemma repair_levels [simp]:
  "map td_Level (repair u xs) = map td_Level xs" "length (repair u xs) = length xs"
  by (induction xs arbitrary: u) auto

lemma repair_done: "all_done (map stat xs) \<Longrightarrow> repair False xs = xs"
  by (induction xs) auto

lemma normalizeSubs_repair: "normalizeSubs u ts = (repair u ts, u \<or> \<not> all_done (map stat ts))"
  by (induction u ts rule: normalizeSubs.induct) auto

lemma all_done_signOff: "p \<noteq> [] \<Longrightarrow> all_done (map stat (signOff p)) \<longleftrightarrow> all_done (map stat p)"
  by (cases p) (auto simp: signOff_def)

text \<open>One phase, repaired: the statuses of its sub-steps first, then its own.\<close>

definition repairPhase :: "bool \<Rightarrow> TodoItem list \<Rightarrow> TodoItem list" where
  "repairPhase u p =
     hd (repair (u \<or> \<not> all_done (map stat (tl p))) [hd p]) # repair u (tl p)"

lemma signOff_repairPhase: "signOff (repairPhase u p) = repair u (signOff p)"
  by (simp add: signOff_def repairPhase_def repair_append)

lemma repairPhase_levels [simp]:
  "p \<noteq> [] \<Longrightarrow> map td_Level (repairPhase u p) = map td_Level p"
  "p \<noteq> [] \<Longrightarrow> length (repairPhase u p) = length p"
  by (cases p; simp add: repairPhase_def)+

fun repairPhases :: "bool \<Rightarrow> TodoItem list list \<Rightarrow> TodoItem list list" where
  "repairPhases u [] = []"
| "repairPhases u (p # ps) = repairPhase u p # repairPhases (u \<or> \<not> all_done (map stat p)) ps"

lemma repairPhases_order:
  "\<forall>p \<in> set ps. p \<noteq> [] \<Longrightarrow>
     concat (map signOff (repairPhases u ps)) = repair u (concat (map signOff ps))"
  by (induction ps arbitrary: u) (auto simp: signOff_repairPhase repair_append all_done_signOff)

lemma repairPhases_shape:
  "\<forall>p \<in> set ps. p \<noteq> [] \<Longrightarrow> map td_Level (concat (repairPhases u ps)) = map td_Level (concat ps)"
  "\<forall>p \<in> set ps. p \<noteq> [] \<Longrightarrow> map length (repairPhases u ps) = map length ps"
  by (induction ps arbitrary: u) auto

lemma normalizeLoop_repair:
  "normalizeLoop (pre @ ts) (segmentsFrom (length pre) ts) u = pre @ concat (repairPhases u (phases ts))"
proof (induction ts arbitrary: pre u rule: phases.induct)
  case (2 t ts)
  define p where "p = t # take (subCount t ts) ts"
  define rest where "rest = drop (subCount t ts) ts"
  define seg where "seg = \<lparr>seg_head = length pre, seg_end = length pre + length p\<rparr>"
  note step = segmentsFrom_step [OF p_def rest_def]
  obtain subs where p: "p = t # subs" by (simp add: p_def)
  have items: "segItems (pre @ p @ rest) seg = p" by (simp add: seg_def segItems_def)
  have sf: "seg_head seg = length pre" "seg_end seg = length pre + length p" by (simp_all add: seg_def)
  have fin: "serialSegmentCompleted (pre @ p @ rest) seg \<longleftrightarrow> all_done (map stat p)"
    by (simp add: serialSegmentCompleted_def items all_done_def list_all_iff)
  have slice: "setSlice (length pre + k) ys (pre @ xs @ zs @ rest) = pre @ xs @ ys @ rest"
    if "length xs = k" "length ys = length zs" for k xs ys zs
    using that by (simp add: setSlice_def)
  have IH: "normalizeLoop (pre @ q @ rest) (segmentsFrom (length pre + length p) rest) v =
      pre @ q @ concat (repairPhases v (phases rest))" if "length q = length p" for q v
    using "2.IH" [of "pre @ q" v] that by (simp add: rest_def)
  have "normalizeLoop (pre @ p @ rest) (seg # segmentsFrom (length pre + length p) rest) u =
      pre @ repairPhase u p @ concat (repairPhases (u \<or> \<not> all_done (map stat p)) (phases rest))"
  proof (cases u)
    case True
    have "repairPhase True p = map (setStatus ''pending'') p"
      by (simp add: p repairPhase_def repair_True)
    then show ?thesis
      using True slice [of "[]" 0 "map (setStatus ''pending'') p" p] IH [of "map (setStatus ''pending'') p" True]
      by (simp add: items sf)
  next
    case False
    show ?thesis
    proof (cases "all_done (map stat p)")
      case True
      then have "repairPhase False p = p" by (simp add: repairPhase_def repair_done p)
      then show ?thesis using False True IH [of p False] by (simp add: fin)
    next
      case unf: False
      show ?thesis
      proof (cases subs)
        case Nil
        then show ?thesis using \<open>\<not> u\<close> unf fin IH [of "[setStatus ''in_progress'' t]" True] sf
          by (simp add: p repairPhase_def)
      next
        case (Cons s ss)
        let ?new = "setStatus (if \<not> all_done (map stat subs) then ''pending'' else ''in_progress'') t"
        let ?subs = "repair False subs"
        have set: "setSlice (length pre + 1) ?subs (pre @ p @ rest) = pre @ t # ?subs @ rest"
          using slice [of "[t]" 1 ?subs subs] by (simp add: p)
        have phase: "repairPhase False p = ?new # ?subs" using unf by (auto simp: repairPhase_def p)
        have "seg_end seg \<noteq> seg_head seg + 1" using Cons by (simp add: sf p)
        moreover have "\<not> serialSegmentCompleted (pre @ p @ rest) seg" using unf by (simp only: fin) simp
        moreover have "normalizeSubs False (tl (segItems (pre @ p @ rest) seg)) = (?subs, \<not> all_done (map stat subs))"
          by (simp only: items) (simp add: p normalizeSubs_repair)
        ultimately show ?thesis
          using \<open>\<not> u\<close> unf set IH [of "?new # ?subs" True]
          by (simp add: phase sf(1) Let_def) (auto simp: p)
      qed
    qed
  qed
  then show ?case unfolding step(2) [unfolded step(1)] step(3) [unfolded step(1)] step(1) seg_def
    using step(3) [unfolded step(1)] by simp
qed simp

text \<open>Repairing a list is repairing its sign-off order.\<close>

lemma normalize_phases: "NormalizeSerialTodos todos = concat (repairPhases False (phases todos))"
  using normalizeLoop_repair [of "[]" todos False]
  by (simp add: NormalizeSerialTodos_def serialTodoSegments_def)

lemma phases_normalize: "phases (NormalizeSerialTodos todos) = repairPhases False (phases todos)"
proof -
  have ne: "\<forall>p \<in> set (phases todos). p \<noteq> []" using phases_nonempty by blast
  show ?thesis unfolding normalize_phases
    by (rule phases_same [of todos])
       (use repairPhases_shape [OF ne, of False] concat_phases [of todos] in simp_all)
qed

lemma workOrder_normalize: "workOrder (NormalizeSerialTodos todos) = repair False (workOrder todos)"
proof -
  have "\<forall>p \<in> set (phases todos). p \<noteq> []" using phases_nonempty by blast
  then show ?thesis unfolding workOrder_def phases_normalize by (rule repairPhases_order)
qed

lemma normalize_levels: "map td_Level (NormalizeSerialTodos todos) = map td_Level todos"
proof -
  have "\<forall>p \<in> set (phases todos). p \<noteq> []" using phases_nonempty by blast
  then show ?thesis unfolding normalize_phases by (simp add: repairPhases_shape concat_phases)
qed

lemma serial_repair: "serial (map stat (repair False xs))"
proof (induction xs)
  case (Cons t ts)
  have "all_pending (map stat (repair True ts))"
    by (simp add: repair_True all_pending_def list_all_iff)
  then show ?case using Cons by (simp add: serial_Cons)
qed simp

lemma repair_serial:
  "serial (map stat xs) \<Longrightarrow> map (\<lambda>t. setStatus (stat t) t) (repair False xs) = map (\<lambda>t. setStatus (stat t) t) xs"
proof (induction xs)
  case (Cons t ts)
  have "all_pending (map stat ts) \<Longrightarrow>
      map (\<lambda>t. setStatus (stat t) t) (repair True ts) = map (\<lambda>t. setStatus (stat t) t) ts"
    by (auto simp: repair_True all_pending_def list_all_iff)
  with Cons show ?case by (simp add: serial_Cons)
qed simp

lemma repair_idem: "repair False (repair False xs) = repair False xs"
proof (induction xs)
  case (Cons t ts)
  have "repair True (repair True ts) = repair True ts" by (simp add: repair_True)
  with Cons show ?case by simp
qed simp

lemma head_level: "map td_Level xs = map td_Level ys \<Longrightarrow>
    (xs = [] \<or> td_Level (hd xs) \<noteq> 1) = (ys = [] \<or> td_Level (hd ys) \<noteq> 1)"
  by (cases xs; cases ys) auto

lemma normalize_valid:
  "todos = [] \<or> td_Level (hd todos) \<noteq> 1 \<Longrightarrow> ValidateSerialTodos (NormalizeSerialTodos todos) = None"
  using head_level [OF normalize_levels [of todos]]
  by (simp add: validate_serial serial_list_def workOrder_normalize serial_repair)

text \<open>The sign-off order determines the list.\<close>

lemma workOrder_inj:
  assumes "workOrder xs = workOrder ys" and "map td_Level xs = map td_Level ys"
  shows "xs = ys"
proof -
  have len: "map length (phases xs) = map length (phases ys)" using assms(2) by (rule phases_lengths)
  have "length (signOff p) = length p" if "p \<noteq> []" for p using that by (cases p) (simp_all add: signOff_def)
  then have lens: "map length (map signOff (phases zs)) = map length (phases zs)" for zs
    using phases_nonempty [of _ zs] by (simp cong: map_cong)
  have "map signOff (phases xs) = map signOff (phases ys)"
    using assms(1) unfolding workOrder_def by (rule concat_inj) (simp only: lens len)
  moreover have "inj_on signOff (set (phases xs) \<union> set (phases ys))"
  proof (rule inj_onI)
    fix p q
    assume "p \<in> set (phases xs) \<union> set (phases ys)" "q \<in> set (phases xs) \<union> set (phases ys)"
      and eq: "signOff p = signOff q"
    then have "p \<noteq> []" "q \<noteq> []" using phases_nonempty by blast+
    with eq show "p = q" by (cases p; cases q) (simp_all add: signOff_def)
  qed
  ultimately have "phases xs = phases ys" using map_inj_on by blast
  then show ?thesis using concat_phases by metis
qed

lemma normalize_idem: "NormalizeSerialTodos (NormalizeSerialTodos todos) = NormalizeSerialTodos todos"
  by (rule workOrder_inj) (simp_all add: workOrder_normalize repair_idem normalize_levels)

end
