(* ===== verification/Evidence_Todo_Advance.thy ===== *)
theory Evidence_Todo_Advance imports Evidence_Todo_Steps begin

text \<open>
  Advancing a serial task list of two levels (the only lists the \<open>todo_write\<close> tool
  accepts), as an operation on its sign-off order.
\<close>

subsection \<open>Advance\<close>

text \<open>The current item is done, the next one becomes current.\<close>

fun advance :: "TodoItem list \<Rightarrow> TodoItem list" where
  "advance [] = []"
| "advance (t # ts) =
     (if stat t = ''completed'' then t # advance ts
      else setStatus ''completed'' t
           # (case ts of [] \<Rightarrow> [] | u # us \<Rightarrow> setStatus ''in_progress'' u # us))"

lemma advance_append:
  "all_done (map stat xs) \<Longrightarrow> advance (xs @ ys) = xs @ advance ys"
  by (induction xs) simp_all

definition two_level :: "TodoItem list \<Rightarrow> bool" where
  "two_level todos \<longleftrightarrow>
     list_all (\<lambda>t. td_Level t = 0 \<or> td_Level t = 1) todos \<and> (todos = [] \<or> td_Level (hd todos) = 0)"

definition phase_ok :: "TodoItem list \<Rightarrow> bool" where
  "phase_ok p \<longleftrightarrow> p \<noteq> [] \<and> td_Level (hd p) = 0 \<and> list_all (\<lambda>t. td_Level t = 1) (tl p)"

lemma two_level_drop:
  assumes "two_level (t # ts)"
  shows "two_level (drop (subCount t ts) ts)" and "phase_ok (t # take (subCount t ts) ts)"
proof -
  have lev: "td_Level t = 0" "list_all (\<lambda>t. td_Level t = 0 \<or> td_Level t = 1) ts"
    using assms by (simp_all add: two_level_def)
  have cnt: "drop (subCount t ts) ts = dropWhile (\<lambda>u. td_Level u = 1) ts"
    "take (subCount t ts) ts = takeWhile (\<lambda>u. td_Level u = 1) ts"
    by (simp_all add: subCount_def lev(1) dropWhile_eq_drop [symmetric] takeWhile_eq_take [symmetric])
  have "list_all (\<lambda>t. td_Level t = 0 \<or> td_Level t = 1) (dropWhile (\<lambda>u. td_Level u = 1) ts)"
    using lev(2) by (auto simp: list_all_iff dest: set_dropWhileD)
  moreover have "td_Level (hd (dropWhile (\<lambda>u. td_Level u = 1) ts)) = 0"
    if "dropWhile (\<lambda>u. td_Level u = 1) ts \<noteq> []"
    using hd_dropWhile [OF that] hd_in_set [OF that] calculation by (auto simp: list_all_iff)
  ultimately show "two_level (drop (subCount t ts) ts)" unfolding cnt by (auto simp: two_level_def)
  show "phase_ok (t # take (subCount t ts) ts)" unfolding cnt
    by (auto simp: phase_ok_def lev(1) list_all_iff dest: set_takeWhileD)
qed

lemma two_level_phases: "two_level todos \<Longrightarrow> list_all phase_ok (phases todos)"
  by (induction todos rule: phases.induct) (auto simp: two_level_drop)

lemma no_subs:
  "xs = [] \<or> td_Level (hd xs) = 0 \<Longrightarrow> takeWhile (\<lambda>u. td_Level u = 1) xs = []"
  by (cases xs) simp_all

lemma phases_of_ok:
  "list_all phase_ok ps \<Longrightarrow> phases (concat ps) = ps"
proof (induction ps)
  case (Cons p ps)
  obtain t subs where p: "p = t # subs" "td_Level t = 0" "list_all (\<lambda>t. td_Level t = 1) subs"
    using Cons.prems by (cases p) (auto simp: phase_ok_def)
  have "concat ps = [] \<or> td_Level (hd (concat ps)) = 0"
    using Cons.prems by (cases ps) (auto simp: phase_ok_def)
  then have "takeWhile (\<lambda>u. td_Level u = 1) (concat ps) = []"
    by (rule no_subs)
  then have "takeWhile (\<lambda>u. td_Level u = 1) (subs @ concat ps) = subs"
    using p(3) by (simp add: takeWhile_append list_all_iff)
  then have "subCount t (subs @ concat ps) = length subs" using p(2) by (simp add: subCount_def)
  then show ?case using Cons p(1) by simp
qed simp

lemma workOrder_concat:
  "list_all phase_ok ps \<Longrightarrow> workOrder (concat ps) = concat (map signOff ps)"
  by (simp add: workOrder_def phases_of_ok)

lemma head_not_sub:
  "list_all phase_ok ps \<Longrightarrow> concat ps = [] \<or> td_Level (hd (concat ps)) = 0"
  by (cases ps) (auto simp: phase_ok_def)

lemma unfinished_none:
  assumes "list_all (\<lambda>t. td_Level t = 1 \<and> stat t = ''completed'') subs"
    and "ys = [] \<or> td_Level (hd ys) \<noteq> 1"
  shows "unfinishedFrom (xs @ subs @ ys) (length xs) = -1"
  using assms(1)
proof (induction subs arbitrary: xs)
  case Nil
  then show ?case using assms(2)
    by (cases ys) (simp_all add: unfinishedFrom.simps [of _ "length xs"] nth_append)
next
  case (Cons u us)
  from Cons.IH [of "xs @ [u]"] Cons.prems show ?case
    by (simp add: unfinishedFrom.simps [of _ "length xs"] nth_append)
qed

lemma promoteNext_skip:
  "list_all (\<lambda>t. stat t \<noteq> ''pending'') zs \<Longrightarrow>
   promoteNext (xs @ zs @ ys) (length xs) = promoteNext (xs @ zs @ ys) (length xs + length zs)"
proof (induction zs arbitrary: xs)
  case (Cons z zs)
  from Cons.IH [of "xs @ [z]"] Cons.prems show ?case
    by (simp add: promoteNext.simps [of _ "length xs"] nth_append)
qed simp

text \<open>The first item in sign-off order of a list of pending phases becomes current.\<close>

fun startFirst :: "TodoItem list list \<Rightarrow> TodoItem list list" where
  "startFirst [] = []"
| "startFirst ((h # s # ss) # ps) = (h # setStatus ''in_progress'' s # ss) # ps"
| "startFirst ((h # []) # ps) = (setStatus ''in_progress'' h # []) # ps"
| "startFirst ([] # ps) = [] # ps"

lemma first_plain:
  assumes "td_Level h = 0" and "ys = [] \<or> td_Level (hd ys) = 0"
  shows "FirstUnfinishedSubStep (xs @ h # ys) (int (length xs)) = (-1, False)"
proof (cases ys)
  case Nil
  then show ?thesis by (simp add: FirstUnfinishedSubStep_def)
next
  case (Cons y ys')
  then have "(xs @ h # ys) ! nat (1 + int (length xs)) = y" by (simp add: nth_append nat_add_distrib)
  then show ?thesis using assms(2) Cons by (simp add: FirstUnfinishedSubStep_def add.commute)
qed

lemma first_phase:
  assumes "td_Level h = 0" and "td_Level s = 1"
  shows "FirstUnfinishedSubStep (xs @ h # s # ys) (int (length xs)) =
    (unfinishedFrom (xs @ h # s # ys) (Suc (length xs)), True)"
proof -
  have n: "nat (1 + int (length xs)) = Suc (length xs)" by simp
  then have "(xs @ h # s # ys) ! nat (1 + int (length xs)) = s" by (simp add: nth_append)
  with assms n show ?thesis by (simp add: FirstUnfinishedSubStep_def add.commute)
qed

lemma first_sub:
  assumes "td_Level h = 1"
  shows "FirstUnfinishedSubStep (xs @ h # ys) (int (length xs)) = (-1, False)"
  using assms by (simp add: FirstUnfinishedSubStep_def)

lemma unfinished_head:
  assumes "td_Level s = 1" and "stat s \<noteq> ''completed''"
  shows "unfinishedFrom (xs @ h # s # ys) (Suc (length xs)) = int (Suc (length xs))"
  using assms by (simp add: unfinishedFrom.simps [of _ "Suc (length xs)"] nth_append)

lemma promote_start:
  assumes "list_all phase_ok B" and "all_pending (map stat (concat B))"
    and "list_all (\<lambda>t. stat t \<noteq> ''pending'') xs"
  shows "promoteNext (xs @ concat B) 0 = xs @ concat (startFirst B)"
proof -
  have skip: "promoteNext (xs @ concat B) 0 = promoteNext (xs @ concat B) (length xs)"
    using promoteNext_skip [OF assms(3), of "[]"] by simp
  show ?thesis
  proof (cases B)
    case Nil
    then show ?thesis using skip by (simp add: promoteNext.simps [of _ "length xs"])
  next
    case (Cons p B')
    then obtain h subs where p: "p = h # subs" "td_Level h = 0" "list_all (\<lambda>t. td_Level t = 1) subs"
      using assms(1) by (cases p) (auto simp: phase_ok_def)
    have rest: "concat B' = [] \<or> td_Level (hd (concat B')) = 0"
      using assms(1) Cons head_not_sub [of B'] by simp
    have h: "stat h = ''pending''" using assms(2) Cons p(1) by simp
    show ?thesis
    proof (cases subs)
      case Nil
      then show ?thesis using skip Cons p(1) h first_plain [OF p(2) rest, of xs]
        by (simp add: promoteNext.simps [of _ "length xs"] nth_append list_update_append)
    next
      case (Cons s ss)
      then have s: "td_Level s = 1" "stat s = ''pending''" using p assms(2) \<open>B = p # B'\<close> by simp_all
      have n: "(xs @ h # s # ys) ! Suc (length xs) = s"
        "(xs @ h # s # ys)[Suc (length xs) := u] = xs @ h # u # ys"
        "nat (1 + int (length xs)) = Suc (length xs)" for ys u
        by (simp_all add: nth_append list_update_append)
      show ?thesis
        using skip \<open>B = p # B'\<close> p(1) Cons h s n first_phase [OF p(2) s(1), of xs "ss @ concat B'"]
          unfinished_head [OF s(1), of xs h "ss @ concat B'"]
        by (simp add: promoteNext.simps [of _ "length xs"])
    qed
  qed
qed

lemma startFirst_ok: "list_all phase_ok B \<Longrightarrow> list_all phase_ok (startFirst B)"
  by (induction B rule: startFirst.induct) (simp_all add: phase_ok_def)

lemma startFirst_signOff:
  "list_all phase_ok B \<Longrightarrow> concat (map signOff (startFirst B)) =
     (case concat (map signOff B) of [] \<Rightarrow> [] | u # us \<Rightarrow> setStatus ''in_progress'' u # us)"
  by (induction B rule: startFirst.induct) (simp_all add: signOff_def phase_ok_def)

subsection \<open>One advance\<close>

lemma itemAbove_subs:
  "list_all (\<lambda>t. td_Level t = 1) ss \<Longrightarrow> td_Level h \<noteq> 1 \<Longrightarrow>
   itemAbove (xs @ h # ss @ ys) (length xs + Suc (length ss)) = Some (length xs)"
proof (induction ss arbitrary: ys rule: rev_induct)
  case (snoc s ss)
  then show ?case by (simp add: nth_append)
qed simp

lemma current_mem:
  "list_ex (\<lambda>t. stat t = ''in_progress'') zs \<longleftrightarrow> ''in_progress'' \<in> set (map stat zs)"
  by (induction zs) auto

text \<open>The current item is a step without sub-steps, or a phase whose sub-steps are done.\<close>

lemma advance_phase:
  assumes ok: "list_all phase_ok A" "phase_ok (h # subs)" "list_all phase_ok B"
    and fin: "all_done (map stat (concat A))" "all_done (map stat subs)"
    and rest: "stat h = ''in_progress''" "all_pending (map stat (concat B))"
  shows "AdvanceSerialTodo (concat A @ (h # subs) @ concat B) (int (length (concat A))) =
    (concat A @ (setStatus ''completed'' h # subs) @ concat (startFirst B), True)"
proof -
  let ?xs = "concat A" and ?i = "length (concat A)"
  let ?todos = "?xs @ (h # subs) @ concat B"
  let ?done = "?xs @ setStatus ''completed'' h # subs"
  have lev: "td_Level h = 0" "list_all (\<lambda>t. td_Level t = 1) subs" using ok(2) by (auto simp: phase_ok_def)
  have next_level: "concat B = [] \<or> td_Level (hd (concat B)) = 0" using ok(3) by (rule head_not_sub)
  have none: "\<not> (snd (FirstUnfinishedSubStep ?todos (int ?i)) \<and> 0 \<le> fst (FirstUnfinishedSubStep ?todos (int ?i)))"
  proof (cases subs)
    case Nil
    then show ?thesis using first_plain [OF lev(1) next_level, of ?xs] by simp
  next
    case (Cons s ss)
    have "list_all (\<lambda>t. td_Level t = 1 \<and> stat t = ''completed'') subs"
      using lev(2) fin(2) by (auto simp: all_done_def list_all_iff)
    then have "unfinishedFrom ((?xs @ [h]) @ subs @ concat B) (length (?xs @ [h])) = -1"
      using next_level by (intro unfinished_none) auto
    then show ?thesis using first_phase [OF lev(1), of s ?xs "ss @ concat B"] lev(2) Cons by simp
  qed
  have passed: "list_all (\<lambda>t. stat t \<noteq> ''pending'') ?done" "\<not> list_ex (\<lambda>t. stat t = ''in_progress'') ?done"
    using fin by (auto simp: all_done_def list_all_iff list_ex_iff)
  have "promoteUnit (?done @ concat B) = ?done @ concat (startFirst B)"
  proof -
    have "\<not> list_ex (\<lambda>t. stat t = ''in_progress'') (?done @ concat B)"
      using passed(2) pending_no_current [OF rest(2)] current_mem [of "concat B"] by simp
    then show ?thesis using promote_start [OF ok(3) rest(2) passed(1)] unfolding promoteUnit_def by simp
  qed
  then show ?thesis using none lev(1) rest(1)
    by (simp add: AdvanceSerialTodo_def nth_append list_update_append)
qed

text \<open>The current item is a sub-step: the next sub-step follows, or the phase itself.\<close>

lemma advance_sub:
  assumes ok: "phase_ok (h # s1 @ x # s2)" "list_all phase_ok B"
    and cur: "stat x = ''in_progress''" and rest: "stat h = ''pending''" "all_pending (map stat s2)"
  shows "AdvanceSerialTodo (xs @ (h # s1 @ x # s2) @ concat B) (int (length xs + Suc (length s1))) =
    (xs @ (case s2 of
        [] \<Rightarrow> setStatus ''in_progress'' h # s1 @ [setStatus ''completed'' x]
      | y # ys \<Rightarrow> h # s1 @ setStatus ''completed'' x # setStatus ''in_progress'' y # ys) @ concat B, True)"
proof -
  let ?todos = "xs @ (h # s1 @ x # s2) @ concat B"
  let ?i = "length (xs @ h # s1)"
  let ?x = "setStatus ''completed'' x"
  let ?out = "(xs @ h # s1) @ ?x # s2 @ concat B"
  have lev: "td_Level h = 0" "td_Level x = 1" "list_all (\<lambda>t. td_Level t = 1) s1"
    "list_all (\<lambda>t. td_Level t = 1) s2" using ok(1) by (auto simp: phase_ok_def)
  have first: "FirstUnfinishedSubStep ?todos (int ?i) = (-1, False)"
    using first_sub [OF lev(2), of "xs @ h # s1" "s2 @ concat B"] by simp
  have at: "?todos ! ?i = x" "?todos[?i := ?x] = ?out" "?i < length ?todos"
    by (simp_all add: nth_append list_update_append)
  have out_i: "?out ! ?i = ?x" by (metis nth_append_length)
  have sib: "pendingSibling ?out (Suc ?i) = (case s2 of [] \<Rightarrow> None | _ \<Rightarrow> Some (Suc ?i))"
  proof (cases s2)
    case Nil
    then show ?thesis using head_not_sub [OF ok(2)]
      by (cases "concat B") (simp_all add: pendingSibling.simps [of _ "Suc _"] nth_append)
  next
    case (Cons y ys)
    then show ?thesis using lev(4) rest(2)
      by (simp add: pendingSibling.simps [of _ "Suc _"] nth_append)
  qed
  have above: "itemAbove ?out ?i = Some (length xs)"
    using itemAbove_subs [OF lev(3), of h xs "?x # s2 @ concat B"] lev(1) by simp
  have head: "?out ! length xs = h" "?out[length xs := u] = xs @ u # s1 @ ?x # s2 @ concat B" for u
    by (simp_all add: nth_append list_update_append)
  have eq: "AdvanceSerialTodo ?todos (int ?i) =
      (case pendingSibling ?out (Suc ?i) of
         Some j \<Rightarrow> (?out[j := setStatus ''in_progress'' (?out ! j)], True)
       | None \<Rightarrow> (xs @ setStatus ''in_progress'' h # s1 @ ?x # s2 @ concat B, True))"
    unfolding AdvanceSerialTodo_def nat_int Let_def at(1,2) out_i above
    using at(3) cur first lev(2) head rest(1) by (simp split: option.split)
  show ?thesis
  proof (cases s2)
    case Nil
    then show ?thesis using eq sib by simp
  next
    case (Cons y ys)
    have "?out ! Suc ?i = y" "?out[Suc ?i := u] = xs @ h # s1 @ ?x # u # ys @ concat B" for u
      using Cons by (simp_all add: nth_append list_update_append)
    then show ?thesis using eq sib Cons by simp
  qed
qed

subsection \<open>Advancing is \<open>advance\<close> on the sign-off order\<close>

lemma find_phase:
  "i < length (concat ps) \<Longrightarrow>
   \<exists>A p B k. ps = A @ p # B \<and> k < length p \<and> i = length (concat A) + k"
proof (induction ps arbitrary: i)
  case (Cons q ps)
  show ?case
  proof (cases "i < length q")
    case True
    then have "q # ps = [] @ q # ps \<and> i < length q \<and> i = length (concat []) + i" by simp
    then show ?thesis by blast
  next
    case False
    then have "i - length q < length (concat ps)" using Cons.prems by simp
    from Cons.IH [OF this] obtain A p B k
      where "ps = A @ p # B" "k < length p" "i - length q = length (concat A) + k" by blast
    then have "q # ps = (q # A) @ p # B \<and> k < length p \<and> i = length (concat (q # A)) + k"
      using False by simp
    then show ?thesis by blast
  qed
qed simp

lemma startFirst_map:
  "(\<And>s t. f (setStatus s t) = f t) \<Longrightarrow> map f (concat (startFirst B)) = map f (concat B)"
  by (induction B rule: startFirst.induct) simp_all

lemma done_signOff: "all_done (map stat (signOff p)) \<Longrightarrow> p \<noteq> [] \<Longrightarrow> all_done (map stat p)"
  by (cases p) (simp_all add: signOff_def)

lemma pending_signOff: "all_pending (map stat (signOff p)) \<Longrightarrow> p \<noteq> [] \<Longrightarrow> all_pending (map stat p)"
  by (cases p) (simp_all add: signOff_def)

lemma signOff_all:
  assumes "list_all phase_ok ps"
  shows "all_done (map stat (concat (map signOff ps))) \<Longrightarrow> all_done (map stat (concat ps))"
    and "all_pending (map stat (concat (map signOff ps))) \<Longrightarrow> all_pending (map stat (concat ps))"
  using assms
  by (induction ps) (auto simp: done_signOff pending_signOff phase_ok_def)

text \<open>What a step leaves as it was, and what it does to the sign-off order.\<close>

definition advanced :: "TodoItem list \<Rightarrow> TodoItem list \<Rightarrow> bool" where
  "advanced todos out \<longleftrightarrow>
     workOrder out = advance (workOrder todos) \<and> two_level out \<and>
     map td_Content out = map td_Content todos \<and> map td_Level out = map td_Level todos"

lemma two_level_map:
  "two_level todos \<longleftrightarrow> list_all (\<lambda>l. l = 0 \<or> l = 1) (map td_Level todos) \<and>
     (map td_Level todos = [] \<or> hd (map td_Level todos) = 0)"
  by (cases todos) (simp_all add: two_level_def list.pred_map comp_def)

lemma two_level_levels: "map td_Level out = map td_Level todos \<Longrightarrow> two_level todos \<Longrightarrow> two_level out"
  by (simp only: two_level_map)

lemma advanced_concat:
  assumes "list_all phase_ok ps" "list_all phase_ok qs"
    and "concat (map signOff qs) = advance (concat (map signOff ps))"
    and "map td_Content (concat qs) = map td_Content (concat ps)"
    and "map td_Level (concat qs) = map td_Level (concat ps)" and "two_level (concat ps)"
  shows "advanced (concat ps) (concat qs)"
  using assms workOrder_concat [OF assms(1)] workOrder_concat [OF assms(2)]
    two_level_levels [OF assms(5,6)] unfolding advanced_def by metis

text \<open>Where the current item of a valid list is.\<close>

lemma current_phase:
  assumes "serial (map stat (concat (map signOff (A @ p # B))))" and "list_all phase_ok (A @ p # B)"
    and "k < length p" and "stat (p ! k) = ''in_progress''"
  shows "all_done (map stat (concat A))" and "all_pending (map stat (concat B))"
    and "ordered (map stat (signOff p))"
proof -
  let ?a = "map stat (concat (map signOff A))" and ?p = "map stat (signOff p)"
    and ?b = "map stat (concat (map signOff B))"
  have "p \<noteq> []" using assms(3) by auto
  then have "set (signOff p) = set p" by (cases p) (auto simp: signOff_def)
  then have cur: "''in_progress'' \<in> set ?p" using assms(3,4) by (metis image_eqI nth_mem set_map)
  have ser: "serial (?a @ ?p @ ?b)" using assms(1) by simp
  have a: "all_done ?a"
  proof (rule ccontr)
    assume "\<not> all_done ?a"
    then have "all_pending (?p @ ?b)" using ser by (metis serial_append)
    then show False using cur pending_no_current [of ?p] by simp
  qed
  then have "serial (?p @ ?b)" using ser by (metis serial_append)
  moreover have "\<not> all_done ?p" using cur by (rule current_not_done)
  ultimately have pb: "ordered ?p" "all_pending ?b" by (metis serial_append)+
  then show "ordered (map stat (signOff p))" by simp
  show "all_done (map stat (concat A))" using signOff_all(1) [of A] a assms(2) by simp
  show "all_pending (map stat (concat B))" using signOff_all(2) [of B] pb(2) assms(2) by simp
qed

lemma done_of_signOff:
  "list_all phase_ok ps \<Longrightarrow> all_done (map stat (concat ps)) \<Longrightarrow> all_done (map stat (concat (map signOff ps)))"
  by (induction ps) (auto simp: signOff_def phase_ok_def neq_Nil_conv)

lemma ordered_around: "ordered (xs @ ''in_progress'' # ys) \<Longrightarrow> all_done xs \<and> all_pending ys"
proof (induction xs)
  case (Cons x xs)
  then show ?case using pending_no_current [of "xs @ ''in_progress'' # ys"]
    by (cases "x = ''completed''") (simp_all add: ordered_Cons)
qed (simp add: ordered_Cons)

text \<open>A valid list advances at its current item.\<close>

lemma advance_current:
  assumes valid: "serial (map stat (workOrder (concat ps)))" and ok: "list_all phase_ok ps"
    and two: "two_level (concat ps)" and i: "i < length (concat ps)"
    and cur: "stat (concat ps ! i) = ''in_progress''"
  shows "\<exists>out. AdvanceSerialTodo (concat ps) (int i) = (out, True) \<and> advanced (concat ps) out"
proof -
  obtain A p B k where ps: "ps = A @ p # B" and k: "k < length p" and ik: "i = length (concat A) + k"
    using find_phase [OF i] by blast
  have at: "stat (p ! k) = ''in_progress''" using cur ps k ik by (simp add: nth_append)
  have oks: "list_all phase_ok A" "phase_ok p" "list_all phase_ok B" using ok ps by simp_all
  have ser: "serial (map stat (concat (map signOff (A @ p # B))))"
    using valid workOrder_concat [OF ok] unfolding ps by simp
  note shape = current_phase [OF ser ok [unfolded ps] k at]
  obtain h subs where p: "p = h # subs" using oks(2) by (cases p) (simp_all add: phase_ok_def)
  have inv: "\<And>s t. td_Content (setStatus s t) = td_Content t" "\<And>s t. td_Level (setStatus s t) = td_Level t"
    by simp_all
  have A: "advance (concat (map signOff A) @ ys) = concat (map signOff A) @ advance ys" for ys
    using shape(1) done_of_signOff [OF oks(1)] by (intro advance_append) blast
  have adv: "advanced (concat ps) (concat qs)"
    if "list_all phase_ok qs" "concat (map signOff qs) = advance (concat (map signOff ps))"
      "map td_Content (concat qs) = map td_Content (concat ps)"
      "map td_Level (concat qs) = map td_Level (concat ps)" for qs
    using advanced_concat [OF ok that two] .
  show ?thesis
  proof (cases k)
    case 0
    let ?qs = "A @ (setStatus ''completed'' h # subs) # startFirst B"
    have h: "stat h = ''in_progress''" using at 0 p by simp
    have subs: "all_done (map stat subs)"
      using shape(3) h p by (simp add: signOff_def ordered_snoc)
    have "AdvanceSerialTodo (concat ps) (int i) = (concat ?qs, True)"
      using advance_phase [OF oks(1) oks(2) [unfolded p] oks(3) shape(1) subs h shape(2)] ps p ik 0 by simp
    moreover have "advanced (concat ps) (concat ?qs)"
    proof (rule adv)
      show "list_all phase_ok ?qs" using oks startFirst_ok [OF oks(3)] p by (simp add: phase_ok_def)
      show "concat (map signOff ?qs) = advance (concat (map signOff ps))"
        using ps p A subs h startFirst_signOff [OF oks(3)] by (simp add: signOff_def advance_append)
    qed (simp_all add: ps p startFirst_map [OF inv(1)] startFirst_map [OF inv(2)] flip: map_concat)
    ultimately show ?thesis by blast
  next
    case (Suc m)
    then have m: "m < length subs" "stat (subs ! m) = ''in_progress''" using k at p by simp_all
    define s1 x s2 where "s1 = take m subs" and "x = subs ! m" and "s2 = drop (Suc m) subs"
    then have subs: "subs = s1 @ x # s2" "length s1 = m" "stat x = ''in_progress''"
      using m id_take_nth_drop [OF m(1)] by simp_all
    have "''in_progress'' \<in> set (map stat subs)" using subs by simp
    then have unfin: "\<not> all_done (map stat subs)" by (rule current_not_done)
    have ord: "stat h = ''pending''" "ordered (map stat subs)"
      using shape(3) unfin p by (simp_all add: signOff_def ordered_snoc split: if_splits)
    have s: "all_done (map stat s1)" "all_pending (map stat s2)"
      using ordered_around [of "map stat s1" "map stat s2"] ord(2) subs by simp_all
    let ?p = "case s2 of
        [] \<Rightarrow> setStatus ''in_progress'' h # s1 @ [setStatus ''completed'' x]
      | y # ys \<Rightarrow> h # s1 @ setStatus ''completed'' x # setStatus ''in_progress'' y # ys"
    let ?qs = "A @ ?p # B"
    have "AdvanceSerialTodo (concat ps) (int i) = (concat ?qs, True)"
      using advance_sub [OF oks(2) [unfolded p subs(1)] oks(3) subs(3) ord(1) s(2), of "concat A"]
        ps p ik Suc subs by simp
    moreover have "advanced (concat ps) (concat ?qs)"
    proof (rule adv)
      show "list_all phase_ok ?qs"
        using oks p subs(1) by (cases s2) (simp_all add: phase_ok_def)
      show "concat (map signOff ?qs) = advance (concat (map signOff ps))"
        using ps p A subs s(1) by (cases s2) (simp_all add: signOff_def advance_append)
    qed (cases s2; simp add: ps p subs)+
    ultimately show ?thesis by blast
  qed
qed

end
