(* ===== verification/Evidence_Todo_Props.thy ===== *)
theory Evidence_Todo_Props imports Evidence_Todo_Advance begin

text \<open>
  What the serial task list guarantees: validation accepts exactly the lists whose sign-off
  order is completed, current, pending; repair produces such a list; advancing signs off the
  current item and makes the next one current, until everything is completed.
\<close>

subsection \<open>Bookkeeping of a step\<close>

lemma serial_shape:
  "serial xs \<longleftrightarrow>
     (\<exists>d p. all_done d \<and> all_pending p \<and> (xs = d \<or> xs = d @ ''in_progress'' # p))"
proof
  assume "serial xs"
  then show "\<exists>d p. all_done d \<and> all_pending p \<and> (xs = d \<or> xs = d @ ''in_progress'' # p)"
  proof (induction xs)
    case Nil
    have "all_done [] \<and> all_pending [] \<and> ([] = ([] :: gostr list) \<or> [] = [] @ ''in_progress'' # [])" by simp
    then show ?case by blast
  next
    case (Cons s xs)
    show ?case
    proof (cases "s = ''completed''")
      case True
      then obtain d p where "all_done d" "all_pending p" "xs = d \<or> xs = d @ ''in_progress'' # p"
        using Cons by (auto simp: serial_Cons)
      then have "all_done (s # d) \<and> all_pending p \<and> (s # xs = s # d \<or> s # xs = (s # d) @ ''in_progress'' # p)"
        using True by auto
      then show ?thesis by blast
    next
      case False
      then have "all_done [] \<and> all_pending xs \<and> (s # xs = [] \<or> s # xs = [] @ ''in_progress'' # xs)"
        using Cons.prems by (simp add: serial_Cons)
      then show ?thesis by blast
    qed
  qed
next
  assume "\<exists>d p. all_done d \<and> all_pending p \<and> (xs = d \<or> xs = d @ ''in_progress'' # p)"
  then obtain d p where *: "all_done d" "all_pending p" "xs = d \<or> xs = d @ ''in_progress'' # p" by blast
  have "serial (d @ ys) \<longleftrightarrow> serial ys" for ys using *(1) by (simp add: serial_append)
  then have "serial d" "serial (d @ ''in_progress'' # p)"
    using *(2) serial_Nil by (metis append_Nil2, simp add: serial_Cons)
  then show "serial xs" using *(3) by blast
qed

definition unfinished :: "TodoItem list \<Rightarrow> nat" where
  "unfinished todos = length (filter (\<lambda>t. stat t \<noteq> ''completed'') todos)"

lemma unfinished_zero: "unfinished todos = 0 \<longleftrightarrow> list_all (\<lambda>t. stat t = ''completed'') todos"
  by (simp add: unfinished_def list_all_iff filter_empty_conv)

lemma unfinished_mset: "mset xs = mset ys \<Longrightarrow> unfinished xs = unfinished ys"
  unfolding unfinished_def by (metis mset_filter size_mset)

lemma workOrder_mset: "mset (workOrder todos) = mset todos"
proof -
  have "mset (concat (map signOff ps)) = mset (concat ps)" if "\<forall>p \<in> set ps. p \<noteq> []" for ps
    using that by (induction ps) (auto simp: signOff_def neq_Nil_conv)
  then show ?thesis using phases_nonempty concat_phases [of todos] by (metis workOrder_def)
qed

lemma unfinished_order: "unfinished (workOrder todos) = unfinished todos"
  by (rule unfinished_mset) (rule workOrder_mset)

lemma pending_unfinished: "all_pending (map stat ts) \<Longrightarrow> unfinished ts = length ts"
  by (auto simp: unfinished_def all_pending_def list_all_iff intro!: arg_cong [where f = length] filter_True)

lemma advance_order:
  "serial (map stat xs) \<Longrightarrow>
     serial (map stat (advance xs)) \<and> unfinished (advance xs) = unfinished xs - 1"
proof (induction xs)
  case (Cons t ts)
  show ?case
  proof (cases "stat t = ''completed''")
    case True
    then show ?thesis using Cons by (simp add: serial_Cons unfinished_def)
  next
    case False
    then have pend: "all_pending (map stat ts)" using Cons.prems by (simp add: serial_Cons)
    then show ?thesis using False pending_unfinished [OF pend]
      by (cases ts) (auto simp: serial_Cons unfinished_def)
  qed
qed (simp add: unfinished_def)

lemma advanced_valid:
  assumes "ValidateSerialTodos todos = None" "advanced todos out"
  shows "ValidateSerialTodos out = None \<and> unfinished out = unfinished todos - 1"
proof -
  have "serial (map stat (workOrder todos))" using assms(1) by (simp add: validate_serial serial_list_def)
  then have *: "serial (map stat (workOrder out)) \<and>
      unfinished (workOrder out) = unfinished (workOrder todos) - 1"
    using advance_order assms(2) by (simp add: advanced_def)
  have "out = [] \<or> td_Level (hd out) \<noteq> 1" using assms(2) by (auto simp: advanced_def two_level_def)
  then show ?thesis using * unfinished_order by (simp add: validate_serial serial_list_def)
qed

lemma valid_advance:
  assumes "ValidateSerialTodos todos = None" "two_level todos"
    and "i < length todos" "stat (todos ! i) = ''in_progress''"
  shows "\<exists>out. AdvanceSerialTodo todos (int i) = (out, True) \<and> advanced todos out"
  using advance_current [of "phases todos" i] assms two_level_phases [OF assms(2)]
  by (simp add: concat_phases validate_serial serial_list_def)

text \<open>Signing off whatever item is current.\<close>

definition current :: "TodoItem list \<Rightarrow> nat option" where
  "current todos = find (\<lambda>i. stat (todos ! i) = ''in_progress'') [0..<length todos]"

definition signOffCurrent :: "TodoItem list \<Rightarrow> TodoItem list" where
  "signOffCurrent todos =
     (case current todos of None \<Rightarrow> todos | Some i \<Rightarrow> fst (AdvanceSerialTodo todos (int i)))"

lemma current_some:
  "current todos = Some i \<Longrightarrow> i < length todos \<and> stat (todos ! i) = ''in_progress''"
  unfolding current_def find_Some_iff by auto

lemma current_none: "current todos = None \<Longrightarrow> ''in_progress'' \<notin> set (map stat todos)"
  unfolding current_def find_None_iff by (auto simp: in_set_conv_nth)

lemma serial_no_current:
  "serial xs \<Longrightarrow> ''in_progress'' \<notin> set xs \<Longrightarrow> all_done xs"
  unfolding serial_shape by auto

lemma signOffCurrent_step:
  assumes "ValidateSerialTodos todos = None" "two_level todos"
  shows "ValidateSerialTodos (signOffCurrent todos) = None \<and> two_level (signOffCurrent todos) \<and>
    unfinished (signOffCurrent todos) = unfinished todos - 1"
proof (cases "current todos")
  case None
  have "serial (map stat (workOrder todos))" using assms(1) by (simp add: validate_serial serial_list_def)
  moreover have "''in_progress'' \<notin> set (map stat (workOrder todos))"
    using current_none [OF None] mset_workOrder [of todos] by simp
  ultimately have "all_done (map stat (workOrder todos))" by (rule serial_no_current)
  then have "unfinished (workOrder todos) = 0"
    by (simp add: unfinished_def all_done_def list_all_iff filter_empty_conv)
  then show ?thesis using assms None unfinished_order by (simp add: signOffCurrent_def)
next
  case (Some i)
  then obtain out where "AdvanceSerialTodo todos (int i) = (out, True)" "advanced todos out"
    using valid_advance [OF assms] current_some by blast
  then show ?thesis using Some advanced_valid [OF assms(1)]
    by (simp add: signOffCurrent_def advanced_def)
qed

lemma signOffCurrent_iter:
  "ValidateSerialTodos todos = None \<Longrightarrow> two_level todos \<Longrightarrow>
     unfinished ((signOffCurrent ^^ n) todos) = unfinished todos - n \<and>
     ValidateSerialTodos ((signOffCurrent ^^ n) todos) = None \<and> two_level ((signOffCurrent ^^ n) todos)"
proof (induction n)
  case (Suc n)
  then show ?case using signOffCurrent_step by simp
qed simp

subsection \<open>Validation\<close>

text \<open>
  C34. A list is accepted exactly when it does not begin with a sub-step and its statuses, read in sign-off order (every phase after its own sub-steps), are some completed items, then at most one current item, then pending items, and a list that is not completed has a current item.
\<close>

theorem serial_validation_exact:
  "ValidateSerialTodos todos = None \<longleftrightarrow>
     \<not> (todos \<noteq> [] \<and> td_Level (hd todos) = 1) \<and>
     (\<exists>d p. all_done d \<and> all_pending p \<and>
        (map stat (workOrder todos) = d \<or> map stat (workOrder todos) = d @ ''in_progress'' # p))"
  using serial_shape [of "map stat (workOrder todos)"]
  by (auto simp: validate_serial serial_list_def)

subsection \<open>Repair\<close>

lemma stats_fixed:
  assumes "map (\<lambda>t. setStatus (stat t) t) xs = map (\<lambda>t. setStatus (stat t) t) ys"
  shows "map stat xs = map stat ys"
proof -
  have "map (\<lambda>t. td_Status (setStatus (stat t) t)) zs = map td_Status (map (\<lambda>t. setStatus (stat t) t) zs)" for zs
    by simp
  then show ?thesis using assms by (metis (mono_tags, lifting) map_eq_conv setStatus_fields(4))
qed

text \<open>
  C35. Repairing a list keeps its levels and produces a valid list whenever the list does not begin with a sub-step; in sign-off order it keeps the leading completed items, makes the first other item current and every later one pending; repairing twice changes nothing more, and the statuses of a valid list stay as they are.
\<close>

theorem repair_restores_serial:
  "map td_Level (NormalizeSerialTodos todos) = map td_Level todos \<and>
   workOrder (NormalizeSerialTodos todos) = repair False (workOrder todos) \<and>
   NormalizeSerialTodos (NormalizeSerialTodos todos) = NormalizeSerialTodos todos \<and>
   (todos = [] \<or> td_Level (hd todos) \<noteq> 1 \<longrightarrow>
      ValidateSerialTodos (NormalizeSerialTodos todos) = None) \<and>
   (ValidateSerialTodos todos = None \<longrightarrow>
      map stat (workOrder (NormalizeSerialTodos todos)) = map stat (workOrder todos))"
proof (intro conjI impI)
  assume "ValidateSerialTodos todos = None"
  then have "serial (map stat (workOrder todos))" by (simp add: validate_serial serial_list_def)
  then show "map stat (workOrder (NormalizeSerialTodos todos)) = map stat (workOrder todos)"
    unfolding workOrder_normalize by (intro stats_fixed repair_serial)
qed (simp_all add: normalize_levels workOrder_normalize normalize_idem normalize_valid)

definition demo_item :: "string \<Rightarrow> string \<Rightarrow> int \<Rightarrow> TodoItem" where
  "demo_item c s l = \<lparr>td_Content = c, td_Status = s, td_ActiveForm = [], td_Level = l\<rparr>"

definition demo_todos :: "TodoItem list" where
  "demo_todos =
     [demo_item ''plan'' ''completed'' 0, demo_item ''build'' ''pending'' 0,
      demo_item ''parse'' ''completed'' 1, demo_item ''check'' ''in_progress'' 1,
      demo_item ''release'' [] 0]"

definition demo_stale :: "TodoItem list" where
  "demo_stale =
     [demo_item ''plan'' ''in_progress'' 0, demo_item ''build'' ''completed'' 0,
      demo_item ''parse'' ''completed'' 1]"

lemma demo_todos_valid: "ValidateSerialTodos demo_todos = None" "two_level demo_todos"
  by code_simp+

lemma repair_restores_serial_witness:
  "ValidateSerialTodos (NormalizeSerialTodos demo_stale) = None \<and>
   map stat (workOrder (NormalizeSerialTodos demo_todos)) = map stat (workOrder demo_todos)"
proof -
  have "td_Level (hd demo_stale) \<noteq> 1" by code_simp
  then show ?thesis
    using repair_restores_serial [of demo_stale] repair_restores_serial [of demo_todos]
      demo_todos_valid(1) by blast
qed

subsection \<open>Advance\<close>

text \<open>
  C32. Signing off the current item of a valid two-level list succeeds and completes it: in sign-off order the next item becomes current, nothing else changes (the result stays valid, keeps every content and level, and has one unfinished item less). An item that is not current, or lies outside the list, leaves the list as it was.
\<close>

theorem advance_signs_off_current:
  assumes "ValidateSerialTodos todos = None" and "two_level todos" and "i < length todos"
  shows "(stat (todos ! i) = ''in_progress'' \<longrightarrow>
      snd (AdvanceSerialTodo todos (int i)) \<and>
      advanced todos (fst (AdvanceSerialTodo todos (int i))) \<and>
      ValidateSerialTodos (fst (AdvanceSerialTodo todos (int i))) = None \<and>
      unfinished (fst (AdvanceSerialTodo todos (int i))) = unfinished todos - 1) \<and>
    (stat (todos ! i) \<noteq> ''in_progress'' \<longrightarrow> AdvanceSerialTodo todos (int i) = (todos, False)) \<and>
    AdvanceSerialTodo todos (int (length todos + i)) = (todos, False) \<and>
    AdvanceSerialTodo todos (- int (Suc i)) = (todos, False)"
proof (intro conjI impI)
  assume cur: "stat (todos ! i) = ''in_progress''"
  then obtain out where "AdvanceSerialTodo todos (int i) = (out, True)" "advanced todos out"
    using valid_advance [OF assms] by blast
  then show "snd (AdvanceSerialTodo todos (int i))"
    "advanced todos (fst (AdvanceSerialTodo todos (int i)))"
    "ValidateSerialTodos (fst (AdvanceSerialTodo todos (int i))) = None"
    "unfinished (fst (AdvanceSerialTodo todos (int i))) = unfinished todos - 1"
    using advanced_valid [OF assms(1)] by simp_all
qed (use assms in \<open>simp_all add: AdvanceSerialTodo_def\<close>)

lemma advance_signs_off_current_witness:
  "snd (AdvanceSerialTodo demo_todos 3) \<and>
   advanced demo_todos (fst (AdvanceSerialTodo demo_todos 3)) \<and>
   AdvanceSerialTodo demo_todos 1 = (demo_todos, False)"
proof -
  have at: "3 < length demo_todos" "stat (demo_todos ! 3) = ''in_progress''"
    "1 < length demo_todos" "stat (demo_todos ! 1) \<noteq> ''in_progress''" by code_simp+
  show ?thesis
    using advance_signs_off_current [OF demo_todos_valid at(1)]
      advance_signs_off_current [OF demo_todos_valid at(3)] at(2,4) by simp
qed

text \<open>
  C33. Signing off whatever item is current, again and again, completes a valid two-level list: after n sign-offs exactly n items fewer are unfinished, the list is valid throughout, and it is fully completed after as many sign-offs as it had unfinished items.
\<close>

theorem sign_offs_complete_the_list:
  assumes "ValidateSerialTodos todos = None" and "two_level todos"
  shows "unfinished ((signOffCurrent ^^ n) todos) = unfinished todos - n \<and>
    ValidateSerialTodos ((signOffCurrent ^^ n) todos) = None \<and>
    list_all (\<lambda>t. stat t = ''completed'') ((signOffCurrent ^^ unfinished todos) todos)"
proof -
  have "unfinished ((signOffCurrent ^^ unfinished todos) todos) = 0"
    using signOffCurrent_iter [OF assms, of "unfinished todos"] by simp
  then have "list_all (\<lambda>t. stat t = ''completed'') ((signOffCurrent ^^ unfinished todos) todos)"
    by (simp only: unfinished_zero)
  then show ?thesis using signOffCurrent_iter [OF assms, of n] by blast
qed

lemma sign_offs_complete_the_list_witness:
  "unfinished demo_todos = 3 \<and>
   unfinished ((signOffCurrent ^^ 2) demo_todos) = 1 \<and>
   list_all (\<lambda>t. stat t = ''completed'') ((signOffCurrent ^^ unfinished demo_todos) demo_todos)"
proof -
  have "unfinished demo_todos = 3" by code_simp
  then show ?thesis using sign_offs_complete_the_list [OF demo_todos_valid, of 2] by simp
qed

end
