(* ===== verification/Task_Mirror.thy ===== *)
theory Task_Mirror imports Todo_Codec Tool_Complete_Step Evidence_Todo_Props begin

text \<open>
  Two task lists that mean the same: equal up to how a status is written. Matching, current
  items and sub-steps are the same for both, so what the tools decide on the ledger's list
  holds for the canonical list of the agent.
\<close>

subsection \<open>Lists up to the writing of statuses\<close>

definition tidy :: "TodoItem \<Rightarrow> TodoItem" where
  "tidy t = setStatus (stat t) t"

abbreviation same_tasks :: "TodoItem list \<Rightarrow> TodoItem list \<Rightarrow> bool" where
  "same_tasks xs ys \<equiv> map tidy xs = map tidy ys"

lemma tidy_fields [simp]:
  "td_Content (tidy t) = td_Content t" "td_ActiveForm (tidy t) = td_ActiveForm t"
  "td_Level (tidy t) = td_Level t" "stat (tidy t) = stat t"
  by (simp_all add: tidy_def setStatus_def)

lemma tidy_setStatus [simp]: "tidy (setStatus s t) = setStatus (todoStatus s) t"
  by (simp add: tidy_def setStatus_def)

lemma same_tasks_length: "same_tasks xs ys \<Longrightarrow> length xs = length ys"
  by (metis length_map)

lemma same_tasks_nth: "same_tasks xs ys \<Longrightarrow> i < length xs \<Longrightarrow> tidy (xs ! i) = tidy (ys ! i)"
  by (metis nth_map same_tasks_length)

lemma same_tasks_fields:
  assumes "same_tasks xs ys" "i < length xs"
  shows "td_Content (xs ! i) = td_Content (ys ! i)" "td_ActiveForm (xs ! i) = td_ActiveForm (ys ! i)"
    "td_Level (xs ! i) = td_Level (ys ! i)" "stat (xs ! i) = stat (ys ! i)"
  using same_tasks_nth [OF assms] tidy_fields by metis+

text \<open>Mapping that keeps levels goes through the sign-off order.\<close>

lemma subCount_map: "(\<And>t. td_Level (f t) = td_Level t) \<Longrightarrow> subCount (f t) (map f ts) = subCount t ts"
  by (simp add: subCount_def takeWhile_map comp_def)

lemma phases_map:
  assumes "\<And>t. td_Level (f t) = td_Level t"
  shows "phases (map f ts) = map (map f) (phases ts)"
  by (induction ts rule: phases.induct) (simp_all add: subCount_map assms take_map drop_map)

lemma workOrder_map:
  assumes "\<And>t. td_Level (f t) = td_Level t"
  shows "workOrder (map f ts) = map f (workOrder ts)"
proof -
  have "concat (map signOff (map (map f) ps)) = map f (concat (map signOff ps))" if "\<forall>p \<in> set ps. p \<noteq> []" for ps
    using that by (induction ps) (auto simp: signOff_def map_tl hd_map)
  then show ?thesis
    using phases_nonempty unfolding workOrder_def phases_map [OF assms] by blast
qed

text \<open>Repairing a valid list only rewrites statuses.\<close>

lemma repaired_same: "serial_list ts \<Longrightarrow> same_tasks (NormalizeSerialTodos ts) ts"
proof (rule workOrder_inj)
  assume "serial_list ts"
  then show "workOrder (map tidy (NormalizeSerialTodos ts)) = workOrder (map tidy ts)"
    using repair_serial [of "workOrder ts"]
    by (simp add: workOrder_map workOrder_normalize serial_list_def tidy_def [abs_def])
  show "map td_Level (map tidy (NormalizeSerialTodos ts)) = map td_Level (map tidy ts)"
    using normalize_levels [of ts] by (simp add: comp_def)
qed

definition trimmed :: "TodoItem list \<Rightarrow> bool" where
  "trimmed ts \<longleftrightarrow> list_all (\<lambda>t. normalizeTodo t = t) ts"

lemma trimmed_id: "trimmed ts \<Longrightarrow> normalizeTodos ts = ts"
  by (simp add: trimmed_def normalizeTodos_def list_all_iff map_idI)

lemma normalizeTodo_idem [simp]: "normalizeTodo (normalizeTodo t) = normalizeTodo t"
  by (simp add: normalizeTodo_def)

lemma trimmed_normalizeTodos [simp]: "trimmed (normalizeTodos ts)"
  by (simp add: trimmed_def normalizeTodos_def list_all_iff)

lemma status_words [simp]:
  "TrimSpace ''pending'' = ''pending''" "TrimSpace ''in_progress'' = ''in_progress''" "TrimSpace ''completed'' = ''completed''"
  by code_simp+

lemma trimmed_setStatus: "normalizeTodo t = t \<Longrightarrow> TrimSpace s = s \<Longrightarrow> normalizeTodo (setStatus s t) = setStatus s t"
  by (cases t) (simp add: normalizeTodo_def setStatus_def)

lemma trimmed_repair: "trimmed xs \<Longrightarrow> trimmed (repair u xs)"
  by (induction xs arbitrary: u) (simp_all add: trimmed_def trimmed_setStatus)

lemma trimmed_mset: "mset xs = mset ys \<Longrightarrow> trimmed xs = trimmed ys"
  unfolding trimmed_def list_all_iff by (metis set_mset_mset)

lemma repaired_trimmed: "trimmed ts \<Longrightarrow> trimmed (NormalizeSerialTodos ts)"
  using trimmed_mset [OF workOrder_mset [of "NormalizeSerialTodos ts"]] trimmed_mset [OF workOrder_mset [of ts]]
    trimmed_repair [of "workOrder ts" False] by (simp add: workOrder_normalize)

subsection \<open>Matching\<close>

lemma indicesWhere_same:
  assumes "same_tasks xs ys" "\<And>t u. tidy t = tidy u \<Longrightarrow> p t = p u"
  shows "indicesWhere p xs = indicesWhere p ys"
  unfolding indicesWhere_def same_tasks_length [OF assms(1)]
  using same_tasks_length [OF assms(1)] assms(2) [OF same_tasks_nth [OF assms(1)]] by (auto intro: filter_cong)

lemma tidy_eq_texts: "tidy t = tidy u \<Longrightarrow> td_Content t = td_Content u \<and> td_ActiveForm t = td_ActiveForm u"
  by (metis tidy_fields(1,2))

lemma matchTodoStep_same:
  assumes "same_tasks xs ys"
  shows "tm_Found (matchTodoStep step xs) = tm_Found (matchTodoStep step ys)"
    "tm_Index (matchTodoStep step xs) = tm_Index (matchTodoStep step ys)"
proof -
  let ?p = "\<lambda>t. sameStepText step (td_Content t) \<or> sameStepText step (td_ActiveForm t)"
  let ?q = "\<lambda>t. stepTextContains (normalizeStepText step) (normalizeStepText (td_Content t))
                \<or> stepTextContains (normalizeStepText step) (normalizeStepText (td_ActiveForm t))"
  have "indicesWhere ?p xs = indicesWhere ?p ys" "indicesWhere ?q xs = indicesWhere ?q ys"
    by (rule indicesWhere_same [OF assms], drule tidy_eq_texts, simp)+
  then have "firstIndex ?p xs = firstIndex ?p ys" "onlyIndex ?q xs = onlyIndex ?q ys"
    by (simp_all add: firstIndex_def onlyIndex_def)
  then show "tm_Found (matchTodoStep step xs) = tm_Found (matchTodoStep step ys)"
    "tm_Index (matchTodoStep step xs) = tm_Index (matchTodoStep step ys)"
    using same_tasks_length [OF assms]
    by (simp_all add: matchTodoStep_def Let_def matchAt_def split: option.split)
qed

text \<open>A match points into the list and repeats its item.\<close>

lemma indicesWhere_bound: "i \<in> set (indicesWhere p xs) \<Longrightarrow> i < length xs"
  by (simp add: indicesWhere_def)

lemma matchTodoStep_at:
  assumes "tm_Found (matchTodoStep step xs)"
  obtains i where "i < length xs" "matchTodoStep step xs = matchAt xs i"
proof -
  have *: "firstIndex p xs = Some i \<Longrightarrow> \<exists>j < length xs. matchAt xs i = matchAt xs j"
    "onlyIndex p xs = Some i \<Longrightarrow> \<exists>j < length xs. matchAt xs i = matchAt xs j" for p i
    using indicesWhere_bound [of i p xs] by (auto simp: firstIndex_def onlyIndex_def split: list.splits)
  have n: "1 \<le> n \<Longrightarrow> n \<le> int (length xs) \<Longrightarrow> \<exists>j < length xs. matchAt xs (nat (n - 1)) = matchAt xs j" for n
    by (intro exI [of _ "nat (n - 1)"]) auto
  have "\<exists>i < length xs. matchTodoStep step xs = matchAt xs i"
    using assms unfolding matchTodoStep_def Let_def
    by (auto simp: noMatch_def split: option.splits if_splits intro: * n)
  then show thesis using that by blast
qed

lemma unfinishedFrom_same:
  "same_tasks xs ys \<Longrightarrow> unfinishedFrom xs i = unfinishedFrom ys i"
proof (induction xs i rule: unfinishedFrom.induct)
  case (1 xs i)
  note len = same_tasks_length [OF 1(2)]
  show ?case
  proof (cases "i < length xs")
    case True
    then show ?thesis
      using 1(1) [OF _ _ 1(2)] len same_tasks_fields [OF 1(2) True]
      by (subst (1 2) unfinishedFrom.simps) simp
  qed (use len in \<open>simp add: unfinishedFrom.simps\<close>)
qed

lemma FirstUnfinishedSubStep_same:
  assumes "same_tasks xs ys"
  shows "FirstUnfinishedSubStep xs i = FirstUnfinishedSubStep ys i"
proof -
  have "0 \<le> j \<and> j < int (length xs) \<Longrightarrow> td_Level (xs ! nat j) = td_Level (ys ! nat j)" for j
    using same_tasks_fields(3) [OF assms, of "nat j"] by linarith
  then show ?thesis
    using same_tasks_length [OF assms] unfinishedFrom_same [OF assms]
    by (auto simp: FirstUnfinishedSubStep_def)
qed

end
