(* ===== verification/Agent_Tools.thy ===== *)
theory Agent_Tools imports Task_Mirror begin

text \<open>
  The task tools inside the agent: the context a call runs in, the call and its recording as
  one step, and the state machine of a session's task list.
\<close>

subsection \<open>Calls\<close>

definition toolContext :: "session_message list \<Rightarrow> bool \<Rightarrow> Agent \<Rightarrow> step_ctx" where
  "toolContext msgs planReplacement a =
     \<lparr>tx_ledger = ag_evidence a,
      tx_todos = (if ag_planMode a then None else Some (ag_todoState a)),
      tx_planReplacement = planReplacement,
      sx_session = (if ag_evidence a = None then None else Some msgs),
      sx_delivery = (ag_evidence a \<noteq> None \<and> ag_deliveryProfile a),
      sx_checks = ag_projectChecks a\<rparr>"

definition isOk :: "'e + 'a \<Rightarrow> bool" where
  "isOk r = (case r of Inl _ \<Rightarrow> False | Inr _ \<Rightarrow> True)"

definition taskCall :: "gostr \<Rightarrow> raw_json \<Rightarrow> bool \<Rightarrow> gostr \<Rightarrow> executed" where
  "taskCall name args ok out =
     \<lparr>ex_Name = name, ex_Args = args, ex_ReadOnly = True, ex_TargetName = name, ex_TargetArgs = args,
      ex_TargetReadOnly = True, ex_Ok = ok, ex_Output = out\<rparr>"

definition runTodoWrite ::
    "shell_lib \<Rightarrow> digest_lib \<Rightarrow> session_message list \<Rightarrow> bool \<Rightarrow> raw_json \<Rightarrow> gostr \<Rightarrow> Agent
       \<Rightarrow> (todo_write_error + nat \<times> nat \<times> nat \<times> nat) \<times> Agent" where
  "runTodoWrite lib dl msgs planReplacement args out a =
     (let r = todoWriteExecute (tool_ctx.truncate (toolContext msgs planReplacement a)) args
      in (r, recordExecuted lib dl (taskCall ''todo_write'' args (isOk r) out) a))"

definition runCompleteStep ::
    "shell_lib \<Rightarrow> digest_lib \<Rightarrow> session_message list \<Rightarrow> raw_json \<Rightarrow> gostr \<Rightarrow> Agent
       \<Rightarrow> (step_error + signed_step) \<times> Agent" where
  "runCompleteStep lib dl msgs args out a =
     (let r = completeStepExecute lib (toolContext msgs False a) args
      in (r, recordExecuted lib dl (taskCall ''complete_step'' args (isOk r) out) a))"

subsection \<open>Reading arguments twice\<close>

text \<open>
  The tool decodes its arguments into a struct, the receipt reads them as a map. Both agree
  on objects whose keys are distinct and in lower case, as in the schemas of the tools.
\<close>

definition plain :: "(gostr \<times> json) list \<Rightarrow> bool" where
  "plain kvs \<longleftrightarrow> distinct (map fst kvs) \<and> list_all (\<lambda>kv. ToLower (fst kv) = fst kv) kvs"

lemma plain_get: "plain kvs \<Longrightarrow> objGet kvs key = map_of kvs key"
  using map_of_inject_set [of "rev kvs" kvs] by (simp add: plain_def objGet_def rev_map [symmetric])

lemma decodeMembers_field:
  assumes "\<And>k v s s1. ToLower k = k \<Longrightarrow> k \<noteq> key \<Longrightarrow> f k v s = Some s1 \<Longrightarrow> g s1 = g s"
    and "\<And>v s s1. f key v s = Some s1 \<Longrightarrow> h (g s) v = Some (g s1)"
    and "plain kvs" "decodeMembers f kvs s = Some s1"
  shows "case map_of kvs key of None \<Rightarrow> g s1 = g s | Some v \<Rightarrow> h (g s) v = Some (g s1)"
  using assms(3,4)
proof (induction kvs arbitrary: s)
  case (Cons kv kvs)
  obtain k v where kv: "kv = (k, v)" by force
  obtain s2 where s2: "f k v s = Some s2" "decodeMembers f kvs s2 = Some s1"
    using Cons.prems(2) kv by (auto split: option.splits)
  have p: "plain kvs" "ToLower k = k" "k \<notin> fst ` set kvs" using Cons.prems(1) kv by (auto simp: plain_def)
  note IH = Cons.IH [OF p(1) s2(2)]
  show ?case
  proof (cases "k = key")
    case True
    then have "map_of kvs key = None" using p(3) by (simp add: map_of_eq_None_iff)
    with IH True kv assms(2) s2(1) show ?thesis by simp
  next
    case False
    then show ?thesis using IH kv assms(1) [OF p(2) False s2(1)] by (simp split: option.splits)
  qed
qed simp

lemma decoded_todos:
  assumes "plain kvs" "decodeTodoArgs (RawJson t (JObj kvs)) = Some todos"
  shows "todoItemsField kvs ''todos'' = normalizeTodos todos"
proof -
  have t: "ToLower ''todos'' = ''todos''" by code_simp
  have "case map_of kvs ''todos'' of None \<Rightarrow> todos = []
      | Some v \<Rightarrow> decodeArray (decodeStruct todoMember noTodo) v = Some todos"
    using decodeMembers_field [of "''todos''" todosMember "\<lambda>ts. ts" "\<lambda>_. decodeArray (decodeStruct todoMember noTodo)"
        kvs "[]" todos] assms
    by (simp add: todosMember_def EqualFold_def t decodeTodoArgs_def split: if_splits)
  then show ?thesis using plain_get [OF assms(1)]
    by (auto simp: todoItemsField_def normalizeTodos_def split: option.splits)
qed

lemma step_names:
  "ToLower ''step'' = ''step''" "ToLower ''step_index'' = ''step_index''" "ToLower ''result'' = ''result''"
  "ToLower ''evidence'' = ''evidence''" "ToLower ''notes'' = ''notes''"
  by code_simp+

lemma stepMember_step:
  "ToLower k = k \<Longrightarrow> k \<noteq> ''step'' \<Longrightarrow> stepMember k v s = Some s1 \<Longrightarrow> sa_Step s1 = sa_Step s"
  "stepMember ''step'' v s = Some s1 \<Longrightarrow> decodeString (sa_Step s) v = Some (sa_Step s1)"
  "ToLower k = k \<Longrightarrow> k \<noteq> ''step_index'' \<Longrightarrow> stepMember k v s = Some s1 \<Longrightarrow> sa_StepIndex s1 = sa_StepIndex s"
  "stepMember ''step_index'' v s = Some s1 \<Longrightarrow> decodeInt (sa_StepIndex s) v = Some (sa_StepIndex s1)"
  by (auto simp: stepMember_def EqualFold_def step_names split: if_splits)

lemma decoded_step:
  assumes "plain kvs" "decodeStepArgs (RawJson t (JObj kvs)) = Some p"
  shows "completeStepIdentity kvs = stepIdentity (sa_Step p) (sa_StepIndex p)"
proof -
  have d: "decodeMembers stepMember kvs noStepArgs = Some p" using assms(2) by (simp add: decodeStepArgs_def)
  have s: "case map_of kvs ''step'' of None \<Rightarrow> sa_Step p = sa_Step noStepArgs
      | Some v \<Rightarrow> decodeString (sa_Step noStepArgs) v = Some (sa_Step p)"
    by (rule decodeMembers_field [OF _ _ assms(1) d]) (fact stepMember_step)+
  have i: "case map_of kvs ''step_index'' of None \<Rightarrow> sa_StepIndex p = sa_StepIndex noStepArgs
      | Some v \<Rightarrow> decodeInt (sa_StepIndex noStepArgs) v = Some (sa_StepIndex p)"
    by (rule decodeMembers_field [OF _ _ assms(1) d]) (fact stepMember_step)+
  have "fieldString kvs ''step'' = TrimSpace (sa_Step p)"
    using s plain_get [OF assms(1)] by (auto simp: fieldString_def noStepArgs_def split: option.splits json.splits)
  moreover have "intField kvs ''step_index'' = Some (sa_StepIndex p)
      \<or> intField kvs ''step_index'' = None \<and> sa_StepIndex p = 0"
    using i plain_get [OF assms(1)] by (auto simp: intField_def noStepArgs_def split: option.splits)
  ultimately show ?thesis by (auto simp: completeStepIdentity_def stepIdentity_def)
qed

end
