(* ===== verification/Agent_Task_Invariant.thy ===== *)
theory Agent_Task_Invariant imports Agent_Tools begin

text \<open>
  The invariant of a session's task list: the canonical list is a valid two-level list, and
  the list the ledger of the turn knows, if any, is the same list. It holds initially and
  every call, turn and host update keeps it.
\<close>

subsection \<open>Lists\<close>

definition tasks_valid :: "TodoItem list \<Rightarrow> bool" where
  "tasks_valid ts \<longleftrightarrow> ValidateSerialTodos ts = None \<and> two_level ts \<and> trimmed ts"

definition mirrors :: "Ledger \<Rightarrow> TodoItem list \<Rightarrow> bool" where
  "mirrors l ts \<longleftrightarrow> fst (LatestTodos l) = [] \<or> same_tasks (fst (LatestTodos l)) ts"

definition tasks_ok :: "Agent \<Rightarrow> bool" where
  "tasks_ok a \<longleftrightarrow> tasks_valid (ag_todoState a) \<and> (\<forall>l. ag_evidence a = Some l \<longrightarrow> mirrors l (ag_todoState a))"

lemma tasks_valid_Nil [simp]: "tasks_valid []"
  by (simp add: tasks_valid_def ValidateSerialTodos_def two_level_def trimmed_def serialTodoSegments_def)

lemma stat_normalizeTodo [simp]: "stat (normalizeTodo t) = stat t"
  by (simp add: normalizeTodo_def todoStatus_def)

lemma serial_normalizeTodos: "serial_list (normalizeTodos ts) = serial_list ts"
proof -
  have lev: "td_Level (normalizeTodo t) = td_Level t" for t by (simp add: normalizeTodo_def)
  have "map stat (workOrder (normalizeTodos ts)) = map stat (workOrder ts)"
    by (simp add: normalizeTodos_def workOrder_map lev)
  moreover have "(normalizeTodos ts = [] \<or> td_Level (hd (normalizeTodos ts)) \<noteq> 1) = (ts = [] \<or> td_Level (hd ts) \<noteq> 1)"
    by (cases ts) (simp_all add: normalizeTodos_def lev)
  ultimately show ?thesis by (simp add: serial_list_def)
qed

text \<open>What the shape check of todo_write lets through is two-level once it is valid.\<close>

lemma shapeLoop_levels:
  "shapeLoop i ts counts = Inr r \<Longrightarrow> list_all (\<lambda>t. td_Level t = 0 \<or> td_Level t = 1) ts"
proof (induction ts arbitrary: i counts)
  case (Cons t ts)
  obtain d a p where "counts = (d, a, p)" by (cases counts) auto
  then show ?case using Cons by (auto split: if_splits)
qed simp

lemma two_level_normalizeTodos: "two_level (normalizeTodos ts) = two_level ts"
  unfolding two_level_map by (simp add: normalizeTodos_def normalizeTodo_def comp_def)

lemma accepted_list:
  assumes "list_all (\<lambda>t. td_Level t = 0 \<or> td_Level t = 1) ts" "ValidateSerialTodos ts = None"
  shows "tasks_valid (NormalizeSerialTodos (normalizeTodos ts))"
    "same_tasks (normalizeTodos ts) (NormalizeSerialTodos (normalizeTodos ts))"
proof -
  have s: "serial_list (normalizeTodos ts)" using assms(2) by (simp add: validate_serial serial_normalizeTodos)
  then show "same_tasks (normalizeTodos ts) (NormalizeSerialTodos (normalizeTodos ts))"
    using repaired_same by metis
  have "two_level ts" using assms by (cases ts) (auto simp: two_level_def validate_serial serial_list_def)
  then have "two_level (NormalizeSerialTodos (normalizeTodos ts))"
    using two_level_levels [OF normalize_levels] two_level_normalizeTodos by blast
  moreover have "ValidateSerialTodos (NormalizeSerialTodos (normalizeTodos ts)) = None"
    using s by (intro normalize_valid) (simp add: serial_list_def)
  ultimately show "tasks_valid (NormalizeSerialTodos (normalizeTodos ts))"
    by (simp add: tasks_valid_def repaired_trimmed)
qed

lemma replaced_list:
  assumes "two_level ts" "trimmed ts"
  shows "tasks_valid (NormalizeSerialTodos ts)"
  using assms normalize_valid [of ts] two_level_levels [OF normalize_levels assms(1)] repaired_trimmed
  by (cases ts) (auto simp: tasks_valid_def two_level_def)

text \<open>A sign-off leaves a valid list alone or advances it.\<close>


lemma trimmed_advance: "trimmed xs \<Longrightarrow> trimmed (advance xs)"
  by (induction xs) (auto simp: trimmed_def trimmed_setStatus split: list.split)

lemma advanced_tasks:
  assumes "tasks_valid ts" "advanced ts out"
  shows "tasks_valid out"
proof -
  have "trimmed (advance (workOrder ts))"
    using assms(1) trimmed_mset [OF workOrder_mset [of ts]] by (simp add: tasks_valid_def trimmed_advance)
  then have "trimmed out"
    using assms(2) trimmed_mset [OF workOrder_mset [of out]] by (simp add: advanced_def)
  then show ?thesis
    using assms advanced_valid [of ts out] by (simp add: tasks_valid_def advanced_def)
qed

lemma advance_cases:
  assumes "tasks_valid ts"
  shows "AdvanceSerialTodo ts i = (ts, False)
    \<or> (\<exists>out. AdvanceSerialTodo ts i = (out, True) \<and> advanced ts out)"
proof (cases "0 \<le> i \<and> i < int (length ts) \<and> stat (ts ! nat i) = ''in_progress''")
  case True
  then have "nat i < length ts" by linarith
  then show ?thesis using True valid_advance [of ts "nat i"] assms by (auto simp: tasks_valid_def)
next
  case False
  then show ?thesis by (auto simp: AdvanceSerialTodo_def)
qed

lemma advanceStep_cases:
  assumes "tasks_valid ts"
  shows "advanceStep step ts = (ts, False) \<or> (\<exists>out. advanceStep step ts = (out, True) \<and> advanced ts out)"
  using advance_cases [OF assms] by (simp add: advanceStep_def split: prod.split)


subsection \<open>Receipts\<close>

lemma isTodoWrite_failed [simp]: "\<not> rc_Success r \<Longrightarrow> \<not> isTodoWrite r"
  by (simp add: isTodoWrite_def)

lemma receipt_bytes [simp]: "isTodoWrite (r\<lparr>rc_OutputBytes := n\<rparr>) = isTodoWrite r"
  by (simp add: isTodoWrite_def)

lemma isTodoWrite_call [simp]:
  "isTodoWrite (ReceiptFromToolCall lib name args ok ro) \<longleftrightarrow> ok \<and> name = ''todo_write''"
  by (simp add: isTodoWrite_def)

lemma mirrors_other: "\<not> isTodoWrite r \<Longrightarrow> mirrors (Record r l) ts = mirrors l ts"
  by (simp add: mirrors_def latest_todos_Record)

lemma mirrors_written:
  "isTodoWrite r \<Longrightarrow> mirrors (Record r l) ts \<longleftrightarrow> rc_Todos r = [] \<or> same_tasks (normalizeTodos (rc_Todos r)) ts"
  by (simp add: mirrors_def latest_todos_Record normalizeTodos_def)

text \<open>Receipts that are no task lists leave the invariant alone.\<close>

lemma recordReceipt_ok: "\<not> isTodoWrite r \<Longrightarrow> tasks_ok a \<Longrightarrow> tasks_ok (recordReceipt r a)"
  by (auto simp: tasks_ok_def recordReceipt_def mirrors_other split: option.splits)

lemma recordReceipt_todoState [simp]: "ag_todoState (recordReceipt r a) = ag_todoState a"
  by (simp add: recordReceipt_def split: option.split)

text \<open>The synthetic receipt of a list the host changed.\<close>

lemma two_level_int64: "two_level ts \<Longrightarrow> int64_levels ts"
  by (auto simp: two_level_def int64_levels_def list_all_iff)

lemma todoReceipt_written: "isTodoWrite (todoReceipt lib dl ts)"
  by (simp add: todoReceipt_def)

lemma recordTodoState_ok:
  assumes "tasks_valid ts"
  shows "tasks_ok (recordTodoState lib dl ts (a\<lparr>ag_todoState := ts\<rparr>))"
proof -
  have r: "rc_Todos (todoReceipt lib dl ts) = ts"
    using assms todoReceipt_todos [OF two_level_int64, of ts lib dl] trimmed_id [of ts] by (simp add: tasks_valid_def)
  then have "mirrors (Record (todoReceipt lib dl ts) l) ts" for l
    using assms trimmed_id [of ts] by (simp add: mirrors_written todoReceipt_written tasks_valid_def)
  then show ?thesis using assms by (auto simp: tasks_ok_def recordTodoState_def split: option.splits)
qed

lemma advanceCanonicalTodo_ok:
  assumes "tasks_ok a"
  shows "tasks_ok (advanceCanonicalTodo lib dl step a)"
proof -
  have v: "tasks_valid (ag_todoState a)" using assms by (simp add: tasks_ok_def)
  show ?thesis
    using advanceStep_cases [OF v, of step] assms recordTodoState_ok advanced_tasks [OF v]
    by (auto simp: advanceCanonicalTodo_def)
qed

subsection \<open>Calls\<close>

lemma complete_step_ok:
  assumes "tasks_ok a" "ex_Name e = ''complete_step''"
  shows "tasks_ok (recordExecuted lib dl e a)"
  using assms by (simp add: recordExecuted_def Let_def recordReceipt_ok advanceCanonicalTodo_ok)

lemma other_call_ok:
  assumes "tasks_ok a" "ex_Name e \<noteq> ''todo_write''" "ex_TargetName e \<noteq> ''todo_write''"
  shows "tasks_ok (recordExecuted lib dl e a)"
proof (cases "ex_Name e = ''complete_step''")
  case True
  with assms(1) show ?thesis by (rule complete_step_ok)
next
  case False
  with assms show ?thesis by (simp add: recordExecuted_def Let_def recordReceipt_ok)
qed

lemma todo_write_decoded:
  assumes "todoWriteExecute ctx args = Inr r"
  obtains ts where "decodeTodoArgs args = Some ts" "ValidateSerialTodos ts = None"
    "list_all (\<lambda>t. td_Level t = 0 \<or> td_Level t = 1) ts"
  using assms by (auto simp: todoWriteExecute_def intro: shapeLoop_levels split: option.splits sum.splits if_splits)

lemma todo_write_ok:
  assumes "tasks_ok a" "plain kvs"
  shows "tasks_ok (snd (runTodoWrite lib dl msgs repl (RawJson t (JObj kvs)) out a))"
proof -
  let ?args = "RawJson t (JObj kvs)"
  let ?r = "todoWriteExecute (tool_ctx.truncate (toolContext msgs repl a)) ?args"
  let ?rec = "\<lambda>ok. (ReceiptFromToolCall lib ''todo_write'' ?args ok True)\<lparr>rc_OutputBytes := int (length (TrimSpace out))\<rparr>"
  have run: "snd (runTodoWrite lib dl msgs repl ?args out a) =
      recordExecuted lib dl (taskCall ''todo_write'' ?args (isOk ?r) out) a"
    by (simp add: runTodoWrite_def Let_def)
  show ?thesis
  proof (cases "?r")
    case (Inl err)
    then have "snd (runTodoWrite lib dl msgs repl ?args out a) = a \<or>
        snd (runTodoWrite lib dl msgs repl ?args out a) = recordReceipt (?rec False) a"
      unfolding run by (auto simp: recordExecuted_def taskCall_def isOk_def outputBytes_def Let_def)
    then show ?thesis using assms(1) recordReceipt_ok [of "?rec False"] by auto
  next
    case (Inr res)
    obtain ts where ts: "decodeTodoArgs ?args = Some ts" "ValidateSerialTodos ts = None"
        "list_all (\<lambda>t. td_Level t = 0 \<or> td_Level t = 1) ts"
      using todo_write_decoded [OF Inr] .
    have todos: "rc_Todos (?rec True) = normalizeTodos ts"
      using decoded_todos [OF assms(2) ts(1)]
      by (simp add: ReceiptFromToolCall_def withFields_def bareReceipt_def Let_def)
    note new = accepted_list [OF ts(3,2)]
    show ?thesis
    proof (cases "ag_evidence a")
      case None
      then show ?thesis unfolding run using assms(1) by (simp add: recordExecuted_def)
    next
      case (Some l)
      let ?a = "snd (runTodoWrite lib dl msgs repl ?args out a)"
      have "ag_todoState ?a = NormalizeSerialTodos (normalizeTodos ts)" "ag_evidence ?a = Some (Record (?rec True) l)"
        unfolding run using Some Inr todos
        by (simp_all add: recordExecuted_def taskCall_def isOk_def outputBytes_def Let_def setTodoState_def recordReceipt_def)
      moreover have "mirrors (Record (?rec True) l) (NormalizeSerialTodos (normalizeTodos ts))"
        using new(2) todos by (subst mirrors_written) simp_all
      ultimately show ?thesis using new(1) by (simp add: tasks_ok_def)
    qed
  qed
qed

subsection \<open>Turns and host updates\<close>

lemma mirrors_reset [simp]: "mirrors (Reset l) ts" "mirrors (ResetBackgroundLeases l) ts = mirrors l ts"
  by (simp_all add: mirrors_def LatestTodos_def latestTodoWrite_def Reset_def ResetBackgroundLeases_def)

lemma beginScope_ok: "tasks_ok a \<Longrightarrow> tasks_ok (beginScope scope a)"
  by (auto simp: tasks_ok_def beginScope_def Let_def split: if_splits)

lemma mirrors_MergeChild: "mirrors (MergeChild summary l) ts = mirrors l ts"
proof -
  have "mirrors (fold Record rs l) ts = mirrors l ts" if "list_all childOwned rs" for rs
    using that by (induction rs arbitrary: l) (auto simp: mirrors_other isTodoWrite_def childOwned_def oneOfWords_def)
  then show ?thesis by (simp add: MergeChild_def list_all_iff)
qed

lemma mirrors_leases_update [simp]: "mirrors (l\<lparr>lg_leases := bs\<rparr>) ts = mirrors l ts"
  by (simp add: mirrors_def LatestTodos_def)

lemma mirrors_leaseJob: "mirrors (leaseJob session job l) ts = mirrors l ts"
  by (simp add: leaseJob_def NoteBackgroundLease_def mirrors_MergeChild split: option.split)

lemma mirrors_leases: "mirrors (fold (leaseJob session) pending l) ts = mirrors l ts"
  by (induction pending arbitrary: l) (simp_all add: mirrors_leaseJob)

lemma leaseJobs_ok: "tasks_ok a \<Longrightarrow> tasks_ok (leaseJobs session pending a)"
  by (auto simp: tasks_ok_def leaseJobs_def mirrors_leases)

lemma beginRunTurn_ok: "tasks_ok a \<Longrightarrow> tasks_ok (beginRunTurn scope session pending ev mu a)"
  using leaseJobs_ok [OF beginScope_ok] by (simp add: beginRunTurn_def Let_def tasks_ok_def)

lemma ReplaceTodoState_ok:
  assumes "two_level ts" "trimmed ts"
  shows "tasks_ok (ReplaceTodoState lib dl ts a)"
  using recordTodoState_ok [OF replaced_list [OF assms]]
  by (simp add: ReplaceTodoState_def setTodoState_def Let_def)

subsection \<open>The state machine\<close>

text \<open>
  Calls of the two task tools with arguments as their schemas have them, any other call, new
  turns, switching the plan mode, and lists the host installs.
\<close>

inductive task_step :: "shell_lib \<Rightarrow> digest_lib \<Rightarrow> Agent \<Rightarrow> Agent \<Rightarrow> bool" for lib dl where
  todo_write: "plain kvs \<Longrightarrow>
    task_step lib dl a (snd (runTodoWrite lib dl msgs repl (RawJson t (JObj kvs)) out a))"
| complete_step: "task_step lib dl a (snd (runCompleteStep lib dl msgs args out a))"
| other_call: "ex_Name e \<noteq> ''todo_write'' \<Longrightarrow> ex_TargetName e \<noteq> ''todo_write'' \<Longrightarrow>
    task_step lib dl a (recordExecuted lib dl e a)"
| new_turn: "task_step lib dl a (beginRunTurn scope session pending ev mu a)"
| plan_mode: "task_step lib dl a (a\<lparr>ag_planMode := b\<rparr>)"
| host_list: "two_level ts \<Longrightarrow> trimmed ts \<Longrightarrow> task_step lib dl a (ReplaceTodoState lib dl ts a)"

inductive task_reachable :: "shell_lib \<Rightarrow> digest_lib \<Rightarrow> Agent \<Rightarrow> bool" for lib dl where
  start: "ag_todoState a = [] \<Longrightarrow> ag_evidence a = Some NewLedger \<Longrightarrow> task_reachable lib dl a"
| step: "task_reachable lib dl a \<Longrightarrow> task_step lib dl a a' \<Longrightarrow> task_reachable lib dl a'"

lemma runCompleteStep_ok: "tasks_ok a \<Longrightarrow> tasks_ok (snd (runCompleteStep lib dl msgs args out a))"
  by (simp add: runCompleteStep_def Let_def complete_step_ok taskCall_def)

lemma task_step_ok: "task_step lib dl a a' \<Longrightarrow> tasks_ok a \<Longrightarrow> tasks_ok a'"
proof (induction rule: task_step.induct)
  case (plan_mode a b)
  then show ?case by (simp add: tasks_ok_def)
qed (blast intro: todo_write_ok runCompleteStep_ok other_call_ok beginRunTurn_ok ReplaceTodoState_ok)+

lemma task_reachable_ok: "task_reachable lib dl a \<Longrightarrow> tasks_ok a"
proof (induction rule: task_reachable.induct)
  case (start a)
  then show ?case by (simp add: tasks_ok_def mirrors_def NewLedger_def LatestTodos_def latestTodoWrite_def)
qed (rule task_step_ok)

abbreviation same_items :: "TodoItem list \<Rightarrow> TodoItem list \<Rightarrow> bool" where
  "same_items xs ys \<equiv> length xs = length ys
     \<and> (\<forall>i < length xs. td_Content (xs ! i) = td_Content (ys ! i)
          \<and> td_ActiveForm (xs ! i) = td_ActiveForm (ys ! i)
          \<and> td_Level (xs ! i) = td_Level (ys ! i)
          \<and> todoStatus (td_Status (xs ! i)) = todoStatus (td_Status (ys ! i)))"

lemma same_tasks_items: "same_tasks xs ys \<Longrightarrow> same_items xs ys"
  using same_tasks_length same_tasks_fields by blast

end
