(* ===== verification/Evidence_Guarantees.thy ===== *)
theory Evidence_Guarantees imports Evidence_Log Demo_Shell begin

text \<open>
  What the evidence ledger guarantees: only successes prove anything, what is proved stays
  proved while the log grows, a new mutation makes every earlier proof stale, and a delivery
  sign-off has a verification run and a review behind it.
\<close>

subsection \<open>Queries of a ledger are queries of its log\<close>

lemma on_log:
  "HasSuccessfulWorkReceipt l = onLog HasSuccessfulWorkReceipt (lg_receipts l)"
  "HasSuccessfulAcceptanceCriteria l = onLog HasSuccessfulAcceptanceCriteria (lg_receipts l)"
  "HasSuccessfulTodoWrite l = onLog HasSuccessfulTodoWrite (lg_receipts l)"
  "HasSuccessfulVerificationCommand lib l = onLog (HasSuccessfulVerificationCommand lib) (lg_receipts l)"
  "HasWriteOrCommandSince mark l = onLog (HasWriteOrCommandSince mark) (lg_receipts l)"
  "HasSuccessfulCommandAfter lib cmd i l = onLog (HasSuccessfulCommandAfter lib cmd i) (lg_receipts l)"
  "HasSuccessfulCompleteStepAfter i l = onLog (HasSuccessfulCompleteStepAfter i) (lg_receipts l)"
  "HasSuccessfulReviewAfter lib i l = onLog (HasSuccessfulReviewAfter lib i) (lg_receipts l)"
  "HasSuccessfulDeliverySignoffAfter lib i l = onLog (HasSuccessfulDeliverySignoffAfter lib i) (lg_receipts l)"
  "HasSuccessfulStructuredReviewAfter kind i paths l = onLog (HasSuccessfulStructuredReviewAfter kind i paths) (lg_receipts l)"
  by (simp_all add: HasSuccessfulWorkReceipt_def HasSuccessfulAcceptanceCriteria_def HasSuccessfulTodoWrite_def
      HasSuccessfulVerificationCommand_def HasWriteOrCommandSince_def HasSuccessfulCommandAfter_def
      HasSuccessfulCompleteStepAfter_def HasSuccessfulReviewAfter_def HasSuccessfulDeliverySignoffAfter_def
      HasSuccessfulStructuredReviewAfter_def HasStructuredReviewAfter_def)

text \<open>What a recording or a merge adds.\<close>

lemma Record_failed_log:
  "\<not> rc_Success r \<Longrightarrow> \<exists>newer. lg_receipts (Record r l) = lg_receipts l @ newer \<and> list_all (\<lambda>r. \<not> rc_Success r) newer"
  by (intro exI [of _ "[recorded r l]"]) simp

lemma MergeChild_failed_log:
  assumes "list_all (\<lambda>r. \<not> rc_Success r) summary"
  shows "\<exists>newer. lg_receipts (MergeChild summary l) = lg_receipts l @ newer \<and> list_all (\<lambda>r. \<not> rc_Success r) newer"
proof -
  obtain newer where n: "lg_receipts (MergeChild summary l) = lg_receipts l @ newer"
      "map rc_Success newer = map rc_Success (filter childOwned summary)"
    using MergeChild_appends [of summary l] by blast
  have "list_all (\<lambda>b. \<not> b) (map rc_Success (filter childOwned summary))"
    using assms by (auto simp: list_all_iff)
  then have "list_all (\<lambda>r. \<not> rc_Success r) newer" by (simp add: n(2) [symmetric] list_all_iff)
  with n(1) show ?thesis by blast
qed

lemma latest_mutation_failed:
  "list_all (\<lambda>r. \<not> rc_Success r) newer \<Longrightarrow> lastIndex mutates (rs @ newer) = lastIndex mutates rs"
proof (induction newer rule: rev_induct)
  case (snoc r newer)
  then have "\<not> mutates r" and "list_all (\<lambda>r. \<not> rc_Success r) newer" by (simp_all add: mutates_def)
  with snoc.IH show ?case by (simp only: append_assoc [symmetric] lastIndex_snoc if_False)
qed simp

lemmas log_keeps = work.keeps criteria.keeps todos.keeps verified.keeps progress.keeps
  command.at.keeps signed.at.keeps reviewed.at.keeps signoff.at.keeps structured.at.keeps

lemmas log_ignores = work.failures_ignored criteria.failures_ignored todos.failures_ignored
  verified.failures_ignored progress.failures_ignored command.at.failures_ignored
  signed.at.failures_ignored reviewed.at.failures_ignored signoff.at.failures_ignored
  structured.at.failures_ignored

text \<open>
  Failed calls prove nothing: recording a failed receipt, or merging a sub-agent whose
  receipts all failed, leaves every query of the delivery gate and the latest mutation as they
  were.
\<close>

theorem failures_prove_nothing:
  assumes "\<not> rc_Success r" "list_all (\<lambda>r. \<not> rc_Success r) summary"
    and "l' = Record r l \<or> l' = MergeChild summary l"
  shows "LatestSuccessfulMutationIndex l' = LatestSuccessfulMutationIndex l
    \<and> HasSuccessfulWorkReceipt l' = HasSuccessfulWorkReceipt l
    \<and> HasSuccessfulAcceptanceCriteria l' = HasSuccessfulAcceptanceCriteria l
    \<and> HasSuccessfulVerificationCommand lib l' = HasSuccessfulVerificationCommand lib l
    \<and> HasWriteOrCommandSince i l' = HasWriteOrCommandSince i l
    \<and> HasSuccessfulCommandAfter lib cmd i l' = HasSuccessfulCommandAfter lib cmd i l
    \<and> HasSuccessfulCompleteStepAfter i l' = HasSuccessfulCompleteStepAfter i l
    \<and> HasSuccessfulReviewAfter lib i l' = HasSuccessfulReviewAfter lib i l
    \<and> HasSuccessfulDeliverySignoffAfter lib i l' = HasSuccessfulDeliverySignoffAfter lib i l
    \<and> HasSuccessfulStructuredReviewAfter kind i paths l' = HasSuccessfulStructuredReviewAfter kind i paths l"
proof -
  obtain newer where n: "lg_receipts l' = lg_receipts l @ newer" "list_all (\<lambda>r. \<not> rc_Success r) newer"
    using assms Record_failed_log MergeChild_failed_log by blast
  have "LatestSuccessfulMutationIndex l' = LatestSuccessfulMutationIndex l"
    by (simp add: LatestSuccessfulMutationIndex_def n(1) latest_mutation_failed [OF n(2)])
  then show ?thesis
    unfolding on_log [where l = l'] on_log [where l = l] unfolding n(1) by (simp only: log_ignores [OF n(2)] simp_thms)
qed

text \<open>A failed receipt for the witnesses.\<close>

definition failedCall :: Receipt where
  "failedCall = ReceiptFromToolCall demo_lib ''bash'' (RawJson [] (JObj [(''command'', JStr ''go test ./...'')])) False False"

definition passedCall :: Receipt where
  "passedCall = ReceiptFromToolCall demo_lib ''bash'' (RawJson [] (JObj [(''command'', JStr ''go test ./...'')])) True False"

theorem failures_prove_nothing_witness:
  "HasSuccessfulCommandAfter demo_lib ''go test ./...'' (-1) (Record failedCall (Record passedCall NewLedger))
     = HasSuccessfulCommandAfter demo_lib ''go test ./...'' (-1) (Record passedCall NewLedger)
   \<and> HasSuccessfulCommandAfter demo_lib ''go test ./...'' (-1) (Record passedCall NewLedger)
   \<and> \<not> HasSuccessfulCommandAfter demo_lib ''go test ./...'' (-1) (Record failedCall NewLedger)"
proof -
  have f: "\<not> rc_Success failedCall" by code_simp
  have "HasSuccessfulCommandAfter demo_lib ''go test ./...'' (-1) (Record failedCall (Record passedCall NewLedger))
     = HasSuccessfulCommandAfter demo_lib ''go test ./...'' (-1) (Record passedCall NewLedger)"
    using failures_prove_nothing [OF f, of "[]" "Record failedCall (Record passedCall NewLedger)"] by simp
  moreover have "HasSuccessfulCommandAfter demo_lib ''go test ./...'' (-1) (Record passedCall NewLedger)" by code_simp
  moreover have "\<not> HasSuccessfulCommandAfter demo_lib ''go test ./...'' (-1) (Record failedCall NewLedger)" by code_simp
  ultimately show ?thesis by simp
qed

subsection \<open>A new mutation\<close>

lemma mutation_voids:
  assumes "rc_Success r" "rc_Mutation r"
  shows "LatestSuccessfulMutationIndex (Record r l) = (Len l, True)"
    "mark \<le> Len l \<Longrightarrow> HasWriteOrCommandSince mark (Record r l)"
    "\<not> HasSuccessfulCommandAfter lib cmd (Len l) (Record r l)"
    "\<not> HasSuccessfulCompleteStepAfter (Len l) (Record r l)"
    "\<not> HasSuccessfulReviewAfter lib (Len l) (Record r l)"
    "\<not> HasSuccessfulDeliverySignoffAfter lib (Len l) (Record r l)"
    "\<not> HasSuccessfulStructuredReviewAfter kind (Len l) paths (Record r l)"
proof -
  show "LatestSuccessfulMutationIndex (Record r l) = (Len l, True)"
    using assms by (simp add: LatestSuccessfulMutationIndex_def mutates_def Len_def)
  show "mark \<le> Len l \<Longrightarrow> HasWriteOrCommandSince mark (Record r l)"
    using assms by (auto simp: HasWriteOrCommandSince_def since_append drop_one Len_def)
  show "\<not> HasSuccessfulCommandAfter lib cmd (Len l) (Record r l)"
    "\<not> HasSuccessfulCompleteStepAfter (Len l) (Record r l)"
    "\<not> HasSuccessfulReviewAfter lib (Len l) (Record r l)"
    "\<not> HasSuccessfulDeliverySignoffAfter lib (Len l) (Record r l)"
    "\<not> HasSuccessfulStructuredReviewAfter kind (Len l) paths (Record r l)"
    unfolding on_log [where l = "Record r l"] receipts_Record Len_def
    by (rule command.voided signed.voided reviewed.voided signoff.voided structured.voided)+
qed

subsection \<open>What a delivery sign-off means\<close>

text \<open>A successful bash receipt of a command strictly between two positions of the log.\<close>

definition ranBetween :: "shell_lib \<Rightarrow> gostr \<Rightarrow> int \<Rightarrow> nat \<Rightarrow> Receipt list \<Rightarrow> bool" where
  "ranBetween lib cmd after i rs \<longleftrightarrow>
     (\<exists>j < i. after < int j \<and> rc_Success (rs ! j) \<and> rc_ToolName (rs ! j) = ''bash''
        \<and> CommandMatches lib cmd (rc_Command (rs ! j)))"

definition reviewedBetween :: "shell_lib \<Rightarrow> int \<Rightarrow> nat \<Rightarrow> Receipt list \<Rightarrow> bool" where
  "reviewedBetween lib m i rs \<longleftrightarrow>
     (\<exists>k < i. m < int k \<and> receiptReviews lib (pathSet (rc_Paths (rs ! nat m))) (rs ! k))"

lemma after_le: "0 \<le> m \<Longrightarrow> nat (m + 1) \<le> k \<longleftrightarrow> m < int k"
  by linarith

lemma list_ex_slice:
  assumes "i \<le> length xs"
  shows "list_ex p (take (i - s) (drop s xs)) \<longleftrightarrow> (\<exists>k < i. s \<le> k \<and> p (xs ! k))"
proof
  assume "list_ex p (take (i - s) (drop s xs))"
  then obtain n where "n < i - s" "n < length xs - s" "p (xs ! (s + n))"
    by (auto simp: list_ex_iff in_set_conv_nth)
  then show "\<exists>k < i. s \<le> k \<and> p (xs ! k)" by (intro exI [of _ "s + n"]) simp
next
  assume "\<exists>k < i. s \<le> k \<and> p (xs ! k)"
  then obtain k where "k < i" "s \<le> k" "p (xs ! k)" by blast
  then have "take (i - s) (drop s xs) ! (k - s) = xs ! k" "k - s < length (take (i - s) (drop s xs))"
    using assms by simp_all
  with \<open>p (xs ! k)\<close> show "list_ex p (take (i - s) (drop s xs))"
    by (metis list_ex_length)
qed

lemma reviewChanges_iff:
  assumes "0 \<le> m" "m < int (length rs)" "i \<le> length rs"
  shows "receiptsReviewChanges lib rs (nat (m + 1)) i m \<longleftrightarrow> reviewedBetween lib m i rs"
  using assms by (simp add: receiptsReviewChanges_def list_ex_slice after_le reviewedBetween_def)

lemma signoff_iff:
  assumes "0 \<le> m" "m < Len l"
  shows "HasSuccessfulDeliverySignoffAfter lib m l \<longleftrightarrow>
    (\<exists>i cmd. m < int i \<and> int i < Len l
       \<and> rc_Success (lg_receipts l ! i) \<and> rc_ToolName (lg_receipts l ! i) = ''complete_step''
       \<and> cmd \<in> set (completeStepVerificationCommands (rc_Args (lg_receipts l ! i)))
       \<and> bashCommandIsVerification lib cmd
       \<and> ranBetween lib cmd m i (lg_receipts l) \<and> reviewedBetween lib m i (lg_receipts l))"
proof -
  let ?rs = "lg_receipts l"
  have "signsOffAt lib ?rs m i \<longleftrightarrow>
      rc_Success (?rs ! i) \<and> rc_ToolName (?rs ! i) = ''complete_step'' \<and> reviewedBetween lib m i ?rs
      \<and> (\<exists>cmd \<in> set (completeStepVerificationCommands (rc_Args (?rs ! i))).
            bashCommandIsVerification lib cmd \<and> ranBetween lib cmd m i ?rs)"
    if "m < int i" "int i < Len l" for i
  proof -
    have "list_ex (\<lambda>j. commandReceipt lib True cmd (?rs ! j)) [nat (m + 1)..<i] \<longleftrightarrow> ranBetween lib cmd m i ?rs" for cmd
      by (auto simp: list_ex_iff ranBetween_def commandReceipt_def after_le [OF assms(1)])
    moreover have "receiptsReviewChanges lib ?rs (nat (m + 1)) i m \<longleftrightarrow> reviewedBetween lib m i ?rs"
      using assms that by (simp add: reviewChanges_iff Len_def)
    ultimately show ?thesis using assms(1) by (auto simp: signsOffAt_def Let_def list_ex_iff)
  qed
  moreover have "HasSuccessfulDeliverySignoffAfter lib m l \<longleftrightarrow> (\<exists>i. m < int i \<and> int i < Len l \<and> signsOffAt lib ?rs m i)"
    by (auto simp: HasSuccessfulDeliverySignoffAfter_def list_ex_iff Len_def after_le [OF assms(1)])
  ultimately show ?thesis by blast
qed

end
