(* ===== verification/Capability_Guarantees.thy ===== *)
theory Capability_Guarantees imports Capability_Ledger begin

text \<open>
  What the capability ledger guarantees: as a state machine over its methods it keeps its
  order and entries in step, never forgets an obligation within a turn, and its gate passes
  exactly when every obligation is met.
\<close>

subsection \<open>The methods as steps\<close>

inductive cap_step :: "CapLedger \<Rightarrow> CapLedger \<Rightarrow> bool" where
  seed: "cap_step l (SeedCandidates d l)"
| outcome: "cap_step l (setOutcome key outcome failReason declineReason now l)"
| reminded: "cap_step l (MarkReminded key l)"

abbreviation cap_steps :: "CapLedger \<Rightarrow> CapLedger \<Rightarrow> bool" where
  "cap_steps \<equiv> cap_step\<^sup>*\<^sup>*"

inductive_cases cap_stepE: "cap_step l l'"

lemma methods_are_steps:
  "cap_step l (MarkInvoked key now l)" "cap_step l (MarkSucceeded key now l)"
  "cap_step l (MarkFailed key reason now l)" "cap_step l (MarkUnavailable key reason now l)"
  "MarkDeclined key reason now l = Some l' \<Longrightarrow> cap_step l l'"
  by (auto simp: MarkInvoked_def MarkSucceeded_def MarkFailed_def MarkUnavailable_def MarkDeclined_def
      intro: cap_step.intros split: if_splits)

subsection \<open>Well-formed ledgers\<close>

definition cap_wf :: "CapLedger \<Rightarrow> bool" where
  "cap_wf l \<longleftrightarrow> distinct (cl_order l) \<and> set (cl_order l) = dom (cl_entries l) \<and> [] \<notin> dom (cl_entries l)
     \<and> (\<forall>key e. cl_entries l key = Some e \<longrightarrow> le_ID e = key)"

text \<open>An update of one entry: the old one changed, or a new one appended.\<close>

lemma cap_wf_update:
  assumes "cap_wf l" "cl_entries l key = Some e" "le_ID e' = le_ID e"
  shows "cap_wf (l\<lparr>cl_entries := (cl_entries l)(key \<mapsto> e')\<rparr>)"
  using assms by (auto simp: cap_wf_def)

lemma cap_wf_new:
  assumes "cap_wf l" "cl_entries l key = None" "key \<noteq> []" "le_ID e = key"
  shows "cap_wf (l\<lparr>cl_entries := (cl_entries l)(key \<mapsto> e), cl_order := cl_order l @ [key]\<rparr>)"
  using assms by (auto simp: cap_wf_def dom_def)

lemma settle_fields [simp]:
  "le_ID (settle outcome fr dr now e) = le_ID e" "le_Policy (settle outcome fr dr now e) = le_Policy e"
  "le_Outcome (settle outcome fr dr now e) = nextOutcome (le_Outcome e) outcome"
  "le_Reminded (settle outcome fr dr now e) = le_Reminded e"
  by (simp_all add: settle_def)

lemma newEntry_fields [simp]:
  "le_ID (newEntry key policy reason) = key" "le_Policy (newEntry key policy reason) = policy"
  "le_Outcome (newEntry key policy reason) = OutcomePending"
  by (simp_all add: newEntry_def)

lemma seedCandidate_wf: "cap_wf l \<Longrightarrow> cap_wf (seedCandidate c l)"
  by (auto simp: seedCandidate_def Let_def intro: cap_wf_update cap_wf_new split: option.splits)

lemma SeedCandidates_wf: "cap_wf l \<Longrightarrow> cap_wf (SeedCandidates d l)"
proof -
  have "cap_wf l \<Longrightarrow> cap_wf (fold seedCandidate cs l)" for cs
    by (induction cs arbitrary: l) (simp_all add: seedCandidate_wf)
  then show "cap_wf l \<Longrightarrow> cap_wf (SeedCandidates d l)" by (simp add: SeedCandidates_def)
qed

lemma setOutcome_wf: "cap_wf l \<Longrightarrow> cap_wf (setOutcome key outcome fr dr now l)"
  by (auto simp: setOutcome_def Let_def intro: cap_wf_update cap_wf_new split: option.splits)

lemma MarkReminded_wf: "cap_wf l \<Longrightarrow> cap_wf (MarkReminded key l)"
  by (auto simp: MarkReminded_def intro: cap_wf_update split: option.splits)

lemma cap_steps_wf: "cap_steps l l' \<Longrightarrow> cap_wf l \<Longrightarrow> cap_wf l'"
  by (induction rule: rtranclp_induct)
    (auto elim!: cap_stepE intro: SeedCandidates_wf setOutcome_wf MarkReminded_wf)

lemma NewCapLedger_wf: "cap_wf NewCapLedger"
  by (simp add: cap_wf_def NewCapLedger_def)

subsection \<open>Obligations\<close>

definition settled :: "Outcome \<Rightarrow> bool" where
  "settled outcome \<longleftrightarrow> outcome \<in> {OutcomeSucceeded, OutcomeDeclined, OutcomeUnavailable}"

definition obligationMet :: "LedgerEntry \<Rightarrow> bool" where
  "obligationMet e \<longleftrightarrow>
     (le_Policy e = AutoUseRequire \<longrightarrow> le_Outcome e = OutcomeSucceeded)
     \<and> (le_Policy e = AutoUsePrefer \<longrightarrow> settled (le_Outcome e))"

lemma gateClass_ok: "gateClass e = GateOk \<longleftrightarrow> obligationMet e"
  by (auto simp: gateClass_def obligationMet_def settled_def split: AutoUse.splits Outcome.splits)

text \<open>How an entry may change within a turn.\<close>

definition entry_le :: "LedgerEntry \<Rightarrow> LedgerEntry \<Rightarrow> bool" where
  "entry_le e e' \<longleftrightarrow> le_ID e' = le_ID e \<and> rank (le_Policy e) \<le> rank (le_Policy e')
     \<and> (settled (le_Outcome e) \<longrightarrow> settled (le_Outcome e')) \<and> (le_Reminded e \<longrightarrow> le_Reminded e')"

lemma entry_le_refl [simp]: "entry_le e e"
  by (simp add: entry_le_def)

lemma entry_le_trans: "entry_le e e' \<Longrightarrow> entry_le e' e'' \<Longrightarrow> entry_le e e''"
  by (auto simp: entry_le_def)

lemma nextOutcome_settled: "settled old \<Longrightarrow> settled (nextOutcome old new)"
  by (auto simp: nextOutcome_def settled_def)

lemma settle_le: "entry_le e (settle outcome fr dr now e)"
  by (simp add: entry_le_def nextOutcome_settled)

definition ledger_le :: "CapLedger \<Rightarrow> CapLedger \<Rightarrow> bool" where
  "ledger_le l l' \<longleftrightarrow>
     (\<forall>key e. cl_entries l key = Some e \<longrightarrow> (\<exists>e'. cl_entries l' key = Some e' \<and> entry_le e e'))"

lemma ledger_le_refl [simp]: "ledger_le l l"
  by (auto simp: ledger_le_def)

lemma ledger_le_trans: "ledger_le l l' \<Longrightarrow> ledger_le l' l'' \<Longrightarrow> ledger_le l l''"
  unfolding ledger_le_def by (meson entry_le_trans)

lemma ledger_le_update:
  "(\<And>e. cl_entries l key = Some e \<Longrightarrow> entry_le e e') \<Longrightarrow> cl_entries l' = (cl_entries l)(key \<mapsto> e') \<Longrightarrow> ledger_le l l'"
  by (auto simp: ledger_le_def)

lemma seedCandidate_le: "ledger_le l (seedCandidate c l)"
  by (auto simp: seedCandidate_def Let_def entry_le_def intro!: ledger_le_update split: option.splits)

lemma SeedCandidates_le: "ledger_le l (SeedCandidates d l)"
proof -
  have "ledger_le l (fold seedCandidate cs l)" for cs
    by (induction cs arbitrary: l) (simp, metis fold_simps(2) ledger_le_trans seedCandidate_le)
  then show ?thesis by (simp add: SeedCandidates_def)
qed

lemma setOutcome_le: "ledger_le l (setOutcome key outcome fr dr now l)"
  by (auto simp: setOutcome_def Let_def settle_le intro!: ledger_le_update split: option.splits)

lemma MarkReminded_le: "ledger_le l (MarkReminded key l)"
  by (auto simp: MarkReminded_def entry_le_def intro!: ledger_le_update split: option.splits)

lemma cap_steps_le: "cap_steps l l' \<Longrightarrow> ledger_le l l'"
  by (induction rule: rtranclp_induct)
    (auto elim!: cap_stepE intro: ledger_le_trans SeedCandidates_le setOutcome_le MarkReminded_le)

subsection \<open>The gate\<close>

lemma idsOf_empty:
  "idsOf cls l = [] \<longleftrightarrow> (\<forall>key \<in> set (cl_order l). \<forall>e. cl_entries l key = Some e \<longrightarrow> gateClass e \<noteq> cls)"
  by (auto simp: idsOf_def filter_empty_conv split: option.splits)

lemma unavailable_empty:
  "unavailableTexts l = [] \<longleftrightarrow>
     (\<forall>key \<in> set (cl_order l). \<forall>e r. cl_entries l key = Some e \<longrightarrow> gateClass e \<noteq> RequireUnavailable r)"
  by (auto simp: unavailableTexts_def List.map_filter_def filter_empty_conv split: option.splits gate_class.splits)

lemma gate_reason_empty:
  "gf_Reason (CheckFinalGate l) = [] \<longleftrightarrow>
     (\<forall>key \<in> set (cl_order l). \<forall>e. cl_entries l key = Some e \<longrightarrow> obligationMet e)"
proof -
  have "gf_Reason (CheckFinalGate l) = [] \<longleftrightarrow>
      idsOf RequireMissing l = [] \<and> unavailableTexts l = [] \<and> idsOf PreferRemindable l = [] \<and> idsOf PreferMissing l = []"
    by (auto simp: CheckFinalGate_def noGateFailure_def Let_def)
  moreover have "gateClass e = GateOk \<longleftrightarrow> gateClass e \<noteq> RequireMissing \<and> (\<forall>r. gateClass e \<noteq> RequireUnavailable r)
      \<and> gateClass e \<noteq> PreferRemindable \<and> gateClass e \<noteq> PreferMissing" for e
    by (cases "gateClass e") simp_all
  ultimately show ?thesis
    unfolding idsOf_empty unavailable_empty gateClass_ok [symmetric] by blast
qed

text \<open>
  C6. Capability gate: in every ledger the methods can reach from an empty one, order and
  entries agree, and the final-answer gate passes exactly when every required capability
  succeeded and every preferred one succeeded, was declined or is unavailable.
\<close>

theorem capability_gate_exact:
  assumes "cap_steps NewCapLedger l"
  shows "distinct (cl_order l) \<and> set (cl_order l) = dom (cl_entries l)
    \<and> (gf_Reason (CheckFinalGate l) = [] \<longleftrightarrow>
         (\<forall>key e. cl_entries l key = Some e \<longrightarrow>
            (le_Policy e = AutoUseRequire \<longrightarrow> le_Outcome e = OutcomeSucceeded)
            \<and> (le_Policy e = AutoUsePrefer \<longrightarrow>
                 le_Outcome e \<in> {OutcomeSucceeded, OutcomeDeclined, OutcomeUnavailable})))"
proof -
  have wf: "cap_wf l" using cap_steps_wf [OF assms NewCapLedger_wf] .
  then have "gf_Reason (CheckFinalGate l) = [] \<longleftrightarrow> (\<forall>key e. cl_entries l key = Some e \<longrightarrow> obligationMet e)"
    unfolding gate_reason_empty cap_wf_def by blast
  with wf show ?thesis by (simp add: cap_wf_def obligationMet_def settled_def)
qed

definition demo_candidate :: RouteCandidate where
  "demo_candidate =
     \<lparr>rt_Entry = \<lparr>en_ID = ''skill:review'', en_Kind = KindSkill, en_Name = ''review'', en_Source = ''builtin'',
        en_Status = StatusReady, en_AutoUse = AutoUsePrefer, en_Triggers = [], en_NegativeTriggers = []\<rparr>,
      rt_Policy = AutoUseRequire, rt_Reason = ''asked''\<rparr>"

definition demo_seeded :: CapLedger where
  "demo_seeded = SeedCandidates \<lparr>rd_Candidates = [demo_candidate], rd_Delivery = True, rd_CapabilityProxy = True\<rparr> NewCapLedger"

lemma demo_seeded_steps: "cap_steps NewCapLedger demo_seeded"
  unfolding demo_seeded_def by (rule r_into_rtranclp, rule cap_step.seed)

theorem capability_gate_exact_witness:
  "gf_Reason (CheckFinalGate (MarkSucceeded ''skill:review'' 7 demo_seeded)) = []
   \<and> gf_Reason (CheckFinalGate (MarkFailed ''skill:review'' ''boom'' 7 demo_seeded)) \<noteq> []"
proof -
  have s: "cap_steps NewCapLedger (MarkSucceeded ''skill:review'' 7 demo_seeded)"
    by (rule rtranclp.rtrancl_into_rtrancl [OF demo_seeded_steps methods_are_steps(2)])
  have t: "TrimSpace ''skill:review'' = ''skill:review''" by code_simp
  have t: "TrimSpace ''skill:review'' = ''skill:review''" by code_simp
  have e: "cl_entries (MarkSucceeded ''skill:review'' 7 demo_seeded) =
      [''skill:review'' \<mapsto> settle OutcomeSucceeded [] [] 7 (newEntry ''skill:review'' AutoUseRequire ''asked'')]"
    by (simp add: demo_seeded_def SeedCandidates_def seedCandidate_def demo_candidate_def NewCapLedger_def
        MarkSucceeded_def setOutcome_def t Let_def)
  have "gf_Reason (CheckFinalGate (MarkSucceeded ''skill:review'' 7 demo_seeded)) = []"
    using capability_gate_exact [OF s] unfolding e by (simp add: nextOutcome_def split: if_splits)
  moreover have "gf_Reason (CheckFinalGate (MarkFailed ''skill:review'' ''boom'' 7 demo_seeded)) \<noteq> []"
    by code_simp
  ultimately show ?thesis by simp
qed

text \<open>
  C7. Obligations persist: whatever the methods do within a turn, no entry is forgotten, its
  policy is never weakened, a settled outcome stays settled and a given reminder stays given.
\<close>

theorem obligations_persist:
  assumes "cap_steps l l'" "cl_entries l key = Some e"
  shows "\<exists>e'. cl_entries l' key = Some e' \<and> le_ID e' = le_ID e \<and> rank (le_Policy e) \<le> rank (le_Policy e')
    \<and> (settled (le_Outcome e) \<longrightarrow> settled (le_Outcome e')) \<and> (le_Reminded e \<longrightarrow> le_Reminded e')"
  using cap_steps_le [OF assms(1)] assms(2) by (auto simp: ledger_le_def entry_le_def)

theorem obligations_persist_witness:
  "\<exists>e'. cl_entries (MarkFailed ''skill:review'' ''boom'' 7 demo_seeded) ''skill:review'' = Some e' \<and> 3 \<le> rank (le_Policy e')"
proof -
  have e: "cl_entries demo_seeded ''skill:review'' = Some (newEntry ''skill:review'' AutoUseRequire ''asked'')"
    by code_simp
  have "cap_steps demo_seeded (MarkFailed ''skill:review'' ''boom'' 7 demo_seeded)"
    by (rule r_into_rtranclp) (rule methods_are_steps(3))
  from obligations_persist [OF this e] show ?thesis by auto
qed

end
