(* ===== verification/Agent_Guarantees.thy ===== *)
theory Agent_Guarantees imports Agent_Tasks Evidence_Guarantees Capability_Guarantees begin

text \<open>
  What the final-answer gate guarantees. An accepted delivery is one whose latest change was
  verified, inspected, reviewed by risk and signed off after it was made; and a change made
  since closes the gate again.
\<close>

subsection \<open>Reasons\<close>

abbreviation texts_given :: "(gap \<times> gostr) list \<Rightarrow> bool" where
  "texts_given missing \<equiv> list_all (\<lambda>gt. snd gt \<noteq> []) missing"

lemma Join_empty: "Join ts s = [] \<Longrightarrow> s \<noteq> [] \<Longrightarrow> list_all (\<lambda>t. t \<noteq> []) ts \<Longrightarrow> ts = []"
  by (cases "(ts, s)" rule: Join.cases) auto

lemma settled_reason:
  assumes "texts_given missing" "\<not> loopGuardAllowsFinal a"
  shows "fr_reason (settledCheck applies n missing a) = [] \<longleftrightarrow> missing = []"
proof
  assume "fr_reason (settledCheck applies n missing a) = []"
  then have "missing = [] \<or> Join (map snd missing) ''; '' = []"
    using assms(2) by (auto simp: settledCheck_def split: if_splits)
  then show "missing = []"
    using Join_empty [of "map snd missing" "''; ''"] assms(1) by (auto simp: list_all_iff)
qed (simp add: settledCheck_def)

lemma gap_texts [simp]:
  "texts_given (expectationGaps a l mutated)"
  "texts_given (deliveryGaps lib a l w mutated msg)"
  "texts_given (projectCheckGaps lib a l w)"
  "finalReadinessIncompleteTodos items \<noteq> []"
  by (auto simp: expectationGaps_def deliveryGaps_def projectCheckGaps_def list_all_iff Let_def
      finalReadinessIncompleteTodos_def)

subsection \<open>What the gates leave alone\<close>

text \<open>The agent without what the gates themselves write: reminders, misses and warnings.\<close>

definition taskView :: "Agent \<Rightarrow> Agent" where
  "taskView a = a\<lparr>ag_capabilityLedger := None, ag_capabilityPreferReminded := False,
     ag_capabilityRequireMissSeen := False, ag_capabilityPreferMissSeen := False, ag_pendingReviewWarnings := []\<rparr>"

lemma taskView_updates [simp]:
  "taskView (ag_capabilityLedger_update f a) = taskView a"
  "taskView (ag_capabilityPreferReminded_update g a) = taskView a"
  "taskView (ag_capabilityRequireMissSeen_update g a) = taskView a"
  "taskView (ag_capabilityPreferMissSeen_update g a) = taskView a"
  "taskView (ag_pendingReviewWarnings_update h a) = taskView a"
  by (simp_all add: taskView_def)

lemma capability_view: "taskView (snd (capabilityGateFailure a)) = taskView a"
  by (simp add: capabilityGateFailure_def Let_def split: option.split)

lemma addWarnings_view [simp]: "taskView (addWarnings report a) = taskView a"
  by (simp add: addWarnings_def split: option.split)

lemma mediumRiskGate_view: "taskView (snd (mediumRiskGate l m paths a)) = taskView a"
  by (simp add: mediumRiskGate_def split: prod.split)

lemma highRiskGate_view: "taskView (snd (highRiskGate l m paths a)) = taskView a"
  by (simp add: highRiskGate_def split: prod.split)

lemma review_view: "taskView (snd (deliveryReviewGateFailure a)) = taskView a"
  by (simp add: deliveryReviewGateFailure_def Let_def mediumRiskGate_view highRiskGate_view
      split: option.split RiskLevel.split prod.split)

lemma taskView_fields:
  assumes "taskView a' = taskView a"
  shows "ag_evidence a' = ag_evidence a" "ag_deliveryProfile a' = ag_deliveryProfile a"
    "ag_subagentDepth a' = ag_subagentDepth a" "ag_tools a' = ag_tools a"
    "ag_projectChecks a' = ag_projectChecks a" "ag_deliveryCriteriaEstablished a' = ag_deliveryCriteriaEstablished a"
    "checkpointApplies a' = checkpointApplies a" "ag_deliveryCheckpoint a' = ag_deliveryCheckpoint a"
    "loopGuardAllowsFinal a' = loopGuardAllowsFinal a"
proof -
  have "ag_evidence (taskView a) = ag_evidence a" "ag_deliveryProfile (taskView a) = ag_deliveryProfile a"
    "ag_subagentDepth (taskView a) = ag_subagentDepth a" "ag_tools (taskView a) = ag_tools a"
    "ag_projectChecks (taskView a) = ag_projectChecks a"
    "ag_deliveryCriteriaEstablished (taskView a) = ag_deliveryCriteriaEstablished a"
    "checkpointApplies (taskView a) = checkpointApplies a"
    "ag_deliveryCheckpoint (taskView a) = ag_deliveryCheckpoint a"
    "loopGuardAllowsFinal (taskView a) = loopGuardAllowsFinal a" for a
    by (simp_all add: taskView_def checkpointApplies_def loopGuardAllowsFinal_def split: option.split)
  with assms show "ag_evidence a' = ag_evidence a" "ag_deliveryProfile a' = ag_deliveryProfile a"
    "ag_subagentDepth a' = ag_subagentDepth a" "ag_tools a' = ag_tools a"
    "ag_projectChecks a' = ag_projectChecks a" "ag_deliveryCriteriaEstablished a' = ag_deliveryCriteriaEstablished a"
    "checkpointApplies a' = checkpointApplies a" "ag_deliveryCheckpoint a' = ag_deliveryCheckpoint a"
    "loopGuardAllowsFinal a' = loopGuardAllowsFinal a"
    by metis+
qed

lemma gaps_view:
  assumes "taskView a' = taskView a"
  shows "deliveryGaps lib a' l w mutated msg = deliveryGaps lib a l w mutated msg"
    "projectCheckGaps lib a' l w = projectCheckGaps lib a l w"
  by (simp_all add: deliveryGaps_def projectCheckGaps_def taskView_fields [OF assms])

subsection \<open>Review by risk\<close>

text \<open>When the review of a change lets the answer pass.\<close>

definition reviewTool :: "Agent \<Rightarrow> bool" where
  "reviewTool a \<longleftrightarrow> toolPresent (ag_tools a) ''review'' \<or> toolPresent (ag_tools a) ''run_skill''"

definition securityTool :: "Agent \<Rightarrow> bool" where
  "securityTool a \<longleftrightarrow> toolPresent (ag_tools a) ''security_review'' \<or> toolPresent (ag_tools a) ''run_skill''"

definition reviewedByRisk :: "Agent \<Rightarrow> Ledger \<Rightarrow> int \<Rightarrow> bool" where
  "reviewedByRisk a l m \<longleftrightarrow>
     (let passed = (\<lambda>kind. HasSuccessfulStructuredReviewAfter kind m (productionPaths (PathsSince m l)) l) in
      0 < ag_subagentDepth a
      \<or> (case MutationRiskAfter m l of
            RiskLow \<Rightarrow> True
          | RiskMedium \<Rightarrow> \<not> reviewTool a \<or> passed ReviewKindReview
          | RiskHigh \<Rightarrow> (reviewTool a \<or> securityTool a) \<and> passed ReviewKindReview \<and> passed ReviewKindSecurity))"

lemma reviewBlocked_given [simp]: "reviewBlocked \<noteq> []"
  by (simp add: reviewBlocked_def)

lemma mediumRiskGate_pass:
  "fst (mediumRiskGate l m paths a) = [] \<longleftrightarrow> HasSuccessfulStructuredReviewAfter ReviewKindReview m paths l"
  by (simp add: mediumRiskGate_def HasSuccessfulStructuredReviewAfter_def split: prod.splits)

lemma highRiskGate_pass:
  "fst (highRiskGate l m paths a) = [] \<longleftrightarrow>
     HasSuccessfulStructuredReviewAfter ReviewKindReview m paths l
     \<and> HasSuccessfulStructuredReviewAfter ReviewKindSecurity m paths l"
  by (simp add: highRiskGate_def HasSuccessfulStructuredReviewAfter_def split: prod.splits)

lemma review_pass:
  assumes "ag_evidence a = Some l" "ag_deliveryProfile a" "LatestSuccessfulMutationIndex l = (m, True)"
  shows "fst (deliveryReviewGateFailure a) = [] \<longleftrightarrow> reviewedByRisk a l m"
  using assms
  by (simp add: deliveryReviewGateFailure_def reviewedByRisk_def reviewTool_def securityTool_def Let_def
      mediumRiskGate_pass highRiskGate_pass split: RiskLevel.splits)

lemma review_same:
  assumes "taskView a' = taskView a"
  shows "fst (deliveryReviewGateFailure a') = fst (deliveryReviewGateFailure a)"
  by (simp add: deliveryReviewGateFailure_def taskView_fields [OF assms] Let_def
      mediumRiskGate_def highRiskGate_def split: option.splits RiskLevel.splits prod.splits)

lemma capability_pass:
  assumes "ag_evidence a = Some l" "ag_deliveryProfile a" "LatestSuccessfulMutationIndex l = (m, True)"
  shows "fst (capabilityGateFailure a) = [] \<longleftrightarrow>
    (\<forall>cl. ag_capabilityLedger a = Some cl \<longrightarrow> gf_Reason (CheckFinalGate cl) = [])"
  using assms by (auto simp: capabilityGateFailure_def Let_def split: option.splits)

subsection \<open>The gate on a change\<close>

text \<open>What is missing after a change, before the gaps of the change itself.\<close>

definition openGaps :: "Agent \<Rightarrow> Ledger \<Rightarrow> bool \<Rightarrow> (gap \<times> gostr) list" where
  "openGaps a l fin =
     (if fin then
        (if todoGap a l \<noteq> [] then [(GapTodos, finalReadinessIncompleteTodos (todoGap a l))] else [])
        @ expectationGaps a l True
        @ (if fst (capabilityGateFailure a) \<noteq> [] then [(GapCapability, fst (capabilityGateFailure a))] else [])
      else [])"

lemma check_of_change:
  assumes "ag_evidence a = Some l" "\<not> ag_planMode a" "ag_deliveryProfile a"
    and "LatestSuccessfulMutationIndex l = (m, True)"
  obtains n a2 where "taskView a2 = taskView a"
    "fst (finalReadinessCheckFor lib a fin) = settledCheck True n
       (openGaps a l fin @ deliveryGaps lib a l m True (fst (deliveryReviewGateFailure a)) @ projectCheckGaps lib a l m) a2"
proof -
  have base: "readinessBaseline a l = (m, True, True)"
    using assms by (simp add: readinessBaseline_def split: prod.split)
  define a1 where "a1 = (if fin then snd (capabilityGateFailure a) else a)"
  define a2 where "a2 = snd (deliveryReviewGateFailure a1)"
  have v1: "taskView a1 = taskView a" by (simp add: a1_def capability_view)
  have v2: "taskView a2 = taskView a" by (simp add: a2_def review_view v1)
  note same = gaps_view [OF v2] review_same [OF v1] openGaps_def
  have "fst (finalReadinessCheckFor lib a fin) = settledCheck True (length (if fin then todoGap a l else []))
       (openGaps a l fin @ deliveryGaps lib a l m True (fst (deliveryReviewGateFailure a)) @ projectCheckGaps lib a l m) a2"
  proof (cases fin)
    case True
    then show ?thesis using assms same
      by (simp add: finalReadinessCheckFor_def base Let_def case_prod_beta a2_def a1_def)
  next
    case False
    then show ?thesis using assms same
      by (simp add: finalReadinessCheckFor_def base Let_def case_prod_beta a2_def a1_def)
  qed
  with v2 show thesis by (rule that)
qed

lemma openGaps_none:
  "openGaps a l fin = [] \<longleftrightarrow>
     (fin \<longrightarrow> todoGap a l = [] \<and> expectationGaps a l True = [] \<and> fst (capabilityGateFailure a) = [])"
  by (simp add: openGaps_def)

lemma openGaps_texts [simp]: "texts_given (openGaps a l fin)"
  by (simp add: openGaps_def)

lemma readiness_of_change:
  assumes "ag_evidence a = Some l" "\<not> ag_planMode a" "ag_deliveryProfile a" "\<not> loopGuardAllowsFinal a"
    and "LatestSuccessfulMutationIndex l = (m, True)"
  shows "fr_reason (fst (finalReadinessCheckFor lib a fin)) = [] \<longleftrightarrow>
    openGaps a l fin = []
    \<and> deliveryGaps lib a l m True (fst (deliveryReviewGateFailure a)) = []
    \<and> projectCheckGaps lib a l m = []"
proof -
  obtain n a2 where "taskView a2 = taskView a"
    and c: "fst (finalReadinessCheckFor lib a fin) = settledCheck True n
       (openGaps a l fin @ deliveryGaps lib a l m True (fst (deliveryReviewGateFailure a)) @ projectCheckGaps lib a l m) a2"
    using check_of_change [OF assms(1,2,3,5)] by metis
  then have "\<not> loopGuardAllowsFinal a2" using assms(4) taskView_fields(9) by metis
  then show ?thesis unfolding c by (simp add: settled_reason)
qed

lemma latest_mutation:
  assumes "LatestSuccessfulMutationIndex l = (m, True)"
  shows "0 \<le> m" "m < Len l" "mutates (lg_receipts l ! nat m)"
  using assms lastIndex_bounds [of mutates "lg_receipts l"] lastIndex_holds [of mutates "lg_receipts l"]
  by (auto simp: LatestSuccessfulMutationIndex_def Let_def Len_def)

lemma expectation_met:
  "expectationGaps a l True = [] \<longleftrightarrow>
     (ag_deliveryTaskExpected a \<longrightarrow>
        HasSuccessfulWorkReceipt l \<or> checkpointApplies a \<and> dc_WorkObserved (ag_deliveryCheckpoint a))"
  by (auto simp: expectationGaps_def Let_def)

text \<open>A change signed off after it was made, with the verification and the inspection behind it.\<close>

definition signedOff :: "shell_lib \<Rightarrow> Ledger \<Rightarrow> int \<Rightarrow> bool" where
  "signedOff lib l m \<longleftrightarrow>
     (\<exists>i cmd. m < int i \<and> int i < Len l
        \<and> rc_Success (lg_receipts l ! i) \<and> rc_ToolName (lg_receipts l ! i) = ''complete_step''
        \<and> cmd \<in> set (completeStepVerificationCommands (rc_Args (lg_receipts l ! i)))
        \<and> bashCommandIsVerification lib cmd
        \<and> ranBetween lib cmd m i (lg_receipts l) \<and> reviewedBetween lib m i (lg_receipts l))"

lemma nth_in_drop: "n \<le> i \<Longrightarrow> i < length xs \<Longrightarrow> xs ! i \<in> set (drop n xs)"
  using nth_mem [of "i - n" "drop n xs"] by simp

lemma delivery_met:
  assumes m: "0 \<le> m" "m < Len l"
  shows "deliveryGaps lib a l m True msg = [] \<longleftrightarrow>
    (ag_deliveryCriteriaEstablished a \<or> checkpointApplies a \<and> dc_CriteriaEstablished (ag_deliveryCheckpoint a))
    \<and> signedOff lib l m \<and> msg = []"
proof -
  have s: "HasSuccessfulDeliverySignoffAfter lib m l \<longleftrightarrow> signedOff lib l m"
    using signoff_iff [OF m] by (simp add: signedOff_def)
  have "signedOff lib l m \<Longrightarrow> HasSuccessfulCompleteStepAfter m l"
  proof -
    assume "signedOff lib l m"
    then obtain i where i: "m < int i" "int i < Len l" "rc_Success (lg_receipts l ! i)"
      "rc_ToolName (lg_receipts l ! i) = ''complete_step''" by (auto simp: signedOff_def)
    then have "lg_receipts l ! i \<in> set (since (m + 1) (lg_receipts l))"
      unfolding since_def using after_le [OF m(1), of i] by (intro nth_in_drop) (simp_all add: Len_def)
    with i show "HasSuccessfulCompleteStepAfter m l"
      by (auto simp: HasSuccessfulCompleteStepAfter_def list_ex_iff)
  qed
  moreover have "signedOff lib l m \<Longrightarrow> HasSuccessfulReviewAfter lib m l"
    using m reviewChanges_iff [of m "lg_receipts l" "length (lg_receipts l)" lib]
    by (auto simp: signedOff_def HasSuccessfulReviewAfter_def Let_def Len_def reviewedBetween_def)
  ultimately show ?thesis unfolding deliveryGaps_def Let_def s by auto
qed

lemma project_checks_met:
  "projectCheckGaps lib a l m = [] \<longleftrightarrow>
     (\<forall>c \<in> set (ag_projectChecks a). TrimSpace (vc_Command c) \<noteq> [] \<longrightarrow>
        HasSuccessfulCommandAfter lib (TrimSpace (vc_Command c)) m l)"
  by (auto simp: projectCheckGaps_def filter_empty_conv)


text \<open>A delivered change, for the witnesses.\<close>

definition receipt :: "gostr \<Rightarrow> gostr list \<Rightarrow> Receipt" where
  "receipt name paths =
     \<lparr>rc_ToolName = name, rc_Args = RawEmpty, rc_Profile = [], rc_Success = True, rc_Command = [],
      rc_Step = [], rc_StepProof = False, rc_TodoStep = None, rc_Paths = paths, rc_Read = False,
      rc_Write = False, rc_Mutation = False, rc_Todos = [], rc_OutputBytes = 2\<rparr>"

definition signoff_args :: raw_json where
  "signoff_args = RawJson [] (JObj
     [(''step'', JStr ''docs''), (''result'', JStr ''done''),
      (''evidence'', JArr [JObj [(''kind'', JStr ''verification''), (''summary'', JStr ''green''),
                                 (''command'', JStr ''go test'')]])])"

definition demo_ledger :: Ledger where
  "demo_ledger =
     \<lparr>lg_receipts =
        [(receipt ''edit_file'' [''a.md''])\<lparr>rc_Write := True, rc_Mutation := True\<rparr>,
         (receipt ''bash'' [])\<lparr>rc_Command := ''go test''\<rparr>,
         (receipt ''read_file'' [''a.md''])\<lparr>rc_Read := True\<rparr>,
         (receipt ''complete_step'' [])\<lparr>rc_Step := ''docs'', rc_Args := signoff_args\<rparr>],
      lg_leases = []\<rparr>"

definition demo_agent :: "Ledger \<Rightarrow> Agent" where
  "demo_agent l =
     \<lparr>ag_evidence = Some l, ag_planMode = False, ag_deliveryProfile = True, ag_subagentDepth = 0,
      ag_tools = None, ag_projectChecks = [], ag_todoState = [], ag_deliveryCheckpoint = freshCheckpoint [],
      ag_deliveryScopeActive = False, ag_deliveryScopeID = [], ag_deliveryTaskExpected = True,
      ag_deliveryMutationExpected = True, ag_deliveryCriteriaEstablished = True, ag_loopGuardArmed = False,
      ag_loopGuardReceiptMark = 0, ag_capabilityLedger = None, ag_capabilityPreferReminded = False,
      ag_capabilityRequireMissSeen = False, ag_capabilityPreferMissSeen = False, ag_pendingReviewWarnings = [],
      ag_deliveryRecoveryPending = False, ag_preserveEvidenceOnce = False\<rparr>"

lemma demo_accepted: "fr_reason (fst (finalReadinessCheckFor demo_lib (demo_agent demo_ledger) True)) = []"
  by code_simp


subsection \<open>A change reopens the gate\<close>

text \<open>Whether the executed call changed something: its own classification, or its target's.\<close>

definition changed :: "shell_lib \<Rightarrow> executed \<Rightarrow> bool" where
  "changed lib e \<longleftrightarrow> ex_Ok e \<and> ex_Name e \<noteq> ''complete_step''
     \<and> (if ex_TargetName e \<noteq> ex_Name e then ToolCallMutates lib (ex_TargetName e) (ex_TargetArgs e) (ex_TargetReadOnly e)
        else ToolCallMutates lib (ex_Name e) (ex_Args e) (ex_ReadOnly e))"

text \<open>The agent after a change: its last receipt is the change, the rest is as before.\<close>

lemma recordExecuted_changed:
  assumes "ag_evidence a = Some l" "changed lib e"
  obtains r l1 where "Len l \<le> Len l1" "rc_Success r" "rc_Mutation r"
    "recordExecuted lib dl e a = a\<lparr>ag_evidence := Some (Record r l1)\<rparr>"
proof (cases "ex_TargetName e = ex_Name e")
  case True
  let ?r = "(ReceiptFromToolCall lib (ex_Name e) (ex_Args e) (ex_Ok e) (ex_ReadOnly e))\<lparr>rc_OutputBytes := outputBytes e\<rparr>"
  have m: "ToolCallMutates lib (ex_Name e) (ex_Args e) (ex_ReadOnly e)" using assms(2) True by (simp add: changed_def)
  then have "ex_Name e \<noteq> ''todo_write''" by (auto simp: ToolCallMutates_def oneOfWords_def split: if_splits)
  then have "recordExecuted lib dl e a = a\<lparr>ag_evidence := Some (Record ?r l)\<rparr>"
    using assms True by (simp add: recordExecuted_def recordReceipt_def changed_def Let_def)
  then show thesis using that [of l ?r] assms(2) m by (simp add: changed_def)
next
  case False
  let ?p = "ReceiptFromToolCall lib (ex_Name e) (ex_Args e) (ex_Ok e) True"
  let ?r = "(ReceiptFromToolCall lib (ex_TargetName e) (ex_TargetArgs e) (ex_Ok e) (ex_TargetReadOnly e))\<lparr>rc_OutputBytes := outputBytes e\<rparr>"
  have "recordExecuted lib dl e a = a\<lparr>ag_evidence := Some (Record ?r (Record ?p l))\<rparr>"
    using assms False by (simp add: recordExecuted_def recordReceipt_def changed_def Let_def)
  then show thesis using that [of "Record ?p l" ?r] assms(2) False by (simp add: changed_def)
qed

text \<open>
  C2. A change reopens the gate: once a call that changed something is recorded, the final
  answer is refused until that change is verified, inspected and signed off, whatever was
  proved before it and whether or not the task is being finalised.
\<close>

theorem change_reopens_gate:
  assumes "ag_evidence a = Some l" "\<not> ag_planMode a" "ag_deliveryProfile a"
    and "ag_loopGuardReceiptMark a \<le> Len l" "changed lib e"
  shows "fr_reason (fst (finalReadinessCheckFor lib (recordExecuted lib dl e a) fin)) \<noteq> []
    \<and> {GapSignoff, GapVerification, GapReview}
        \<subseteq> set (fr_missing (fst (finalReadinessCheckFor lib (recordExecuted lib dl e a) fin)))"
proof -
  obtain r l1 where r: "Len l \<le> Len l1" "rc_Success r" "rc_Mutation r"
    and b: "recordExecuted lib dl e a = a\<lparr>ag_evidence := Some (Record r l1)\<rparr>"
    using recordExecuted_changed [OF assms(1,5)] by blast
  let ?b = "a\<lparr>ag_evidence := Some (Record r l1)\<rparr>" and ?l = "Record r l1"
  note voids = mutation_voids [where l = l1, OF r(2,3)]
  have gaps: "{GapSignoff, GapVerification, GapReview} \<subseteq> fst ` set (deliveryGaps lib ?b ?l (Len l1) True msg)" for msg
    by (simp add: deliveryGaps_def Let_def voids)
  have unmet: "deliveryGaps lib ?b ?l (Len l1) True msg \<noteq> []" for msg using gaps [of msg] by auto
  have b_fields: "ag_evidence ?b = Some ?l" "\<not> ag_planMode ?b" "ag_deliveryProfile ?b"
    using assms by simp_all
  have "\<not> loopGuardAllowsFinal ?b"
    using voids(2) assms(4) r(1) by (simp add: loopGuardAllowsFinal_def)
  then have refused: "fr_reason (fst (finalReadinessCheckFor lib ?b fin)) \<noteq> []"
    using readiness_of_change [OF b_fields _ voids(1)] unmet by simp
  obtain n a2 where
    "fst (finalReadinessCheckFor lib ?b fin) = settledCheck True n
       (openGaps ?b ?l fin @ deliveryGaps lib ?b ?l (Len l1) True (fst (deliveryReviewGateFailure ?b))
        @ projectCheckGaps lib ?b ?l (Len l1)) a2"
    using check_of_change [OF b_fields voids(1)] by metis
  then have "{GapSignoff, GapVerification, GapReview} \<subseteq> set (fr_missing (fst (finalReadinessCheckFor lib ?b fin)))"
    using gaps by (auto simp: settledCheck_def)
  with refused show ?thesis unfolding b by blast
qed

definition plain_digest :: digest_lib where
  "plain_digest = \<lparr>dl_sha256hex = (\<lambda>s. s), dl_marshal = (\<lambda>v. [])\<rparr>"

definition editReadme :: executed where
  "editReadme =
     \<lparr>ex_Name = ''edit_file'', ex_Args = RawJson [] (JObj [(''path'', JStr ''README.md'')]), ex_ReadOnly = False,
      ex_TargetName = ''edit_file'', ex_TargetArgs = RawJson [] (JObj [(''path'', JStr ''README.md'')]),
      ex_TargetReadOnly = False, ex_Ok = True, ex_Output = ''ok''\<rparr>"

theorem change_reopens_gate_witness:
  "fr_reason (fst (finalReadinessCheckFor demo_lib
     (recordExecuted demo_lib plain_digest editReadme (demo_agent demo_ledger)) True)) \<noteq> []"
proof -
  have "changed demo_lib editReadme" by code_simp
  moreover have "ag_evidence (demo_agent demo_ledger) = Some demo_ledger" "\<not> ag_planMode (demo_agent demo_ledger)"
    "ag_deliveryProfile (demo_agent demo_ledger)" "ag_loopGuardReceiptMark (demo_agent demo_ledger) \<le> Len demo_ledger"
    by (simp_all add: demo_agent_def)
  ultimately show ?thesis using change_reopens_gate by blast
qed

end
