(* ===== verification/Task_Guarantees.thy ===== *)
theory Task_Guarantees imports Agent_Task_Invariant Agent_Guarantees begin

text \<open>
  What the task tools guarantee across the agent: an accepted sign-off really advances the
  canonical list, no todo_write can mark work completed that was not signed off, and the
  list survives its way through JSON and the ledger.
\<close>

subsection \<open>Sign-offs\<close>

lemma receipt_step:
  "rc_Step (ReceiptFromToolCall lib ''complete_step'' (RawJson t (JObj kvs)) ok ro) = completeStepIdentity kvs"
  by (simp add: ReceiptFromToolCall_def withFields_def bareReceipt_def Let_def)

text \<open>The list the tool looks at is the canonical one.\<close>

lemma step_list:
  assumes "tasks_ok a" "\<not> ag_planMode a"
  shows "same_tasks (stepTodos (toolContext msgs repl a)) (ag_todoState a)"
  using assms by (auto simp: stepTodos_def toolContext_def tasks_ok_def mirrors_def Let_def split: option.splits)

lemma step_accepted:
  assumes "completeStepExecute lib ctx (RawJson t (JObj kvs)) = Inr sg" "plain kvs"
  obtains m hasTodo where "verifyTodoStep ctx (completeStepIdentity kvs) = Inr (m, hasTodo)"
    "sg_Todo sg = (if hasTodo then Some m else None)" "sg_AlreadyCompleted sg = (hasTodo \<and> tm_Status m = ''completed'')"
proof -
  obtain p where p: "decodeStepArgs (RawJson t (JObj kvs)) = Some p"
    using assms(1) by (auto simp: completeStepExecute_def split: option.splits)
  note same = decoded_step [OF assms(2) p]
  show thesis
    using assms(1) that unfolding same
    by (auto simp: completeStepExecute_def p Let_def split: option.splits sum.splits prod.splits if_splits)
qed

text \<open>What a verified step is in the list.\<close>

lemma verified_step:
  assumes "verifyTodoStep ctx step = Inr (m, hasTodo)" "stepTodos ctx = ts"
  shows "ts = [] \<and> \<not> hasTodo \<or>
    (\<exists>i < length ts. hasTodo \<and> matchTodoStep step ts = matchAt ts i \<and> m = matchAt ts i
       \<and> (td_Status (ts ! i) = ''in_progress'' \<or> td_Status (ts ! i) = ''completed''))"
proof (cases "ts = []")
  case False
  then have f: "tm_Found (matchTodoStep step ts)" and m: "m = matchTodoStep step ts" and h: hasTodo
    and st: "tm_Status m = ''in_progress'' \<or> tm_Status m = ''completed''"
    using assms by (auto simp: verifyTodoStep_def MatchStep_def Let_def split: if_splits prod.splits)
  obtain i where i: "i < length ts" "matchTodoStep step ts = matchAt ts i" using matchTodoStep_at [OF f] .
  then show ?thesis using m h st by (auto simp: matchAt_def)
qed (use assms in \<open>simp add: verifyTodoStep_def\<close>)

lemma signed_list:
  assumes "tasks_ok a" "\<not> ag_planMode a" "ag_evidence a = Some l" "plain kvs"
    and "runCompleteStep lib dl msgs (RawJson t (JObj kvs)) out a = (Inr sg, a')"
  shows "case sg_Todo sg of
      None \<Rightarrow> ag_todoState a = [] \<and> ag_todoState a' = []
    | Some m \<Rightarrow> if sg_AlreadyCompleted sg then ag_todoState a' = ag_todoState a
        else stat (ag_todoState a ! nat (tm_Index m - 1)) = ''in_progress''
          \<and> advanced (ag_todoState a) (ag_todoState a')
          \<and> (\<exists>l'. ag_evidence a' = Some l' \<and> LatestTodos l' = (ag_todoState a', True))"
proof -
  let ?ctx = "toolContext msgs False a" and ?cs = "ag_todoState a" and ?step = "completeStepIdentity kvs"
  let ?rec = "ReceiptFromToolCall lib ''complete_step'' (RawJson t (JObj kvs)) True True"
  have ok: "completeStepExecute lib ?ctx (RawJson t (JObj kvs)) = Inr sg"
    and a': "a' = recordExecuted lib dl (taskCall ''complete_step'' (RawJson t (JObj kvs)) True out) a"
    using assms(5) by (auto simp: runCompleteStep_def Let_def isOk_def)
  have run: "a' = advanceCanonicalTodo lib dl ?step (recordReceipt ?rec a)"
    unfolding a' using assms(3) by (simp add: recordExecuted_def taskCall_def receipt_step Let_def)
  have ev: "ag_evidence (recordReceipt ?rec a) = Some (Record ?rec l)" using assms(3) by (simp add: recordReceipt_def)
  obtain m hasTodo where v: "verifyTodoStep ?ctx ?step = Inr (m, hasTodo)"
    and sg: "sg_Todo sg = (if hasTodo then Some m else None)" "sg_AlreadyCompleted sg = (hasTodo \<and> tm_Status m = ''completed'')"
    using step_accepted [OF ok assms(4)] .
  define ts where "ts = stepTodos ?ctx"
  have same: "same_tasks ts ?cs" unfolding ts_def using step_list [OF assms(1,2)] .
  note len = same_tasks_length [OF same]
  have valid: "tasks_valid ?cs" using assms(1) by (simp add: tasks_ok_def)
  show ?thesis
  proof (cases hasTodo)
    case False
    then have "?cs = []" using verified_step [OF v ts_def [symmetric]] len by auto
    then show ?thesis using False sg run by (simp add: advanceCanonicalTodo_def)
  next
    case True
    then obtain i where i: "i < length ts" "matchTodoStep ?step ts = matchAt ts i" "m = matchAt ts i"
      "td_Status (ts ! i) = ''in_progress'' \<or> td_Status (ts ! i) = ''completed''"
      using verified_step [OF v ts_def [symmetric]] by blast
    have st: "stat (?cs ! i) = todoStatus (td_Status (ts ! i))" using same_tasks_fields(4) [OF same i(1)] by simp
    have "tm_Found (matchTodoStep ?step ?cs)" "tm_Index (matchTodoStep ?step ?cs) = int i + 1"
      using matchTodoStep_same [OF same, of ?step] i(2) by (simp_all add: matchAt_def)
    then have adv: "advanceStep ?step ?cs = AdvanceSerialTodo ?cs (int i)"
      by (simp add: advanceStep_def MatchStep_def)
    have ne: "?cs \<noteq> []" using i(1) len by auto
    show ?thesis
    proof (cases "td_Status (ts ! i) = ''completed''")
      case fin: True
      then have "AdvanceSerialTodo ?cs (int i) = (?cs, False)"
        using st i(1) len by (simp add: AdvanceSerialTodo_def)
      then show ?thesis using fin True sg run i(3) ne adv
        by (simp add: advanceCanonicalTodo_def matchAt_def)
    next
      case False
      then have cur: "stat (?cs ! i) = ''in_progress''" using st i(4) by simp
      obtain new where new: "AdvanceSerialTodo ?cs (int i) = (new, True)" "advanced ?cs new"
        using valid_advance [of ?cs i] valid cur i(1) len by (auto simp: tasks_valid_def)
      have nv: "tasks_valid new" using advanced_tasks [OF valid new(2)] .
      have "ag_todoState a' = new" "ag_evidence a' = Some (Record (todoReceipt lib dl new) (Record ?rec l))"
        using run new adv ne ev by (simp_all add: advanceCanonicalTodo_def recordTodoState_def)
      moreover have "LatestTodos (Record (todoReceipt lib dl new) (Record ?rec l)) = (new, True)"
        using nv todoReceipt_todos [OF two_level_int64, of new lib dl] trimmed_id [of new]
        by (simp add: latest_todos_Record todoReceipt_written tasks_valid_def)
      ultimately show ?thesis using False True sg i(3) cur new(2)
        by (simp add: matchAt_def)
    qed
  qed
qed


text \<open>A session with a plan, for the witnesses.\<close>

definition plan_ab :: "TodoItem list" where
  "plan_ab = [demo_item ''a'' ''in_progress'' 0, demo_item ''b'' ''pending'' 0]"

definition sign_kvs :: "(gostr \<times> json) list" where
  "sign_kvs = [(''step'', JStr ''a''), (''result'', JStr ''r''),
     (''evidence'', JArr [JObj [(''kind'', JStr ''manual''), (''summary'', JStr ''s'')]])]"

definition planned :: Agent where
  "planned = beginRunTurn None [] [] False False
     (ReplaceTodoState demo_lib plain_digest plan_ab (demo_agent NewLedger))"

lemma planned_reachable: "task_reachable demo_lib plain_digest planned"
proof -
  have "task_reachable demo_lib plain_digest (demo_agent NewLedger)"
    by (rule task_reachable.start) (simp_all add: demo_agent_def)
  moreover have "two_level plan_ab" "trimmed plan_ab" by code_simp+
  ultimately show ?thesis
    unfolding planned_def by (blast intro: task_reachable.step task_step.host_list task_step.new_turn)
qed

lemma planned_fields:
  "ag_todoState planned = plan_ab" "ag_evidence planned = Some NewLedger" "\<not> ag_planMode planned"
  "ag_deliveryProfile planned" "ag_projectChecks planned = []"
proof -
  have "NormalizeSerialTodos plan_ab = plan_ab" by code_simp
  then show "ag_todoState planned = plan_ab" "ag_evidence planned = Some NewLedger" "\<not> ag_planMode planned"
    "ag_deliveryProfile planned" "ag_projectChecks planned = []"
    by (simp_all add: planned_def beginRunTurn_def beginScope_def leaseJobs_def ReplaceTodoState_def
        setTodoState_def recordTodoState_def demo_agent_def Let_def Reset_def NewLedger_def)
qed



lemma norm_a: "normalizeStepText ''a'' = ''a''"
proof -
  have "(char_of (97::nat) :: char) = CHR ''a''" by code_simp
  then show ?thesis
    by (simp add: normalizeStepText_def runes.simps decodeRune_def byte_val_def foldWidth_def isSpaceRune_def
        lowerRune_def runesString_def encodeRune_def byte_def)
qed

lemma match_a: "matchTodoStep ''a'' plan_ab = matchAt plan_ab 0"
proof -
  have "parseStepIndex ''a'' = None" by code_simp
  then show ?thesis
    by (simp add: matchTodoStep_def norm_a firstIndex_def indicesWhere_def sameStepText_def plan_ab_def
        demo_item_def Let_def upt_rec)
qed

definition plan_ctx :: step_ctx where
  "plan_ctx = \<lparr>tx_ledger = Some NewLedger, tx_todos = Some plan_ab, tx_planReplacement = False,
     sx_session = Some [], sx_delivery = True, sx_checks = []\<rparr>"

lemma verify_a: "verifyTodoStep plan_ctx ''a'' = Inr (matchAt plan_ab 0, True)"
proof -
  have "stepTodos plan_ctx = plan_ab" "FirstUnfinishedSubStep plan_ab 0 = (-1, False)" by code_simp+
  then show ?thesis
    by (simp add: verifyTodoStep_def MatchStep_def match_a) (simp add: matchAt_def plan_ab_def demo_item_def)
qed


subsection \<open>Rewriting the list\<close>

lemma firstError_none: "firstError f n = None \<longleftrightarrow> (\<forall>i < n. f i = None)"
proof -
  have "firstError f n = None \<longleftrightarrow> filter (\<lambda>i. f i \<noteq> None) [0..<n] = []"
    by (cases "filter (\<lambda>i. f i \<noteq> None) [0..<n]") (simp_all add: firstError_def List.map_filter_def)
  then show ?thesis by (auto simp: filter_empty_conv)
qed

text \<open>The log of a ledger that has a todo_write, split at the latest one.\<close>

definition latestWrite :: "Ledger \<Rightarrow> int" where
  "latestWrite l = lastIndex isTodoWrite (lg_receipts l)"

lemma todo_write_checks:
  assumes "todoWriteExecute ctx args = Inr r" "decodeTodoArgs args = Some ts"
  shows "verifyCompletedTodoPositions ctx ts = None" "verifyTodoCompletionTransitions ctx ts = None"
  using assms by (auto simp: todoWriteExecute_def split: sum.splits option.splits prod.splits)


definition done_a :: "TodoItem list" where
  "done_a = [demo_item ''a'' ''completed'' 0, demo_item ''b'' ''in_progress'' 0]"

definition done_args :: raw_json where
  "done_args = RawJson [] (encodeTodos done_a)"

definition done_ctx :: tool_ctx where
  "done_ctx = \<lparr>tx_ledger = Some NewLedger, tx_todos = Some done_a, tx_planReplacement = False\<rparr>"

lemma identity_a: "MatchTodoIdentity (done_a ! 0) done_a = (matchAt done_a 0, True)"
  by (simp add: MatchTodoIdentity_def firstIndex_def indicesWhere_def sameTodoIdentity_def sameStepText_def
      norm_a done_a_def demo_item_def upt_rec)

lemma norm_b: "normalizeStepText ''b'' = ''b''"
proof -
  have "(char_of (98::nat) :: char) = CHR ''b''" by code_simp
  then show ?thesis
    by (simp add: normalizeStepText_def runes.simps decodeRune_def byte_val_def foldWidth_def isSpaceRune_def
        lowerRune_def runesString_def encodeRune_def byte_def)
qed

lemma norm_empty: "normalizeStepText [] = []"
  by (simp add: normalizeStepText_def runesString_def)

lemma identity_b: "MatchTodoIdentity (done_a ! 1) done_a = (matchAt done_a 1, True)"
  by (simp add: MatchTodoIdentity_def firstIndex_def indicesWhere_def sameTodoIdentity_def sameStepText_def
      norm_a norm_b norm_empty done_a_def demo_item_def upt_rec)

lemma done_accepted: "todoWriteExecute done_ctx done_args = Inr (2, 1, 1, 0)"
proof -
  have d: "decodeTodoArgs done_args = Some done_a" "shapeLoop 0 done_a (0, 0, 0) = Inr (1, 1, 0)"
    "ValidateSerialTodos done_a = None" "todoBaseline done_ctx = done_a" "length done_a = 2"
    "UnverifiedCompletedTodos done_a NewLedger = ([], False)" by code_simp+
  have "done_a \<noteq> []" by (simp add: done_a_def)
  note d = d this
  have at: "done_a ! 0 = demo_item ''a'' ''completed'' 0" "done_a ! 1 = demo_item ''b'' ''in_progress'' 0"
    by (simp_all add: done_a_def)
  have st: "td_Status (demo_item c s n) = s" for c s n by (simp add: demo_item_def)
  have errs: "continuityError done_a done_a 0 = None" "continuityError done_a done_a 1 = None"
    "positionError done_a done_a 0 = None" "positionError done_a done_a 1 = None"
    "unsignedError done_a done_a 0 = None" "unsignedError done_a done_a 1 = None"
    unfolding continuityError_def positionError_def unsignedError_def identity_a identity_b Let_def
    by (simp_all add: identity_a [unfolded at] identity_b [unfolded at] matchAt_def at st)
  have "PreservesCompletedTodoPositions done_a done_a"
  proof -
    have "completedKept done_a 0 (done_a ! 0)" "completedKept done_a 1 (done_a ! 1)"
      unfolding completedKept_def identity_a identity_b by (simp_all add: at st d(5) matchAt_def todoStatus_def)
    then show ?thesis by (simp add: PreservesCompletedTodoPositions_def d(5) upt_rec)
  qed
  moreover have "firstError (continuityError done_a done_a) 2 = None" "firstError (positionError done_a done_a) 2 = None"
    "firstError (unsignedError done_a done_a) 2 = None"
    using errs by (simp_all add: firstError_none less_2_cases_iff)
  ultimately show ?thesis using d
    by (simp add: todoWriteExecute_def verifyTodoCurrentContinuity_def verifyCompletedTodoPositions_def
        verifyTodoCompletionTransitions_def done_ctx_def Let_def)
qed


text \<open>
  Task lists survive JSON: the synthetic todo_write receipt of any list with levels of 64
  bits is read back as that list with its texts trimmed, and it is what the ledger then
  reports as the latest list.
\<close>

theorem todo_receipt_round_trip:
  assumes "int64_levels ts"
  shows "decodeArray (decodeStruct todoMember noTodo)
      (if ts = [] then JNull else JArr (map encodeTodo ts)) = Some ts
    \<and> rc_Todos (todoReceipt lib dl ts) = normalizeTodos ts
    \<and> LatestTodos (Record (todoReceipt lib dl ts) l) = (normalizeTodos ts, True)"
  using decode_encodeTodos [OF assms] todoReceipt_todos [OF assms, of lib dl]
  by (simp add: latest_todos_Record todoReceipt_written del: decodeArray.simps)

theorem todo_receipt_round_trip_witness:
  "rc_Todos (todoReceipt demo_lib plain_digest [demo_item '' a'' ''pending'' 7]) = [demo_item ''a'' ''pending'' 7]"
proof -
  have "int64_levels [demo_item '' a'' ''pending'' 7]"
    "normalizeTodos [demo_item '' a'' ''pending'' 7] = [demo_item ''a'' ''pending'' 7]" by code_simp+
  then show ?thesis using todo_receipt_round_trip by metis
qed

end
