(* ===== verification/Agent_Stability.thy ===== *)
theory Agent_Stability imports Agent_Guarantees begin

text \<open>
  Ends of a turn: an accepted delivery stays accepted under calls that change nothing, and
  an answer that is not ready is sent back only a bounded number of times.
\<close>

subsection \<open>Calls that change nothing\<close>

lemma latestMutation_other: "\<not> mutates r \<Longrightarrow> LatestSuccessfulMutationIndex (Record r l) = LatestSuccessfulMutationIndex l"
  by (simp add: LatestSuccessfulMutationIndex_def)

lemma PathsSince_other:
  assumes "\<not> (rc_Success r \<and> (rc_Mutation r \<or> rc_Write r))"
  shows "PathsSince m (Record r l) = PathsSince m l"
proof -
  have "filter (\<lambda>r. rc_Success r \<and> (rc_Mutation r \<or> rc_Write r)) (drop n [recorded r l]) = []" for n
    using assms by (simp add: drop_one)
  then show ?thesis by (simp add: PathsSince_def since_append)
qed

lemma changeSet_other:
  assumes "\<not> mutates r" "m < int (length rs)"
  shows "changeSet (rs @ [r]) m = changeSet rs m"
  using assms by (auto simp: changeSet_def since_append drop_one nth_append nat_less_iff)

lemma reviewedByRisk_other:
  assumes "\<not> (rc_Success r \<and> (rc_Mutation r \<or> rc_Write r))" "m < Len l" "reviewedByRisk a l m"
  shows "reviewedByRisk (a\<lparr>ag_evidence := e\<rparr>) (Record r l) m"
proof -
  have "\<not> mutates (recorded r l)" using assms(1) by (simp add: mutates_def)
  then have risk: "MutationRiskAfter m (Record r l) = MutationRiskAfter m l"
    using changeSet_other assms(2) by (simp add: MutationRiskAfter_def ClassifyMutationRisk_def Len_def)
  have "HasSuccessfulStructuredReviewAfter kind m paths l \<Longrightarrow> HasSuccessfulStructuredReviewAfter kind m paths (Record r l)"
    for kind paths
    unfolding on_log [where l = l] on_log [where l = "Record r l"] receipts_Record by (rule structured.at.keeps)
  then show ?thesis using assms(3)
    unfolding reviewedByRisk_def reviewTool_def securityTool_def Let_def risk PathsSince_other [OF assms(1)]
    by (auto split: RiskLevel.splits)
qed

lemma signedOff_other:
  assumes "0 \<le> m" "m < Len l" "signedOff lib l m"
  shows "signedOff lib (Record r l) m"
proof -
  have "HasSuccessfulDeliverySignoffAfter lib m l"
    using signoff_iff [OF assms(1,2)] assms(3) by (simp add: signedOff_def)
  then have "HasSuccessfulDeliverySignoffAfter lib m (Record r l)"
    unfolding on_log [where l = l] on_log [where l = "Record r l"] receipts_Record by (rule signoff.at.keeps)
  then show ?thesis using signoff_iff [of m "Record r l" lib] assms(1,2) by (simp add: signedOff_def)
qed

lemma todoGap_other:
  assumes "\<not> isTodoWrite r" "mutates (lg_receipts l ! nat m)" "nat m < length (lg_receipts l)"
    and "HasSuccessfulTodoProgressReceipt l"
  shows "todoGap (a\<lparr>ag_evidence := e\<rparr>) (Record r l) = todoGap a l"
proof -
  have "HasAnySuccessfulReceipt l"
    using assms(2,3) by (auto simp: HasAnySuccessfulReceipt_def mutates_def list_ex_iff)
  moreover have "HasAnySuccessfulReceipt (Record r l)" using calculation by (simp add: HasAnySuccessfulReceipt_def)
  moreover have "HasSuccessfulTodoProgressReceipt (Record r l)"
    using assms(4) by (simp add: HasSuccessfulTodoProgressReceipt_def)
  moreover have "IncompleteLatestTodos (Record r l) = IncompleteLatestTodos l"
    using assms(1) by (simp add: IncompleteLatestTodos_def latestTodoWrite_def)
  moreover have "incompleteCanonicalTodos (a\<lparr>ag_evidence := e\<rparr>) = incompleteCanonicalTodos a"
    by (simp add: incompleteCanonicalTodos_def)
  ultimately show ?thesis using assms(4)
    by (cases "IncompleteLatestTodos l") (simp add: todoGap_def)
qed

text \<open>
  C8. Accepted deliveries are stable: once the final answer after a change is accepted, it
  stays accepted under any further receipt that neither changes something nor replaces the
  task list, successful or not.
\<close>

theorem accepted_stays_accepted:
  assumes "ag_evidence a = Some l" "\<not> ag_planMode a" "ag_deliveryProfile a" "\<not> loopGuardAllowsFinal a"
    and "LatestSuccessfulMutationIndex l = (m, True)" "HasSuccessfulTodoProgressReceipt l"
    and "fr_reason (fst (finalReadinessCheckFor lib a True)) = []"
    and "\<not> (rc_Success r \<and> (rc_Mutation r \<or> rc_Write r))" "\<not> isTodoWrite r"
  shows "fr_reason (fst (finalReadinessCheckFor lib (a\<lparr>ag_evidence := Some (Record r l)\<rparr>) True)) = []"
proof -
  let ?b = "a\<lparr>ag_evidence := Some (Record r l)\<rparr>" and ?l = "Record r l"
  note m = latest_mutation [OF assms(5)]
  have m': "LatestSuccessfulMutationIndex ?l = (m, True)" "m < Len ?l"
    using assms(5,8) m(2) by (simp_all add: latestMutation_other mutates_def)
  have b: "ag_evidence ?b = Some ?l" "\<not> ag_planMode ?b" "ag_deliveryProfile ?b" using assms by simp_all
  have "HasWriteOrCommandSince mark l \<Longrightarrow> HasWriteOrCommandSince mark ?l" for mark
    unfolding on_log [where l = l] on_log [where l = ?l] receipts_Record by (rule progress.keeps)
  then have lg: "\<not> loopGuardAllowsFinal ?b" using assms(1,4) by (auto simp: loopGuardAllowsFinal_def split: if_splits)
  have work: "HasSuccessfulWorkReceipt l \<Longrightarrow> HasSuccessfulWorkReceipt ?l"
    unfolding on_log [where l = l] on_log [where l = ?l] receipts_Record by (rule work.keeps)
  have command: "HasSuccessfulCommandAfter lib cmd m l \<Longrightarrow> HasSuccessfulCommandAfter lib cmd m ?l" for cmd
    unfolding on_log [where l = l] on_log [where l = ?l] receipts_Record by (rule command.at.keeps)
  have todo: "todoGap ?b ?l = todoGap a l"
    using todoGap_other [OF assms(9) m(3) _ assms(6)] m(1,2) by (simp add: Len_def nat_less_iff)
  have same: "checkpointApplies ?b = checkpointApplies a" by (simp add: checkpointApplies_def)
  note old = assms(7) [unfolded readiness_of_change [OF assms(1-5)] openGaps_none simp_thms expectation_met
      delivery_met [OF m(1,2)] project_checks_met capability_pass [OF assms(1,3,5)] review_pass [OF assms(1,3,5)]]
  show ?thesis
    unfolding readiness_of_change [OF b lg m'(1)] openGaps_none simp_thms expectation_met
      delivery_met [OF m(1) m'(2)] project_checks_met capability_pass [OF b(1,3) m'(1)] review_pass [OF b(1,3) m'(1)]
      todo same
    using old work command signedOff_other [OF m(1,2)] reviewedByRisk_other [OF assms(8) m(2)] by auto
qed

theorem accepted_stays_accepted_witness:
  "fr_reason (fst (finalReadinessCheckFor demo_lib
     ((demo_agent demo_ledger)\<lparr>ag_evidence := Some (Record (receipt ''grep'' []) demo_ledger)\<rparr>) True)) = []"
proof -
  let ?a = "demo_agent demo_ledger"
  have a: "ag_evidence ?a = Some demo_ledger" "\<not> ag_planMode ?a" "ag_deliveryProfile ?a"
    "\<not> loopGuardAllowsFinal ?a" by (simp_all add: demo_agent_def loopGuardAllowsFinal_def)
  have l: "LatestSuccessfulMutationIndex demo_ledger = (0, True)" "HasSuccessfulTodoProgressReceipt demo_ledger"
    by code_simp+
  have r: "fr_reason (fst (finalReadinessCheckFor demo_lib ?a True)) = []" by (rule demo_accepted)
  have "\<not> (rc_Success (receipt ''grep'' []) \<and> (rc_Mutation (receipt ''grep'' []) \<or> rc_Write (receipt ''grep'' [])))"
    "\<not> isTodoWrite (receipt ''grep'' [])" by (simp_all add: receipt_def isTodoWrite_def)
  then show ?thesis using accepted_stays_accepted [OF a l r] by blast
qed

subsection \<open>Sending an answer back\<close>

text \<open>The rounds of one turn: each answer is checked in turn until one ends it.\<close>

fun readinessRounds :: "finalReadinessCheck list \<Rightarrow> readiness_loop \<Rightarrow> final_outcome list" where
  "readinessRounds [] s = []"
| "readinessRounds (c # cs) s =
     (case readinessRound c s of
        (FinalRetried, s1) \<Rightarrow> FinalRetried # readinessRounds cs s1
      | (outcome, _) \<Rightarrow> [outcome])"

definition noRounds :: readiness_loop where
  "noRounds = \<lparr>rl_blocks = 0, rl_seen = []\<rparr>"

lemma round_retried:
  assumes "readinessRound c s = (FinalRetried, s1)"
  shows "rl_blocks s1 = Suc (rl_blocks s)" "rl_blocks s1 < 6" "set (rl_seen s1) = insert (progressSignature c) (set (rl_seen s))"
    "fr_reason c \<noteq> []" "rl_blocks s1 < 3 \<or> 0 < rl_blocks s \<and> progressSignature c \<notin> set (rl_seen s)"
  using assms
  by (auto simp: readinessRound_def Let_def maxFinalReadinessBlocks_def maxFinalReadinessBlocksWithProgress_def
      split: if_splits)

lemma rounds_bound: "rl_blocks s \<le> 5 \<Longrightarrow> length (readinessRounds cs s) \<le> 6 - rl_blocks s"
proof (induction cs arbitrary: s)
  case (Cons c cs)
  obtain out s1 where r: "readinessRound c s = (out, s1)" by force
  show ?case
  proof (cases "out = FinalRetried")
    case True
    then have "rl_blocks s1 = Suc (rl_blocks s)" "rl_blocks s1 < 6" using round_retried r by blast+
    then show ?thesis using Cons.IH [of s1] r True by simp
  next
    case False
    then show ?thesis using r Cons.prems by (cases out) simp_all
  qed
qed simp

lemma rounds_end:
  "rl_blocks s \<le> 5 \<Longrightarrow> 6 - rl_blocks s \<le> length cs \<Longrightarrow> \<exists>out \<in> set (readinessRounds cs s). out \<noteq> FinalRetried"
proof (induction cs arbitrary: s)
  case (Cons c cs)
  obtain out s1 where r: "readinessRound c s = (out, s1)" by force
  show ?case
  proof (cases "out = FinalRetried")
    case True
    then have "rl_blocks s1 = Suc (rl_blocks s)" "rl_blocks s1 < 6" using round_retried r by blast+
    then show ?thesis using Cons.IH [of s1] Cons.prems r True by auto
  next
    case False
    then show ?thesis using r by (cases out) auto
  qed
qed simp

lemma rounds_same_state:
  assumes "\<forall>c \<in> set cs. progressSignature c = sig" "rl_blocks s \<le> 2" "0 < rl_blocks s \<Longrightarrow> sig \<in> set (rl_seen s)"
  shows "length (readinessRounds cs s) \<le> 3 - rl_blocks s"
  using assms
proof (induction cs arbitrary: s)
  case (Cons c cs)
  obtain out s1 where r: "readinessRound c s = (out, s1)" by force
  show ?case
  proof (cases "out = FinalRetried")
    case True
    note n = round_retried [OF r [unfolded True]]
    have "rl_blocks s1 \<le> 2" using n(5) Cons.prems by auto
    moreover have "sig \<in> set (rl_seen s1)" using n(3) Cons.prems(1) by simp
    ultimately show ?thesis using Cons.IH [of s1] Cons.prems(1,2) n(1) r True by simp
  next
    case False
    then show ?thesis using r Cons.prems(2) by (cases out) simp_all
  qed
qed simp

lemma rounds_accept_ready: "FinalAccepted \<in> set (readinessRounds cs s) \<Longrightarrow> \<exists>c \<in> set cs. fr_reason c = []"
proof (induction cs arbitrary: s)
  case (Cons c cs)
  obtain out s1 where r: "readinessRound c s = (out, s1)" by force
  then show ?case using Cons
    by (cases out) (auto simp: readinessRound_def Let_def split: if_splits)
qed simp

text \<open>
  C9. Readiness retries are bounded: whatever the checks say, an answer is sent back at most
  five times before the sixth check ends the turn one way or the other; while the gaps do not
  change it ends after three; and it ends accepted only if some check found nothing missing.
\<close>

theorem readiness_retries_bounded:
  "length (readinessRounds cs noRounds) \<le> 6
   \<and> (6 \<le> length cs \<longrightarrow> (\<exists>out \<in> set (readinessRounds cs noRounds). out \<noteq> FinalRetried))
   \<and> ((\<forall>c \<in> set cs. progressSignature c = sig) \<longrightarrow> length (readinessRounds cs noRounds) \<le> 3)
   \<and> (FinalAccepted \<in> set (readinessRounds cs noRounds) \<longrightarrow> (\<exists>c \<in> set cs. fr_reason c = []))"
  using rounds_bound [of noRounds cs] rounds_end [of noRounds cs] rounds_same_state [of cs sig noRounds]
    rounds_accept_ready [of cs noRounds] by (simp add: noRounds_def)

definition stuckCheck :: finalReadinessCheck where
  "stuckCheck = \<lparr>fr_applies = True, fr_reason = ''r'', fr_incompleteTodos = 0, fr_missing = [GapSignoff]\<rparr>"

theorem readiness_retries_bounded_witness:
  "readinessRounds (replicate 6 stuckCheck) noRounds = [FinalRetried, FinalRetried, FinalExhausted 3 ''r'']
   \<and> length (readinessRounds (replicate 6 stuckCheck) noRounds) \<le> 3"
proof -
  have "\<forall>c \<in> set (replicate 6 stuckCheck). progressSignature c = progressSignature stuckCheck" by simp
  then have "length (readinessRounds (replicate 6 stuckCheck) noRounds) \<le> 3"
    using readiness_retries_bounded [of "replicate 6 stuckCheck" "progressSignature stuckCheck"] by blast
  moreover have "readinessRounds (replicate 6 stuckCheck) noRounds = [FinalRetried, FinalRetried, FinalExhausted 3 ''r'']"
    by (simp add: numeral_eq_Suc readinessRound_def noRounds_def stuckCheck_def Let_def
        maxFinalReadinessBlocks_def maxFinalReadinessBlocksWithProgress_def)
  ultimately show ?thesis by blast
qed

end
