(* ===== verification/Json_Valid.thy ===== *)
theory Json_Valid imports Go_Strings begin

text \<open>
  \<open>json.Valid\<close> of \<open>encoding/json\<close> as the scanner that library runs: one step function over the
  bytes with a stack of open objects and arrays. Call arguments that a stream cut off are
  recognised and closed with it (\<open>closeTruncatedJSON\<close> of \<open>internal/provider/provider.go\<close>).
\<close>

subsection \<open>The scanner\<close>

datatype parse_state = ParseObjectKey | ParseObjectValue | ParseArrayValue

datatype scan_state =
    BeginValueOrEmpty | BeginValue | BeginStringOrEmpty | BeginString | EndValue | EndTop
  | InString | InStringEsc | InStringEscU | InStringEscU1 | InStringEscU12 | InStringEscU123
  | ScanNeg | Scan1 | Scan0 | ScanDot | ScanDot0 | ScanE | ScanESign | ScanE0
  | InLiteral gostr

type_synonym scanner = "scan_state \<times> parse_state list"

definition jsonSpace :: "char \<Rightarrow> bool" where
  "jsonSpace c \<longleftrightarrow> c = CHR '' '' \<or> c = CHR 0x09 \<or> c = CHR 0x0D \<or> c = CHR 0x0A"

definition maxNestingDepth :: nat where "maxNestingDepth = 10000"

definition pushParseState :: "scan_state \<Rightarrow> parse_state \<Rightarrow> parse_state list \<Rightarrow> scanner option" where
  "pushParseState step p ps = (if Suc (length ps) \<le> maxNestingDepth then Some (step, p # ps) else None)"

definition popParseState :: "parse_state list \<Rightarrow> scanner option" where
  "popParseState ps = (case ps of [] \<Rightarrow> None | _ # rest \<Rightarrow> Some (if rest = [] then EndTop else EndValue, rest))"

definition stateEndValue :: "parse_state list \<Rightarrow> char \<Rightarrow> scanner option" where
  "stateEndValue ps c =
     (case ps of
        [] \<Rightarrow> if jsonSpace c then Some (EndTop, []) else None
      | p # rest \<Rightarrow>
          if jsonSpace c then Some (EndValue, ps)
          else
            (case p of
               ParseObjectKey \<Rightarrow> if c = CHR '':'' then Some (BeginValue, ParseObjectValue # rest) else None
             | ParseObjectValue \<Rightarrow>
                 if c = CHR '','' then Some (BeginString, ParseObjectKey # rest)
                 else if c = CHR ''}'' then popParseState ps else None
             | ParseArrayValue \<Rightarrow>
                 if c = CHR '','' then Some (BeginValue, ps)
                 else if c = CHR '']'' then popParseState ps else None))"

definition stateBeginValue :: "parse_state list \<Rightarrow> char \<Rightarrow> scanner option" where
  "stateBeginValue ps c =
     (if jsonSpace c then Some (BeginValue, ps)
      else if c = CHR ''{'' then pushParseState BeginStringOrEmpty ParseObjectKey ps
      else if c = CHR ''['' then pushParseState BeginValueOrEmpty ParseArrayValue ps
      else if c = dquote then Some (InString, ps)
      else if c = CHR ''-'' then Some (ScanNeg, ps)
      else if c = CHR ''0'' then Some (Scan0, ps)
      else if c = CHR ''t'' then Some (InLiteral ''rue'', ps)
      else if c = CHR ''f'' then Some (InLiteral ''alse'', ps)
      else if c = CHR ''n'' then Some (InLiteral ''ull'', ps)
      else if is_digit c then Some (Scan1, ps)
      else None)"

definition stateBeginString :: "parse_state list \<Rightarrow> char \<Rightarrow> scanner option" where
  "stateBeginString ps c =
     (if jsonSpace c then Some (BeginString, ps) else if c = dquote then Some (InString, ps) else None)"

definition state0 :: "parse_state list \<Rightarrow> char \<Rightarrow> scanner option" where
  "state0 ps c =
     (if c = CHR ''.'' then Some (ScanDot, ps)
      else if c = CHR ''e'' \<or> c = CHR ''E'' then Some (ScanE, ps) else stateEndValue ps c)"

definition isHex :: "char \<Rightarrow> bool" where
  "isHex c \<longleftrightarrow> is_digit c \<or> c \<in> set ''abcdefABCDEF''"

fun scanStep :: "scanner \<Rightarrow> char \<Rightarrow> scanner option" where
  "scanStep (BeginValueOrEmpty, ps) c =
     (if jsonSpace c then Some (BeginValueOrEmpty, ps)
      else if c = CHR '']'' then stateEndValue ps c else stateBeginValue ps c)"
| "scanStep (BeginValue, ps) c = stateBeginValue ps c"
| "scanStep (BeginStringOrEmpty, ps) c =
     (if jsonSpace c then Some (BeginStringOrEmpty, ps)
      else if c = CHR ''}'' then stateEndValue (ParseObjectValue # tl ps) c else stateBeginString ps c)"
| "scanStep (BeginString, ps) c = stateBeginString ps c"
| "scanStep (EndValue, ps) c = stateEndValue ps c"
| "scanStep (EndTop, ps) c = (if jsonSpace c then Some (EndTop, ps) else None)"
| "scanStep (InString, ps) c =
     (if c = dquote then Some (EndValue, ps)
      else if c = backslash then Some (InStringEsc, ps)
      else if of_char c < (0x20 :: nat) then None else Some (InString, ps))"
| "scanStep (InStringEsc, ps) c =
     (if c \<in> set ''bfnrt/'' \<or> c = backslash \<or> c = dquote then Some (InString, ps)
      else if c = CHR ''u'' then Some (InStringEscU, ps) else None)"
| "scanStep (InStringEscU, ps) c = (if isHex c then Some (InStringEscU1, ps) else None)"
| "scanStep (InStringEscU1, ps) c = (if isHex c then Some (InStringEscU12, ps) else None)"
| "scanStep (InStringEscU12, ps) c = (if isHex c then Some (InStringEscU123, ps) else None)"
| "scanStep (InStringEscU123, ps) c = (if isHex c then Some (InString, ps) else None)"
| "scanStep (ScanNeg, ps) c =
     (if c = CHR ''0'' then Some (Scan0, ps) else if is_digit c then Some (Scan1, ps) else None)"
| "scanStep (Scan1, ps) c = (if is_digit c then Some (Scan1, ps) else state0 ps c)"
| "scanStep (Scan0, ps) c = state0 ps c"
| "scanStep (ScanDot, ps) c = (if is_digit c then Some (ScanDot0, ps) else None)"
| "scanStep (ScanDot0, ps) c =
     (if is_digit c then Some (ScanDot0, ps)
      else if c = CHR ''e'' \<or> c = CHR ''E'' then Some (ScanE, ps) else stateEndValue ps c)"
| "scanStep (ScanE, ps) c =
     (if c = CHR ''+'' \<or> c = CHR ''-'' then Some (ScanESign, ps)
      else if is_digit c then Some (ScanE0, ps) else None)"
| "scanStep (ScanESign, ps) c = (if is_digit c then Some (ScanE0, ps) else None)"
| "scanStep (ScanE0, ps) c = (if is_digit c then Some (ScanE0, ps) else stateEndValue ps c)"
| "scanStep (InLiteral rest, ps) c =
     (case rest of
        [] \<Rightarrow> stateEndValue ps c
      | r # rs \<Rightarrow> if c = r then Some (if rs = [] then EndValue else InLiteral rs, ps) else None)"

fun scanAll :: "scanner \<Rightarrow> gostr \<Rightarrow> scanner option" where
  "scanAll sc [] = Some sc"
| "scanAll sc (c # s) = (case scanStep sc c of None \<Rightarrow> None | Some sc' \<Rightarrow> scanAll sc' s)"

text \<open>At the end one more space must leave the scanner at the top level.\<close>

definition scanEOF :: "scanner \<Rightarrow> bool" where
  "scanEOF sc \<longleftrightarrow> fst sc = EndTop \<or> (case scanStep sc CHR '' '' of Some (EndTop, _) \<Rightarrow> True | _ \<Rightarrow> False)"

definition Valid :: "gostr \<Rightarrow> bool" where
  "Valid s = (case scanAll (BeginValue, []) s of None \<Rightarrow> False | Some sc \<Rightarrow> scanEOF sc)"

lemma Valid_empty_object [simp]: "Valid ''{}''" by code_simp

lemma not_Valid_Nil [simp]: "\<not> Valid []" by code_simp

lemma scanAll_append:
  "scanAll sc (s @ t) = (case scanAll sc s of None \<Rightarrow> None | Some sc' \<Rightarrow> scanAll sc' t)"
  by (induction s arbitrary: sc) (auto split: option.splits)

subsection \<open>Closing truncated arguments\<close>

fun closeScan :: "char list \<Rightarrow> bool \<Rightarrow> bool \<Rightarrow> gostr \<Rightarrow> char list \<times> bool \<times> bool" where
  "closeScan stack inStr esc [] = (stack, inStr, esc)"
| "closeScan stack inStr esc (c # s) =
     (if inStr then
        (if esc then closeScan stack True False s
         else if c = backslash then closeScan stack True True s
         else if c = dquote then closeScan stack False esc s
         else closeScan stack True esc s)
      else if c = dquote then closeScan stack True esc s
      else if c = CHR ''{'' then closeScan (CHR ''}'' # stack) inStr esc s
      else if c = CHR ''['' then closeScan (CHR '']'' # stack) inStr esc s
      else if c = CHR ''}'' \<or> c = CHR '']'' then closeScan (tl stack) inStr esc s
      else closeScan stack inStr esc s)"

definition trimRightSpace :: "gostr \<Rightarrow> gostr" where
  "trimRightSpace s = rev (dropWhile jsonSpace (rev s))"

definition closeTruncatedJSON :: "gostr \<Rightarrow> gostr" where
  "closeTruncatedJSON s =
     (let (stack, inStr, esc) = closeScan [] False False s;
          out1 = (if esc then butlast s else s);
          out2 = (if inStr then out1 @ [dquote] else out1);
          trimmed = trimRightSpace out2;
          out3 = (if HasSuffix trimmed '','' then butlast trimmed
                  else if HasSuffix trimmed '':'' then trimmed @ ''null'' else out2);
          out = out3 @ stack
      in if Valid out then out else ''{}'')"

lemma Valid_closeTruncatedJSON [simp]: "Valid (closeTruncatedJSON s)"
  by (simp add: closeTruncatedJSON_def Let_def split: prod.splits)

lemma closeScan_stack:
  "set (fst (closeScan stack inStr esc s)) \<subseteq> set stack \<union> {CHR ''}'', CHR '']''}"
proof (induction s arbitrary: stack inStr esc)
  case (Cons c s)
  have "set (tl stack) \<subseteq> set stack" by (cases stack) auto
  then have "set (fst (closeScan (tl stack) i e s)) \<subseteq> set stack \<union> {CHR ''}'', CHR '']''}" for i e
    using Cons.IH [of "tl stack" i e] by blast
  moreover have "set (fst (closeScan (d # stack) i e s)) \<subseteq> set stack \<union> {CHR ''}'', CHR '']''}"
    if "d \<in> {CHR ''}'', CHR '']''}" for d i e
    using Cons.IH [of "d # stack" i e] that by auto
  ultimately show ?case using Cons.IH [of stack] by (simp only: closeScan.simps split: if_split) simp
qed auto

lemma trimRightSpace_prefix: "prefix (trimRightSpace s) s"
  unfolding trimRightSpace_def by (metis suffix_dropWhile suffix_to_prefix rev_rev_ident)

text \<open>Closing keeps a prefix of what arrived and adds closers only, or gives the empty object.\<close>

lemma closeTruncatedJSON_shape:
  "closeTruncatedJSON s = ''{}''
   \<or> (\<exists>kept added. prefix kept s \<and> closeTruncatedJSON s = kept @ added
        \<and> set added \<subseteq> set ''null}]'' \<union> {dquote})"
proof -
  obtain stack inStr esc where c: "closeScan [] False False s = (stack, inStr, esc)" by (cases "closeScan [] False False s")
  have st: "set stack \<subseteq> {CHR ''}'', CHR '']''}" using closeScan_stack [of "[]" False False s] c by simp
  define out1 where "out1 = (if esc then butlast s else s)"
  define out2 where "out2 = (if inStr then out1 @ [dquote] else out1)"
  define trimmed where "trimmed = trimRightSpace out2"
  have p1: "prefix out1 s" by (simp add: out1_def prefixeq_butlast)
  have split: "\<exists>kept added. prefix kept s \<and> x = kept @ added \<and> set added \<subseteq> {dquote}" if "prefix x out2" for x
  proof (cases "prefix x out1")
    case True
    then show ?thesis using p1 by (intro exI [of _ x] exI [of _ "[]"]) (auto intro: prefix_order.trans)
  next
    case False
    with that have "x = out1 @ [dquote]" by (auto simp: out2_def split: if_splits)
    then show ?thesis using p1 by auto
  qed
  have o3: "\<exists>kept added. prefix kept s \<and> out3 = kept @ added \<and> set added \<subseteq> set ''null'' \<union> {dquote}"
    if "out3 = (if HasSuffix trimmed '','' then butlast trimmed
                else if HasSuffix trimmed '':'' then trimmed @ ''null'' else out2)" for out3
  proof -
    note shape = that
    have "prefix trimmed out2" unfolding trimmed_def by (rule trimRightSpace_prefix)
    then have t: "prefix (butlast trimmed) out2" using prefixeq_butlast prefix_order.trans by blast
    obtain k a where ka: "prefix k s" "trimmed = k @ a" "set a \<subseteq> {dquote}" using split \<open>prefix trimmed out2\<close> by blast
    consider "out3 = butlast trimmed" | "out3 = trimmed @ ''null''" | "out3 = out2"
      using shape by (simp split: if_splits)
    then show ?thesis
    proof cases
      case 2
      then show ?thesis using ka by (intro exI [of _ k] exI [of _ "a @ ''null''"]) auto
    next
      case 1
      then show ?thesis using split [OF t] by blast
    next
      case 3
      then show ?thesis using split [of out2] by blast
    qed
  qed
  show ?thesis
  proof (cases "closeTruncatedJSON s = ''{}''")
    case False
    obtain out3 where o: "out3 = (if HasSuffix trimmed '','' then butlast trimmed
                else if HasSuffix trimmed '':'' then trimmed @ ''null'' else out2)" by blast
    from False have "closeTruncatedJSON s = out3 @ stack"
      unfolding closeTruncatedJSON_def c o trimmed_def out2_def out1_def by (auto simp: Let_def split: if_splits)
    moreover from o3 [OF o] obtain k a where "prefix k s" "out3 = k @ a" "set a \<subseteq> set ''null'' \<union> {dquote}" by blast
    ultimately show ?thesis using st by (intro disjI2 exI [of _ k] exI [of _ "a @ stack"]) auto
  qed simp
qed

end
