(* ===== verification/Provider_Messages.thy ===== *)
theory Provider_Messages imports Json_Valid begin

text \<open>
  The conversation of \<open>internal/provider/provider.go\<close>: messages and tool calls, what is removed
  before a request (\<open>ModelMessages\<close>), and the repair of histories. \<open>NormalizeMessages\<close> makes a
  history fit the tool-call contract of the model APIs, \<open>NormalizeSessionMessages\<close> repairs a
  stored session without dropping anything.
\<close>

subsection \<open>Messages\<close>

datatype Role = RoleSystem | RoleUser | RoleAssistant | RoleTool | RoleOther gostr

record ToolCall =
  tcl_ID :: gostr
  tcl_Name :: gostr
  tcl_Arguments :: gostr
  tcl_Diff :: gostr
  tcl_Added :: int
  tcl_Removed :: int
  tcl_ResolvedName :: gostr
  tcl_CapabilityID :: gostr
  tcl_ResolvedReadOnly :: "bool option"

record Message =
  msg_Role :: Role
  msg_Content :: gostr
  msg_RawContent :: gostr
  msg_ProviderContent :: gostr
  msg_ReasoningContent :: gostr
  msg_ToolCalls :: "ToolCall list"
  msg_ToolCallID :: gostr
  msg_Name :: gostr
  msg_CreatedAt :: int
  msg_LocalOnly :: bool

definition plainMessage :: "Role \<Rightarrow> gostr \<Rightarrow> Message" where
  "plainMessage role content =
     \<lparr>msg_Role = role, msg_Content = content, msg_RawContent = [], msg_ProviderContent = [],
      msg_ReasoningContent = [], msg_ToolCalls = [], msg_ToolCallID = [], msg_Name = [],
      msg_CreatedAt = 0, msg_LocalOnly = False\<rparr>"

definition interruptedToolResult :: gostr where
  "interruptedToolResult =
     ''[no result: the previous turn was interrupted before this tool call completed]''"

text \<open>The placeholder that answers a call nobody answered.\<close>

definition placeholder :: "ToolCall \<Rightarrow> Message" where
  "placeholder tc =
     (plainMessage RoleTool interruptedToolResult)\<lparr>msg_ToolCallID := tcl_ID tc, msg_Name := tcl_Name tc\<rparr>"

text \<open>An assistant turn that calls tools, and a result that can answer it.\<close>

definition isCaller :: "Message \<Rightarrow> bool" where
  "isCaller m \<longleftrightarrow> msg_Role m = RoleAssistant \<and> msg_ToolCalls m \<noteq> []"

definition isToolResult :: "Message \<Rightarrow> bool" where
  "isToolResult m \<longleftrightarrow> msg_Role m = RoleTool \<and> \<not> msg_LocalOnly m"

subsection \<open>Requests\<close>

definition modelMessage :: "Message \<Rightarrow> Message" where
  "modelMessage m =
     (let m1 = (if msg_ProviderContent m \<noteq> []
                then m\<lparr>msg_Content := msg_ProviderContent m, msg_ProviderContent := []\<rparr> else m)
      in m1\<lparr>msg_RawContent := []\<rparr>)"

definition ModelMessages :: "Message list \<Rightarrow> Message list" where
  "ModelMessages msgs =
     (if \<not> list_ex (\<lambda>m. msg_LocalOnly m \<or> msg_RawContent m \<noteq> [] \<or> msg_ProviderContent m \<noteq> []) msgs
      then msgs
      else map modelMessage (filter (\<lambda>m. \<not> msg_LocalOnly m) msgs))"

lemma ModelMessages_reference:
  "ModelMessages msgs = map modelMessage (filter (\<lambda>m. \<not> msg_LocalOnly m) msgs)"
proof (cases "list_ex (\<lambda>m. msg_LocalOnly m \<or> msg_RawContent m \<noteq> [] \<or> msg_ProviderContent m \<noteq> []) msgs")
  case False
  then have "map modelMessage (filter (\<lambda>m. \<not> msg_LocalOnly m) msgs) = msgs"
    by (induction msgs) (auto simp: modelMessage_def)
  with False show ?thesis by (simp add: ModelMessages_def)
qed (simp add: ModelMessages_def)

subsection \<open>Calls and results\<close>

fun idDistinctLoop :: "gostr list \<Rightarrow> ToolCall list \<Rightarrow> bool" where
  "idDistinctLoop seen [] = True"
| "idDistinctLoop seen (tc # tcs) =
     (if tcl_ID tc = [] then False
      else if tcl_ID tc \<in> set seen then False
      else idDistinctLoop (tcl_ID tc # seen) tcs)"

definition idDistinct :: "ToolCall list \<Rightarrow> bool" where
  "idDistinct calls = idDistinctLoop [] calls"

definition needsArgRepair :: "ToolCall \<Rightarrow> bool" where
  "needsArgRepair tc \<longleftrightarrow> tcl_Arguments tc \<noteq> [] \<and> \<not> Valid (tcl_Arguments tc)"

definition needsToolCallArgRepair :: "ToolCall list \<Rightarrow> bool" where
  "needsToolCallArgRepair calls = list_ex needsArgRepair calls"

definition repairToolCallArgs :: "Message \<Rightarrow> Message" where
  "repairToolCallArgs m =
     (if \<not> list_ex needsArgRepair (msg_ToolCalls m) then m
      else m\<lparr>msg_ToolCalls :=
               map (\<lambda>tc. if tcl_Arguments tc = [] \<or> Valid (tcl_Arguments tc) then tc
                         else tc\<lparr>tcl_Arguments := closeTruncatedJSON (tcl_Arguments tc)\<rparr>) (msg_ToolCalls m)\<rparr>)"

definition toolTurnWellFormed :: "ToolCall list \<Rightarrow> Message list \<Rightarrow> bool" where
  "toolTurnWellFormed calls results \<longleftrightarrow>
     length calls = length results \<and> list_all (\<lambda>tc. tcl_Name tc \<noteq> []) calls
     \<and> list_all (\<lambda>(tc, r). msg_ToolCallID r = tcl_ID tc \<and> msg_Name r = tcl_Name tc) (zip calls results)"

text \<open>The map \<open>byID\<close> keeps the last result of an id.\<close>

definition resultByID :: "Message list \<Rightarrow> gostr \<Rightarrow> Message option" where
  "resultByID avail = map_of (rev (map (\<lambda>r. (msg_ToolCallID r, r)) avail))"

definition nameByID :: "Message list \<Rightarrow> gostr \<Rightarrow> gostr option" where
  "nameByID results =
     map_of (rev (map (\<lambda>r. (msg_ToolCallID r, msg_Name r)) (filter (\<lambda>r. msg_Name r \<noteq> []) results)))"

fun pairByPosition :: "ToolCall list \<Rightarrow> Message list \<Rightarrow> Message list" where
  "pairByPosition [] avail = []"
| "pairByPosition (tc # tcs) (r # rs) =
     r\<lparr>msg_ToolCallID := tcl_ID tc, msg_Name := tcl_Name tc\<rparr> # pairByPosition tcs rs"
| "pairByPosition (tc # tcs) [] = placeholder tc # pairByPosition tcs []"

definition pairToolResults :: "ToolCall list \<Rightarrow> Message list \<Rightarrow> Message list" where
  "pairToolResults calls avail =
     (if idDistinct calls
      then map (\<lambda>tc. case resultByID avail (tcl_ID tc) of
                       Some r \<Rightarrow> r\<lparr>msg_Name := tcl_Name tc\<rparr>
                     | None \<Rightarrow> placeholder tc) calls
      else pairByPosition calls avail)"

definition sessionToolResults :: "ToolCall list \<Rightarrow> Message list \<Rightarrow> Message list" where
  "sessionToolResults calls avail =
     (if idDistinct calls
      then avail @ map placeholder (filter (\<lambda>tc. tcl_ID tc \<notin> msg_ToolCallID ` set avail) calls)
      else avail @ map placeholder (drop (length avail) calls))"

fun backfillByPosition :: "ToolCall list \<Rightarrow> Message list \<Rightarrow> ToolCall list" where
  "backfillByPosition (tc # tcs) (r # rs) =
     (if tcl_Name tc = [] then tc\<lparr>tcl_Name := msg_Name r\<rparr> else tc) # backfillByPosition tcs rs"
| "backfillByPosition tcs results = tcs"

definition backfillToolCallNames :: "ToolCall list \<Rightarrow> Message list \<Rightarrow> ToolCall list" where
  "backfillToolCallNames calls results =
     (if \<not> list_ex (\<lambda>tc. tcl_Name tc = []) calls then calls
      else if idDistinct calls
      then map (\<lambda>tc. if tcl_Name tc = []
                     then (case nameByID results (tcl_ID tc) of Some n \<Rightarrow> tc\<lparr>tcl_Name := n\<rparr> | None \<Rightarrow> tc)
                     else tc) calls
      else backfillByPosition calls results)"

subsection \<open>Normalisation\<close>

function fastPathOk :: "bool \<Rightarrow> Message list \<Rightarrow> bool" where
  "fastPathOk dropOrphanTools [] = True"
| "fastPathOk dropOrphanTools (m # ms) =
     (if msg_LocalOnly m then \<not> dropOrphanTools \<and> fastPathOk dropOrphanTools ms
      else if isCaller m then
        toolTurnWellFormed (msg_ToolCalls m) (takeWhile isToolResult ms)
        \<and> \<not> needsToolCallArgRepair (msg_ToolCalls m)
        \<and> fastPathOk dropOrphanTools (dropWhile isToolResult ms)
      else if msg_Role m = RoleTool \<and> dropOrphanTools then False
      else fastPathOk dropOrphanTools ms)"
  by pat_completeness auto
termination
  by (relation "measure (\<lambda>(_, ms). length ms)") (auto simp: less_Suc_eq_le length_dropWhile_le)

definition tryNormalizeFastPath :: "Message list \<Rightarrow> bool \<Rightarrow> Message list option" where
  "tryNormalizeFastPath msgs dropOrphanTools = (if fastPathOk dropOrphanTools msgs then Some msgs else None)"

function normalizeHistory :: "bool \<Rightarrow> Message list \<Rightarrow> Message list" where
  "normalizeHistory dropOrphanTools [] = []"
| "normalizeHistory dropOrphanTools (m # ms) =
     (if msg_LocalOnly m then
        (if dropOrphanTools then [] else [m]) @ normalizeHistory dropOrphanTools ms
      else if isCaller m then
        (let avail = takeWhile isToolResult ms;
             calls = backfillToolCallNames (msg_ToolCalls m) avail
         in repairToolCallArgs (m\<lparr>msg_ToolCalls := calls\<rparr>)
            # (if dropOrphanTools then pairToolResults calls avail else sessionToolResults calls avail)
            @ normalizeHistory dropOrphanTools (dropWhile isToolResult ms))
      else if msg_Role m = RoleTool then
        (if dropOrphanTools then [] else [m]) @ normalizeHistory dropOrphanTools ms
      else m # normalizeHistory dropOrphanTools ms)"
  by pat_completeness auto
termination
  by (relation "measure (\<lambda>(_, ms). length ms)") (auto simp: less_Suc_eq_le length_dropWhile_le)

definition normalizeMessages :: "Message list \<Rightarrow> bool \<Rightarrow> Message list" where
  "normalizeMessages msgs dropOrphanTools =
     (case tryNormalizeFastPath msgs dropOrphanTools of
        Some normalized \<Rightarrow> normalized
      | None \<Rightarrow> normalizeHistory dropOrphanTools msgs)"

definition NormalizeMessages :: "Message list \<Rightarrow> Message list" where
  "NormalizeMessages msgs = normalizeMessages msgs True"

definition NormalizeSessionMessages :: "Message list \<Rightarrow> Message list" where
  "NormalizeSessionMessages msgs = normalizeMessages msgs False"

definition SanitizeToolPairing :: "Message list \<Rightarrow> Message list" where
  "SanitizeToolPairing msgs = NormalizeMessages msgs"

subsection \<open>The contract of a history\<close>

text \<open>A turn is answered when its results are one per call, in call order, with id and name.\<close>

definition answered :: "ToolCall list \<Rightarrow> Message list \<Rightarrow> bool" where
  "answered calls results \<longleftrightarrow>
     map (\<lambda>tc. (tcl_ID tc, tcl_Name tc)) calls = map (\<lambda>r. (msg_ToolCallID r, msg_Name r)) results"

text \<open>
  A paired history: every assistant turn with calls is followed at once by its answers, and
  no other tool result occurs. Display-only messages stand between turns.
\<close>

function paired :: "Message list \<Rightarrow> bool" where
  "paired [] = True"
| "paired (m # ms) =
     (if msg_LocalOnly m then paired ms
      else if isCaller m then
        answered (msg_ToolCalls m) (takeWhile isToolResult ms) \<and> paired (dropWhile isToolResult ms)
      else msg_Role m \<noteq> RoleTool \<and> paired ms)"
  by pat_completeness auto
termination by (relation "measure length") (auto simp: less_Suc_eq_le length_dropWhile_le)

definition args_ok :: "Message \<Rightarrow> bool" where
  "args_ok m \<longleftrightarrow> isCaller m \<longrightarrow> \<not> list_ex needsArgRepair (msg_ToolCalls m)"

text \<open>What a model API accepts.\<close>

definition wire_ready :: "Message list \<Rightarrow> bool" where
  "wire_ready ms \<longleftrightarrow> paired ms \<and> list_all (\<lambda>m. \<not> msg_LocalOnly m) ms \<and> list_all args_ok ms"

text \<open>What a repaired session satisfies: calls are named when a result knows the name, and answered.\<close>

definition answers_all :: "ToolCall list \<Rightarrow> Message list \<Rightarrow> bool" where
  "answers_all calls results \<longleftrightarrow>
     (if idDistinct calls then \<forall>tc \<in> set calls. tcl_ID tc \<in> msg_ToolCallID ` set results
      else length calls \<le> length results)"

function session_ready :: "Message list \<Rightarrow> bool" where
  "session_ready [] = True"
| "session_ready (m # ms) =
     (if \<not> msg_LocalOnly m \<and> isCaller m then
        answers_all (msg_ToolCalls m) (takeWhile isToolResult ms)
        \<and> backfillToolCallNames (msg_ToolCalls m) (takeWhile isToolResult ms) = msg_ToolCalls m
        \<and> \<not> list_ex needsArgRepair (msg_ToolCalls m)
        \<and> session_ready (dropWhile isToolResult ms)
      else session_ready ms)"
  by pat_completeness auto
termination by (relation "measure length") (auto simp: less_Suc_eq_le length_dropWhile_le)

declare paired.simps(2) [simp del] session_ready.simps(2) [simp del]
  fastPathOk.simps(2) [simp del] normalizeHistory.simps(2) [simp del]

end
