(* ===== verification/Provider_Repair.thy ===== *)
theory Provider_Repair imports Provider_Messages begin

text \<open>
  What the repairs of a history promise. A repair is a function onto its well-formed values
  that leaves them alone (locale \<open>repair\<close>); both normalisations are repairs, and the fast path
  is the loop.
\<close>

subsection \<open>Repairs\<close>

locale repair =
  fixes f :: "'a \<Rightarrow> 'a" and ok :: "'a \<Rightarrow> bool"
  assumes repaired: "ok (f x)" and untouched: "ok x \<Longrightarrow> f x = x"
begin

lemma idem: "f (f x) = f x"
  by (rule untouched [OF repaired])

lemma fixpoint_iff: "f x = x \<longleftrightarrow> ok x"
  using repaired untouched by metis

lemma ok_iff_range: "ok y \<longleftrightarrow> y \<in> range f"
  using repaired untouched by (metis rangeE rangeI)

end

subsection \<open>Identifiers\<close>

lemma idDistinctLoop_iff:
  "idDistinctLoop seen calls \<longleftrightarrow>
     [] \<notin> set (map tcl_ID calls) \<and> distinct (map tcl_ID calls) \<and> set seen \<inter> set (map tcl_ID calls) = {}"
  by (induction calls arbitrary: seen) auto

lemma idDistinct_iff: "idDistinct calls \<longleftrightarrow> [] \<notin> set (map tcl_ID calls) \<and> distinct (map tcl_ID calls)"
  by (simp add: idDistinct_def idDistinctLoop_iff)

lemma idDistinct_cong: "map tcl_ID calls = map tcl_ID calls' \<Longrightarrow> idDistinct calls = idDistinct calls'"
  by (simp only: idDistinct_iff)

lemma idDistinct_same:
  "idDistinct calls \<Longrightarrow> tc \<in> set calls \<Longrightarrow> tc' \<in> set calls \<Longrightarrow> tcl_ID tc = tcl_ID tc' \<Longrightarrow> tc = tc'"
  by (auto simp: idDistinct_iff distinct_map dest: inj_onD)

lemma resultByID_Some:
  "resultByID avail i = Some r \<Longrightarrow> r \<in> set avail \<and> msg_ToolCallID r = i"
  by (auto simp: resultByID_def dest!: map_of_SomeD)

lemma resultByID_None: "resultByID avail i = None \<longleftrightarrow> i \<notin> msg_ToolCallID ` set avail"
  by (auto simp: resultByID_def map_of_eq_None_iff image_image)

lemma nameByID_Some:
  "nameByID results i = Some n \<Longrightarrow> n \<noteq> [] \<and> (\<exists>r \<in> set results. msg_ToolCallID r = i \<and> msg_Name r = n)"
  by (auto simp: nameByID_def dest!: map_of_SomeD)

lemma nameByID_None:
  "nameByID results i = None \<longleftrightarrow> (\<forall>r \<in> set results. msg_ToolCallID r = i \<longrightarrow> msg_Name r = [])"
  by (force simp: nameByID_def map_of_eq_None_iff)

subsection \<open>Backfilled names\<close>

lemma backfillByPosition_ids [simp]: "map tcl_ID (backfillByPosition calls rs) = map tcl_ID calls"
  by (induction calls rs rule: backfillByPosition.induct) auto

lemma backfill_ids [simp]: "map tcl_ID (backfillToolCallNames calls rs) = map tcl_ID calls"
  by (auto simp: backfillToolCallNames_def split: option.splits)

lemma backfill_idDistinct [simp]: "idDistinct (backfillToolCallNames calls rs) = idDistinct calls"
  by (rule idDistinct_cong) simp

lemma length_backfill [simp]: "length (backfillToolCallNames calls rs) = length calls"
  using arg_cong [OF backfill_ids [of calls rs], of length] by (simp only: length_map)

lemma backfill_Nil_iff [simp]: "backfillToolCallNames calls rs = [] \<longleftrightarrow> calls = []"
  by (metis length_0_conv length_backfill)

lemma backfillByPosition_answered:
  "answered calls rs \<Longrightarrow> backfillByPosition calls rs = calls"
  by (induction calls rs rule: backfillByPosition.induct) (auto simp: answered_def)

lemma answered_result:
  "answered calls rs \<Longrightarrow> r \<in> set rs \<Longrightarrow> \<exists>tc \<in> set calls. tcl_ID tc = msg_ToolCallID r \<and> tcl_Name tc = msg_Name r"
proof -
  assume a: "answered calls rs" and r: "r \<in> set rs"
  then have "(msg_ToolCallID r, msg_Name r) \<in> set (map (\<lambda>tc. (tcl_ID tc, tcl_Name tc)) calls)"
    unfolding answered_def by simp
  then show ?thesis by auto
qed

lemma backfill_answered:
  assumes "answered calls rs"
  shows "backfillToolCallNames calls rs = calls"
proof (cases "idDistinct calls")
  case True
  have "nameByID rs (tcl_ID tc) = None" if "tc \<in> set calls" "tcl_Name tc = []" for tc
    unfolding nameByID_None
    using answered_result [OF assms] idDistinct_same [OF True _ that(1)] that(2) by metis
  with True show ?thesis by (auto simp: backfillToolCallNames_def intro!: map_idI)
qed (simp add: backfillToolCallNames_def backfillByPosition_answered assms)

subsection \<open>Paired results\<close>

lemma pairByPosition_answered: "answered calls (pairByPosition calls rs)"
  by (induction calls rs rule: pairByPosition.induct) (auto simp: answered_def placeholder_def)

lemma pairByPosition_id: "answered calls rs \<Longrightarrow> pairByPosition calls rs = rs"
  by (induction calls rs rule: pairByPosition.induct) (auto simp: answered_def)

lemma pairToolResults_answered: "answered calls (pairToolResults calls rs)"
proof (cases "idDistinct calls")
  case True
  then show ?thesis
    by (auto simp: pairToolResults_def answered_def placeholder_def dest!: resultByID_Some split: option.splits)
qed (simp add: pairToolResults_def pairByPosition_answered)

lemma answered_ids: "answered calls rs \<Longrightarrow> map tcl_ID calls = map msg_ToolCallID rs"
  unfolding answered_def by (metis (no_types, lifting) comp_apply fst_conv map_eq_conv map_map)

lemma pairToolResults_id:
  assumes "answered calls rs"
  shows "pairToolResults calls rs = rs"
proof (cases "idDistinct calls")
  case True
  have len: "length rs = length calls" using assms by (metis answered_def length_map)
  have nth: "tcl_ID (calls ! k) = msg_ToolCallID (rs ! k) \<and> tcl_Name (calls ! k) = msg_Name (rs ! k)"
    if "k < length calls" for k
    using arg_cong [OF assms [unfolded answered_def], of "\<lambda>xs. xs ! k"] that len by simp
  have "resultByID rs (tcl_ID (calls ! k)) = Some (rs ! k)" if k: "k < length calls" for k
  proof -
    obtain r where r: "resultByID rs (tcl_ID (calls ! k)) = Some r"
      using resultByID_None [of rs "tcl_ID (calls ! k)"] nth [OF k] k len by (cases "resultByID rs (tcl_ID (calls ! k))") auto
    then obtain j where j: "j < length rs" "r = rs ! j" "msg_ToolCallID (rs ! j) = tcl_ID (calls ! k)"
      using resultByID_Some by (metis in_set_conv_nth)
    have "tcl_ID (calls ! j) = tcl_ID (calls ! k)" using nth [of j] j len by simp
    then have "j = k" using True j(1) k len by (simp add: idDistinct_iff distinct_conv_nth) (metis nth_map length_map)
    with r j show ?thesis by simp
  qed
  then have "pairToolResults calls rs = rs"
    using True len nth by (intro nth_equalityI) (simp_all add: pairToolResults_def)
  then show ?thesis .
qed (simp add: pairToolResults_def pairByPosition_id assms)

lemma isToolResult_placeholder [simp]: "isToolResult (placeholder tc)"
  by (simp add: isToolResult_def placeholder_def plainMessage_def)

lemma isToolResult_answering [simp]:
  "isToolResult (r\<lparr>msg_ToolCallID := i, msg_Name := n\<rparr>) = isToolResult r"
  "isToolResult (r\<lparr>msg_Name := n\<rparr>) = isToolResult r" "isToolResult (r\<lparr>msg_ToolCallID := i\<rparr>) = isToolResult r"
  by (simp_all add: isToolResult_def)

lemma pairByPosition_results: "list_all isToolResult rs \<Longrightarrow> list_all isToolResult (pairByPosition calls rs)"
  by (induction calls rs rule: pairByPosition.induct) auto

lemma pairToolResults_results: "list_all isToolResult rs \<Longrightarrow> list_all isToolResult (pairToolResults calls rs)"
proof (cases "idDistinct calls")
  case True
  then show "list_all isToolResult rs \<Longrightarrow> list_all isToolResult (pairToolResults calls rs)"
    by (auto simp: pairToolResults_def list_all_iff dest!: resultByID_Some split: option.splits)
qed (simp add: pairToolResults_def pairByPosition_results)

lemma sessionToolResults_results: "list_all isToolResult rs \<Longrightarrow> list_all isToolResult (sessionToolResults calls rs)"
  by (auto simp: sessionToolResults_def list_all_iff)

subsection \<open>Arguments\<close>

lemma needsArgRepair_closed [simp]: "\<not> needsArgRepair (tc\<lparr>tcl_Arguments := closeTruncatedJSON s\<rparr>)"
  by (simp add: needsArgRepair_def)

lemma repairToolCallArgs_skeleton [simp]:
  "isCaller (repairToolCallArgs m) = isCaller m" "msg_LocalOnly (repairToolCallArgs m) = msg_LocalOnly m"
  "map tcl_ID (msg_ToolCalls (repairToolCallArgs m)) = map tcl_ID (msg_ToolCalls m)"
  "map tcl_Name (msg_ToolCalls (repairToolCallArgs m)) = map tcl_Name (msg_ToolCalls m)"
  by (simp_all add: repairToolCallArgs_def isCaller_def comp_def if_distrib cong: if_cong)

lemma repairToolCallArgs_ok: "\<not> list_ex needsArgRepair (msg_ToolCalls (repairToolCallArgs m))"
  by (auto simp: repairToolCallArgs_def list_ex_iff) (auto simp: needsArgRepair_def)

lemma repairToolCallArgs_id: "\<not> list_ex needsArgRepair (msg_ToolCalls m) \<Longrightarrow> repairToolCallArgs m = m"
  by (simp add: repairToolCallArgs_def)

lemma answered_repair [simp]: "answered (msg_ToolCalls (repairToolCallArgs m)) rs = answered (msg_ToolCalls m) rs"
proof -
  have z: "map (\<lambda>tc. (tcl_ID tc, tcl_Name tc)) cs = zip (map tcl_ID cs) (map tcl_Name cs)" for cs
    by (induction cs) auto
  show ?thesis by (simp add: answered_def z)
qed

subsection \<open>Turns\<close>

lemma takeWhile_turn:
  "list_all isToolResult rs \<Longrightarrow> takeWhile isToolResult X = []
   \<Longrightarrow> takeWhile isToolResult (rs @ X) = rs \<and> dropWhile isToolResult (rs @ X) = X"
  by (induction rs) (auto, metis takeWhile_dropWhile_id self_append_conv2)

lemma takeWhile_results [simp]: "list_all isToolResult (takeWhile isToolResult ms)"
  by (auto simp: list_all_iff dest: set_takeWhileD)

lemma takeWhile_dropWhile_results [simp]: "takeWhile isToolResult (dropWhile isToolResult ms) = []"
  by (induction ms) auto

lemma paired_turn:
  "isCaller m \<Longrightarrow> \<not> msg_LocalOnly m \<Longrightarrow> list_all isToolResult rs \<Longrightarrow> takeWhile isToolResult X = []
   \<Longrightarrow> paired (m # rs @ X) \<longleftrightarrow> answered (msg_ToolCalls m) rs \<and> paired X"
  by (simp add: paired.simps takeWhile_turn)

lemma isCaller_not_result [simp]: "isCaller m \<Longrightarrow> \<not> isToolResult m"
  by (simp add: isCaller_def isToolResult_def)

lemma not_result [simp]: "msg_LocalOnly m \<Longrightarrow> \<not> isToolResult m" "msg_Role m \<noteq> RoleTool \<Longrightarrow> \<not> isToolResult m"
  by (simp_all add: isToolResult_def)

lemma paired_no_result: "paired ms \<Longrightarrow> takeWhile isToolResult ms = []"
  by (cases ms) (auto simp: paired.simps split: if_splits)

lemma isCaller_backfill [simp]:
  "isCaller (m\<lparr>msg_ToolCalls := backfillToolCallNames (msg_ToolCalls m) rs\<rparr>) = isCaller m"
  by (simp add: isCaller_def)

text \<open>What the loop emits never starts with a result that has lost its call.\<close>

lemma loop_True_no_result: "takeWhile isToolResult (normalizeHistory True ms) = []"
proof (induction True ms rule: normalizeHistory.induct)
  case (2 m ms)
  then show ?case by (auto simp: normalizeHistory.simps Let_def)
qed simp

lemma loop_False_no_result: "takeWhile isToolResult ms = [] \<Longrightarrow> takeWhile isToolResult (normalizeHistory False ms) = []"
proof (induction False ms rule: normalizeHistory.induct)
  case (2 m ms)
  then show ?case by (auto simp: normalizeHistory.simps Let_def split: if_splits)
qed simp

subsection \<open>Requests\<close>

lemma loop_wire_ready: "wire_ready (normalizeHistory True ms)"
proof (induction True ms rule: normalizeHistory.induct)
  case (2 m ms)
  show ?case
  proof (cases "\<not> msg_LocalOnly m \<and> isCaller m")
    case True
    let ?rs = "takeWhile isToolResult ms" and ?X = "normalizeHistory True (dropWhile isToolResult ms)"
    let ?calls = "backfillToolCallNames (msg_ToolCalls m) ?rs"
    let ?m = "repairToolCallArgs (m\<lparr>msg_ToolCalls := ?calls\<rparr>)"
    have rs: "list_all isToolResult (pairToolResults ?calls ?rs)" by (simp add: pairToolResults_results)
    have "paired (?m # pairToolResults ?calls ?rs @ ?X)"
      using True 2(2) rs loop_True_no_result pairToolResults_answered [of ?calls ?rs]
      by (subst paired_turn) (auto simp: wire_ready_def)
    moreover have "list_all (\<lambda>m. \<not> msg_LocalOnly m \<and> args_ok m) (pairToolResults ?calls ?rs)"
      using rs by (auto simp: list_all_iff isToolResult_def args_ok_def isCaller_def)
    ultimately show ?thesis using 2(2) True repairToolCallArgs_ok
      by (auto simp: normalizeHistory.simps Let_def wire_ready_def args_ok_def list_all_iff)
  next
    case False
    then show ?thesis using 2
      by (auto simp: normalizeHistory.simps wire_ready_def paired.simps args_ok_def)
  qed
qed (simp add: wire_ready_def)

lemma wire_ready_loop: "wire_ready ms \<Longrightarrow> normalizeHistory True ms = ms"
proof (induction True ms rule: normalizeHistory.induct)
  case (2 m ms)
  have local: "\<not> msg_LocalOnly m" using 2(5) by (simp add: wire_ready_def)
  show ?case
  proof (cases "isCaller m")
    case True
    let ?rs = "takeWhile isToolResult ms"
    have a: "answered (msg_ToolCalls m) ?rs" and p: "paired (dropWhile isToolResult ms)"
      using 2(5) True local by (simp_all add: wire_ready_def paired.simps)
    have "wire_ready (dropWhile isToolResult ms)"
      using 2(5) p by (auto simp: wire_ready_def list_all_iff dest: set_dropWhileD)
    then have "normalizeHistory True (dropWhile isToolResult ms) = dropWhile isToolResult ms"
      using 2(2) [OF local True refl refl] by simp
    moreover have "\<not> list_ex needsArgRepair (msg_ToolCalls m)" using 2(5) True by (simp add: wire_ready_def args_ok_def)
    ultimately show ?thesis using True local a
      by (simp add: normalizeHistory.simps backfill_answered pairToolResults_id repairToolCallArgs_id)
  next
    case False
    then show ?thesis using 2 local by (auto simp: normalizeHistory.simps wire_ready_def paired.simps)
  qed
qed simp

lemma toolTurnWellFormed_answered: "toolTurnWellFormed calls rs \<Longrightarrow> answered calls rs"
  by (induction calls rs rule: list_induct2') (auto simp: toolTurnWellFormed_def answered_def)

lemma fast_path_wire: "fastPathOk True ms \<Longrightarrow> wire_ready ms"
proof (induction True ms rule: fastPathOk.induct)
  case (2 m ms)
  show ?case
  proof (cases "isCaller m")
    case True
    have f: "\<not> msg_LocalOnly m" "toolTurnWellFormed (msg_ToolCalls m) (takeWhile isToolResult ms)"
      "\<not> list_ex needsArgRepair (msg_ToolCalls m)" "fastPathOk True (dropWhile isToolResult ms)"
      using 2(4) True by (auto simp: fastPathOk.simps needsToolCallArgRepair_def split: if_splits)
    have w: "wire_ready (dropWhile isToolResult ms)" using 2(2) f True by simp
    have "\<not> msg_LocalOnly x \<and> args_ok x" if "x \<in> set ms" for x
    proof -
      from that have "x \<in> set (takeWhile isToolResult ms) \<or> x \<in> set (dropWhile isToolResult ms)"
        by (metis Un_iff set_append takeWhile_dropWhile_id)
      then show ?thesis
      proof
        assume "x \<in> set (takeWhile isToolResult ms)"
        then have "isToolResult x" by (rule set_takeWhileD [THEN conjunct2])
        then show ?thesis by (auto simp: isToolResult_def args_ok_def isCaller_def)
      qed (use w in \<open>simp add: wire_ready_def list_all_iff\<close>)
    qed
    moreover have "args_ok m" using f(3) by (simp add: args_ok_def)
    ultimately have "list_all (\<lambda>x. \<not> msg_LocalOnly x) (m # ms)" "list_all args_ok (m # ms)"
      using f(1) by (simp_all add: list_all_iff)
    moreover have "paired (m # ms)"
      using w f(1) True toolTurnWellFormed_answered [OF f(2)] by (simp add: wire_ready_def paired.simps)
    ultimately show ?thesis by (simp add: wire_ready_def)
  next
    case False
    then show ?thesis using 2
      by (auto simp: fastPathOk.simps wire_ready_def paired.simps args_ok_def split: if_splits)
  qed
qed (simp add: wire_ready_def)

interpretation wire: repair NormalizeMessages wire_ready
proof
  show "wire_ready (NormalizeMessages ms)" for ms
    by (simp add: NormalizeMessages_def normalizeMessages_def tryNormalizeFastPath_def fast_path_wire loop_wire_ready)
  show "NormalizeMessages ms = ms" if "wire_ready ms" for ms
    using that by (simp add: NormalizeMessages_def normalizeMessages_def tryNormalizeFastPath_def wire_ready_loop)
qed

lemma NormalizeMessages_loop: "NormalizeMessages ms = normalizeHistory True ms"
  using wire_ready_loop [OF fast_path_wire]
  by (simp add: NormalizeMessages_def normalizeMessages_def tryNormalizeFastPath_def)

subsection \<open>Sessions\<close>

lemma answers_all_cong: "map tcl_ID calls = map tcl_ID calls' \<Longrightarrow> answers_all calls rs = answers_all calls' rs"
proof -
  assume ids: "map tcl_ID calls = map tcl_ID calls'"
  have "(\<forall>tc \<in> set calls. tcl_ID tc \<in> A) \<longleftrightarrow> (\<forall>tc \<in> set calls'. tcl_ID tc \<in> A)" for A
    using arg_cong [OF ids, of set] by (metis (mono_tags, lifting) imageI image_iff list.set_map)
  moreover have "length calls = length calls'" using ids by (metis length_map)
  ultimately show ?thesis using idDistinct_cong [OF ids] by (simp add: answers_all_def)
qed

lemma placeholder_simps [simp]:
  "msg_ToolCallID (placeholder tc) = tcl_ID tc" "msg_Name (placeholder tc) = tcl_Name tc"
  "msg_LocalOnly (placeholder tc) = False" "msg_Role (placeholder tc) = RoleTool"
  by (simp_all add: placeholder_def plainMessage_def)

lemma sessionToolResults_answers: "answers_all calls (sessionToolResults calls rs)"
  by (auto simp: answers_all_def sessionToolResults_def image_Un image_image)

lemma sessionToolResults_id: "answers_all calls rs \<Longrightarrow> sessionToolResults calls rs = rs"
  by (auto simp: answers_all_def sessionToolResults_def filter_empty_conv)

text \<open>Backfilling twice, with the placeholders among the results, changes nothing more.\<close>

definition names_settled :: "ToolCall list \<Rightarrow> Message list \<Rightarrow> bool" where
  "names_settled calls rs \<longleftrightarrow>
     (if idDistinct calls
      then \<forall>tc \<in> set calls. \<forall>r \<in> set rs. tcl_Name tc = [] \<and> msg_ToolCallID r = tcl_ID tc \<longrightarrow> msg_Name r = []
      else \<forall>k < min (length calls) (length rs). tcl_Name (calls ! k) = [] \<longrightarrow> msg_Name (rs ! k) = [])"

lemma rename_id: "(tc\<lparr>tcl_Name := n\<rparr> = tc) \<longleftrightarrow> n = tcl_Name tc" for tc :: ToolCall
  by (cases tc) auto

lemma backfillByPosition_settled:
  "backfillByPosition calls rs = calls
   \<longleftrightarrow> (\<forall>k < min (length calls) (length rs). tcl_Name (calls ! k) = [] \<longrightarrow> msg_Name (rs ! k) = [])"
  by (induction calls rs rule: backfillByPosition.induct) (auto simp: rename_id less_Suc_eq_0_disj nth_Cons')

lemma map_id_iff: "map f xs = xs \<longleftrightarrow> (\<forall>x \<in> set xs. f x = x)"
  by (induction xs) auto

lemma backfill_settled: "backfillToolCallNames calls rs = calls \<longleftrightarrow> names_settled calls rs"
proof (cases "idDistinct calls")
  case True
  have "(case nameByID rs i of Some n \<Rightarrow> tc\<lparr>tcl_Name := n\<rparr> | None \<Rightarrow> tc) = tc \<longleftrightarrow> nameByID rs i = None"
    if "tcl_Name tc = []" for i and tc :: ToolCall
    using that nameByID_Some [of rs i] by (auto simp: rename_id split: option.splits)
  then have "map (\<lambda>tc. if tcl_Name tc = [] then (case nameByID rs (tcl_ID tc) of Some n \<Rightarrow> tc\<lparr>tcl_Name := n\<rparr> | None \<Rightarrow> tc)
        else tc) calls = calls \<longleftrightarrow> (\<forall>tc \<in> set calls. tcl_Name tc = [] \<longrightarrow> nameByID rs (tcl_ID tc) = None)"
    unfolding map_id_iff by auto
  then show ?thesis using True
    by (auto simp: backfillToolCallNames_def names_settled_def nameByID_None list_ex_iff)
next
  case False
  then show ?thesis
    by (auto simp: backfillToolCallNames_def names_settled_def backfillByPosition_settled list_ex_iff)
qed

text \<open>Names and ids alone decide.\<close>

definition call_names :: "ToolCall list \<Rightarrow> (gostr \<times> gostr) list" where
  "call_names calls = map (\<lambda>tc. (tcl_ID tc, tcl_Name tc)) calls"

lemma call_names_nth: "k < length calls \<Longrightarrow> call_names calls ! k = (tcl_ID (calls ! k), tcl_Name (calls ! k))"
  by (simp add: call_names_def)

lemma call_names_repair [simp]:
  "call_names (msg_ToolCalls (repairToolCallArgs m)) = call_names (msg_ToolCalls m)"
  by (simp add: repairToolCallArgs_def call_names_def comp_def if_distrib cong: if_cong)

lemma call_names_ids: "call_names calls = call_names calls' \<Longrightarrow> map tcl_ID calls = map tcl_ID calls'"
  unfolding call_names_def by (metis (no_types, lifting) comp_apply fst_conv map_eq_conv map_map)

lemma names_settled_cong:
  assumes "call_names calls = call_names calls'"
  shows "names_settled calls rs = names_settled calls' rs"
proof -
  have len: "length calls = length calls'" using assms by (metis call_names_def length_map)
  have "(\<forall>tc \<in> set cs. \<forall>r \<in> set rs. tcl_Name tc = [] \<and> msg_ToolCallID r = tcl_ID tc \<longrightarrow> msg_Name r = [])
      \<longleftrightarrow> (\<forall>(i, n) \<in> set (call_names cs). \<forall>r \<in> set rs. n = [] \<and> msg_ToolCallID r = i \<longrightarrow> msg_Name r = [])" for cs
    by (auto simp: call_names_def)
  moreover have "tcl_Name (calls ! k) = tcl_Name (calls' ! k)" if "k < length calls" for k
    using call_names_nth [OF that] call_names_nth [of k calls'] that len assms by simp
  ultimately show ?thesis
    unfolding names_settled_def idDistinct_cong [OF call_names_ids [OF assms]] using assms len by auto
qed

lemma backfillByPosition_name:
  "k < length rs \<Longrightarrow> k < length calls \<Longrightarrow> tcl_Name (backfillByPosition calls rs ! k) = []
   \<Longrightarrow> msg_Name (rs ! k) = []"
proof (induction calls rs arbitrary: k rule: backfillByPosition.induct)
  case (1 tc tcs r rs)
  then show ?case by (cases k) (auto split: if_splits)
qed auto

lemma length_backfillByPosition [simp]: "length (backfillByPosition calls rs) = length calls"
  by (induction calls rs rule: backfillByPosition.induct) auto

lemma backfill_nameless:
  assumes "idDistinct calls" "tc \<in> set (backfillToolCallNames calls rs)" "tcl_Name tc = []"
  shows "nameByID rs (tcl_ID tc) = None"
  using assms nameByID_Some [of rs]
  by (fastforce simp: backfillToolCallNames_def list_ex_iff split: if_splits option.splits)

lemma session_results_settled:
  "names_settled (backfillToolCallNames calls rs) (sessionToolResults (backfillToolCallNames calls rs) rs)"
  (is "names_settled ?calls ?rs")
proof (cases "idDistinct calls")
  case True
  then have d: "idDistinct ?calls" by simp
  have "msg_Name r = []" if "tc \<in> set ?calls" "tcl_Name tc = []" "r \<in> set ?rs" "msg_ToolCallID r = tcl_ID tc" for tc r
  proof (cases "r \<in> set rs")
    case True
    then show ?thesis using backfill_nameless [OF \<open>idDistinct calls\<close> that(1,2)] that(4) by (simp add: nameByID_None)
  next
    case False
    with that(3) obtain tc' where "tc' \<in> set ?calls" "r = placeholder tc'"
      using d by (auto simp: sessionToolResults_def)
    then show ?thesis using idDistinct_same [OF d _ that(1)] that(2,4) by auto
  qed
  with d show ?thesis by (simp add: names_settled_def)
next
  case False
  then have d: "\<not> idDistinct ?calls" by simp
  have "msg_Name (?rs ! k) = []" if "k < length ?calls" "k < length ?rs" "tcl_Name (?calls ! k) = []" for k
  proof (cases "k < length rs")
    case True
    have "msg_Name (rs ! k) = []"
    proof (cases "list_ex (\<lambda>tc. tcl_Name tc = []) calls")
      case True
      then show ?thesis using False that \<open>k < length rs\<close> backfillByPosition_name [of k rs calls]
        by (simp add: backfillToolCallNames_def)
    next
      case False
      then show ?thesis using that by (auto simp: backfillToolCallNames_def list_ex_iff)
    qed
    then show ?thesis using True d by (simp add: sessionToolResults_def nth_append)
  next
    case False
    then show ?thesis using that d by (simp add: sessionToolResults_def nth_append)
  qed
  with d show ?thesis by (simp add: names_settled_def)
qed

lemma session_ready_turn:
  "isCaller m \<Longrightarrow> \<not> msg_LocalOnly m \<Longrightarrow> list_all isToolResult rs \<Longrightarrow> takeWhile isToolResult X = []
   \<Longrightarrow> session_ready (m # rs @ X) \<longleftrightarrow>
        answers_all (msg_ToolCalls m) rs \<and> names_settled (msg_ToolCalls m) rs
        \<and> \<not> list_ex needsArgRepair (msg_ToolCalls m) \<and> session_ready X"
  by (simp add: session_ready.simps takeWhile_turn backfill_settled)

lemma session_ready_other:
  "msg_LocalOnly m \<or> \<not> isCaller m \<Longrightarrow> session_ready (m # ms) = session_ready ms"
  by (auto simp: session_ready.simps)

lemma loop_session_ready: "session_ready (normalizeHistory False ms)"
proof (induction False ms rule: normalizeHistory.induct)
  case (2 m ms)
  show ?case
  proof (cases "\<not> msg_LocalOnly m \<and> isCaller m")
    case True
    let ?rs = "takeWhile isToolResult ms" and ?X = "normalizeHistory False (dropWhile isToolResult ms)"
    let ?calls = "backfillToolCallNames (msg_ToolCalls m) ?rs"
    let ?m = "repairToolCallArgs (m\<lparr>msg_ToolCalls := ?calls\<rparr>)"
    have names: "call_names (msg_ToolCalls ?m) = call_names ?calls" by simp
    have "session_ready (?m # sessionToolResults ?calls ?rs @ ?X)"
      using True 2(2) loop_False_no_result [of "dropWhile isToolResult ms"] repairToolCallArgs_ok
        sessionToolResults_answers [of ?calls ?rs] session_results_settled [of "msg_ToolCalls m" ?rs]
        names_settled_cong [OF names] answers_all_cong [OF call_names_ids [OF names]]
      by (subst session_ready_turn) (auto simp: sessionToolResults_results)
    then show ?thesis using True by (simp add: normalizeHistory.simps Let_def)
  next
    case False
    then show ?thesis using 2 by (auto simp: normalizeHistory.simps session_ready_other)
  qed
qed simp

lemma session_ready_loop: "session_ready ms \<Longrightarrow> normalizeHistory False ms = ms"
proof (induction False ms rule: normalizeHistory.induct)
  case (2 m ms)
  show ?case
  proof (cases "\<not> msg_LocalOnly m \<and> isCaller m")
    case True
    let ?rs = "takeWhile isToolResult ms"
    have r: "answers_all (msg_ToolCalls m) ?rs" "backfillToolCallNames (msg_ToolCalls m) ?rs = msg_ToolCalls m"
      "\<not> list_ex needsArgRepair (msg_ToolCalls m)" "session_ready (dropWhile isToolResult ms)"
      using 2(5) True by (simp_all add: session_ready.simps)
    then have "normalizeHistory False (dropWhile isToolResult ms) = dropWhile isToolResult ms"
      using 2(2) True by simp
    with r True show ?thesis
      by (simp add: normalizeHistory.simps sessionToolResults_id repairToolCallArgs_id)
  next
    case False
    then show ?thesis using 2 by (auto simp: normalizeHistory.simps session_ready_other)
  qed
qed simp

lemma answered_answers_all: "answered calls rs \<Longrightarrow> answers_all calls rs"
proof -
  assume a: "answered calls rs"
  then have "set (map tcl_ID calls) = set (map msg_ToolCallID rs)" "length calls = length rs"
    using answered_ids [OF a] by (metis, metis answered_def length_map)
  then show ?thesis by (auto simp: answers_all_def)
qed

lemma fast_path_session: "fastPathOk False ms \<Longrightarrow> session_ready ms"
proof (induction False ms rule: fastPathOk.induct)
  case (2 m ms)
  show ?case
  proof (cases "\<not> msg_LocalOnly m \<and> isCaller m")
    case True
    have f: "toolTurnWellFormed (msg_ToolCalls m) (takeWhile isToolResult ms)"
      "\<not> list_ex needsArgRepair (msg_ToolCalls m)" "fastPathOk False (dropWhile isToolResult ms)"
      using 2(4) True by (auto simp: fastPathOk.simps needsToolCallArgRepair_def split: if_splits)
    note a = toolTurnWellFormed_answered [OF f(1)]
    show ?thesis using True f 2(2) by (simp add: session_ready.simps answered_answers_all [OF a] backfill_answered [OF a])
  next
    case False
    then show ?thesis using 2 by (auto simp: fastPathOk.simps session_ready_other split: if_splits)
  qed
qed simp

interpretation session: repair NormalizeSessionMessages session_ready
proof
  show "session_ready (NormalizeSessionMessages ms)" for ms
    by (simp add: NormalizeSessionMessages_def normalizeMessages_def tryNormalizeFastPath_def
        fast_path_session loop_session_ready)
  show "NormalizeSessionMessages ms = ms" if "session_ready ms" for ms
    using that by (simp add: NormalizeSessionMessages_def normalizeMessages_def tryNormalizeFastPath_def
        session_ready_loop)
qed

lemma NormalizeSessionMessages_loop: "NormalizeSessionMessages ms = normalizeHistory False ms"
  using session_ready_loop [OF fast_path_session]
  by (simp add: NormalizeSessionMessages_def normalizeMessages_def tryNormalizeFastPath_def)

subsection \<open>Nothing is lost\<close>

text \<open>A call may get a name it lacked and arguments closed when they were cut off.\<close>

definition call_kept :: "ToolCall \<Rightarrow> ToolCall \<Rightarrow> bool" where
  "call_kept tc tc' \<longleftrightarrow>
     tc' = tc\<lparr>tcl_Name := tcl_Name tc', tcl_Arguments := tcl_Arguments tc'\<rparr>
     \<and> (tcl_Name tc \<noteq> [] \<longrightarrow> tcl_Name tc' = tcl_Name tc)
     \<and> (\<not> needsArgRepair tc \<longrightarrow> tcl_Arguments tc' = tcl_Arguments tc)"

definition message_kept :: "Message \<Rightarrow> Message \<Rightarrow> bool" where
  "message_kept m m' \<longleftrightarrow>
     m'\<lparr>msg_ToolCalls := msg_ToolCalls m\<rparr> = m \<and> list_all2 call_kept (msg_ToolCalls m) (msg_ToolCalls m')"

inductive lossless :: "Message list \<Rightarrow> Message list \<Rightarrow> bool" where
  lossless_Nil: "lossless [] []"
| lossless_Keep: "message_kept m m' \<Longrightarrow> lossless ms out \<Longrightarrow> lossless (m # ms) (m' # out)"
| lossless_Add: "lossless ms out \<Longrightarrow> lossless ms (placeholder tc # out)"

lemma call_kept_refl [simp]: "call_kept tc tc" by (simp add: call_kept_def)

lemma message_kept_refl [simp]: "message_kept m m"
  by (simp add: message_kept_def list_all2_refl)

lemma lossless_prefix: "lossless ms out \<Longrightarrow> lossless (xs @ ms) (xs @ out)"
  by (induction xs) (auto intro: lossless_Keep)

lemma lossless_placeholders: "lossless ms out \<Longrightarrow> lossless ms (map placeholder tcs @ out)"
  by (induction tcs) (auto intro: lossless_Add)

lemma lossless_sessionToolResults:
  "lossless ms out \<Longrightarrow> lossless (rs @ ms) (sessionToolResults calls rs @ out)"
  by (simp add: sessionToolResults_def lossless_prefix lossless_placeholders)

lemma backfillByPosition_renames:
  "list_all2 (\<lambda>tc tc'. tc' = tc\<lparr>tcl_Name := tcl_Name tc'\<rparr> \<and> (tcl_Name tc \<noteq> [] \<longrightarrow> tc' = tc)) calls
     (backfillByPosition calls rs)"
  by (induction calls rs rule: backfillByPosition.induct) (auto simp: list_all2_refl)

lemma backfill_renames:
  "list_all2 (\<lambda>tc tc'. tc' = tc\<lparr>tcl_Name := tcl_Name tc'\<rparr> \<and> (tcl_Name tc \<noteq> [] \<longrightarrow> tc' = tc)) calls
     (backfillToolCallNames calls rs)"
  using backfillByPosition_renames [of calls rs]
  by (auto simp: backfillToolCallNames_def list_all2_refl list.rel_map split: option.splits
      intro!: list.rel_refl_strong)

lemma closing_kept:
  "tc' = tc\<lparr>tcl_Name := tcl_Name tc'\<rparr> \<Longrightarrow> tcl_Name tc \<noteq> [] \<longrightarrow> tc' = tc
   \<Longrightarrow> call_kept tc (if tcl_Arguments tc' = [] \<or> Valid (tcl_Arguments tc') then tc'
                     else tc'\<lparr>tcl_Arguments := closeTruncatedJSON (tcl_Arguments tc')\<rparr>)"
  by (cases tc; cases tc') (auto simp: call_kept_def needsArgRepair_def)

lemma renaming_kept:
  "tc' = tc\<lparr>tcl_Name := tcl_Name tc'\<rparr> \<Longrightarrow> tcl_Name tc \<noteq> [] \<longrightarrow> tc' = tc \<Longrightarrow> call_kept tc tc'"
  by (cases tc; cases tc') (auto simp: call_kept_def)

lemma repaired_caller_kept:
  "message_kept m (repairToolCallArgs (m\<lparr>msg_ToolCalls := backfillToolCallNames (msg_ToolCalls m) rs\<rparr>))"
proof -
  let ?calls = "backfillToolCallNames (msg_ToolCalls m) rs"
  have "list_all2 call_kept (msg_ToolCalls m)
      (map (\<lambda>tc. if tcl_Arguments tc = [] \<or> Valid (tcl_Arguments tc) then tc
                 else tc\<lparr>tcl_Arguments := closeTruncatedJSON (tcl_Arguments tc)\<rparr>) ?calls)"
    unfolding list.rel_map by (rule list_all2_mono [OF backfill_renames]) (use closing_kept in blast)
  moreover have "list_all2 call_kept (msg_ToolCalls m) ?calls"
    by (rule list_all2_mono [OF backfill_renames]) (use renaming_kept in blast)
  ultimately show ?thesis by (simp add: message_kept_def repairToolCallArgs_def)
qed

lemma loop_lossless: "lossless ms (normalizeHistory False ms)"
proof (induction False ms rule: normalizeHistory.induct)
  case (2 m ms)
  show ?case
  proof (cases "\<not> msg_LocalOnly m \<and> isCaller m")
    case True
    let ?rs = "takeWhile isToolResult ms"
    have "lossless (?rs @ dropWhile isToolResult ms)
        (sessionToolResults (backfillToolCallNames (msg_ToolCalls m) ?rs) ?rs
          @ normalizeHistory False (dropWhile isToolResult ms))"
      using True 2(2) by (intro lossless_sessionToolResults) simp
    then show ?thesis using True repaired_caller_kept
      by (auto simp: normalizeHistory.simps Let_def intro!: lossless_Keep)
  next
    case False
    then show ?thesis using 2 by (auto simp: normalizeHistory.simps intro!: lossless_Keep message_kept_refl)
  qed
qed (simp add: lossless_Nil)

end
