(* ===== verification/Agent_Session.thy ===== *)
theory Agent_Session imports Provider_Repair Prelude begin

text \<open>
  The conversation history of one task: \<open>internal/agent/session.go\<close>. The run loop is the only
  writer of a session; each method is one function on it. The version counts changes, the
  rewrite version changes that are not appends, and the persisted rewrite version is the newest
  rewrite whose transcript reached the disk.
\<close>

record Session =
  se_Messages :: "Message list"
  se_version :: u64
  se_rewriteVersion :: int
  se_persistedRewriteVersion :: int

definition NewSession :: "gostr \<Rightarrow> Session" where
  "NewSession system =
     \<lparr>se_Messages = (if system \<noteq> [] then [plainMessage RoleSystem system] else []),
      se_version = 0, se_rewriteVersion = 0, se_persistedRewriteVersion = 0\<rparr>"

definition Add :: "Message \<Rightarrow> Session \<Rightarrow> Session" where
  "Add m s = s\<lparr>se_Messages := se_Messages s @ [m], se_version := se_version s + 1\<rparr>"

definition Replace :: "Message list \<Rightarrow> Session \<Rightarrow> Session" where
  "Replace msgs s = s\<lparr>se_Messages := msgs, se_version := se_version s + 1\<rparr>"

definition Rewrite :: "Message list \<Rightarrow> Session \<Rightarrow> Session" where
  "Rewrite msgs s =
     s\<lparr>se_Messages := msgs, se_rewriteVersion := se_rewriteVersion s + 1, se_version := se_version s + 1\<rparr>"

definition IncrementRewrite :: "Session \<Rightarrow> Session" where
  "IncrementRewrite s = s\<lparr>se_rewriteVersion := se_rewriteVersion s + 1, se_version := se_version s + 1\<rparr>"

definition NeedsRewriteSave :: "Session \<Rightarrow> bool" where
  "NeedsRewriteSave s \<longleftrightarrow> se_rewriteVersion s > se_persistedRewriteVersion s"

definition HasContent :: "Session \<Rightarrow> bool" where
  "HasContent s = list_ex (\<lambda>m. msg_Role m \<noteq> RoleSystem) (se_Messages s)"

definition HasSystemMessage :: "Session \<Rightarrow> bool" where
  "HasSystemMessage s = (case se_Messages s of [] \<Rightarrow> False | m # _ \<Rightarrow> msg_Role m = RoleSystem)"

text \<open>Updating the newest matching call: the first match of the last assistant message that has one.\<close>

fun updateCall :: "gostr \<Rightarrow> (ToolCall \<Rightarrow> ToolCall) \<Rightarrow> ToolCall list \<Rightarrow> ToolCall list option" where
  "updateCall i f [] = None"
| "updateCall i f (c # cs) =
     (if tcl_ID c = i then Some (f c # cs)
      else (case updateCall i f cs of None \<Rightarrow> None | Some cs' \<Rightarrow> Some (c # cs')))"

fun updateNewest :: "gostr \<Rightarrow> (ToolCall \<Rightarrow> ToolCall) \<Rightarrow> Message list \<Rightarrow> Message list option" where
  "updateNewest i f [] = None"
| "updateNewest i f (m # ms) =
     (case updateNewest i f ms of
        Some ms' \<Rightarrow> Some (m # ms')
      | None \<Rightarrow>
          if msg_Role m \<noteq> RoleAssistant then None
          else (case updateCall i f (msg_ToolCalls m) of
                  None \<Rightarrow> None
                | Some calls \<Rightarrow> Some (m\<lparr>msg_ToolCalls := calls\<rparr> # ms)))"

definition UpdateToolCallPreview :: "ToolCall \<Rightarrow> Session \<Rightarrow> Session \<times> bool" where
  "UpdateToolCallPreview call s =
     (if tcl_ID call = [] then (s, False)
      else
        (case updateNewest (tcl_ID call)
             (\<lambda>c. c\<lparr>tcl_Diff := tcl_Diff call, tcl_Added := tcl_Added call, tcl_Removed := tcl_Removed call\<rparr>)
             (se_Messages s) of
           None \<Rightarrow> (s, False)
         | Some msgs \<Rightarrow> (Rewrite msgs s, True)))"

definition UpdateToolCallResolution :: "ToolCall \<Rightarrow> Session \<Rightarrow> Session \<times> bool" where
  "UpdateToolCallResolution call s =
     (if tcl_ID call = [] \<or> tcl_ResolvedReadOnly call = None then (s, False)
      else
        (case updateNewest (tcl_ID call)
             (\<lambda>c. c\<lparr>tcl_ResolvedName := tcl_ResolvedName call, tcl_CapabilityID := tcl_CapabilityID call,
                   tcl_ResolvedReadOnly := tcl_ResolvedReadOnly call\<rparr>)
             (se_Messages s) of
           None \<Rightarrow> (s, False)
         | Some msgs \<Rightarrow> (Rewrite msgs s, True)))"

subsection \<open>The skeleton of a history\<close>

text \<open>
  Everything the tool-call contract can see of a message: contents and display metadata of
  calls are not part of it.
\<close>

definition skeleton :: "Message \<Rightarrow> bool \<times> Role \<times> (gostr \<times> gostr) list \<times> gostr \<times> gostr" where
  "skeleton m = (msg_LocalOnly m, msg_Role m, call_names (msg_ToolCalls m), msg_ToolCallID m, msg_Name m)"

lemma skeleton_caller: "skeleton m = skeleton m' \<Longrightarrow> isCaller m = isCaller m'"
  by (auto simp: skeleton_def isCaller_def call_names_def)

lemma skeleton_result: "skeleton m = skeleton m' \<Longrightarrow> isToolResult m = isToolResult m'"
  by (auto simp: skeleton_def isToolResult_def)

lemma skeleton_answer: "skeleton m = skeleton m' \<Longrightarrow> (msg_ToolCallID m, msg_Name m) = (msg_ToolCallID m', msg_Name m')"
  by (auto simp: skeleton_def)

lemma map_skeleton_takeWhile:
  "map skeleton ms = map skeleton ms'
   \<Longrightarrow> map skeleton (takeWhile isToolResult ms) = map skeleton (takeWhile isToolResult ms')
     \<and> map skeleton (dropWhile isToolResult ms) = map skeleton (dropWhile isToolResult ms')"
proof (induction ms arbitrary: ms')
  case (Cons m ms)
  then obtain m' ns where c: "ms' = m' # ns" "skeleton m = skeleton m'" "map skeleton ms = map skeleton ns"
    by (cases ms') auto
  show ?case using Cons.IH [OF c(3)] c skeleton_result [OF c(2)] by simp
qed simp

definition answer :: "Message \<Rightarrow> gostr \<times> gostr" where
  "answer m = (msg_ToolCallID m, msg_Name m)"

lemma map_answer_skeleton: "map skeleton rs = map skeleton rs' \<Longrightarrow> map answer rs = map answer rs'"
proof (induction rs arbitrary: rs')
  case (Cons r rs)
  then obtain r' ns where c: "rs' = r' # ns" "skeleton r = skeleton r'" "map skeleton rs = map skeleton ns"
    by (cases rs') auto
  show ?case using Cons.IH [OF c(3)] c skeleton_answer [OF c(2)] by (simp add: answer_def)
qed simp

lemma answered_skeleton:
  "call_names calls = call_names calls' \<Longrightarrow> map skeleton rs = map skeleton rs'
   \<Longrightarrow> answered calls rs = answered calls' rs'"
  using map_answer_skeleton [of rs rs'] by (simp add: answered_def call_names_def answer_def [abs_def])

lemma paired_skeleton:
  "map skeleton ms = map skeleton ms' \<Longrightarrow> paired ms = paired ms'"
proof (induction ms arbitrary: ms' rule: paired.induct)
  case (2 m ms)
  then obtain m' ns where c: "ms' = m' # ns" "skeleton m = skeleton m'" "map skeleton ms = map skeleton ns"
    by (cases ms') auto
  note t = map_skeleton_takeWhile [OF c(3)]
  have "answered (msg_ToolCalls m) (takeWhile isToolResult ms) = answered (msg_ToolCalls m') (takeWhile isToolResult ns)"
    by (rule answered_skeleton) (use c(2) t in \<open>auto simp: skeleton_def\<close>)
  moreover have "msg_LocalOnly m = msg_LocalOnly m'" "msg_Role m = msg_Role m'" using c(2) by (simp_all add: skeleton_def)
  ultimately show ?case
    using 2(1) [of ns] 2(2) [of "dropWhile isToolResult ns"] 2(3) [of ns] c t skeleton_caller [OF c(2)]
    by (simp add: paired.simps)
qed simp

lemma updateCall_names:
  "updateCall i f cs = Some cs' \<Longrightarrow> (\<And>c. tcl_ID (f c) = tcl_ID c \<and> tcl_Name (f c) = tcl_Name c)
   \<Longrightarrow> call_names cs' = call_names cs"
  by (induction cs arbitrary: cs') (auto simp: call_names_def split: if_splits option.splits)

lemma updateNewest_skeleton:
  "updateNewest i f ms = Some ms' \<Longrightarrow> (\<And>c. tcl_ID (f c) = tcl_ID c \<and> tcl_Name (f c) = tcl_Name c)
   \<Longrightarrow> map skeleton ms' = map skeleton ms"
proof (induction ms arbitrary: ms')
  case (Cons m ms)
  then show ?case
    using updateCall_names [of i f "msg_ToolCalls m"]
    by (auto simp: skeleton_def split: if_splits option.splits)
qed simp

end
