(* ===== verification/Agent_Context.thy ===== *)
theory Agent_Context imports Agent_Session Text_Encoding begin

text \<open>
  The planning half of \<open>internal/agent/compact.go\<close>: which messages a context cleanup keeps
  verbatim, which it may fold, and where the recent tail begins. Token estimates are products
  of a length with a float64 ratio; \<open>token_lib\<close> supplies them, everything after the rounding
  to \<open>int\<close> is modelled.
\<close>

subsection \<open>Configuration and state\<close>

record tool_snip =
  ts_Hint :: "(nat \<times> nat \<times> nat \<times> nat) option"
  ts_ReadOnly :: bool

record compact_conf =
  cc_contextWindow :: int
  cc_recentKeep :: int
  cc_keepPolicy :: int
  cc_archiveDir :: gostr
  cc_tools :: "gostr \<Rightarrow> tool_snip option"

text \<open>
  \<open>tl_tokens msgs n\<close> is \<open>int(float64(n) * a.tokPerChar())\<close> while the session holds \<open>msgs\<close>; the others
  are the fractions of the context window.
\<close>

record token_lib =
  tl_tokens :: "Message list \<Rightarrow> nat \<Rightarrow> int"
  tl_pinFraction :: "int \<Rightarrow> int"
  tl_target :: "int \<Rightarrow> int"
  tl_soft :: "int \<Rightarrow> int"
  tl_snip :: "int \<Rightarrow> int"
  tl_high :: "int \<Rightarrow> int"
  tl_force :: "int \<Rightarrow> int"

record agent_context =
  cx_session :: Session
  cx_activeTurnCreatedAt :: int
  cx_consecutiveCompacts :: nat
  cx_compactStuck :: bool
  cx_softCompactNoticed :: bool
  cx_archives :: "(gostr \<times> Message list) list"

abbreviation cx_Messages :: "agent_context \<Rightarrow> Message list" where
  "cx_Messages cx \<equiv> se_Messages (cx_session cx)"

definition defaultTailTokens :: int where "defaultTailTokens = 16384"
definition minRecentKeep :: int where "minRecentKeep = 2"
definition minCompactMessages :: nat where "minCompactMessages = 2"
definition maxPinnedFirstUserTokens :: int where "maxPinnedFirstUserTokens = 1500"
definition KeepErrors :: int where "KeepErrors = 1"
definition KeepUserMarked :: int where "KeepUserMarked = 2"

definition summaryTagOpen :: gostr where "summaryTagOpen = ''<compaction-summary>''"
definition summaryTagClose :: gostr where "summaryTagClose = ''</compaction-summary>''"

subsection \<open>Classifying messages\<close>

definition msgChars :: "Message \<Rightarrow> nat" where
  "msgChars m =
     (if msg_LocalOnly m then 0
      else length (msg_Content m)
           + sum_list (map (\<lambda>tc. length (tcl_Name tc) + length (tcl_Arguments tc)) (msg_ToolCalls m)))"

definition isCompactionSummary :: "Message \<Rightarrow> bool" where
  "isCompactionSummary m \<longleftrightarrow>
     msg_Role m = RoleUser
     \<and> HasPrefix (dropWhile (\<lambda>c. c = nl \<or> c = CHR '' '') (msg_Content m)) summaryTagOpen"

definition pinBudget :: "token_lib \<Rightarrow> compact_conf \<Rightarrow> int" where
  "pinBudget tk conf =
     (if cc_contextWindow conf > 0 \<and> tl_pinFraction tk (cc_contextWindow conf) < maxPinnedFirstUserTokens
      then tl_pinFraction tk (cc_contextWindow conf) else maxPinnedFirstUserTokens)"

definition pinnableUserTurn :: "token_lib \<Rightarrow> compact_conf \<Rightarrow> Message list \<Rightarrow> Message \<Rightarrow> bool" where
  "pinnableUserTurn tk conf session m \<longleftrightarrow> tl_tokens tk session (msgChars m) \<le> pinBudget tk conf"

definition isErrorMessage :: "Message \<Rightarrow> bool" where
  "isErrorMessage m \<longleftrightarrow>
     msg_Role m = RoleTool
     \<and> (let s = TrimSpace (ToLower (msg_Content m)) in HasPrefix s ''error:'' \<or> HasPrefix s ''blocked:'')"

definition isUserMarked :: "Message \<Rightarrow> bool" where
  "isUserMarked m \<longleftrightarrow>
     msg_Role m = RoleUser
     \<and> (let s = TrimSpace (ToLower (msg_Content m))
        in HasPrefix s ''[[keep]]'' \<or> HasPrefix s ''[keep]'' \<or> HasPrefix s ''<keep>'' \<or> HasPrefix s ''<!-- keep -->'')"

unbundle bit_operations_syntax

definition shouldKeepMessage :: "Message \<Rightarrow> int \<Rightarrow> bool" where
  "shouldKeepMessage m policy \<longleftrightarrow>
     (policy AND KeepErrors \<noteq> 0 \<and> isErrorMessage m) \<or> (policy AND KeepUserMarked \<noteq> 0 \<and> isUserMarked m)"

subsection \<open>The pinned prefix\<close>

definition pinnedPrefixLen :: "token_lib \<Rightarrow> compact_conf \<Rightarrow> Message list \<Rightarrow> nat" where
  "pinnedPrefixLen tk conf msgs =
     (let i0 = (if 0 < length msgs \<and> msg_Role (msgs ! 0) = RoleSystem then 1 else 0);
          i1 = (if i0 < length msgs \<and> msg_Role (msgs ! i0) = RoleUser \<and> \<not> isCompactionSummary (msgs ! i0)
                   \<and> pinnableUserTurn tk conf msgs (msgs ! i0) then i0 + 1 else i0)
      in i1 + length (takeWhile isCompactionSummary (drop i1 msgs)))"

subsection \<open>Keeping and folding\<close>

text \<open>\<open>findToolCaller\<close>: the nearest assistant message before the result that made the call.\<close>

fun findToolCaller :: "Message list \<Rightarrow> nat \<Rightarrow> gostr \<Rightarrow> nat option" where
  "findToolCaller region 0 i = None"
| "findToolCaller region (Suc k) i =
     (if msg_Role (region ! k) = RoleAssistant \<and> list_ex (\<lambda>tc. tcl_ID tc = i) (msg_ToolCalls (region ! k))
      then Some k else findToolCaller region k i)"

definition toolCallIDs :: "Message \<Rightarrow> gostr set" where
  "toolCallIDs m = set (map tcl_ID (msg_ToolCalls m))"

function keepGroupLoop :: "Message list \<Rightarrow> gostr set \<Rightarrow> nat \<Rightarrow> bool list \<Rightarrow> bool list" where
  "keepGroupLoop region ids j keep =
     (if j < length region \<and> msg_Role (region ! j) = RoleTool
      then keepGroupLoop region ids (j + 1)
             (if msg_ToolCallID (region ! j) \<in> ids then keep[j := True] else keep)
      else keep)"
  by pat_completeness auto
termination by (relation "measure (\<lambda>(region, _, j, _). length region - j)") auto

declare keepGroupLoop.simps [simp del]

definition keepToolCallGroup :: "Message list \<Rightarrow> bool list \<Rightarrow> nat \<Rightarrow> bool list" where
  "keepToolCallGroup region keep assistantIndex =
     (if assistantIndex \<ge> length region then keep
      else if msg_Role (region ! assistantIndex) \<noteq> RoleAssistant \<or> msg_ToolCalls (region ! assistantIndex) = []
      then keep
      else keepGroupLoop region (toolCallIDs (region ! assistantIndex)) (assistantIndex + 1)
             (keep[assistantIndex := True]))"

definition keepStep :: "Message list \<Rightarrow> nat \<Rightarrow> bool list \<Rightarrow> bool list" where
  "keepStep region i keep =
     (if \<not> keep ! i then keep
      else
        (case msg_Role (region ! i) of
           RoleTool \<Rightarrow>
             (case findToolCaller region i (msg_ToolCallID (region ! i)) of
                Some j \<Rightarrow> keepToolCallGroup region keep j
              | None \<Rightarrow> keep)
         | RoleAssistant \<Rightarrow> keepToolCallGroup region keep i
         | _ \<Rightarrow> keep))"

definition policyStart :: "Message list \<Rightarrow> nat" where
  "policyStart region = fold (\<lambda>i start. if isCompactionSummary (region ! i) then i + 1 else start) [0..<length region] 0"

definition keepIndexes :: "Message list \<Rightarrow> int \<Rightarrow> bool list" where
  "keepIndexes region policy =
     fold (keepStep region) [0..<length region]
       (map (\<lambda>i. policyStart region \<le> i \<and> shouldKeepMessage (region ! i) policy) [0..<length region])"

definition keptFlags :: "token_lib \<Rightarrow> compact_conf \<Rightarrow> Message list \<Rightarrow> Message list \<Rightarrow> bool list" where
  "keptFlags tk conf session region =
     map (\<lambda>(m, policyKeep). msg_LocalOnly m \<or> policyKeep \<or> isCompactionSummary m
            \<or> (msg_Role m = RoleUser \<and> pinnableUserTurn tk conf session m))
       (zip region (keepIndexes region (cc_keepPolicy conf)))"

definition pick :: "bool list \<Rightarrow> 'a list \<Rightarrow> 'a list" where
  "pick flags xs = map fst (filter snd (zip xs flags))"

definition partitionFold :: "token_lib \<Rightarrow> compact_conf \<Rightarrow> Message list \<Rightarrow> Message list \<Rightarrow> Message list \<times> Message list" where
  "partitionFold tk conf session region =
     (let flags = keptFlags tk conf session region in (pick flags region, pick (map Not flags) region))"

subsection \<open>The tail\<close>

fun growTail :: "(nat \<Rightarrow> int) \<Rightarrow> Message list \<Rightarrow> nat \<Rightarrow> int \<Rightarrow> int \<Rightarrow> nat \<Rightarrow> int \<Rightarrow> nat \<Rightarrow> nat" where
  "growTail tokens msgs head budget minKeep 0 acc start = start"
| "growTail tokens msgs head budget minKeep (Suc k) acc start =
     (if \<not> head < Suc k then start
      else
        (let c = tokens (msgChars (msgs ! Suc k))
         in if int (length msgs - Suc k) > minKeep \<and> acc + c > budget then start
            else growTail tokens msgs head budget minKeep k (acc + c) (Suc k)))"

fun alignBack :: "Message list \<Rightarrow> nat \<Rightarrow> nat \<Rightarrow> nat" where
  "alignBack msgs head 0 = 0"
| "alignBack msgs head (Suc k) =
     (if head < Suc k \<and> Suc k < length msgs \<and> msg_Role (msgs ! Suc k) = RoleTool
      then alignBack msgs head k else Suc k)"

definition tailStart :: "(nat \<Rightarrow> int) \<Rightarrow> Message list \<Rightarrow> nat \<Rightarrow> int \<Rightarrow> int \<Rightarrow> nat" where
  "tailStart tokens msgs head budget minKeep =
     alignBack msgs head (growTail tokens msgs head budget minKeep (length msgs - 1) 0 (length msgs))"

definition tailFloor :: "compact_conf \<Rightarrow> int" where
  "tailFloor conf = (if cc_recentKeep conf > minRecentKeep then cc_recentKeep conf else minRecentKeep)"

definition tailBudget :: "token_lib \<Rightarrow> compact_conf \<Rightarrow> int" where
  "tailBudget tk conf =
     (if tl_target tk (cc_contextWindow conf) < defaultTailTokens then tl_target tk (cc_contextWindow conf)
      else defaultTailTokens)"

definition planCompaction :: "token_lib \<Rightarrow> compact_conf \<Rightarrow> Message list \<Rightarrow> nat \<Rightarrow> nat \<times> nat \<times> bool" where
  "planCompaction tk conf msgs minimum =
     (let head = pinnedPrefixLen tk conf msgs;
          start0 =
            (if cc_contextWindow conf > 0
             then tailStart (tl_tokens tk msgs) msgs head (tailBudget tk conf) (tailFloor conf)
             else alignBack msgs head (nat (int (length msgs) - tailFloor conf)));
          start = (if start0 < head then head else start0)
      in if start - head < minimum then (head, start, False) else (head, start, True))"

definition activeTurnStart :: "agent_context \<Rightarrow> Message list \<Rightarrow> nat option" where
  "activeTurnStart cx msgs =
     (if cx_activeTurnCreatedAt cx = 0 then None
      else
        (let n = length (takeWhile (\<lambda>m. \<not> (msg_Role m = RoleUser \<and> msg_CreatedAt m = cx_activeTurnCreatedAt cx)) msgs)
         in if n < length msgs then Some n else None))"

subsection \<open>Estimates\<close>

definition estimateTextTokens :: "gostr \<Rightarrow> nat" where
  "estimateTextTokens s =
     (if s = [] then 0
      else (let byBytes = (length s + 3) div 4 in if length (runes s) > byBytes then length (runes s) else byBytes))"

definition estimateMessagesTokens :: "Message list \<Rightarrow> nat" where
  "estimateMessagesTokens msgs =
     sum_list (map (\<lambda>m. 4 + estimateTextTokens (msg_Content m) + estimateTextTokens (msg_ReasoningContent m)
          + estimateTextTokens (msg_Name m) + estimateTextTokens (msg_ToolCallID m)
          + sum_list (map (\<lambda>tc. 8 + estimateTextTokens (tcl_ID tc) + estimateTextTokens (tcl_Name tc)
                                   + estimateTextTokens (tcl_Arguments tc)) (msg_ToolCalls m)))
        (filter (\<lambda>m. \<not> msg_LocalOnly m) msgs))"

definition foldEconomics :: "Message list \<Rightarrow> bool" where
  "foldEconomics region \<longleftrightarrow> 400 \<le> estimateMessagesTokens region"

end
