(* ===== verification/Agent_Context_Props.thy ===== *)
theory Agent_Context_Props imports Agent_Context "HOL-Library.Multiset" begin

text \<open>
  What the planning of a context cleanup guarantees: histories stay paired when they are cut
  between turns and when whole turns are picked, the kept flags never split a turn, and the
  tail never begins with a result whose call is gone.
\<close>

subsection \<open>Cutting and picking paired histories\<close>

lemma takeWhile_append_none:
  "takeWhile P ys = [] \<Longrightarrow> takeWhile P (xs @ ys) = takeWhile P xs \<and> dropWhile P (xs @ ys) = dropWhile P xs @ ys"
proof (induction xs)
  case Nil
  then show ?case by (metis append_Nil takeWhile.simps(1) dropWhile.simps(1) takeWhile_dropWhile_id)
qed simp

lemma paired_append_iff:
  "takeWhile isToolResult ys = [] \<Longrightarrow> paired (xs @ ys) \<longleftrightarrow> paired xs \<and> paired ys"
  by (induction xs rule: paired.induct) (auto simp: paired.simps takeWhile_append_none)

lemma paired_append: "paired xs \<Longrightarrow> paired ys \<Longrightarrow> paired (xs @ ys)"
  using paired_append_iff [OF paired_no_result] by blast

lemma paired_drop_plain:
  "paired (xs @ ys) \<Longrightarrow> list_all (\<lambda>m. \<not> isCaller m) xs \<Longrightarrow> paired ys"
  by (induction xs) (auto simp: paired.simps split: if_splits)

abbreviation turn_at :: "Message list \<Rightarrow> nat \<Rightarrow> bool" where
  "turn_at ms i \<equiv> \<not> msg_LocalOnly (ms ! i) \<and> isCaller (ms ! i)"

definition in_turn :: "Message list \<Rightarrow> nat \<Rightarrow> nat \<Rightarrow> bool" where
  "in_turn ms i j \<longleftrightarrow> i < j \<and> j < length ms \<and> (\<forall>k. i < k \<and> k \<le> j \<longrightarrow> isToolResult (ms ! k))"

definition grouped :: "bool list \<Rightarrow> Message list \<Rightarrow> bool" where
  "grouped flags ms \<longleftrightarrow> (\<forall>i j. turn_at ms i \<and> in_turn ms i j \<longrightarrow> flags ! j = flags ! i)"

lemma in_turn_unique:
  "turn_at ms i \<Longrightarrow> turn_at ms i' \<Longrightarrow> in_turn ms i j \<Longrightarrow> in_turn ms i' j \<Longrightarrow> i = i'"
  unfolding in_turn_def by (metis isCaller_not_result linorder_neqE_nat nless_le)

lemma pick_Cons [simp]: "pick (b # bs) (x # xs) = (if b then x # pick bs xs else pick bs xs)"
  by (simp add: pick_def)

lemma pick_Nil [simp]: "pick bs [] = []" "pick [] xs = []" by (simp_all add: pick_def)

lemma pick_append: "length bs = length xs \<Longrightarrow> pick (bs @ cs) (xs @ ys) = pick bs xs @ pick cs ys"
  by (simp add: pick_def)

lemma pick_replicate [simp]: "pick (replicate (length xs) b) xs = (if b then xs else [])"
  by (induction xs) auto

lemma in_turn_takeWhile:
  "in_turn (m # ms) 0 (Suc j) \<longleftrightarrow> j < length (takeWhile isToolResult ms)"
proof
  assume a: "in_turn (m # ms) 0 (Suc j)"
  then have len: "j < length ms" by (simp add: in_turn_def)
  have t: "isToolResult (ms ! k)" if "k \<le> j" for k
    using a that unfolding in_turn_def by (auto dest: spec [of _ "Suc k"])
  show "j < length (takeWhile isToolResult ms)"
  proof (rule ccontr)
    assume "\<not> j < length (takeWhile isToolResult ms)"
    then have l: "length (takeWhile isToolResult ms) \<le> j" by simp
    then have "length (takeWhile isToolResult ms) < length ms" using len by simp
    from nth_length_takeWhile [OF this] t [OF l] show False by simp
  qed
next
  assume j: "j < length (takeWhile isToolResult ms)"
  have "isToolResult (ms ! k)" if "k \<le> j" for k
    using nth_mem [of k "takeWhile isToolResult ms"] takeWhile_nth [of k isToolResult ms] that j
    by (metis le_less_trans set_takeWhileD)
  then show "in_turn (m # ms) 0 (Suc j)"
    using j length_takeWhile_le [of isToolResult ms] unfolding in_turn_def
    by (auto simp: less_Suc_eq_0_disj nth_Cons' less_le_trans)
qed

lemma in_turn_append:
  "in_turn ys i j \<Longrightarrow> in_turn (xs @ ys) (length xs + i) (length xs + j)"
proof -
  assume a: "in_turn ys i j"
  have "isToolResult ((xs @ ys) ! k)" if "length xs + i < k" "k \<le> length xs + j" for k
  proof -
    have "k = length xs + (k - length xs)" "i < k - length xs" "k - length xs \<le> j" using that by auto
    then show ?thesis using a unfolding in_turn_def by (metis nth_append_length_plus)
  qed
  then show ?thesis using a by (simp add: in_turn_def)
qed

lemma grouped_append: "length bs = length xs \<Longrightarrow> grouped (bs @ cs) (xs @ ys) \<Longrightarrow> grouped cs ys"
  unfolding grouped_def using in_turn_append [of ys _ _ xs]
  by (metis nth_append_length_plus)

lemma paired_pick:
  "paired ms \<Longrightarrow> length flags = length ms \<Longrightarrow> grouped flags ms \<Longrightarrow> paired (pick flags ms)"
proof (induction ms arbitrary: flags rule: paired.induct)
  case (2 m ms)
  obtain b bs where flags: "flags = b # bs" "length bs = length ms" using 2(5) by (cases flags) auto
  have g: "grouped bs ms" using grouped_append [of "[b]" "[m]" bs ms] 2(6) flags by simp
  show ?case
  proof (cases "\<not> msg_LocalOnly m \<and> isCaller m")
    case True
    let ?rs = "takeWhile isToolResult ms" and ?rest = "dropWhile isToolResult ms"
    let ?n = "length ?rs"
    have "bs ! j = b" if "j < ?n" for j
    proof -
      have "turn_at (m # ms) 0 \<and> in_turn (m # ms) 0 (Suc j)" using True in_turn_takeWhile [of m ms j] that by simp
      then have "flags ! Suc j = flags ! 0" using 2(6) unfolding grouped_def by blast
      then show ?thesis using flags by simp
    qed
    then have "take ?n bs = replicate ?n b"
      using flags(2) length_takeWhile_le [of isToolResult ms] by (intro nth_equalityI) auto
    then have bs: "bs = replicate ?n b @ drop ?n bs" by (metis append_take_drop_id)
    have d: "?rest = drop ?n ms" by (rule dropWhile_eq_drop)
    have len: "length (drop ?n bs) = length ?rest" using flags(2) d by simp
    have "grouped (drop ?n bs) ?rest"
      by (rule grouped_append [of "replicate ?n b" ?rs]) (use g bs in simp_all)
    then have p: "paired (pick (drop ?n bs) ?rest)"
      using 2(2) True 2(4) len by (simp add: paired.simps)
    have "pick bs ms = pick (replicate ?n b @ drop ?n bs) (?rs @ ?rest)" using bs by simp
    also have "\<dots> = pick (replicate ?n b) ?rs @ pick (drop ?n bs) ?rest" by (rule pick_append) simp
    also have "\<dots> = (if b then ?rs else []) @ pick (drop ?n bs) ?rest" by (simp only: pick_replicate)
    finally show ?thesis
      using p True 2(4) paired_turn [of m ?rs "pick (drop ?n bs) ?rest"] paired_no_result [OF p]
      by (simp add: flags paired.simps(2) [of m ms] split: if_split)
  next
    case False
    then show ?thesis using 2 flags g by (auto simp: paired.simps)
  qed
qed simp

subsection \<open>Turns by index\<close>

lemma result_has_turn:
  "paired ms \<Longrightarrow> j < length ms \<Longrightarrow> isToolResult (ms ! j)
   \<Longrightarrow> \<exists>i. turn_at ms i \<and> in_turn ms i j \<and> msg_ToolCallID (ms ! j) \<in> toolCallIDs (ms ! i)"
proof (induction ms arbitrary: j rule: paired.induct)
  case (2 m ms)
  have shift: "\<exists>i. turn_at (xs @ ys) i \<and> in_turn (xs @ ys) i (length xs + k)
      \<and> msg_ToolCallID ((xs @ ys) ! (length xs + k)) \<in> toolCallIDs ((xs @ ys) ! i)"
    if "turn_at ys i" "in_turn ys i k" "msg_ToolCallID (ys ! k) \<in> toolCallIDs (ys ! i)" for xs ys i k
    by (rule exI [of _ "length xs + i"]) (use that in_turn_append [of ys i k xs] in auto)
  have "j \<noteq> 0" using paired_no_result [OF 2(4)] 2(6) by (cases j) (auto split: if_splits)
  then obtain j' where j: "j = Suc j'" by (cases j) auto
  show ?case
  proof (cases "\<not> msg_LocalOnly m \<and> isCaller m")
    case True
    let ?rs = "takeWhile isToolResult ms" and ?rest = "dropWhile isToolResult ms"
    show ?thesis
    proof (cases "j' < length ?rs")
      case True
      have "answered (msg_ToolCalls m) ?rs" using 2(4) \<open>\<not> msg_LocalOnly m \<and> isCaller m\<close> by (simp add: paired.simps)
      moreover have "ms ! j' \<in> set ?rs" using True nth_mem [OF True] takeWhile_nth [OF True] by simp
      ultimately have "msg_ToolCallID (ms ! j') \<in> toolCallIDs m"
        using answered_result [of "msg_ToolCalls m" ?rs "ms ! j'"] by (force simp: toolCallIDs_def)
      then show ?thesis using j True \<open>\<not> msg_LocalOnly m \<and> isCaller m\<close> in_turn_takeWhile [of m ms j']
        by (intro exI [of _ 0]) simp
    next
      case False
      have ms: "m # ms = (m # ?rs) @ ?rest" by simp
      have jj: "j = length (m # ?rs) + (j' - length ?rs)" using False j by simp
      have "j' - length ?rs < length ?rest"
      proof -
        have "length ?rs + length ?rest = length ms" by (metis length_append takeWhile_dropWhile_id)
        then show ?thesis using False 2(5) j by simp
      qed
      moreover have "isToolResult (?rest ! (j' - length ?rs))"
        using 2(6) unfolding jj by (subst (asm) ms) (simp only: nth_append_length_plus)
      moreover have "paired ?rest" using 2(4) \<open>\<not> msg_LocalOnly m \<and> isCaller m\<close> by (simp add: paired.simps)
      ultimately obtain i where "turn_at ?rest i" "in_turn ?rest i (j' - length ?rs)"
        "msg_ToolCallID (?rest ! (j' - length ?rs)) \<in> toolCallIDs (?rest ! i)"
        using 2(2) \<open>\<not> msg_LocalOnly m \<and> isCaller m\<close> by blast
      from shift [OF this, of "m # ?rs"] show ?thesis unfolding jj [symmetric] ms [symmetric] .
    qed
  next
    case False
    then have "paired ms" "j' < length ms" "isToolResult (ms ! j')" using 2 j by (auto simp: paired.simps split: if_splits)
    with False 2(1,3) obtain i where i: "turn_at ms i" "in_turn ms i j'" "msg_ToolCallID (ms ! j') \<in> toolCallIDs (ms ! i)"
      by blast
    from shift [OF i, of "[m]"] j show ?thesis by simp
  qed
qed simp

lemma turn_ids:
  "paired ms \<Longrightarrow> turn_at ms i \<Longrightarrow> in_turn ms i j \<Longrightarrow> msg_ToolCallID (ms ! j) \<in> toolCallIDs (ms ! i)"
proof -
  assume a: "paired ms" "turn_at ms i" "in_turn ms i j"
  then have "j < length ms" "isToolResult (ms ! j)" by (auto simp: in_turn_def)
  with a(1) result_has_turn obtain i' where "turn_at ms i'" "in_turn ms i' j"
    "msg_ToolCallID (ms ! j) \<in> toolCallIDs (ms ! i')" by blast
  with in_turn_unique [OF a(2)] a(3) show ?thesis by metis
qed

subsection \<open>What the keep policy marks\<close>

lemma length_keepGroupLoop [simp]: "length (keepGroupLoop region ids j keep) = length keep"
proof (induction region ids j keep rule: keepGroupLoop.induct)
  case (1 region ids j keep)
  then show ?case by (subst keepGroupLoop.simps) simp
qed

text \<open>The loop marks exactly the results with a known id in the run of tool messages from \<open>j\<close>.\<close>

definition tool_run :: "Message list \<Rightarrow> nat \<Rightarrow> nat \<Rightarrow> bool" where
  "tool_run region j x \<longleftrightarrow> j \<le> x \<and> x < length region \<and> (\<forall>k. j \<le> k \<and> k \<le> x \<longrightarrow> msg_Role (region ! k) = RoleTool)"

lemma tool_run_step:
  "tool_run region j x \<longleftrightarrow>
     j < length region \<and> msg_Role (region ! j) = RoleTool \<and> (x = j \<or> tool_run region (j + 1) x)"
  unfolding tool_run_def by (auto simp: Suc_le_eq) (metis le_neq_implies_less not_less_eq_eq Suc_le_eq)+

lemma keepGroupLoop_nth:
  "length keep = length region \<Longrightarrow> x < length region \<Longrightarrow>
     keepGroupLoop region ids j keep ! x
     = (keep ! x \<or> (tool_run region j x \<and> msg_ToolCallID (region ! x) \<in> ids))"
proof (induction region ids j keep rule: keepGroupLoop.induct)
  case (1 region ids j keep)
  show ?case
  proof (cases "j < length region \<and> msg_Role (region ! j) = RoleTool")
    case True
    let ?keep = "if msg_ToolCallID (region ! j) \<in> ids then keep[j := True] else keep"
    have "keepGroupLoop region ids j keep ! x = keepGroupLoop region ids (j + 1) ?keep ! x"
      using True by (subst keepGroupLoop.simps) simp
    also have "\<dots> = (?keep ! x \<or> (tool_run region (j + 1) x \<and> msg_ToolCallID (region ! x) \<in> ids))"
      using True 1 by simp
    finally show ?thesis using True 1(2) tool_run_step [of region j x] by (auto simp: nth_list_update)
  next
    case False
    then show ?thesis using tool_run_step [of region j x] by (subst keepGroupLoop.simps) auto
  qed
qed

lemma length_keepToolCallGroup [simp]: "length (keepToolCallGroup region keep a) = length keep"
  by (simp add: keepToolCallGroup_def)

lemma keepToolCallGroup_nth:
  "length keep = length region \<Longrightarrow> x < length region \<Longrightarrow>
     keepToolCallGroup region keep a ! x
     = (keep ! x \<or> (a < length region \<and> isCaller (region ! a)
          \<and> (x = a \<or> (tool_run region (a + 1) x \<and> msg_ToolCallID (region ! x) \<in> toolCallIDs (region ! a)))))"
  by (auto simp: keepToolCallGroup_def keepGroupLoop_nth nth_list_update isCaller_def)

lemma length_keepStep [simp]: "length (keepStep region i keep) = length keep"
  by (simp add: keepStep_def split: Role.split option.split)

lemma keepStep_mono:
  "length keep = length region \<Longrightarrow> x < length region \<Longrightarrow> keep ! x \<Longrightarrow> keepStep region i keep ! x"
  by (auto simp: keepStep_def keepToolCallGroup_nth split: Role.split option.split)

lemma findToolCaller_Some:
  "findToolCaller region n i = Some j \<Longrightarrow> j < n \<and> isCaller (region ! j) \<and> i \<in> toolCallIDs (region ! j)"
  by (induction region n i rule: findToolCaller.induct)
    (auto simp: isCaller_def toolCallIDs_def list_ex_iff split: if_splits)

lemma findToolCaller_turn:
  assumes "turn_at region i" "in_turn region i n" "ident \<in> toolCallIDs (region ! i)"
  shows "findToolCaller region n ident = Some i"
proof -
  have "findToolCaller region k ident = Some i" if "i < k" "k \<le> n" for k
    using that
  proof (induction k)
    case (Suc k)
    show ?case
    proof (cases "k = i")
      case True
      then show ?thesis using assms by (auto simp: isCaller_def toolCallIDs_def list_ex_iff)
    next
      case False
      then have "isToolResult (region ! k)" using Suc.prems assms(2) by (simp add: in_turn_def)
      then show ?thesis using False Suc by (simp add: isToolResult_def)
    qed
  qed simp
  then show ?thesis using assms(2) by (simp add: in_turn_def)
qed

text \<open>Marking a group touches one turn, and the whole of it.\<close>

definition closed_upto :: "Message list \<Rightarrow> nat \<Rightarrow> bool list \<Rightarrow> bool" where
  "closed_upto region n keep \<longleftrightarrow>
     length keep = length region
     \<and> (\<forall>i j. turn_at region i \<and> in_turn region i j \<longrightarrow>
          (keep ! i \<longrightarrow> keep ! j) \<and> (j < n \<and> keep ! j \<longrightarrow> keep ! i))"

lemma in_turn_tool_run: "in_turn region i j \<Longrightarrow> tool_run region (i + 1) j"
  by (auto simp: in_turn_def tool_run_def isToolResult_def)

lemma tool_run_turn:
  assumes "paired region" "isCaller (region ! a)" "tool_run region (a + 1) j" "turn_at region i" "in_turn region i j"
  shows "i = a"
proof (rule ccontr)
  assume "i \<noteq> a"
  consider "i < a" | "a < i" using \<open>i \<noteq> a\<close> by linarith
  then show False
  proof cases
    case 1
    then have "isToolResult (region ! a)" using assms(3,5) by (auto simp: in_turn_def tool_run_def)
    then show False using assms(2) by simp
  next
    case 2
    then have "msg_Role (region ! i) = RoleTool" using assms(3,5) by (auto simp: in_turn_def tool_run_def)
    then show False using assms(4) by (simp add: isCaller_def)
  qed
qed

lemma keepToolCallGroup_closed:
  assumes p: "paired region" and c: "closed_upto region n keep"
  shows "closed_upto region n (keepToolCallGroup region keep a)"
proof (cases "a < length region \<and> isCaller (region ! a)")
  case True
  let ?keep = "keepToolCallGroup region keep a"
  have len: "length keep = length region" using c by (simp add: closed_upto_def)
  have "(?keep ! i \<longrightarrow> ?keep ! j) \<and> (j < n \<and> ?keep ! j \<longrightarrow> ?keep ! i)"
    if t: "turn_at region i" "in_turn region i j" for i j
  proof (cases "i = a")
    case a: True
    have "?keep ! a" "?keep ! j"
      using True t in_turn_tool_run [OF t(2)] turn_ids [OF p t] a
      by (simp_all add: keepToolCallGroup_nth [OF len] in_turn_def)
    then show ?thesis using a by simp
  next
    case False
    have ij: "i < length region" "j < length region" using t(2) by (auto simp: in_turn_def)
    have "\<not> tool_run region (a + 1) j" using tool_run_turn [OF p _ _ t] True False by blast
    moreover have "\<not> tool_run region (a + 1) i" using t(1) by (auto simp: tool_run_def isCaller_def)
    moreover have "j \<noteq> a" using t(2) True by (auto simp: in_turn_def)
    ultimately have "?keep ! i = keep ! i" "?keep ! j = keep ! j"
      using False ij by (simp_all add: keepToolCallGroup_nth [OF len])
    then show ?thesis using c t unfolding closed_upto_def by metis
  qed
  then show ?thesis using len unfolding closed_upto_def by auto
qed (use c in \<open>auto simp: keepToolCallGroup_def isCaller_def\<close>)

lemma keepStep_closed:
  assumes p: "paired region" and c: "closed_upto region n keep" and n: "n < length region"
  shows "closed_upto region (Suc n) (keepStep region n keep)"
proof -
  have len: "length keep = length region" using c by (simp add: closed_upto_def)
  have step: "closed_upto region n (keepStep region n keep)"
    using c keepToolCallGroup_closed [OF p c] by (auto simp: keepStep_def split: Role.split option.split)
  have "keepStep region n keep ! i"
    if t: "turn_at region i" "in_turn region i n" and k: "keepStep region n keep ! n" for i
  proof (cases "keep ! n")
    case True
    have role: "msg_Role (region ! n) = RoleTool" using t(2) by (auto simp: in_turn_def isToolResult_def)
    have "findToolCaller region n (msg_ToolCallID (region ! n)) = Some i"
      by (rule findToolCaller_turn [OF t turn_ids [OF p t]])
    then show ?thesis using True role t by (simp add: keepStep_def keepToolCallGroup_nth [OF len] in_turn_def)
  next
    case False
    with k show ?thesis by (simp add: keepStep_def)
  qed
  then show ?thesis using step by (auto simp: closed_upto_def less_Suc_eq)
qed

lemma shouldKeep_not_caller: "isCaller m \<Longrightarrow> \<not> shouldKeepMessage m policy"
  by (simp add: shouldKeepMessage_def isErrorMessage_def isUserMarked_def isCaller_def)

lemma keepIndexes_closed:
  assumes "paired region"
  shows "closed_upto region (length region) (keepIndexes region policy)"
proof -
  let ?init = "map (\<lambda>i. policyStart region \<le> i \<and> shouldKeepMessage (region ! i) policy) [0..<length region]"
  have "n \<le> length region \<Longrightarrow> closed_upto region n (fold (keepStep region) [0..<n] ?init)" for n
  proof (induction n)
    case 0
    show ?case using shouldKeep_not_caller by (auto simp: closed_upto_def in_turn_def)
  next
    case (Suc n)
    then show ?case using keepStep_closed [OF assms] by simp
  qed
  then show ?thesis by (simp add: keepIndexes_def)
qed

lemma length_keepIndexes [simp]: "length (keepIndexes region policy) = length region"
proof -
  have "length (fold (keepStep region) xs keep) = length keep" for xs keep
    by (induction xs arbitrary: keep) auto
  then show ?thesis by (simp add: keepIndexes_def)
qed

lemma keepIndexes_policy:
  assumes "i < length region" "policyStart region \<le> i" "shouldKeepMessage (region ! i) policy"
  shows "keepIndexes region policy ! i"
proof -
  have "keep ! i \<Longrightarrow> length keep = length region \<Longrightarrow> fold (keepStep region) xs keep ! i" for xs keep
    by (induction xs arbitrary: keep) (auto simp: keepStep_mono assms(1))
  then show ?thesis using assms by (simp add: keepIndexes_def)
qed

subsection \<open>What is kept\<close>

lemma length_keptFlags [simp]: "length (keptFlags tk conf session region) = length region"
  by (simp add: keptFlags_def)

lemma keptFlags_nth:
  "i < length region \<Longrightarrow>
     keptFlags tk conf session region ! i
     = (msg_LocalOnly (region ! i) \<or> keepIndexes region (cc_keepPolicy conf) ! i
        \<or> isCompactionSummary (region ! i)
        \<or> (msg_Role (region ! i) = RoleUser \<and> pinnableUserTurn tk conf session (region ! i)))"
  by (simp add: keptFlags_def)

lemma keptFlags_grouped:
  assumes "paired region"
  shows "grouped (keptFlags tk conf session region) region"
  unfolding grouped_def
proof (intro allI impI, elim conjE)
  fix i j
  assume t: "\<not> msg_LocalOnly (region ! i)" "isCaller (region ! i)" and ij: "in_turn region i j"
  have len: "i < length region" "j < length region" using ij by (auto simp: in_turn_def)
  have r: "isToolResult (region ! j)" using ij by (simp add: in_turn_def)
  have "keepIndexes region (cc_keepPolicy conf) ! i = keepIndexes region (cc_keepPolicy conf) ! j"
    using keepIndexes_closed [OF assms, of "cc_keepPolicy conf"] t ij len unfolding closed_upto_def by blast
  then show "keptFlags tk conf session region ! j = keptFlags tk conf session region ! i"
    using t r len by (simp add: keptFlags_nth isCompactionSummary_def isCaller_def isToolResult_def)
qed

lemma pick_in_set: "x \<in> set (pick flags xs) \<longleftrightarrow> (\<exists>i < min (length xs) (length flags). xs ! i = x \<and> flags ! i)"
  by (auto simp: pick_def in_set_zip image_iff)

lemma subseq_pick: "subseq (pick flags xs) xs"
proof (induction xs arbitrary: flags)
  case (Cons x xs)
  then show ?case by (cases flags) auto
qed simp

lemma mset_pick: "length flags = length xs \<Longrightarrow> mset (pick flags xs) + mset (pick (map Not flags) xs) = mset xs"
proof (induction xs arbitrary: flags)
  case (Cons x xs)
  then show ?case by (cases flags) auto
qed simp

subsection \<open>The plan\<close>

lemma pinned_plain:
  "list_all (\<lambda>m. \<not> isCaller m) (take (pinnedPrefixLen tk conf msgs) msgs) \<and> pinnedPrefixLen tk conf msgs \<le> length msgs"
proof -
  define i0 where "i0 = (if 0 < length msgs \<and> msg_Role (msgs ! 0) = RoleSystem then 1 else 0 :: nat)"
  define i1 where "i1 = (if i0 < length msgs \<and> msg_Role (msgs ! i0) = RoleUser \<and> \<not> isCompactionSummary (msgs ! i0)
                   \<and> pinnableUserTurn tk conf msgs (msgs ! i0) then i0 + 1 else i0)"
  let ?t = "takeWhile isCompactionSummary (drop i1 msgs)"
  have h: "pinnedPrefixLen tk conf msgs = i1 + length ?t"
    by (simp add: pinnedPrefixLen_def i0_def i1_def Let_def)
  have i0: "i0 \<le> length msgs" "\<forall>k < i0. \<not> isCaller (msgs ! k)" by (auto simp: i0_def isCaller_def Suc_le_eq)
  then have i1: "i1 \<le> length msgs" "\<forall>k < i1. \<not> isCaller (msgs ! k)"
    by (auto simp: i1_def isCaller_def less_Suc_eq)
  have "take (i1 + length ?t) msgs = take i1 msgs @ ?t"
    by (simp add: take_add takeWhile_eq_take [symmetric])
  moreover have "list_all (\<lambda>m. \<not> isCaller m) ?t"
    by (auto simp: list_all_iff isCompactionSummary_def isCaller_def dest!: set_takeWhileD)
  moreover have "list_all (\<lambda>m. \<not> isCaller m) (take i1 msgs)"
    using i1 by (simp add: list_all_length)
  moreover have "length ?t \<le> length msgs - i1" using length_takeWhile_le [of isCompactionSummary "drop i1 msgs"] by simp
  ultimately show ?thesis using i1(1) by (simp add: h)
qed

lemma alignBack_le: "alignBack msgs head k \<le> k"
  by (induction msgs head k rule: alignBack.induct) auto

lemma alignBack_no_tool:
  "head < alignBack msgs head k \<Longrightarrow> alignBack msgs head k < length msgs
   \<Longrightarrow> msg_Role (msgs ! alignBack msgs head k) \<noteq> RoleTool"
  by (induction msgs head k rule: alignBack.induct) (auto split: if_splits)

lemma growTail_le: "k < length msgs \<Longrightarrow> start \<le> length msgs \<Longrightarrow> growTail tokens msgs head budget minKeep k acc start \<le> length msgs"
  by (induction tokens msgs head budget minKeep k acc start rule: growTail.induct) (auto simp: Let_def)

lemma tailStart_le: "tailStart tokens msgs head budget minKeep \<le> length msgs"
proof (cases "msgs = []")
  case True
  then show ?thesis by (simp add: tailStart_def)
next
  case False
  then have "growTail tokens msgs head budget minKeep (length msgs - 1) 0 (length msgs) \<le> length msgs"
    by (intro growTail_le) auto
  then show ?thesis using alignBack_le order_trans unfolding tailStart_def by blast
qed

lemma tailFloor_pos: "2 \<le> tailFloor conf" by (simp add: tailFloor_def minRecentKeep_def)

lemma planCompaction_facts:
  assumes "planCompaction tk conf msgs minimum = (head, start, True)" "0 < minimum"
  shows "head = pinnedPrefixLen tk conf msgs" "head < start" "start \<le> length msgs" "minimum \<le> start - head"
    "start < length msgs \<Longrightarrow> msg_Role (msgs ! start) \<noteq> RoleTool"
proof -
  define start0 where "start0 =
       (if cc_contextWindow conf > 0
        then tailStart (tl_tokens tk msgs) msgs (pinnedPrefixLen tk conf msgs) (tailBudget tk conf) (tailFloor conf)
        else alignBack msgs (pinnedPrefixLen tk conf msgs) (nat (int (length msgs) - tailFloor conf)))"
  have p: "head = pinnedPrefixLen tk conf msgs" "start = (if start0 < head then head else start0)" "minimum \<le> start - head"
    using assms(1) by (auto simp: planCompaction_def Let_def start0_def split: if_splits)
  have s0: "start = start0" "head < start" using p(2,3) assms(2) by (auto split: if_splits)
  have "start0 \<le> length msgs"
    using tailStart_le alignBack_le [of msgs "pinnedPrefixLen tk conf msgs" "nat (int (length msgs) - tailFloor conf)"] tailFloor_pos [of conf]
    by (auto simp: start0_def)
  then show "head = pinnedPrefixLen tk conf msgs" "head < start" "start \<le> length msgs" "minimum \<le> start - head"
    using p s0 by simp_all
  show "start < length msgs \<Longrightarrow> msg_Role (msgs ! start) \<noteq> RoleTool"
    using s0 alignBack_no_tool p(1) unfolding start0_def tailStart_def by (auto split: if_splits)
qed

end
