(* ===== verification/Agent_Prune.thy ===== *)
theory Agent_Prune imports Agent_Context_Props Evidence_Steps begin

text \<open>
  Maintenance of stale tool results: \<open>internal/agent/prune.go\<close>. Snipping shortens the content of
  old tool results, pruning replaces it by a placeholder; the originals are archived first.
  Writing an archive file is I/O: the path it got, or \<open>None\<close> for an error, is an argument, and the
  files written so far are part of the state.
\<close>

subsection \<open>Markers\<close>

text \<open>The markers end in an em dash and a space, in UTF-8.\<close>

definition markerDash :: gostr where "markerDash = [CHR 0xE2, CHR 0x80, CHR 0x94]"

definition snippedMarker :: gostr where "snippedMarker = ''[snipped tool result '' @ markerDash @ '' ''"
definition prunedMarker :: gostr where "prunedMarker = ''[elided tool result '' @ markerDash @ '' ''"
definition minPruneBytes :: nat where "minPruneBytes = 1024"
definition bytesArchivedTo :: gostr where "bytesArchivedTo = '' bytes archived to ''"
definition notArchived :: gostr where "notArchived = ''not archived''"

datatype toolResultMaintenanceMode = ToolResultSnip | ToolResultPrune

record PruneStats =
  pst_Results :: nat
  pst_SavedChars :: int
  pst_Archive :: gostr

definition noPruneStats :: PruneStats where
  "noPruneStats = \<lparr>pst_Results = 0, pst_SavedChars = 0, pst_Archive = []\<rparr>"

definition shouldMaintainToolResult :: "Message \<Rightarrow> toolResultMaintenanceMode \<Rightarrow> bool" where
  "shouldMaintainToolResult m mode =
     (if msg_LocalOnly m \<or> msg_Role m \<noteq> RoleTool then False
      else if HasPrefix (msg_Content m) prunedMarker then False
      else if mode = ToolResultSnip then
        minPruneBytes \<le> length (msg_Content m) \<and> \<not> HasPrefix (msg_Content m) snippedMarker
      else if HasPrefix (msg_Content m) snippedMarker then True
      else minPruneBytes \<le> length (msg_Content m))"

subsection \<open>Reading a snipped result back\<close>

text \<open>\<open>strings.Index\<close> for a separator of any length.\<close>

fun IndexStr :: "gostr \<Rightarrow> gostr \<Rightarrow> nat option" where
  "IndexStr [] p = (if p = [] then Some 0 else None)"
| "IndexStr (c # s) p = (if HasPrefix (c # s) p then Some 0 else map_option Suc (IndexStr s p))"

text \<open>\<open>fmt.Sscanf(s, "%d", &n)\<close> on a word: an optional sign, the digits in front, within 64 bits.\<close>

definition scanDecimal :: "gostr \<Rightarrow> int option" where
  "scanDecimal s =
     (let (neg, r) =
        (case s of
           [] \<Rightarrow> (False, [])
         | c # r \<Rightarrow> if c = CHR ''-'' then (True, r) else if c = CHR ''+'' then (False, r) else (False, s));
          ds = takeWhile is_digit r;
          n = (if neg then - digitsValue ds else digitsValue ds)
      in if ds = [] \<or> n < - (2 ^ 63) \<or> 2 ^ 63 \<le> n then None else Some n)"

definition originalToolBytes :: "gostr \<Rightarrow> int" where
  "originalToolBytes content =
     (let full = int (length content)
      in if \<not> HasPrefix content snippedMarker then full
         else
           (case IndexStr content bytesArchivedTo of
              None \<Rightarrow> full
            | Some end \<Rightarrow>
                if \<not> length snippedMarker < end then full
                else
                  (let words = Fields (drop (length snippedMarker) (take end content))
                   in if words = [] then full
                      else (case scanDecimal (last words) of
                              Some n \<Rightarrow> if n > 0 then n else full
                            | None \<Rightarrow> full))))"

definition originalToolArchive :: "gostr \<Rightarrow> gostr" where
  "originalToolArchive content =
     (if \<not> HasPrefix content snippedMarker then []
      else
        (case IndexStr content bytesArchivedTo of
           None \<Rightarrow> []
         | Some i \<Rightarrow>
             (let rest = drop (i + length bytesArchivedTo) content
              in case IndexByte rest CHR '';'' of
                   None \<Rightarrow> []
                 | Some end \<Rightarrow>
                     (let archive = TrimSpace (take end rest)
                      in if archive = notArchived then [] else archive))))"

subsection \<open>Rewriting\<close>

definition itoaSigned :: "int \<Rightarrow> gostr" where
  "itoaSigned n = (if n < 0 then CHR ''-'' # itoa (nat (- n)) else itoa (nat n))"

definition pruneToolResult :: "Message \<Rightarrow> gostr \<Rightarrow> gostr" where
  "pruneToolResult m archive0 =
     (let prior = originalToolArchive (msg_Content m);
          archive1 = (if prior \<noteq> [] then prior else archive0);
          archive = (if archive1 = [] then notArchived else archive1)
      in prunedMarker @ msg_Name m @ '', '' @ itoaSigned (originalToolBytes (msg_Content m)) @ bytesArchivedTo
         @ archive @ ''; re-run the tool if the data is needed again]'')"

definition isRuneBoundary :: "gostr \<Rightarrow> nat \<Rightarrow> bool" where
  "isRuneBoundary s i \<longleftrightarrow>
     i = 0 \<or> i = length s \<or> (0 < i \<and> i < length s \<and> byte_val (s ! i) div 64 \<noteq> 2)"

fun boundaryBefore :: "gostr \<Rightarrow> nat \<Rightarrow> nat" where
  "boundaryBefore s 0 = 0"
| "boundaryBefore s (Suc n) = (if \<not> isRuneBoundary s (Suc n) then boundaryBefore s n else Suc n)"

definition firstRunes :: "gostr \<Rightarrow> nat \<Rightarrow> gostr" where
  "firstRunes s n = (if length s \<le> n then s else take (boundaryBefore s n) s)"

function boundaryAfter :: "gostr \<Rightarrow> nat \<Rightarrow> nat" where
  "boundaryAfter s i = (if i < length s \<and> \<not> isRuneBoundary s i then boundaryAfter s (i + 1) else i)"
  by pat_completeness auto
termination by (relation "measure (\<lambda>(s, i). length s - i)") auto

declare boundaryAfter.simps [simp del]

definition lastRunes :: "gostr \<Rightarrow> nat \<Rightarrow> gostr" where
  "lastRunes s n = (if length s \<le> n then s else drop (boundaryAfter s (length s - n)) s)"

definition omittedBytes :: "gostr \<Rightarrow> nat \<Rightarrow> nat \<Rightarrow> nat" where
  "omittedBytes s head tail = length s - head - tail"

record snipStrategy =
  sn_head :: nat
  sn_tail :: nat
  sn_headChars :: nat
  sn_tailChars :: nat

definition defaultReadOnlySnip :: snipStrategy where
  "defaultReadOnlySnip = \<lparr>sn_head = 80, sn_tail = 12, sn_headChars = 10000, sn_tailChars = 2000\<rparr>"

definition defaultSideEffectingSnip :: snipStrategy where
  "defaultSideEffectingSnip = \<lparr>sn_head = 40, sn_tail = 40, sn_headChars = 8000, sn_tailChars = 8000\<rparr>"

fun snipStrategyFromHint :: "nat \<times> nat \<times> nat \<times> nat \<Rightarrow> snipStrategy" where
  "snipStrategyFromHint (h, t, hc, tc) = \<lparr>sn_head = h, sn_tail = t, sn_headChars = hc, sn_tailChars = tc\<rparr>"

definition snipStrategyFor :: "compact_conf \<Rightarrow> gostr \<Rightarrow> snipStrategy" where
  "snipStrategyFor conf name =
     (case cc_tools conf name of
        Some t \<Rightarrow>
          (case ts_Hint t of
             Some h \<Rightarrow> snipStrategyFromHint h
           | None \<Rightarrow> if ts_ReadOnly t then defaultReadOnlySnip else defaultSideEffectingSnip)
      | None \<Rightarrow> defaultReadOnlySnip)"

text \<open>What every snipped result starts with.\<close>

definition snipHeader :: "Message \<Rightarrow> gostr \<Rightarrow> gostr" where
  "snipHeader m archive =
     snippedMarker @ msg_Name m @ '', '' @ itoa (length (msg_Content m)) @ bytesArchivedTo
     @ (if archive = [] then notArchived else archive) @ ''; ''"

definition snipToolResult :: "Message \<Rightarrow> gostr \<Rightarrow> snipStrategy \<Rightarrow> gostr" where
  "snipToolResult m archive st =
     (let content = msg_Content m; lines = Split content nl
      in if length lines \<le> sn_head st + sn_tail st
         then
           (let headChars = min (sn_headChars st) (length content div 2);
                tailChars = min (sn_tailChars st) (length content div 4)
            in snipHeader m archive @ ''single large line truncated]'' @ [nl]
               @ firstRunes content headChars @ [nl]
               @ ''[... '' @ itoa (omittedBytes content headChars tailChars) @ '' bytes omitted ...]'' @ [nl]
               @ lastRunes content tailChars)
         else
           snipHeader m archive @ ''showing first '' @ itoa (sn_head st) @ '' lines and last ''
           @ itoa (sn_tail st) @ '' lines]'' @ [nl]
           @ Join (take (sn_head st) lines) [nl] @ [nl]
           @ ''[... '' @ itoa (length lines - sn_head st - sn_tail st) @ '' lines omitted ...]'' @ [nl]
           @ Join (drop (length lines - sn_tail st) lines) [nl])"

definition rewriteToolResult :: "Message \<Rightarrow> toolResultMaintenanceMode \<Rightarrow> gostr \<Rightarrow> snipStrategy \<Rightarrow> gostr" where
  "rewriteToolResult m mode archive st =
     (if mode = ToolResultPrune then pruneToolResult m archive else snipToolResult m archive st)"

subsection \<open>One maintenance pass\<close>

fun rewriteLoop ::
    "compact_conf \<Rightarrow> toolResultMaintenanceMode \<Rightarrow> nat list \<Rightarrow> Message list \<Rightarrow> PruneStats \<Rightarrow> Message list \<times> PruneStats" where
  "rewriteLoop conf mode [] ms st = (ms, st)"
| "rewriteLoop conf mode (i # idx) ms st =
     (let m = ms ! i;
          replacement = rewriteToolResult m mode (pst_Archive st) (snipStrategyFor conf (msg_Name m))
      in if replacement = msg_Content m then rewriteLoop conf mode idx ms st
         else
           rewriteLoop conf mode idx (ms[i := m\<lparr>msg_Content := replacement\<rparr>])
             (st\<lparr>pst_SavedChars := pst_SavedChars st + int (length (msg_Content m)) - int (length replacement),
                 pst_Results := pst_Results st + 1\<rparr>))"

text \<open>The part of the history a pass may touch, and the results in it that it takes.\<close>

definition maintenanceRange ::
    "token_lib \<Rightarrow> compact_conf \<Rightarrow> toolResultMaintenanceMode \<Rightarrow> Message list \<Rightarrow> (nat \<times> nat) option" where
  "maintenanceRange tk conf mode msgs =
     (case planCompaction tk conf msgs 1 of
        (head, start, ok) \<Rightarrow>
          if ok then Some (head, start)
          else if mode \<noteq> ToolResultPrune then None
          else if int (length msgs) - cc_recentKeep conf < 1 then None
          else Some (1, nat (int (length msgs) - cc_recentKeep conf)))"

definition maintenanceIndexes ::
    "compact_conf \<Rightarrow> toolResultMaintenanceMode \<Rightarrow> Message list \<Rightarrow> nat \<times> nat \<Rightarrow> nat list" where
  "maintenanceIndexes conf mode msgs bounds =
     filter (\<lambda>i. shouldMaintainToolResult (msgs ! i) mode
               \<and> \<not> (cc_keepPolicy conf AND KeepErrors \<noteq> 0 \<and> isErrorMessage (msgs ! i)))
       [fst bounds..<snd bounds]"

definition originalsToArchive :: "toolResultMaintenanceMode \<Rightarrow> Message list \<Rightarrow> nat list \<Rightarrow> Message list" where
  "originalsToArchive mode msgs idx =
     map (\<lambda>i. msgs ! i)
       (filter (\<lambda>i. \<not> (mode = ToolResultPrune \<and> HasPrefix (msg_Content (msgs ! i)) snippedMarker)) idx)"

datatype archive_error = ArchiveError

definition maintainStaleToolResults ::
    "token_lib \<Rightarrow> compact_conf \<Rightarrow> toolResultMaintenanceMode \<Rightarrow> gostr option \<Rightarrow> agent_context
     \<Rightarrow> agent_context \<times> (archive_error + PruneStats)" where
  "maintainStaleToolResults tk conf mode path cx =
     (if cc_contextWindow conf \<le> 0 then (cx, Inr noPruneStats)
      else
        (let msgs = cx_Messages cx
         in case maintenanceRange tk conf mode msgs of
              None \<Rightarrow> (cx, Inr noPruneStats)
            | Some bounds \<Rightarrow>
                (let idx = maintenanceIndexes conf mode msgs bounds;
                     originals = originalsToArchive mode msgs idx;
                     archiving = (cc_archiveDir conf \<noteq> [] \<and> originals \<noteq> [])
                 in if idx = [] then (cx, Inr noPruneStats)
                    else if archiving \<and> path = None then (cx, Inl ArchiveError)
                    else
                      (let cx1 = (if archiving then cx\<lparr>cx_archives := cx_archives cx @ [(the path, originals)]\<rparr> else cx);
                           st0 = (if archiving then noPruneStats\<lparr>pst_Archive := the path\<rparr> else noPruneStats);
                           (rewritten, st) = rewriteLoop conf mode idx msgs st0
                       in if pst_Results st = 0 then (cx1, Inr st)
                          else (cx1\<lparr>cx_session := Rewrite rewritten (cx_session cx1)\<rparr>, Inr st)))))"

definition SnipStaleToolResults where
  "SnipStaleToolResults tk conf path cx = maintainStaleToolResults tk conf ToolResultSnip path cx"

definition PruneStaleToolResults where
  "PruneStaleToolResults tk conf path cx = maintainStaleToolResults tk conf ToolResultPrune path cx"

end
