(* ===== verification/Agent_Compact.thy ===== *)
theory Agent_Compact imports Agent_Prune begin

text \<open>
  Context compaction: the operations of \<open>internal/agent/compact.go\<close> that rewrite the session. The
  summarizer is a model call: \<open>sm_summarize\<close> gives the outcome of each attempt. Archive paths are
  the outcomes of the file writes of one call.
\<close>

subsection \<open>The summarizer\<close>

datatype summarize_error = DeadlineExceeded | Canceled | SummarizerFailed gostr

datatype compact_error = CompactArchiveError | CompactSummarizeError summarize_error

record summarizer =
  sm_summarize :: "nat \<Rightarrow> Message list \<Rightarrow> gostr \<Rightarrow> summarize_error + gostr"
  sm_hook :: "gostr \<Rightarrow> gostr"

definition summarizeWithRetry :: "summarizer \<Rightarrow> Message list \<Rightarrow> gostr \<Rightarrow> summarize_error + gostr" where
  "summarizeWithRetry sm region instructions =
     (case sm_summarize sm 0 region instructions of
        Inr s \<Rightarrow> Inr s
      | Inl e \<Rightarrow>
          if e = DeadlineExceeded \<or> e = Canceled then Inl e else sm_summarize sm 1 region instructions)"

definition mechanicalFoldDigest :: "nat \<Rightarrow> gostr \<Rightarrow> gostr" where
  "mechanicalFoldDigest n archive =
     itoa n @ '' earlier message(s) were folded here to free context, but the automatic summary was unavailable''
     @ (if archive \<noteq> [] then '' (archived to '' @ archive @ '').'' else ''.'')
     @ '' Ask the user if you need details from before this point.''"

definition digestMessage :: "gostr \<Rightarrow> Message" where
  "digestMessage summary =
     plainMessage RoleUser
       (summaryTagOpen @ [nl]
        @ ''Summary of earlier conversation (older messages were compacted to save context):'' @ [nl]
        @ summary @ [nl] @ summaryTagClose)"

subsection \<open>compact\<close>

text \<open>The region of one fold: \<open>None\<close> when there is too little to compact.\<close>

definition compactRegion :: "token_lib \<Rightarrow> compact_conf \<Rightarrow> agent_context \<Rightarrow> (nat \<times> nat) option" where
  "compactRegion tk conf cx =
     (let msgs = cx_Messages cx;
          (head0, start0, ok0) = planCompaction tk conf msgs minCompactMessages;
          (head, start, ok) = (if ok0 then (head0, start0, True) else planCompaction tk conf msgs 1)
      in if \<not> ok then None
         else
           (case activeTurnStart cx msgs of
              None \<Rightarrow> Some (head, start)
            | Some active \<Rightarrow>
                if head \<le> active \<and> active < start
                then (if active \<le> head then None else Some (head, active))
                else Some (head, start)))"

definition joinInstructions :: "gostr \<Rightarrow> gostr \<Rightarrow> gostr" where
  "joinInstructions instructions hookInstr =
     (if hookInstr = [] then instructions
      else (if instructions \<noteq> [] then instructions @ [nl] else instructions) @ hookInstr)"

text \<open>What is folded, and whether the fold goes ahead.\<close>

definition foldPlan ::
    "token_lib \<Rightarrow> compact_conf \<Rightarrow> bool \<Rightarrow> agent_context \<Rightarrow> (nat \<times> nat \<times> Message list \<times> Message list) option" where
  "foldPlan tk conf force cx =
     (case compactRegion tk conf cx of
        None \<Rightarrow> None
      | Some (head, start) \<Rightarrow>
          (let msgs = cx_Messages cx;
               (kept, folded) = partitionFold tk conf msgs (take (start - head) (drop head msgs))
           in if folded = [] then None
              else if \<not> force \<and> \<not> foldEconomics folded then None
              else Some (head, start, kept, folded)))"

definition compact ::
    "token_lib \<Rightarrow> compact_conf \<Rightarrow> summarizer \<Rightarrow> gostr option \<Rightarrow> gostr \<Rightarrow> gostr \<Rightarrow> bool \<Rightarrow> agent_context
     \<Rightarrow> agent_context \<times> compact_error option" where
  "compact tk conf sm path trigger instructions force cx =
     (case foldPlan tk conf force cx of
        None \<Rightarrow> (cx, None)
      | Some (head, start, kept, folded) \<Rightarrow>
          (let instr = joinInstructions instructions (sm_hook sm trigger)
           in if cc_archiveDir conf \<noteq> [] \<and> path = None then (cx, Some CompactArchiveError)
              else
                (let archived = (if cc_archiveDir conf \<noteq> [] then the path else []);
                     cx1 = (if cc_archiveDir conf \<noteq> []
                            then cx\<lparr>cx_archives := cx_archives cx @ [(archived, folded)]\<rparr> else cx);
                     summary = (case summarizeWithRetry sm folded instr of
                                  Inr s \<Rightarrow> s
                                | Inl e \<Rightarrow> mechanicalFoldDigest (length folded) archived);
                     msgs = cx_Messages cx;
                     compacted = take head msgs @ kept @ [digestMessage summary] @ drop start msgs
                 in (cx1\<lparr>cx_session := Rewrite compacted (cx_session cx1)\<rparr>, None))))"

subsection \<open>Summaries of a range\<close>

definition splitLocalOnlyMessages :: "Message list \<Rightarrow> Message list \<times> Message list" where
  "splitLocalOnlyMessages msgs = (filter (\<lambda>m. \<not> msg_LocalOnly m) msgs, filter msg_LocalOnly msgs)"

text \<open>Archiving is best effort here: a failed write is ignored.\<close>

definition archiveBestEffort :: "compact_conf \<Rightarrow> gostr option \<Rightarrow> Message list \<Rightarrow> agent_context \<Rightarrow> agent_context" where
  "archiveBestEffort conf path region cx =
     (if cc_archiveDir conf \<noteq> [] \<and> path \<noteq> None
      then cx\<lparr>cx_archives := cx_archives cx @ [(the path, region)]\<rparr> else cx)"

definition SummarizeFrom ::
    "compact_conf \<Rightarrow> summarizer \<Rightarrow> gostr option \<Rightarrow> int \<Rightarrow> agent_context \<Rightarrow> agent_context \<times> compact_error option" where
  "SummarizeFrom conf sm path fromIdx cx =
     (let msgs = cx_Messages cx
      in if fromIdx < 0 \<or> int (length msgs) \<le> fromIdx then (cx, None)
         else
           (let (region, localOnly) = splitLocalOnlyMessages (drop (nat fromIdx) msgs);
                cx1 = archiveBestEffort conf path region cx
            in if region = [] then (cx, None)
               else
                 (case sm_summarize sm 0 region [] of
                    Inl e \<Rightarrow> (cx1, Some (CompactSummarizeError e))
                  | Inr summary \<Rightarrow>
                      (cx1\<lparr>cx_session := Rewrite
                         (take (nat fromIdx) msgs
                          @ [plainMessage RoleUser
                               (''Summary of the later conversation (compacted from here on):'' @ [nl] @ summary)]
                          @ localOnly) (cx_session cx1)\<rparr>, None))))"

definition SummarizeUpTo ::
    "compact_conf \<Rightarrow> summarizer \<Rightarrow> gostr option \<Rightarrow> int \<Rightarrow> agent_context \<Rightarrow> agent_context \<times> compact_error option" where
  "SummarizeUpTo conf sm path toIdx cx =
     (let msgs = cx_Messages cx;
          head = (if 0 < length msgs \<and> msg_Role (msgs ! 0) = RoleSystem then 1 else 0)
      in if toIdx \<le> int head \<or> int (length msgs) < toIdx then (cx, None)
         else
           (let (region, localOnly) = splitLocalOnlyMessages (take (nat toIdx - head) (drop head msgs));
                cx1 = archiveBestEffort conf path region cx
            in if region = [] then (cx, None)
               else
                 (case sm_summarize sm 0 region [] of
                    Inl e \<Rightarrow> (cx1, Some (CompactSummarizeError e))
                  | Inr summary \<Rightarrow>
                      (cx1\<lparr>cx_session := Rewrite
                         (take head msgs
                          @ [plainMessage RoleUser
                               (''Summary of earlier conversation (compacted up to here):'' @ [nl] @ summary)]
                          @ localOnly @ drop (nat toIdx) msgs) (cx_session cx1)\<rparr>, None))))"

subsection \<open>Automatic compaction\<close>

text \<open>Did eliding stale results alone bring the prompt under the trigger?\<close>

definition prunedEnough ::
    "token_lib \<Rightarrow> compact_conf \<Rightarrow> Message list \<Rightarrow> archive_error + PruneStats \<Rightarrow> bool \<Rightarrow> int \<Rightarrow> bool" where
  "prunedEnough tk conf session res force promptTokens =
     (case res of
        Inl e \<Rightarrow> False
      | Inr st \<Rightarrow>
          (let saved = (if pst_SavedChars st < 0 then - tl_tokens tk session (nat (- pst_SavedChars st))
                        else tl_tokens tk session (nat (pst_SavedChars st)))
           in 0 < pst_Results st \<and> \<not> force \<and> promptTokens - saved < tl_high tk (cc_contextWindow conf)))"

text \<open>Two compactions without a turn under the trigger in between pause the automatism.\<close>

definition countCompact :: "agent_context \<Rightarrow> agent_context" where
  "countCompact cx =
     (let n = cx_consecutiveCompacts cx + 1
      in if 2 \<le> n then cx\<lparr>cx_consecutiveCompacts := n, cx_compactStuck := True\<rparr>
         else cx\<lparr>cx_consecutiveCompacts := n\<rparr>)"

definition pruneThenCompact ::
    "token_lib \<Rightarrow> compact_conf \<Rightarrow> summarizer \<Rightarrow> gostr option \<Rightarrow> gostr option \<Rightarrow> int \<Rightarrow> agent_context \<Rightarrow> agent_context" where
  "pruneThenCompact tk conf sm prunePath foldPath promptTokens cx =
     (let force = (tl_force tk (cc_contextWindow conf) \<le> promptTokens);
          (cx1, res) = PruneStaleToolResults tk conf prunePath cx
      in if prunedEnough tk conf (cx_Messages cx) res force promptTokens then cx1
         else
           (case compact tk conf sm foldPath ''auto'' [] force cx1 of
              (cx2, Some e) \<Rightarrow> cx2
            | (cx2, None) \<Rightarrow> countCompact cx2))"

text \<open>
  \<open>maybeCompact\<close> after a model turn that used \<open>promptTokens\<close>; \<open>None\<close> is missing usage. The two
  paths are the outcomes of the archive writes of the maintenance pass and of the fold.
\<close>

definition maybeCompact ::
    "token_lib \<Rightarrow> compact_conf \<Rightarrow> summarizer \<Rightarrow> gostr option \<Rightarrow> gostr option \<Rightarrow> int option \<Rightarrow> agent_context
     \<Rightarrow> agent_context" where
  "maybeCompact tk conf sm prunePath foldPath usage cx =
     (case usage of
        None \<Rightarrow> cx
      | Some promptTokens \<Rightarrow>
          if cc_contextWindow conf \<le> 0 \<or> promptTokens = 0 then cx
          else
            (let window = cc_contextWindow conf;
                 high = tl_high tk window; snip = tl_snip tk window; soft = tl_soft tk window
             in if soft \<le> promptTokens \<and> promptTokens < snip \<and> \<not> cx_softCompactNoticed cx
                then cx\<lparr>cx_softCompactNoticed := True\<rparr>
                else if snip \<le> promptTokens \<and> promptTokens < high
                then fst (SnipStaleToolResults tk conf prunePath cx)
                else if promptTokens < high
                then cx\<lparr>cx_consecutiveCompacts := 0, cx_compactStuck := False\<rparr>
                else if cx_compactStuck cx then cx
                else pruneThenCompact tk conf sm prunePath foldPath promptTokens cx))"

text \<open>A manual \<open>/compact\<close>: forced, never paused.\<close>

definition CompactNow ::
    "token_lib \<Rightarrow> compact_conf \<Rightarrow> summarizer \<Rightarrow> gostr option \<Rightarrow> gostr \<Rightarrow> agent_context \<Rightarrow> agent_context \<times> compact_error option" where
  "CompactNow tk conf sm path instructions cx = compact tk conf sm path ''manual'' instructions True cx"

end
