(* ===== verification/Agent_Compact_Props.thy ===== *)
theory Agent_Compact_Props imports Agent_Compact begin

text \<open>
  Lemmas on maintenance and compaction: content rewrites keep the skeleton of a history, a fold
  keeps it paired, and nothing that is rewritten or folded away is lost to the archive.
\<close>

subsection \<open>Maintenance\<close>

lemma rewriteLoop_skeleton:
  "map skeleton (fst (rewriteLoop conf mode idx ms st)) = map skeleton ms"
proof (induction conf mode idx ms st rule: rewriteLoop.induct)
  case (2 conf mode i idx ms st)
  have same: "map skeleton (ms[i := (ms ! i)\<lparr>msg_Content := c\<rparr>]) = map skeleton ms" for c
    by (cases "i < length ms") (simp_all add: map_update skeleton_def list_update_same_conv list_update_beyond)
  show ?case
    using 2 same by (simp add: Let_def)
qed simp

lemma length_rewriteLoop [simp]: "length (fst (rewriteLoop conf mode idx ms st)) = length ms"
  using arg_cong [OF rewriteLoop_skeleton, of length] by simp

lemma rewriteLoop_other:
  "j \<notin> set idx \<Longrightarrow> fst (rewriteLoop conf mode idx ms st) ! j = ms ! j"
  by (induction conf mode idx ms st rule: rewriteLoop.induct) (auto simp: Let_def)

lemma rewriteLoop_archive [simp]: "pst_Archive (snd (rewriteLoop conf mode idx ms st)) = pst_Archive st"
  by (induction conf mode idx ms st rule: rewriteLoop.induct) (auto simp: Let_def)

lemma rewriteLoop_at:
  "distinct idx \<Longrightarrow> j \<in> set idx \<Longrightarrow> j < length ms \<Longrightarrow>
     fst (rewriteLoop conf mode idx ms st) ! j
     = (ms ! j)\<lparr>msg_Content := rewriteToolResult (ms ! j) mode (pst_Archive st) (snipStrategyFor conf (msg_Name (ms ! j)))\<rparr>"
proof (induction conf mode idx ms st rule: rewriteLoop.induct)
  case (2 conf mode i idx ms st)
  show ?case
  proof (cases "j = i")
    case True
    then have "j \<notin> set idx" using 2(3) by simp
    then show ?thesis using True 2(5) by (simp add: Let_def rewriteLoop_other)
  next
    case False
    then show ?thesis using 2 by (simp add: Let_def)
  qed
qed simp

lemma rewriteLoop_idle: "pst_Results (snd (rewriteLoop conf mode idx ms st)) \<ge> pst_Results st"
proof (induction conf mode idx ms st rule: rewriteLoop.induct)
  case (2 conf mode i idx ms st)
  show ?case using 2 by (auto simp: Let_def intro: Suc_leD)
qed simp

lemma rewriteLoop_unchanged:
  "pst_Results (snd (rewriteLoop conf mode idx ms st)) = pst_Results st \<Longrightarrow> fst (rewriteLoop conf mode idx ms st) = ms"
proof (induction conf mode idx ms st rule: rewriteLoop.induct)
  case (2 conf mode i idx ms st)
  show ?case
  proof (cases "rewriteToolResult (ms ! i) mode (pst_Archive st) (snipStrategyFor conf (msg_Name (ms ! i))) = msg_Content (ms ! i)")
    case True
    then show ?thesis using 2 by (simp add: Let_def)
  next
    case False
    let ?st = "st\<lparr>pst_SavedChars := pst_SavedChars st + int (length (msg_Content (ms ! i)))
        - int (length (rewriteToolResult (ms ! i) mode (pst_Archive st) (snipStrategyFor conf (msg_Name (ms ! i))))),
        pst_Results := pst_Results st + 1\<rparr>"
    have "pst_Results st < pst_Results (snd (rewriteLoop conf mode idx
        (ms[i := (ms ! i)\<lparr>msg_Content := rewriteToolResult (ms ! i) mode (pst_Archive st) (snipStrategyFor conf (msg_Name (ms ! i)))\<rparr>]) ?st))"
      using rewriteLoop_idle [where st = ?st] by (simp add: Suc_le_eq)
    then show ?thesis using 2(3) False by (simp add: Let_def)
  qed
qed simp

text \<open>A pass in one piece: what it archived, and the session it left.\<close>

lemma maintenance_cases:
  assumes "maintainStaleToolResults tk conf mode path cx = (cx', res)"
  obtains (idle) "cx' = cx"
  | (worked) bounds archiving st0 where
      "maintenanceRange tk conf mode (cx_Messages cx) = Some bounds"
      "archiving \<longleftrightarrow> cc_archiveDir conf \<noteq> [] \<and> originalsToArchive mode (cx_Messages cx) (maintenanceIndexes conf mode (cx_Messages cx) bounds) \<noteq> []"
      "archiving \<longrightarrow> path \<noteq> None"
      "pst_Archive st0 = (if archiving then the path else [])" "pst_Results st0 = 0"
      "cx_archives cx' = cx_archives cx @ (if archiving then
         [(the path, originalsToArchive mode (cx_Messages cx) (maintenanceIndexes conf mode (cx_Messages cx) bounds))] else [])"
      "cx_Messages cx' = fst (rewriteLoop conf mode (maintenanceIndexes conf mode (cx_Messages cx) bounds) (cx_Messages cx) st0)"
      "cx_consecutiveCompacts cx' = cx_consecutiveCompacts cx" "cx_compactStuck cx' = cx_compactStuck cx"
      "cx_softCompactNoticed cx' = cx_softCompactNoticed cx" "cx_activeTurnCreatedAt cx' = cx_activeTurnCreatedAt cx"
proof (cases "cc_contextWindow conf \<le> 0")
  case True
  then show ?thesis using assms idle by (simp add: maintainStaleToolResults_def)
next
  case False
  show ?thesis
  proof (cases "maintenanceRange tk conf mode (cx_Messages cx)")
    case None
    then show ?thesis using assms idle False by (simp add: maintainStaleToolResults_def Let_def)
  next
    case (Some bounds)
    let ?msgs = "cx_Messages cx"
    let ?idx = "maintenanceIndexes conf mode ?msgs bounds"
    let ?orig = "originalsToArchive mode ?msgs ?idx"
    define archiving where "archiving \<longleftrightarrow> cc_archiveDir conf \<noteq> [] \<and> ?orig \<noteq> []"
    define cx1 where "cx1 = (if archiving then cx\<lparr>cx_archives := cx_archives cx @ [(the path, ?orig)]\<rparr> else cx)"
    define st0 where "st0 = (if archiving then noPruneStats\<lparr>pst_Archive := the path\<rparr> else noPruneStats)"
    obtain ms st where r: "rewriteLoop conf mode ?idx ?msgs st0 = (ms, st)" by fastforce
    have eq: "maintainStaleToolResults tk conf mode path cx =
        (if ?idx = [] then (cx, Inr noPruneStats)
         else if archiving \<and> path = None then (cx, Inl ArchiveError)
         else if pst_Results st = 0 then (cx1, Inr st)
         else (cx1\<lparr>cx_session := Rewrite ms (cx_session cx1)\<rparr>, Inr st))"
      unfolding maintainStaleToolResults_def Let_def Some option.case archiving_def [symmetric]
        cx1_def [symmetric] st0_def [symmetric]
      using False by (simp only: if_False r prod.case)
    show ?thesis
    proof (cases "?idx = [] \<or> (archiving \<and> path = None)")
      case True
      then show ?thesis using assms idle unfolding eq by (auto split: if_splits)
    next
      case go: False
      have st0: "pst_Archive st0 = (if archiving then the path else [])" "pst_Results st0 = 0"
        by (simp_all add: st0_def noPruneStats_def)
      have ms: "ms = fst (rewriteLoop conf mode ?idx ?msgs st0)" using r by simp
      have idle_ms: "pst_Results st = 0 \<Longrightarrow> ms = ?msgs"
        using rewriteLoop_unchanged [of conf mode ?idx ?msgs st0] r st0(2) by simp
      have cx': "cx' = (if pst_Results st = 0 then cx1 else cx1\<lparr>cx_session := Rewrite ms (cx_session cx1)\<rparr>)"
        using assms go unfolding eq by (auto split: if_splits)
      show ?thesis
        by (rule worked [OF Some _ _ st0])
          (use go in \<open>auto simp: archiving_def cx' cx1_def ms [symmetric] idle_ms Rewrite_def\<close>)
    qed
  qed
qed

lemma maintenance_skeleton:
  assumes "maintainStaleToolResults tk conf mode path cx = (cx', res)"
  shows "map skeleton (cx_Messages cx') = map skeleton (cx_Messages cx)"
  using assms by (cases rule: maintenance_cases) (simp_all add: rewriteLoop_skeleton)

subsection \<open>Folding\<close>

lemma takeWhile_drop_none:
  "(start < length ms \<Longrightarrow> msg_Role (ms ! start) \<noteq> RoleTool) \<Longrightarrow> takeWhile isToolResult (drop start ms) = []"
  by (cases "start < length ms") (simp_all add: Cons_nth_drop_Suc [symmetric])

lemma activeTurnStart_user:
  "activeTurnStart cx msgs = Some i \<Longrightarrow> i < length msgs \<and> msg_Role (msgs ! i) = RoleUser"
  by (auto simp: activeTurnStart_def Let_def dest!: nth_length_takeWhile split: if_splits)

lemma compactRegion_facts:
  assumes "compactRegion tk conf cx = Some (head, start)"
  shows "head = pinnedPrefixLen tk conf (cx_Messages cx)" "head < start" "start \<le> length (cx_Messages cx)"
    "takeWhile isToolResult (drop start (cx_Messages cx)) = []"
proof -
  let ?msgs = "cx_Messages cx"
  let ?rest = "\<lambda>(h, s, ok). if \<not> ok then None
        else (case activeTurnStart cx ?msgs of None \<Rightarrow> Some (h, s)
              | Some active \<Rightarrow> if h \<le> active \<and> active < s
                  then (if active \<le> h then None else Some (h, active)) else Some (h, s))"
  have rest: "h = head \<and> ok \<and> (start = s \<or> (activeTurnStart cx ?msgs = Some start \<and> head < start \<and> start < s))"
    if "?rest (h, s, ok) = Some (head, start)" for h s ok
    using that by (auto split: if_splits option.splits)
  obtain h1 s1 ok1 where p1: "planCompaction tk conf ?msgs minCompactMessages = (h1, s1, ok1)" by (cases "planCompaction tk conf ?msgs minCompactMessages")
  obtain h2 s2 ok2 where p2: "planCompaction tk conf ?msgs 1 = (h2, s2, ok2)" by (cases "planCompaction tk conf ?msgs 1")
  have eq: "compactRegion tk conf cx = ?rest (if ok1 then (h1, s1, True) else (h2, s2, ok2))"
    unfolding compactRegion_def Let_def p1 p2 by (cases ok1; cases ok2) simp_all
  obtain head0 start0 where p: "\<exists>minimum > 0. planCompaction tk conf ?msgs minimum = (head0, start0, True)"
    and h: "head = head0"
    and s: "start = start0 \<or> (activeTurnStart cx ?msgs = Some start \<and> head < start \<and> start < start0)"
  proof (cases ok1)
    case True
    have r: "head = h1" "start = s1 \<or> (activeTurnStart cx ?msgs = Some start \<and> head < start \<and> start < s1)"
      using rest [of h1 s1 True] assms eq True by simp_all
    have "\<exists>minimum > 0. planCompaction tk conf ?msgs minimum = (h1, s1, True)"
      using p1 True by (intro exI [of _ minCompactMessages]) (simp add: minCompactMessages_def)
    then show ?thesis using that r by blast
  next
    case False
    have r: "head = h2" "ok2" "start = s2 \<or> (activeTurnStart cx ?msgs = Some start \<and> head < start \<and> start < s2)"
      using rest [of h2 s2 ok2] assms eq False by simp_all
    have "\<exists>minimum > 0. planCompaction tk conf ?msgs minimum = (h2, s2, True)"
      using p2 r(2) by (intro exI [of _ 1]) simp
    then show ?thesis using that r by blast
  qed
  from p obtain minimum where "planCompaction tk conf ?msgs minimum = (head0, start0, True)" "0 < minimum" by blast
  note f = planCompaction_facts [OF this]
  show "head = pinnedPrefixLen tk conf ?msgs" "head < start" "start \<le> length ?msgs" using f h s by auto
  show "takeWhile isToolResult (drop start ?msgs) = []"
    using s f(5) activeTurnStart_user by (intro takeWhile_drop_none) fastforce
qed

lemma foldPlan_facts:
  assumes "foldPlan tk conf force cx = Some (head, start, kept, folded)"
  shows "compactRegion tk conf cx = Some (head, start)" "folded \<noteq> []"
    "kept = pick (keptFlags tk conf (cx_Messages cx) (take (start - head) (drop head (cx_Messages cx))))
              (take (start - head) (drop head (cx_Messages cx)))"
    "folded = pick (map Not (keptFlags tk conf (cx_Messages cx) (take (start - head) (drop head (cx_Messages cx)))))
              (take (start - head) (drop head (cx_Messages cx)))"
  using assms by (auto simp: foldPlan_def partitionFold_def Let_def split: option.splits if_splits)

lemma split_three: "h \<le> s \<Longrightarrow> take h xs @ take (s - h) (drop h xs) @ drop s xs = xs"
  by (metis append_take_drop_id drop_drop le_add_diff_inverse2)

lemma paired_plain: "paired (xs @ ys) \<Longrightarrow> list_all (\<lambda>m. \<not> isCaller m) xs \<Longrightarrow> paired xs"
  by (induction xs) (auto simp: paired.simps split: if_splits)

lemma region_paired:
  assumes "paired ms" "list_all (\<lambda>m. \<not> isCaller m) (take h ms)" "h \<le> s" "takeWhile isToolResult (drop s ms) = []"
  shows "paired (take h ms)" "paired (take (s - h) (drop h ms))" "paired (drop s ms)"
proof -
  have all: "paired (take h ms @ take (s - h) (drop h ms) @ drop s ms)" using assms(1,3) by (simp add: split_three)
  then show "paired (take h ms)" using paired_plain assms(2) by blast
  have "paired (take (s - h) (drop h ms) @ drop s ms)" using paired_drop_plain [OF all assms(2)] .
  then show "paired (take (s - h) (drop h ms))" "paired (drop s ms)"
    using paired_append_iff [OF assms(4)] by blast+
qed

lemma paired_user [simp]: "paired [plainMessage RoleUser c]"
  by (simp add: paired.simps plainMessage_def isCaller_def)

lemma paired_local: "list_all msg_LocalOnly ms \<Longrightarrow> paired ms"
  by (induction ms) (auto simp: paired.simps)

lemma foldPlan_paired:
  assumes "foldPlan tk conf force cx = Some (head, start, kept, folded)" "paired (cx_Messages cx)"
  shows "paired (take head (cx_Messages cx) @ kept @ [digestMessage summary] @ drop start (cx_Messages cx))"
proof -
  note c = compactRegion_facts [OF foldPlan_facts(1) [OF assms(1)]]
  have plain: "list_all (\<lambda>m. \<not> isCaller m) (take head (cx_Messages cx))" using pinned_plain c(1) by metis
  note r = region_paired [OF assms(2) plain less_imp_le [OF c(2)] c(4)]
  have "paired kept"
    unfolding foldPlan_facts(3) [OF assms(1)] by (rule paired_pick [OF r(2)]) (simp_all add: keptFlags_grouped r(2))
  then show ?thesis using r(1,3) by (simp add: paired_append digestMessage_def del: append.simps)
qed

lemma compact_cases:
  assumes "compact tk conf sm path trigger instructions force cx = (cx', err)"
  obtains (idle) "cx' = cx" "foldPlan tk conf force cx = None" "err = None"
  | (failed) "cx' = cx" "err = Some CompactArchiveError" "cc_archiveDir conf \<noteq> []" "path = None"
  | (folded) head start kept folded summary where
      "foldPlan tk conf force cx = Some (head, start, kept, folded)" "err = None"
      "cc_archiveDir conf \<noteq> [] \<longrightarrow> path \<noteq> None"
      "summary = (case summarizeWithRetry sm folded (joinInstructions instructions (sm_hook sm trigger)) of
                    Inr s \<Rightarrow> s
                  | Inl e \<Rightarrow> mechanicalFoldDigest (length folded) (if cc_archiveDir conf \<noteq> [] then the path else []))"
      "cx_session cx' = Rewrite (take head (cx_Messages cx) @ kept @ [digestMessage summary] @ drop start (cx_Messages cx)) (cx_session cx)"
      "cx_archives cx' = cx_archives cx @ (if cc_archiveDir conf \<noteq> [] then [(the path, folded)] else [])"
      "cx_consecutiveCompacts cx' = cx_consecutiveCompacts cx" "cx_compactStuck cx' = cx_compactStuck cx"
      "cx_softCompactNoticed cx' = cx_softCompactNoticed cx" "cx_activeTurnCreatedAt cx' = cx_activeTurnCreatedAt cx"
proof (cases "foldPlan tk conf force cx")
  case None
  then show ?thesis using assms idle by (simp add: compact_def)
next
  case (Some plan)
  obtain head start kept folded where p: "plan = (head, start, kept, folded)" by (cases plan)
  show ?thesis
  proof (cases "cc_archiveDir conf \<noteq> [] \<and> path = None")
    case True
    then show ?thesis using assms Some p failed by (simp add: compact_def)
  next
    case False
    show ?thesis
      by (rule folded [OF Some [unfolded p]])
        (use assms Some p False in \<open>auto simp: compact_def Let_def split: if_splits\<close>)
  qed
qed

lemma compact_paired:
  assumes "compact tk conf sm path trigger instructions force cx = (cx', err)" "paired (cx_Messages cx)"
  shows "paired (cx_Messages cx')"
  using assms(1)
proof (cases rule: compact_cases)
  case (folded head start kept folded summary)
  then show ?thesis using foldPlan_paired [OF folded(1) assms(2)] by (simp add: Rewrite_def)
qed (use assms(2) in simp_all)

end
