(* ===== verification/Agent_Snip_Props.thy ===== *)
theory Agent_Snip_Props imports Agent_Compact_Props Todo_Codec begin

text \<open>
  Provenance of shortened tool results: what the header of a snipped result says about the
  original can be read back from it.
\<close>

subsection \<open>Finding the header\<close>

lemma IndexStr_skip:
  "c \<noteq> hd p \<Longrightarrow> p \<noteq> [] \<Longrightarrow> IndexStr (c # s) p = map_option Suc (IndexStr s p)"
  by (cases p) auto

lemma IndexStr_skip_all:
  "hd p \<notin> set a \<Longrightarrow> p \<noteq> [] \<Longrightarrow> IndexStr (a @ s) p = map_option ((+) (length a)) (IndexStr s p)"
proof (induction a)
  case Nil
  show ?case by (cases "IndexStr s p") simp_all
next
  case (Cons c a)
  then have "c \<noteq> hd p" by auto
  with Cons show ?case by (cases "IndexStr s p") (simp_all add: IndexStr_skip del: IndexStr.simps)
qed

lemma IndexStr_here: "p \<noteq> [] \<Longrightarrow> IndexStr (p @ s) p = Some 0"
  by (cases p) simp_all

lemma HasPrefix_short:
  "HasPrefix (a @ c # s) p \<Longrightarrow> length a < length p \<Longrightarrow> p ! length a = c"
  by (auto simp: HasPrefix_prefix prefix_def nth_append dest!: arg_cong [of _ _ "\<lambda>x. x ! length a"])

lemma HasPrefix_take: "HasPrefix (a @ s) p \<Longrightarrow> length p \<le> length a \<Longrightarrow> HasPrefix a p"
  by (auto simp: HasPrefix_prefix prefix_append dest: prefix_length_le intro: prefix_order.antisym)

lemma HasPrefix_nth: "HasPrefix s p \<Longrightarrow> k < length p \<Longrightarrow> s ! k = p ! k"
  by (auto simp: HasPrefix_prefix prefix_def nth_append)

definition plain_name :: "gostr \<Rightarrow> bool" where
  "plain_name name \<longleftrightarrow> list_all (\<lambda>c. \<not> is_space c) name"

lemma space_is_space [simp]: "is_space CHR '' ''" by (simp add: is_space_def)

text \<open>After the marker's last space a name without spaces and a comma cannot start the separator.\<close>

lemma not_separator:
  assumes "plain_name name"
  shows "\<not> HasPrefix (name @ CHR '','' # s) ''bytes archived to ''"
proof
  assume h: "HasPrefix (name @ CHR '','' # s) ''bytes archived to ''"
  show False
  proof (cases "5 < length name")
    case True
    then have "name ! 5 = CHR '' ''" using HasPrefix_nth [OF h, of 5] by (simp add: nth_append)
    moreover have "\<not> is_space (name ! 5)" using assms True by (simp add: plain_name_def list_all_length)
    ultimately show False by simp
  next
    case False
    then have "length name = 0 \<or> length name = 1 \<or> length name = 2 \<or> length name = 3 \<or> length name = 4 \<or> length name = 5"
      by linarith
    moreover have "''bytes archived to '' ! length name = CHR '',''" using HasPrefix_short [OF h] False by simp
    ultimately show False by auto
  qed
qed

lemma digits_no_space: "list_all is_digit ds \<Longrightarrow> CHR '' '' \<notin> set ds"
  by (auto simp: list_all_iff is_digit_def)

lemma IndexStr_header:
  assumes "plain_name name"
  shows "IndexStr (snippedMarker @ name @ '', '' @ itoa n @ bytesArchivedTo @ s) bytesArchivedTo
       = Some (length (snippedMarker @ name @ '', '' @ itoa n))"
proof -
  have sp: "CHR '' '' \<notin> set name" using assms by (auto simp: plain_name_def list_all_iff)
  have it: "CHR '' '' \<notin> set (itoa n)" using itoa_digits digits_no_space by blast
  obtain c cs where c: "itoa n = c # cs" "is_digit c" using itoa_Cons by blast
  have nb: "c \<noteq> CHR ''b''" using c(2) by (auto simp: is_digit_def)
  let ?sep = "CHR '' '' # ''bytes archived to ''"
  have sep: "bytesArchivedTo = ?sep" by (simp add: bytesArchivedTo_def)
  have e1: "IndexStr (itoa n @ ?sep @ s) ?sep = Some (length (itoa n))"
    using IndexStr_skip_all [of ?sep "itoa n" "?sep @ s"] it IndexStr_here [of ?sep s] by simp
  have e2: "IndexStr (CHR '' '' # itoa n @ ?sep @ s) ?sep = Some (Suc (length (itoa n)))"
    using e1 c nb by simp
  have e3: "IndexStr (name @ CHR '','' # CHR '' '' # itoa n @ ?sep @ s) ?sep
      = Some (length name + Suc (Suc (length (itoa n))))"
    using IndexStr_skip_all [of ?sep "name @ '',''" "CHR '' '' # itoa n @ ?sep @ s"] sp e2 by simp
  have e4: "IndexStr (CHR '' '' # name @ CHR '','' # CHR '' '' # itoa n @ ?sep @ s) ?sep
      = Some (Suc (length name + Suc (Suc (length (itoa n)))))"
    using e3 not_separator [OF assms, of "CHR '' '' # itoa n @ ?sep @ s"] by simp
  show ?thesis using e4 unfolding sep snippedMarker_def markerDash_def by simp
qed

lemma Fields_word:
  assumes "w \<noteq> []" "list_all (\<lambda>c. \<not> is_space c) w" "s = [] \<or> is_space (hd s)"
  shows "Fields (w @ s) = w # Fields s"
proof -
  obtain c r where w: "w = c # r" using assms(1) by (cases w) auto
  have t: "takeWhile (\<lambda>c. \<not> is_space c) (w @ s) = w" "dropWhile (\<lambda>c. \<not> is_space c) (w @ s) = s"
    using assms(2,3) by (induction w) (cases s; auto)+
  have "dropWhile is_space (w @ s) = c # (r @ s)" using w assms(2) by simp
  then show ?thesis using t w by (subst Fields.simps) simp
qed

lemma Fields_space: "is_space c \<Longrightarrow> Fields (c # s) = Fields s"
  by (subst Fields.simps, subst (2) Fields.simps) simp

lemma Fields_Nil [simp]: "Fields [] = []" by (subst Fields.simps) simp

lemma header_fields:
  assumes "plain_name name"
  shows "Fields (name @ '', '' @ itoa n) = [name @ '','', itoa n]"
proof -
  have d: "list_all (\<lambda>c. \<not> is_space c) (itoa n)"
    using itoa_digits [of n] by (auto simp: list_all_iff is_digit_def is_space_def)
  have n: "itoa n \<noteq> []" using itoa_Cons [of n] by auto
  have "Fields ((name @ '','') @ CHR '' '' # itoa n) = (name @ '','') # Fields (CHR '' '' # itoa n)"
    by (rule Fields_word) (use assms in \<open>auto simp: plain_name_def is_space_def\<close>)
  also have "Fields (CHR '' '' # itoa n) = [itoa n]"
    using Fields_word [OF n d, of "[]"] by (simp add: Fields_space)
  finally show ?thesis by simp
qed

lemma scanDecimal_itoa: "int n < 2 ^ 63 \<Longrightarrow> scanDecimal (itoa n) = Some (int n)"
proof -
  assume n: "int n < 2 ^ 63"
  obtain c cs where c: "itoa n = c # cs" "is_digit c" using itoa_Cons by blast
  have "takeWhile is_digit (itoa n) = itoa n" using itoa_digits [of n] by (simp add: list_all_iff takeWhile_eq_all_conv)
  then have tw: "takeWhile is_digit (c # cs) = c # cs" using c by simp
  have "c \<noteq> CHR ''-''" "c \<noteq> CHR ''+''" using c(2) by (auto simp: is_digit_def)
  then show ?thesis using n digitsValue_itoa [of n] c(1) by (simp add: scanDecimal_def Let_def tw del: takeWhile.simps)
qed

subsection \<open>Reading it back\<close>

lemma marker_prefix: "HasPrefix (snippedMarker @ s) snippedMarker" by simp

lemma snip_starts_with_header: "\<exists>r. snipToolResult m archive st = snipHeader m archive @ r"
  by (simp add: snipToolResult_def Let_def)

lemma originalToolBytes_snipped:
  assumes "plain_name (msg_Name m)" "msg_Content m \<noteq> []" "int (length (msg_Content m)) < 2 ^ 63"
  shows "originalToolBytes (snipHeader m archive @ r) = int (length (msg_Content m))"
proof -
  let ?n = "length (msg_Content m)"
  let ?h = "snippedMarker @ msg_Name m @ '', '' @ itoa ?n"
  obtain s where s: "snipHeader m archive @ r = snippedMarker @ msg_Name m @ '', '' @ itoa ?n @ bytesArchivedTo @ s"
    by (simp add: snipHeader_def)
  have i: "IndexStr (snipHeader m archive @ r) bytesArchivedTo = Some (length ?h)"
    unfolding s by (rule IndexStr_header [OF assms(1)])
  have t: "take (length ?h) (snipHeader m archive @ r) = ?h" unfolding s by simp
  have "drop (length snippedMarker) ?h = msg_Name m @ '', '' @ itoa ?n" by simp
  then have w: "Fields (drop (length snippedMarker) (take (length ?h) (snipHeader m archive @ r))) = [msg_Name m @ '','', itoa ?n]"
    unfolding t using header_fields [OF assms(1)] by simp
  have "HasPrefix (snipHeader m archive @ r) snippedMarker" unfolding s by (rule marker_prefix)
  moreover have "length snippedMarker < length ?h" by simp
  ultimately show ?thesis
    using scanDecimal_itoa [OF assms(3)] assms(2) unfolding originalToolBytes_def Let_def i option.case w by simp
qed

lemma originalToolArchive_snipped:
  assumes "plain_name (msg_Name m)" "CHR '';'' \<notin> set archive" "TrimSpace archive = archive" "archive \<noteq> notArchived"
  shows "originalToolArchive (snipHeader m archive @ r) = archive"
proof -
  let ?n = "length (msg_Content m)"
  let ?h = "snippedMarker @ msg_Name m @ '', '' @ itoa ?n"
  let ?a = "if archive = [] then notArchived else archive"
  have s: "snipHeader m archive @ r = ?h @ bytesArchivedTo @ (?a @ CHR '';'' # CHR '' '' # r)"
    by (simp add: snipHeader_def)
  have i: "IndexStr (snipHeader m archive @ r) bytesArchivedTo = Some (length ?h)"
    using IndexStr_header [OF assms(1), of ?n] unfolding s by simp
  have d: "drop (length ?h + length bytesArchivedTo) (snipHeader m archive @ r) = ?a @ CHR '';'' # CHR '' '' # r"
    unfolding s by simp
  have na: "CHR '';'' \<notin> set notArchived" "TrimSpace notArchived = notArchived"
    by (simp add: notArchived_def) (unfold notArchived_def, rule TrimSpace_id, auto simp: is_space_def)
  have b: "IndexByte (?a @ CHR '';'' # CHR '' '' # r) CHR '';'' = Some (length ?a)"
    by (rule IndexByte_append) (use assms(2) na in auto)
  have "HasPrefix (snipHeader m archive @ r) snippedMarker" unfolding s by simp
  then show ?thesis
    using assms(3,4) na unfolding originalToolArchive_def Let_def i option.case d b by auto
qed

end
