(* ===== verification/Context_Steps.thy ===== *)
theory Context_Steps imports Agent_Snip_Props begin

text \<open>
  A conversation over time: turns are appended, the context is cleaned up automatically or on
  request, ranges are summarised, display metadata is updated. The invariants of the history
  along such runs, and the latch of automatic compaction.
\<close>

subsection \<open>Steps\<close>

inductive cleanup_step :: "token_lib \<Rightarrow> compact_conf \<Rightarrow> agent_context \<Rightarrow> agent_context \<Rightarrow> bool"
  for tk conf where
  auto_cleanup: "cleanup_step tk conf cx (maybeCompact tk conf sm p1 p2 usage cx)"
| manual_cleanup: "cleanup_step tk conf cx (fst (CompactNow tk conf sm p instructions cx))"
| snip_cleanup: "cleanup_step tk conf cx (fst (SnipStaleToolResults tk conf p cx))"
| prune_cleanup: "cleanup_step tk conf cx (fst (PruneStaleToolResults tk conf p cx))"

definition turn_boundary :: "Message list \<Rightarrow> int \<Rightarrow> bool" where
  "turn_boundary msgs i \<longleftrightarrow> i \<ge> int (length msgs) \<or> (0 \<le> i \<and> msg_Role (msgs ! nat i) = RoleUser)"

inductive context_step :: "token_lib \<Rightarrow> compact_conf \<Rightarrow> agent_context \<Rightarrow> agent_context \<Rightarrow> bool"
  for tk conf where
  step_cleanup: "cleanup_step tk conf cx cx' \<Longrightarrow> context_step tk conf cx cx'"
| step_from: "turn_boundary (cx_Messages cx) i \<Longrightarrow> context_step tk conf cx (fst (SummarizeFrom conf sm p i cx))"
| step_upto: "turn_boundary (cx_Messages cx) i \<Longrightarrow> context_step tk conf cx (fst (SummarizeUpTo conf sm p i cx))"
| step_turn: "paired ms \<Longrightarrow> context_step tk conf cx (cx\<lparr>cx_session := fold Add ms (cx_session cx)\<rparr>)"
| step_preview: "context_step tk conf cx (cx\<lparr>cx_session := fst (UpdateToolCallPreview call (cx_session cx))\<rparr>)"
| step_resolution: "context_step tk conf cx (cx\<lparr>cx_session := fst (UpdateToolCallResolution call (cx_session cx))\<rparr>)"
| step_active: "context_step tk conf cx (cx\<lparr>cx_activeTurnCreatedAt := t\<rparr>)"

inductive_cases cleanup_stepE: "cleanup_step tk conf cx cx'"

subsection \<open>Histories stay paired\<close>

text \<open>An automatic cleanup is at most a maintenance pass followed by a fold.\<close>

lemma maybeCompact_cases:
  obtains (counters) c s n where
      "maybeCompact tk conf sm p1 p2 usage cx
       = cx\<lparr>cx_consecutiveCompacts := c, cx_compactStuck := s, cx_softCompactNoticed := n\<rparr>"
  | (maintained) mode where
      "maybeCompact tk conf sm p1 p2 usage cx = fst (maintainStaleToolResults tk conf mode p1 cx)"
  | (compacted) force cx1 res cx2 err c s where
      "maintainStaleToolResults tk conf ToolResultPrune p1 cx = (cx1, res)"
      "compact tk conf sm p2 ''auto'' [] force cx1 = (cx2, err)"
      "maybeCompact tk conf sm p1 p2 usage cx = cx2\<lparr>cx_consecutiveCompacts := c, cx_compactStuck := s\<rparr>"
proof -
  have same: "cx = cx\<lparr>cx_consecutiveCompacts := cx_consecutiveCompacts cx, cx_compactStuck := cx_compactStuck cx,
      cx_softCompactNoticed := cx_softCompactNoticed cx\<rparr>" by simp
  show ?thesis
  proof (cases "\<exists>promptTokens. usage = Some promptTokens \<and> cc_contextWindow conf > 0 \<and> promptTokens \<noteq> 0")
    case False
    then have "maybeCompact tk conf sm p1 p2 usage cx = cx"
      by (cases usage) (auto simp: maybeCompact_def)
    then show ?thesis using counters same by metis
  next
    case True
    then obtain u where u: "usage = Some u" "cc_contextWindow conf > 0" "u \<noteq> 0" by blast
    let ?w = "cc_contextWindow conf"
    consider (soft) "tl_soft tk ?w \<le> u \<and> u < tl_snip tk ?w \<and> \<not> cx_softCompactNoticed cx"
      | (snip) "\<not> (tl_soft tk ?w \<le> u \<and> u < tl_snip tk ?w \<and> \<not> cx_softCompactNoticed cx)" "tl_snip tk ?w \<le> u \<and> u < tl_high tk ?w"
      | (low) "\<not> (tl_soft tk ?w \<le> u \<and> u < tl_snip tk ?w \<and> \<not> cx_softCompactNoticed cx)" "\<not> (tl_snip tk ?w \<le> u \<and> u < tl_high tk ?w)" "u < tl_high tk ?w"
      | (stuck) "\<not> (tl_soft tk ?w \<le> u \<and> u < tl_snip tk ?w \<and> \<not> cx_softCompactNoticed cx)" "\<not> u < tl_high tk ?w" "cx_compactStuck cx"
      | (full) "\<not> (tl_soft tk ?w \<le> u \<and> u < tl_snip tk ?w \<and> \<not> cx_softCompactNoticed cx)" "\<not> u < tl_high tk ?w" "\<not> cx_compactStuck cx"
      by blast
    then show ?thesis
    proof cases
      case soft
      then have "maybeCompact tk conf sm p1 p2 usage cx = cx\<lparr>cx_softCompactNoticed := True\<rparr>"
        using u by (simp add: maybeCompact_def Let_def)
      then show ?thesis using counters [where c = "cx_consecutiveCompacts cx" and s = "cx_compactStuck cx" and n = True] by simp
    next
      case snip
      then have "maybeCompact tk conf sm p1 p2 usage cx = fst (maintainStaleToolResults tk conf ToolResultSnip p1 cx)"
        using u by (simp add: maybeCompact_def Let_def SnipStaleToolResults_def)
      then show ?thesis by (rule maintained)
    next
      case low
      then have "maybeCompact tk conf sm p1 p2 usage cx = cx\<lparr>cx_consecutiveCompacts := 0, cx_compactStuck := False\<rparr>"
        using u by (auto simp: maybeCompact_def Let_def)
      then show ?thesis using counters [where c = 0 and s = False and n = "cx_softCompactNoticed cx"] by simp
    next
      case stuck
      then have "maybeCompact tk conf sm p1 p2 usage cx = cx"
        using u by (auto simp: maybeCompact_def Let_def)
      then show ?thesis using counters same by metis
    next
      case full
      obtain cx1 res where m: "maintainStaleToolResults tk conf ToolResultPrune p1 cx = (cx1, res)" by fastforce
      obtain cx2 err where k: "compact tk conf sm p2 ''auto'' [] (tl_force tk ?w \<le> u) cx1 = (cx2, err)" by fastforce
      have "maybeCompact tk conf sm p1 p2 usage cx = pruneThenCompact tk conf sm p1 p2 u cx"
        using full u by (auto simp: maybeCompact_def Let_def)
      then have "maybeCompact tk conf sm p1 p2 usage cx = cx1 \<or> maybeCompact tk conf sm p1 p2 usage cx = cx2
          \<or> maybeCompact tk conf sm p1 p2 usage cx = countCompact cx2"
        by (auto simp: pruneThenCompact_def Let_def PruneStaleToolResults_def m k split: option.split)
      moreover have "cx2 = cx2\<lparr>cx_consecutiveCompacts := cx_consecutiveCompacts cx2, cx_compactStuck := cx_compactStuck cx2\<rparr>"
        by simp
      moreover have "countCompact cx2 = cx2\<lparr>cx_consecutiveCompacts := cx_consecutiveCompacts cx2 + 1,
          cx_compactStuck := (2 \<le> cx_consecutiveCompacts cx2 + 1 \<or> cx_compactStuck cx2)\<rparr>"
        by (simp add: countCompact_def Let_def)
      ultimately show ?thesis
        using maintained [where mode = ToolResultPrune] m compacted [OF m k] by (metis fst_conv)
    qed
  qed
qed

lemma maintenance_paired:
  "paired (cx_Messages cx) \<Longrightarrow> paired (cx_Messages (fst (maintainStaleToolResults tk conf mode p cx)))"
  using paired_skeleton [OF maintenance_skeleton] by (metis prod.collapse)

lemma cleanup_paired: "cleanup_step tk conf cx cx' \<Longrightarrow> paired (cx_Messages cx) \<Longrightarrow> paired (cx_Messages cx')"
proof (induction rule: cleanup_step.induct)
  case (auto_cleanup cx sm p1 p2 usage)
  show ?case
  proof (cases rule: maybeCompact_cases [of tk conf sm p1 p2 usage cx])
    case (compacted force cx1 res cx2 err c s)
    have "paired (cx_Messages cx1)" using maintenance_paired [OF auto_cleanup, of tk conf ToolResultPrune p1] compacted(1) by simp
    then show ?thesis using compact_paired [OF compacted(2)] compacted(3) by simp
  qed (use auto_cleanup maintenance_paired in simp_all)
next
  case (manual_cleanup cx sm p instructions)
  then show ?case by (metis CompactNow_def compact_paired prod.collapse)
qed (simp_all add: SnipStaleToolResults_def PruneStaleToolResults_def maintenance_paired)

lemma boundary_no_result:
  "turn_boundary msgs i \<Longrightarrow> takeWhile isToolResult (drop (nat i) msgs) = []"
  by (rule takeWhile_drop_none) (auto simp: turn_boundary_def)

lemma paired_take:
  "paired msgs \<Longrightarrow> turn_boundary msgs i \<Longrightarrow> paired (take (nat i) msgs) \<and> paired (drop (nat i) msgs)"
  using paired_append_iff [OF boundary_no_result, of msgs i "take (nat i) msgs"] by simp

lemma SummarizeFrom_paired:
  assumes "paired (cx_Messages cx)" "turn_boundary (cx_Messages cx) i"
  shows "paired (cx_Messages (fst (SummarizeFrom conf sm p i cx)))"
proof -
  have "paired (filter msg_LocalOnly (drop (nat i) (cx_Messages cx)))" by (rule paired_local) (simp add: list_all_iff)
  then show ?thesis using assms paired_take [OF assms]
    by (auto simp: SummarizeFrom_def Let_def splitLocalOnlyMessages_def archiveBestEffort_def Rewrite_def
        split: sum.split intro!: paired_append simp del: append_Cons append_Nil append.simps)
qed

lemma SummarizeUpTo_paired:
  assumes "paired (cx_Messages cx)" "turn_boundary (cx_Messages cx) i"
  shows "paired (cx_Messages (fst (SummarizeUpTo conf sm p i cx)))"
proof -
  let ?msgs = "cx_Messages cx"
  define head where "head = (if 0 < length ?msgs \<and> msg_Role (?msgs ! 0) = RoleSystem then 1 else 0 :: nat)"
  have plain: "list_all (\<lambda>m. \<not> isCaller m) (take head ?msgs)"
    by (cases ?msgs) (auto simp: head_def isCaller_def)
  have "paired (take head ?msgs)"
    using paired_plain [OF _ plain, of "drop head ?msgs"] assms(1) by simp
  moreover have "paired (filter msg_LocalOnly (take (nat i - head) (drop head ?msgs)))"
    by (rule paired_local) (simp add: list_all_iff)
  ultimately show ?thesis using assms(1) paired_take [OF assms]
    unfolding SummarizeUpTo_def Let_def head_def [symmetric]
    by (auto simp: splitLocalOnlyMessages_def archiveBestEffort_def Rewrite_def
        split: sum.split intro!: paired_append simp del: append_Cons append_Nil append.simps)
qed

lemma fold_Add [simp]: "se_Messages (fold Add ms s) = se_Messages s @ ms"
  by (induction ms arbitrary: s) (simp_all add: Add_def)

lemma UpdateToolCallPreview_skeleton:
  "map skeleton (se_Messages (fst (UpdateToolCallPreview call s))) = map skeleton (se_Messages s)"
  by (auto simp: UpdateToolCallPreview_def Rewrite_def split: option.split dest!: updateNewest_skeleton)

lemma UpdateToolCallResolution_skeleton:
  "map skeleton (se_Messages (fst (UpdateToolCallResolution call s))) = map skeleton (se_Messages s)"
  by (auto simp: UpdateToolCallResolution_def Rewrite_def split: option.split dest!: updateNewest_skeleton)

lemma context_step_paired: "context_step tk conf cx cx' \<Longrightarrow> paired (cx_Messages cx) \<Longrightarrow> paired (cx_Messages cx')"
proof (induction rule: context_step.induct)
  case (step_preview cx call)
  then show ?case using paired_skeleton [OF UpdateToolCallPreview_skeleton] by simp
next
  case (step_resolution cx call)
  then show ?case using paired_skeleton [OF UpdateToolCallResolution_skeleton] by simp
qed (simp_all add: cleanup_paired SummarizeFrom_paired SummarizeUpTo_paired paired_append)

lemma context_steps_paired:
  "(context_step tk conf)\<^sup>*\<^sup>* cx cx' \<Longrightarrow> paired (cx_Messages cx) \<Longrightarrow> paired (cx_Messages cx')"
  by (induction rule: rtranclp_induct) (auto intro: context_step_paired)

text \<open>A paired history reaches the model whole: only display-only messages are left out.\<close>

lemma paired_filter: "paired ms \<Longrightarrow> paired (filter (\<lambda>m. \<not> msg_LocalOnly m) ms)"
proof (induction ms rule: paired.induct)
  case (2 m ms)
  show ?case
  proof (cases "\<not> msg_LocalOnly m \<and> isCaller m")
    case True
    let ?rs = "takeWhile isToolResult ms" and ?X = "filter (\<lambda>m. \<not> msg_LocalOnly m) (dropWhile isToolResult ms)"
    have p: "answered (msg_ToolCalls m) ?rs" "paired ?X" using True 2 by (simp_all add: paired.simps)
    have "filter (\<lambda>m. \<not> msg_LocalOnly m) ?rs = ?rs"
      by (auto simp: filter_id_conv isToolResult_def dest: set_takeWhileD)
    then have "filter (\<lambda>m. \<not> msg_LocalOnly m) ms = ?rs @ ?X" by (metis filter_append takeWhile_dropWhile_id)
    then show ?thesis using True p paired_turn [of m ?rs ?X] paired_no_result [OF p(2)] by simp
  next
    case False
    then show ?thesis using 2 by (auto simp: paired.simps)
  qed
qed simp

lemma skeleton_repaired: "skeleton (repairToolCallArgs m) = skeleton m"
  by (simp add: skeleton_def) (simp add: repairToolCallArgs_def)

lemma normalize_paired_skeleton: "paired ms \<Longrightarrow> list_all (\<lambda>m. \<not> msg_LocalOnly m) ms \<Longrightarrow>
    map skeleton (normalizeHistory True ms) = map skeleton ms"
proof (induction True ms rule: normalizeHistory.induct)
  case (2 m ms)
  show ?case
  proof (cases "isCaller m")
    case True
    let ?rs = "takeWhile isToolResult ms"
    have p: "answered (msg_ToolCalls m) ?rs" "paired (dropWhile isToolResult ms)" using True 2 by (simp_all add: paired.simps)
    have "map skeleton (normalizeHistory True (dropWhile isToolResult ms)) = map skeleton (dropWhile isToolResult ms)"
      using 2 True p by (auto simp: list_all_iff dest: set_dropWhileD)
    then have "map skeleton ?rs @ map skeleton (normalizeHistory True (dropWhile isToolResult ms)) = map skeleton ms"
      by (metis map_append takeWhile_dropWhile_id)
    then show ?thesis using True 2(6) p
      by (simp add: normalizeHistory.simps backfill_answered pairToolResults_id skeleton_repaired)
  next
    case False
    then show ?thesis using 2 by (auto simp: normalizeHistory.simps paired.simps)
  qed
qed simp

lemma skeleton_modelMessage [simp]: "skeleton (modelMessage m) = skeleton m"
  by (simp add: modelMessage_def Let_def skeleton_def)

lemma paired_request:
  assumes "paired ms"
  shows "map skeleton (SanitizeToolPairing (ModelMessages ms)) = map skeleton (filter (\<lambda>m. \<not> msg_LocalOnly m) ms)"
proof -
  let ?f = "filter (\<lambda>m. \<not> msg_LocalOnly m) ms"
  have sk: "map skeleton (map modelMessage ?f) = map skeleton ?f" by simp
  have "paired (map modelMessage ?f)" using paired_skeleton [OF sk] paired_filter [OF assms] by simp
  moreover have "list_all (\<lambda>m. \<not> msg_LocalOnly m) (map modelMessage ?f)"
    by (auto simp: list_all_iff modelMessage_def Let_def)
  ultimately show ?thesis
    using normalize_paired_skeleton [of "map modelMessage ?f"] sk
    by (simp add: SanitizeToolPairing_def NormalizeMessages_loop ModelMessages_reference)
qed

end
