(* ===== verification/Context_Guarantees.thy ===== *)
theory Context_Guarantees imports Context_Steps begin

text \<open>
  The properties of conversation history and context compaction: histories sent to a model are
  well formed, stored sessions lose nothing, compaction keeps what it promises, archives what
  it drops, and pauses when it cannot help.
\<close>

subsection \<open>Nothing is forgotten\<close>

definition archived :: "agent_context \<Rightarrow> Message set" where
  "archived cx = (\<Union>(p, ms) \<in> set (cx_archives cx). set ms)"

definition recoverable :: "agent_context \<Rightarrow> Message \<Rightarrow> bool" where
  "recoverable cx m \<longleftrightarrow> m \<in> set (cx_Messages cx) \<or> m \<in> archived cx"

lemma archived_grows: "cx_archives cx' = cx_archives cx @ more_files \<Longrightarrow> archived cx \<subseteq> archived cx'"
  by (auto simp: archived_def)

lemma set_maintenanceIndexes:
  "i \<in> set (maintenanceIndexes conf mode msgs bounds) \<Longrightarrow>
     fst bounds \<le> i \<and> i < snd bounds \<and> shouldMaintainToolResult (msgs ! i) mode"
  by (auto simp: maintenanceIndexes_def)

lemma distinct_maintenanceIndexes [simp]: "distinct (maintenanceIndexes conf mode msgs bounds)"
  by (simp add: maintenanceIndexes_def)

lemma maintenance_recoverable:
  assumes dir: "cc_archiveDir conf \<noteq> []" and plain: "\<not> HasPrefix (msg_Content m) snippedMarker"
    and r: "recoverable cx m"
  shows "recoverable (fst (maintainStaleToolResults tk conf mode p cx)) m"
proof -
  obtain cx' res where eq: "maintainStaleToolResults tk conf mode p cx = (cx', res)" by fastforce
  then show ?thesis
  proof (cases rule: maintenance_cases)
    case (worked bounds archiving st0)
    let ?idx = "maintenanceIndexes conf mode (cx_Messages cx) bounds"
    have grows: "archived cx \<subseteq> archived cx'" by (rule archived_grows [OF worked(6)])
    show ?thesis
    proof (cases "m \<in> set (cx_Messages cx)")
      case True
      then obtain j where j: "j < length (cx_Messages cx)" "cx_Messages cx ! j = m" by (metis in_set_conv_nth)
      show ?thesis
      proof (cases "j \<in> set ?idx")
        case True
        then have o: "m \<in> set (originalsToArchive mode (cx_Messages cx) ?idx)"
          using j plain by (force simp: originalsToArchive_def)
        then have "archiving" using worked(2) dir by auto
        then have "m \<in> archived cx'" using o worked(6) by (simp add: archived_def)
        then show ?thesis by (simp add: eq recoverable_def)
      next
        case False
        then have "cx_Messages cx' ! j = m" using j worked(7) rewriteLoop_other by metis
        then show ?thesis using j worked(7) by (metis eq fst_conv length_rewriteLoop nth_mem recoverable_def)
      qed
    next
      case False
      then show ?thesis using r grows by (auto simp: eq recoverable_def)
    qed
  qed (use r eq in simp)
qed

lemma region_split_set:
  assumes "foldPlan tk conf force cx = Some (head, start, kept, folded)"
  shows "set (cx_Messages cx) = set (take head (cx_Messages cx)) \<union> set kept \<union> set folded \<union> set (drop start (cx_Messages cx))"
proof -
  let ?region = "take (start - head) (drop head (cx_Messages cx))"
  note c = compactRegion_facts [OF foldPlan_facts(1) [OF assms]]
  have "mset kept + mset folded = mset ?region"
    unfolding foldPlan_facts(3,4) [OF assms] by (rule mset_pick) simp
  then have "set kept \<union> set folded = set ?region" by (metis set_mset_mset set_mset_union)
  then show ?thesis using split_three [OF less_imp_le [OF c(2)], of "cx_Messages cx"] by (metis Un_assoc set_append)
qed

lemma compact_recoverable:
  assumes dir: "cc_archiveDir conf \<noteq> []" and r: "recoverable cx m"
  shows "recoverable (fst (compact tk conf sm p trigger instructions force cx)) m"
proof -
  obtain cx' err where eq: "compact tk conf sm p trigger instructions force cx = (cx', err)" by fastforce
  then show ?thesis
  proof (cases rule: compact_cases)
    case (folded head start kept folded summary)
    have "set folded \<subseteq> archived cx'" "archived cx \<subseteq> archived cx'" using folded(6) dir by (auto simp: archived_def)
    then show ?thesis using r folded(5) region_split_set [OF folded(1)] by (auto simp: eq recoverable_def Rewrite_def)
  qed (use r eq in simp_all)
qed

lemma cleanup_recoverable:
  assumes "cleanup_step tk conf cx cx'" "cc_archiveDir conf \<noteq> []" "\<not> HasPrefix (msg_Content m) snippedMarker"
    "recoverable cx m"
  shows "recoverable cx' m"
  using assms(1,4)
proof (induction rule: cleanup_step.induct)
  case (auto_cleanup cx sm p1 p2 usage)
  note main = maintenance_recoverable [OF assms(2,3)]
  show ?case
  proof (cases rule: maybeCompact_cases [of tk conf sm p1 p2 usage cx])
    case (compacted force cx1 res cx2 err c s)
    have "recoverable cx1 m" using main [OF auto_cleanup, of tk ToolResultPrune p1] compacted(1) by simp
    then have "recoverable cx2 m" using compact_recoverable [OF assms(2)] compacted(2) by (metis fst_conv)
    then show ?thesis using compacted(3) by (simp add: recoverable_def archived_def)
  next
    case (maintained mode)
    then show ?thesis using main [OF auto_cleanup, of tk mode p1] by simp
  qed (use auto_cleanup in \<open>simp add: recoverable_def archived_def\<close>)
qed (simp_all add: CompactNow_def compact_recoverable assms SnipStaleToolResults_def PruneStaleToolResults_def
      maintenance_recoverable)

subsection \<open>The latch of automatic compaction\<close>

definition latch_ok :: "agent_context \<Rightarrow> bool" where
  "latch_ok cx \<longleftrightarrow> cx_consecutiveCompacts cx \<le> 2 \<and> (cx_compactStuck cx \<longleftrightarrow> cx_consecutiveCompacts cx = 2)"

lemma maintenance_latch:
  "cx_consecutiveCompacts (fst (maintainStaleToolResults tk conf mode p cx)) = cx_consecutiveCompacts cx
   \<and> cx_compactStuck (fst (maintainStaleToolResults tk conf mode p cx)) = cx_compactStuck cx"
proof -
  obtain cx' res where eq: "maintainStaleToolResults tk conf mode p cx = (cx', res)" by fastforce
  then show ?thesis by (cases rule: maintenance_cases) (simp_all add: eq)
qed

lemma compact_latch:
  "cx_consecutiveCompacts (fst (compact tk conf sm p t i force cx)) = cx_consecutiveCompacts cx
   \<and> cx_compactStuck (fst (compact tk conf sm p t i force cx)) = cx_compactStuck cx"
proof -
  obtain cx' err where eq: "compact tk conf sm p t i force cx = (cx', err)" by fastforce
  from eq have "cx_consecutiveCompacts cx' = cx_consecutiveCompacts cx \<and> cx_compactStuck cx' = cx_compactStuck cx"
    by (cases rule: compact_cases) simp_all
  then show ?thesis by (simp add: eq)
qed

lemma pruneThenCompact_latch:
  "cx_consecutiveCompacts (pruneThenCompact tk conf sm p1 p2 u cx) \<in> {cx_consecutiveCompacts cx, cx_consecutiveCompacts cx + 1}
   \<and> cx_compactStuck (pruneThenCompact tk conf sm p1 p2 u cx)
       = (cx_compactStuck cx \<or> (cx_consecutiveCompacts (pruneThenCompact tk conf sm p1 p2 u cx) = cx_consecutiveCompacts cx + 1
            \<and> 1 \<le> cx_consecutiveCompacts cx))"
proof -
  obtain cx1 res where m: "maintainStaleToolResults tk conf ToolResultPrune p1 cx = (cx1, res)" by fastforce
  have l1: "cx_consecutiveCompacts cx1 = cx_consecutiveCompacts cx" "cx_compactStuck cx1 = cx_compactStuck cx"
    using maintenance_latch [of tk conf ToolResultPrune p1 cx] m by simp_all
  obtain cx2 err where k: "compact tk conf sm p2 ''auto'' [] (tl_force tk (cc_contextWindow conf) \<le> u) cx1 = (cx2, err)" by fastforce
  have l2: "cx_consecutiveCompacts cx2 = cx_consecutiveCompacts cx" "cx_compactStuck cx2 = cx_compactStuck cx"
    using compact_latch [of tk conf sm p2 "''auto''" "[]" _ cx1] k l1 by (metis fst_conv)+
  have "pruneThenCompact tk conf sm p1 p2 u cx \<in> {cx1, cx2, countCompact cx2}"
    by (simp add: pruneThenCompact_def Let_def PruneStaleToolResults_def m k split: option.split)
  then show ?thesis using l1 l2 by (auto simp: countCompact_def Let_def split: if_splits)
qed

text \<open>One automatic cleanup, by where the prompt stands.\<close>

lemma maybeCompact_latch:
  assumes "latch_ok cx"
  shows "latch_ok (maybeCompact tk conf sm p1 p2 usage cx)"
    and "usage = Some u \<Longrightarrow> tl_high tk (cc_contextWindow conf) \<le> u \<Longrightarrow> tl_snip tk (cc_contextWindow conf) \<le> u \<Longrightarrow>
      cx_compactStuck cx \<Longrightarrow> maybeCompact tk conf sm p1 p2 usage cx = cx"
    and "cx_compactStuck cx \<Longrightarrow> \<not> cx_compactStuck (maybeCompact tk conf sm p1 p2 usage cx) \<Longrightarrow>
      \<exists>u. usage = Some u \<and> u < tl_high tk (cc_contextWindow conf) \<and> u < tl_snip tk (cc_contextWindow conf)"
    and "usage = Some u \<Longrightarrow> tl_high tk (cc_contextWindow conf) \<le> u \<Longrightarrow> tl_snip tk (cc_contextWindow conf) \<le> u \<Longrightarrow>
      cx_consecutiveCompacts (maybeCompact tk conf sm p1 p2 usage cx) \<in> {cx_consecutiveCompacts cx, cx_consecutiveCompacts cx + 1}"
proof -
  have step: "maybeCompact tk conf sm p1 p2 usage cx = cx
    \<or> (\<exists>n. maybeCompact tk conf sm p1 p2 usage cx = cx\<lparr>cx_softCompactNoticed := n\<rparr>)
    \<or> maybeCompact tk conf sm p1 p2 usage cx = fst (maintainStaleToolResults tk conf ToolResultSnip p1 cx)
    \<or> (\<exists>u. usage = Some u \<and> u < tl_high tk (cc_contextWindow conf) \<and> u < tl_snip tk (cc_contextWindow conf)
         \<and> maybeCompact tk conf sm p1 p2 usage cx = cx\<lparr>cx_consecutiveCompacts := 0, cx_compactStuck := False\<rparr>)
    \<or> (\<not> cx_compactStuck cx \<and> (\<exists>u. maybeCompact tk conf sm p1 p2 usage cx = pruneThenCompact tk conf sm p1 p2 u cx))"
    by (cases usage) (auto simp: maybeCompact_def Let_def SnipStaleToolResults_def)
  have full: "latch_ok (pruneThenCompact tk conf sm p1 p2 u cx)" if "\<not> cx_compactStuck cx" for u
    using that assms pruneThenCompact_latch [of tk conf sm p1 p2 u cx] by (auto simp: latch_ok_def)
  show "latch_ok (maybeCompact tk conf sm p1 p2 usage cx)"
    using step full assms maintenance_latch [of tk conf ToolResultSnip p1 cx] by (auto simp: latch_ok_def)
  show "\<exists>u. usage = Some u \<and> u < tl_high tk (cc_contextWindow conf) \<and> u < tl_snip tk (cc_contextWindow conf)"
    if "cx_compactStuck cx" "\<not> cx_compactStuck (maybeCompact tk conf sm p1 p2 usage cx)"
    using step that maintenance_latch [of tk conf ToolResultSnip p1 cx] by auto
  show "maybeCompact tk conf sm p1 p2 usage cx = cx"
    if "usage = Some u" "tl_high tk (cc_contextWindow conf) \<le> u" "tl_snip tk (cc_contextWindow conf) \<le> u" "cx_compactStuck cx"
    using that by (auto simp: maybeCompact_def Let_def)
  show "cx_consecutiveCompacts (maybeCompact tk conf sm p1 p2 usage cx) \<in> {cx_consecutiveCompacts cx, cx_consecutiveCompacts cx + 1}"
    if "usage = Some u" "tl_high tk (cc_contextWindow conf) \<le> u" "tl_snip tk (cc_contextWindow conf) \<le> u"
    using that pruneThenCompact_latch [of tk conf sm p1 p2 u cx] by (auto simp: maybeCompact_def Let_def)
qed

text \<open>
  A run of automatic cleanups, one per model turn, with the number of calls that went all the
  way through a compaction.
\<close>

fun autoRun ::
    "token_lib \<Rightarrow> compact_conf \<Rightarrow> (summarizer \<times> gostr option \<times> gostr option \<times> int) list \<Rightarrow> agent_context
     \<Rightarrow> agent_context \<times> nat" where
  "autoRun tk conf [] cx = (cx, 0)"
| "autoRun tk conf ((sm, p1, p2, u) # calls) cx =
     (let cx1 = maybeCompact tk conf sm p1 p2 (Some u) cx;
          (cx2, n) = autoRun tk conf calls cx1
      in (cx2, if cx_consecutiveCompacts cx < cx_consecutiveCompacts cx1 then Suc n else n))"

lemma autoRun_bound:
  "latch_ok cx \<Longrightarrow>
   \<forall>(sm, p1, p2, u) \<in> set calls. tl_high tk (cc_contextWindow conf) \<le> u \<and> tl_snip tk (cc_contextWindow conf) \<le> u \<Longrightarrow>
     latch_ok (fst (autoRun tk conf calls cx))
     \<and> cx_consecutiveCompacts cx + snd (autoRun tk conf calls cx) = cx_consecutiveCompacts (fst (autoRun tk conf calls cx))"
proof (induction tk conf calls cx rule: autoRun.induct)
  case (2 tk conf sm p1 p2 u calls cx)
  let ?cx = "maybeCompact tk conf sm p1 p2 (Some u) cx"
  have u: "tl_high tk (cc_contextWindow conf) \<le> u" "tl_snip tk (cc_contextWindow conf) \<le> u" using 2(3) by simp_all
  have "cx_consecutiveCompacts ?cx \<in> {cx_consecutiveCompacts cx, cx_consecutiveCompacts cx + 1}"
    by (rule maybeCompact_latch(4) [OF 2(2) refl u])
  moreover have "latch_ok ?cx" by (rule maybeCompact_latch(1) [OF 2(2)])
  ultimately show ?case using 2(1) [OF refl] 2(3) by (auto simp: Let_def split: prod.split)
qed simp

subsection \<open>A small conversation\<close>

definition demo_tokens :: token_lib where
  "demo_tokens =
     \<lparr>tl_tokens = (\<lambda>_ n. int n), tl_pinFraction = (\<lambda>_. 20), tl_target = (\<lambda>_. 10), tl_soft = (\<lambda>_. 50),
      tl_snip = (\<lambda>_. 60), tl_high = (\<lambda>_. 80), tl_force = (\<lambda>_. 81)\<rparr>"

definition demo_conf :: compact_conf where
  "demo_conf =
     \<lparr>cc_contextWindow = 100, cc_recentKeep = 2, cc_keepPolicy = 1, cc_archiveDir = ''a'', cc_tools = (\<lambda>_. None)\<rparr>"

definition demo_summarizer :: summarizer where
  "demo_summarizer = \<lparr>sm_summarize = (\<lambda>_ _ _. Inl (SummarizerFailed [])), sm_hook = (\<lambda>_. [])\<rparr>"

definition demo_tool_call :: "gostr \<Rightarrow> gostr \<Rightarrow> ToolCall" where
  "demo_tool_call i args =
     \<lparr>tcl_ID = i, tcl_Name = ''read'', tcl_Arguments = args, tcl_Diff = [], tcl_Added = 0, tcl_Removed = 0,
      tcl_ResolvedName = [], tcl_CapabilityID = [], tcl_ResolvedReadOnly = None\<rparr>"

definition demo_caller :: "gostr \<Rightarrow> Message" where
  "demo_caller i = (plainMessage RoleAssistant [])\<lparr>msg_ToolCalls := [demo_tool_call i ''{}'']\<rparr>"

definition demo_result :: "gostr \<Rightarrow> gostr \<Rightarrow> Message" where
  "demo_result i content =
     (plainMessage RoleTool content)\<lparr>msg_ToolCallID := i, msg_Name := ''read''\<rparr>"

definition demo_history :: "Message list" where
  "demo_history =
     [plainMessage RoleSystem ''s'', plainMessage RoleUser ''fix it'',
      demo_caller ''1'', demo_result ''1'' ''ok'', plainMessage RoleUser ''hi'',
      demo_caller ''2'', demo_result ''2'' ''error: x'', plainMessage RoleAssistant ''done'',
      plainMessage RoleUser ''go'', plainMessage RoleAssistant ''ok'']"

definition demo_context :: agent_context where
  "demo_context =
     \<lparr>cx_session = (NewSession [])\<lparr>se_Messages := demo_history\<rparr>, cx_activeTurnCreatedAt = 0,
      cx_consecutiveCompacts = 0, cx_compactStuck = False, cx_softCompactNoticed = False, cx_archives = []\<rparr>"

lemma demo_paired: "paired (cx_Messages demo_context)"
  by (simp add: demo_context_def demo_history_def paired.simps plainMessage_def isCaller_def isToolResult_def
      demo_caller_def demo_result_def demo_tool_call_def answered_def)

lemma demo_plan:
  "foldPlan demo_tokens demo_conf True demo_context
   = Some (2, 7, [plainMessage RoleUser ''hi'', demo_caller ''2'', demo_result ''2'' ''error: x''],
           [demo_caller ''1'', demo_result ''1'' ''ok''])"
  by code_simp

lemma demo_latch: "latch_ok demo_context" by (simp add: latch_ok_def demo_context_def)

subsection \<open>Properties\<close>

text \<open>
  C10. A history sent to a model is well formed: whatever the stored messages are, the repair
  gives a history without display-only messages in which every assistant turn with calls is
  followed at once by one answer per call, in call order, with the call's id and name, no other
  tool result occurs, and every argument text is empty or valid JSON. Exactly the well-formed
  histories are left as they are, so the repair is idempotent; the allocation-free fast path
  gives what the repairing loop gives.
\<close>

theorem history_repair_exact:
  "wire_ready (NormalizeMessages ms)
   \<and> (NormalizeMessages ms = ms \<longleftrightarrow> wire_ready ms)
   \<and> NormalizeMessages (NormalizeMessages ms) = NormalizeMessages ms
   \<and> NormalizeMessages ms = normalizeHistory True ms"
  using wire.repaired wire.fixpoint_iff wire.idem NormalizeMessages_loop by blast

text \<open>
  C15. Loading a session loses nothing: the repaired session consists of the stored messages in
  their order, with placeholder results inserted; a stored message only changes in calls that
  had no name or whose arguments were cut off. Afterwards every call has an answer, and a
  repaired session is left as it is.
\<close>

theorem session_repair_lossless:
  "lossless ms (NormalizeSessionMessages ms)
   \<and> session_ready (NormalizeSessionMessages ms)
   \<and> (NormalizeSessionMessages ms = ms \<longleftrightarrow> session_ready ms)
   \<and> NormalizeSessionMessages (NormalizeSessionMessages ms) = NormalizeSessionMessages ms"
  using loop_lossless [of ms] session.repaired session.fixpoint_iff session.idem
  by (simp add: NormalizeSessionMessages_loop)

text \<open>
  C11. A conversation whose turns are complete stays paired, every tool call with its answers and
  no orphan result, through every cleanup of the context: automatic and manual compaction,
  snipping and pruning of stale results, summaries from or up to a turn boundary, and updates of
  call metadata. So every request made from it carries all its messages except the
  display-only ones: the repair before sending neither drops a result nor inserts one.
\<close>

theorem context_stays_paired:
  assumes "(context_step tk conf)\<^sup>*\<^sup>* cx cx'" and "paired (cx_Messages cx)"
  shows "paired (cx_Messages cx')
    \<and> map skeleton (SanitizeToolPairing (ModelMessages (cx_Messages cx')))
      = map skeleton (filter (\<lambda>m. \<not> msg_LocalOnly m) (cx_Messages cx'))"
  using context_steps_paired [OF assms] paired_request by blast

theorem context_stays_paired_witness:
  "paired (cx_Messages (fst (CompactNow demo_tokens demo_conf demo_summarizer (Some ''f'') [] demo_context)))"
proof -
  have "(context_step demo_tokens demo_conf)\<^sup>*\<^sup>* demo_context
      (fst (CompactNow demo_tokens demo_conf demo_summarizer (Some ''f'') [] demo_context))"
    by (rule r_into_rtranclp) (rule step_cleanup [OF manual_cleanup])
  from context_stays_paired [OF this demo_paired] show ?thesis by simp
qed

lemma compaction_facts:
  assumes "foldPlan tk conf force cx = Some (head, start, kept, folded)"
    and "cc_archiveDir conf = [] \<or> path \<noteq> None"
  shows "\<exists>summary cx'. compact tk conf sm path trigger instructions force cx = (cx', None)
      \<and> cx_Messages cx' = take head (cx_Messages cx) @ kept @ [digestMessage summary] @ drop start (cx_Messages cx)
      \<and> (cc_archiveDir conf \<noteq> [] \<longrightarrow> (the path, folded) \<in> set (cx_archives cx'))"
    and "head = pinnedPrefixLen tk conf (cx_Messages cx) \<and> head < start \<and> start \<le> length (cx_Messages cx)"
    and "subseq kept (take (start - head) (drop head (cx_Messages cx)))
      \<and> mset kept + mset folded = mset (take (start - head) (drop head (cx_Messages cx)))"
    and "\<forall>m \<in> set folded. \<not> msg_LocalOnly m \<and> \<not> isCompactionSummary m
          \<and> \<not> (msg_Role m = RoleUser \<and> pinnableUserTurn tk conf (cx_Messages cx) m)"
    and "\<forall>i < start - head. policyStart (take (start - head) (drop head (cx_Messages cx))) \<le> i
          \<and> shouldKeepMessage (cx_Messages cx ! (head + i)) (cc_keepPolicy conf) \<longrightarrow> cx_Messages cx ! (head + i) \<in> set kept"
proof -
  let ?region = "take (start - head) (drop head (cx_Messages cx))"
  note f = foldPlan_facts [OF assms(1)]
  note c = compactRegion_facts [OF f(1)]
  have len: "length ?region = start - head" using c(2,3) by simp
  show "\<exists>summary cx'. compact tk conf sm path trigger instructions force cx = (cx', None)
      \<and> cx_Messages cx' = take head (cx_Messages cx) @ kept @ [digestMessage summary] @ drop start (cx_Messages cx)
      \<and> (cc_archiveDir conf \<noteq> [] \<longrightarrow> (the path, folded) \<in> set (cx_archives cx'))"
  proof -
    obtain cx' err where eq: "compact tk conf sm path trigger instructions force cx = (cx', err)" by fastforce
    then show ?thesis
    proof (cases rule: compact_cases)
      case (folded h s k fo summary)
      then show ?thesis using assms(1) eq by (auto simp: Rewrite_def)
    qed (use assms in auto)
  qed
  show "head = pinnedPrefixLen tk conf (cx_Messages cx) \<and> head < start \<and> start \<le> length (cx_Messages cx)" using c by simp
  show "subseq kept ?region \<and> mset kept + mset folded = mset ?region"
    unfolding f(3,4) by (simp add: subseq_pick mset_pick)
  show "\<forall>m \<in> set folded. \<not> msg_LocalOnly m \<and> \<not> isCompactionSummary m
          \<and> \<not> (msg_Role m = RoleUser \<and> pinnableUserTurn tk conf (cx_Messages cx) m)"
    unfolding f(4) by (auto simp: pick_in_set keptFlags_nth)
  show "\<forall>i < start - head. policyStart ?region \<le> i
          \<and> shouldKeepMessage (cx_Messages cx ! (head + i)) (cc_keepPolicy conf) \<longrightarrow> cx_Messages cx ! (head + i) \<in> set kept"
  proof (intro allI impI, elim conjE)
    fix i
    assume i: "i < start - head" "policyStart ?region \<le> i"
      and k: "shouldKeepMessage (cx_Messages cx ! (head + i)) (cc_keepPolicy conf)"
    have nth: "?region ! i = cx_Messages cx ! (head + i)" using i(1) c(2,3) by simp
    have "keepIndexes ?region (cc_keepPolicy conf) ! i"
      by (rule keepIndexes_policy) (use i k nth len in simp_all)
    then have "keptFlags tk conf (cx_Messages cx) ?region ! i" using keptFlags_nth [of i ?region] i(1) len by simp
    then have "?region ! i \<in> set (pick (keptFlags tk conf (cx_Messages cx) ?region) ?region)"
      unfolding pick_in_set using i(1) len by (intro exI [of _ i]) simp
    then show "cx_Messages cx ! (head + i) \<in> set kept" unfolding f(3) nth .
  qed
qed

text \<open>
  C12. What a fold does. When there is something worth folding, compaction replaces the region
  between the pinned prefix and the recent tail by its kept messages, verbatim and in order,
  and one digest; prefix and tail are untouched. Kept and folded messages partition the region;
  display-only messages, earlier digests and small user turns are never folded, nor are the
  errors and marked messages the policy keeps since the last digest. The folded messages are
  archived first, and a fold happens even when the summarizer fails.
\<close>

theorem compaction_contract:
  assumes "foldPlan tk conf force cx = Some (head, start, kept, folded)"
    and "cc_archiveDir conf = [] \<or> path \<noteq> None"
  shows "(\<exists>summary cx'. compact tk conf sm path trigger instructions force cx = (cx', None)
      \<and> cx_Messages cx' = take head (cx_Messages cx) @ kept @ [digestMessage summary] @ drop start (cx_Messages cx)
      \<and> (cc_archiveDir conf \<noteq> [] \<longrightarrow> (the path, folded) \<in> set (cx_archives cx')))
    \<and> (head = pinnedPrefixLen tk conf (cx_Messages cx) \<and> head < start \<and> start \<le> length (cx_Messages cx))
    \<and> (subseq kept (take (start - head) (drop head (cx_Messages cx)))
      \<and> mset kept + mset folded = mset (take (start - head) (drop head (cx_Messages cx))))
    \<and> (\<forall>m \<in> set folded. \<not> msg_LocalOnly m \<and> \<not> isCompactionSummary m
          \<and> \<not> (msg_Role m = RoleUser \<and> pinnableUserTurn tk conf (cx_Messages cx) m))
    \<and> (\<forall>i < start - head. policyStart (take (start - head) (drop head (cx_Messages cx))) \<le> i
          \<and> shouldKeepMessage (cx_Messages cx ! (head + i)) (cc_keepPolicy conf) \<longrightarrow> cx_Messages cx ! (head + i) \<in> set kept)"
  by (rule conjI [OF compaction_facts(1) [OF assms]], rule conjI [OF compaction_facts(2) [OF assms]],
      rule conjI [OF compaction_facts(3) [OF assms]], rule conjI [OF compaction_facts(4,5) [OF assms]])

theorem compaction_contract_witness:
  "(\<exists>summary cx'. compact demo_tokens demo_conf demo_summarizer (Some ''f'') ''manual'' [] True demo_context = (cx', None)
      \<and> cx_Messages cx' = take 2 demo_history
          @ [plainMessage RoleUser ''hi'', demo_caller ''2'', demo_result ''2'' ''error: x'']
          @ [digestMessage summary] @ drop 7 demo_history)
   \<and> subseq [plainMessage RoleUser ''hi'', demo_caller ''2'', demo_result ''2'' ''error: x''] (take 5 (drop 2 demo_history))"
proof -
  have m: "cx_Messages demo_context = demo_history" by (simp add: demo_context_def)
  have io: "cc_archiveDir demo_conf = [] \<or> Some ''f'' \<noteq> None" by simp
  from compaction_contract [OF demo_plan io, of demo_summarizer "''manual''" "[]"]
  show ?thesis unfolding m by auto
qed



text \<open>
  C17. Shortening keeps the provenance: from a snipped result the number of bytes of the original
  and the archive file it went to can be read back, so pruning the snipped result later writes
  the very placeholder that pruning the original would have written, whatever the archive of
  the later pass. (Tool names have no spaces, and archive paths no semicolon.)
\<close>

theorem snip_provenance:
  assumes "plain_name (msg_Name m)" and "msg_Content m \<noteq> []" and "int (length (msg_Content m)) < 2 ^ 63"
    and "CHR '';'' \<notin> set archive" and "TrimSpace archive = archive" and "archive \<noteq> []" and "archive \<noteq> notArchived"
    and "\<not> HasPrefix (msg_Content m) snippedMarker"
  shows "originalToolBytes (snipToolResult m archive st) = int (length (msg_Content m))
    \<and> originalToolArchive (snipToolResult m archive st) = archive
    \<and> pruneToolResult (m\<lparr>msg_Content := snipToolResult m archive st\<rparr>) later = pruneToolResult m archive"
proof -
  obtain r where r: "snipToolResult m archive st = snipHeader m archive @ r" using snip_starts_with_header by blast
  have b: "originalToolBytes (snipToolResult m archive st) = int (length (msg_Content m))"
    unfolding r by (rule originalToolBytes_snipped [OF assms(1,2,3)])
  have a: "originalToolArchive (snipToolResult m archive st) = archive"
    unfolding r by (rule originalToolArchive_snipped [OF assms(1,4,5,7)])
  have o: "originalToolArchive (msg_Content m) = []" "originalToolBytes (msg_Content m) = int (length (msg_Content m))"
    using assms(8) by (simp_all add: originalToolArchive_def originalToolBytes_def)
  show ?thesis using a b o assms(6) by (simp add: pruneToolResult_def)
qed

theorem snip_provenance_witness:
  "originalToolArchive (snipToolResult (demo_result ''1'' ''some long output'') ''/tmp/f.jsonl'' defaultReadOnlySnip) = ''/tmp/f.jsonl''"
proof -
  have "TrimSpace ''/tmp/f.jsonl'' = ''/tmp/f.jsonl''" by code_simp
  moreover have "plain_name (msg_Name (demo_result ''1'' ''some long output''))" by code_simp
  moreover have "msg_Content (demo_result ''1'' ''some long output'') = ''some long output''"
    by (simp add: demo_result_def plainMessage_def)
  ultimately show ?thesis
    using snip_provenance [of "demo_result ''1'' ''some long output''" "''/tmp/f.jsonl''" defaultReadOnlySnip]
    by (simp add: notArchived_def snippedMarker_def)
qed

lemma rewritten_not_maintained:
  "\<not> shouldMaintainToolResult (m\<lparr>msg_Content := rewriteToolResult m mode archive st\<rparr>) mode"
proof (cases mode)
  case ToolResultSnip
  obtain r where "snipToolResult m archive st = snipHeader m archive @ r" using snip_starts_with_header by blast
  then have "HasPrefix (snipToolResult m archive st) snippedMarker" by (simp add: snipHeader_def)
  then show ?thesis using ToolResultSnip by (simp add: shouldMaintainToolResult_def rewriteToolResult_def)
next
  case ToolResultPrune
  then show ?thesis by (simp add: shouldMaintainToolResult_def rewriteToolResult_def pruneToolResult_def Let_def)
qed


definition demo_stale :: agent_context where
  "demo_stale = demo_context\<lparr>cx_session := (NewSession [])\<lparr>se_Messages :=
     [plainMessage RoleSystem ''s'', plainMessage RoleUser ''fix it'', demo_caller ''3'',
      demo_result ''3'' (snippedMarker @ ''x''), plainMessage RoleAssistant ''done'',
      plainMessage RoleUser ''go'', plainMessage RoleAssistant ''ok'']\<rparr>\<rparr>"




text \<open>
  The count is not of consecutive compactions: a turn between the snip ratio and the trigger does
  not reset it, so two compactions that such a turn separates pause the automatism as well.
\<close>

lemma separated_compactions_pause:
  "cx_compactStuck
     (maybeCompact demo_tokens demo_conf demo_summarizer None (Some ''g'') (Some 85)
       (maybeCompact demo_tokens demo_conf demo_summarizer None None (Some 65)
         (maybeCompact demo_tokens demo_conf demo_summarizer None (Some ''f'') (Some 85) demo_context)))"
  by code_simp

text \<open>
  Snipping does not always shorten: of 93 lines of 11 bytes, which are enough bytes for the pass to
  take the result, it drops one line and adds a header that is longer than that.
\<close>

definition short_lines :: Message where
  "short_lines = (plainMessage RoleTool (Join (replicate 93 ''eleven byte'') [nl]))\<lparr>msg_Name := ''read''\<rparr>"

lemma length_Join_replicate: "0 < n \<Longrightarrow> length (Join (replicate n l) [c]) = n * length l + (n - 1)"
proof (induction n rule: nat_induct_non_zero)
  case (Suc n)
  then show ?case by (cases n) auto
qed simp

lemma snip_can_lengthen:
  "shouldMaintainToolResult short_lines ToolResultSnip
   \<and> length (msg_Content short_lines) < length (snipToolResult short_lines ''/f.jsonl'' defaultReadOnlySnip)"
proof -
  have c: "msg_Content short_lines = Join (replicate 93 ''eleven byte'') [nl]"
    by (simp add: short_lines_def plainMessage_def)
  have l: "length (msg_Content short_lines) = 1115" unfolding c by (simp add: length_Join_replicate)
  have nlf: "nl \<notin> set ''eleven byte''" by (simp add: nl_def)
  have sp: "Split (msg_Content short_lines) nl = replicate 93 ''eleven byte''"
    unfolding c using nlf by (intro Split_Join) auto
  have "\<not> HasPrefix (msg_Content short_lines) snippedMarker" "\<not> HasPrefix (msg_Content short_lines) prunedMarker"
    unfolding c by (simp_all add: numeral_eq_Suc snippedMarker_def prunedMarker_def)
  then have "shouldMaintainToolResult short_lines ToolResultSnip"
    using l by (simp add: shouldMaintainToolResult_def minPruneBytes_def short_lines_def plainMessage_def)
  moreover have "1115 < length (snipToolResult short_lines ''/f.jsonl'' defaultReadOnlySnip)"
    by (simp add: snipToolResult_def sp defaultReadOnlySnip_def snipHeader_def length_Join_replicate
        snippedMarker_def markerDash_def bytesArchivedTo_def)
  ultimately show ?thesis using l by simp
qed
end
